(* ===== verification/Prelude.thy ===== *)
theory Prelude
  imports Main "HOL-Library.AList" "HOL-Library.Multiset" "HOL-Library.Char_ord"
    "HOL-Library.Product_Lexorder" "HOL-Library.List_Lexorder"
begin

text \<open>
  Shared vocabulary of the development: the JavaScript string primitives the sources use,
  the insertion-ordered \<open>Map\<close> as an association list, the stable \<open>Array.prototype.sort\<close>,
  and the locales that state what several components share (a step function with an
  invariant, a lawful comparator).

  Strings are lists of \<^typ>\<open>char\<close>: each \<^typ>\<open>char\<close> is one UTF-16 code unit below 256.
  On that alphabet \<open>trim\<close>, \<open>toLowerCase\<close>, \<open>slice\<close>, \<open>indexOf\<close> and \<open>length\<close> below are what
  ECMAScript computes. A component that needs code units above 255 (the schema comparison)
  works on lists of natural numbers instead.
\<close>

named_theorems js_simps "evaluation of the JavaScript string primitives"

section \<open>Strings\<close>

text \<open>The white space of \<open>trim\<close> and of the pattern \<open>\\s\<close>, below 256.\<close>

definition js_space :: "char \<Rightarrow> bool" where
  "js_space c \<longleftrightarrow> c \<in> {CHR 0x09, CHR 0x0A, CHR 0x0B, CHR 0x0C, CHR 0x0D, CHR 0x20, CHR 0xA0}"

definition js_trim_start :: "string \<Rightarrow> string" where
  "js_trim_start s = dropWhile js_space s"

definition js_trim :: "string \<Rightarrow> string" where
  "js_trim s = rev (dropWhile js_space (rev (dropWhile js_space s)))"

text \<open>\<open>toLowerCase\<close>: ASCII letters and the Latin-1 letters \<open>0xC0..0xDE\<close> except \<open>0xD7\<close>.\<close>

definition js_lower_char :: "char \<Rightarrow> char" where
  "js_lower_char c =
     (let n = (of_char c :: nat)
      in if (65 \<le> n \<and> n \<le> 90) \<or> (192 \<le> n \<and> n \<le> 222 \<and> n \<noteq> 215) then char_of (n + 32) else c)"

definition js_lower :: "string \<Rightarrow> string" where
  "js_lower s = map js_lower_char s"

definition is_digit :: "char \<Rightarrow> bool" where
  "is_digit c \<longleftrightarrow> (48::nat) \<le> of_char c \<and> of_char c \<le> (57::nat)"

definition is_lower :: "char \<Rightarrow> bool" where
  "is_lower c \<longleftrightarrow> (97::nat) \<le> of_char c \<and> of_char c \<le> (122::nat)"

definition is_upper :: "char \<Rightarrow> bool" where
  "is_upper c \<longleftrightarrow> (65::nat) \<le> of_char c \<and> of_char c \<le> (90::nat)"

definition is_alpha :: "char \<Rightarrow> bool" where
  "is_alpha c \<longleftrightarrow> is_lower c \<or> is_upper c"

definition is_alnum :: "char \<Rightarrow> bool" where
  "is_alnum c \<longleftrightarrow> is_alpha c \<or> is_digit c"

text \<open>The pattern class \<open>\\w\<close>.\<close>

definition is_word :: "char \<Rightarrow> bool" where
  "is_word c \<longleftrightarrow> is_alnum c \<or> c = CHR ''_''"

definition is_hex_lower :: "char \<Rightarrow> bool" where
  "is_hex_lower c \<longleftrightarrow> is_digit c \<or> ((97::nat) \<le> of_char c \<and> of_char c \<le> (102::nat))"

lemmas char_class_defs =
  is_digit_def is_lower_def is_upper_def is_alpha_def is_alnum_def is_word_def is_hex_lower_def

fun starts_with :: "string \<Rightarrow> string \<Rightarrow> bool" where
  "starts_with [] s = True"
| "starts_with (p # ps) [] = False"
| "starts_with (p # ps) (c # cs) = (p = c \<and> starts_with ps cs)"

text \<open>\<open>haystack.includes(needle)\<close>.\<close>

fun str_includes :: "string \<Rightarrow> string \<Rightarrow> bool" where
  "str_includes needle [] = (needle = [])"
| "str_includes needle (c # cs) = (starts_with needle (c # cs) \<or> str_includes needle cs)"

text \<open>\<open>haystack.indexOf(needle)\<close>, \<open>None\<close> for \<open>-1\<close>.\<close>

fun index_of :: "string \<Rightarrow> string \<Rightarrow> nat option" where
  "index_of needle [] = (if needle = [] then Some 0 else None)"
| "index_of needle (c # cs) =
     (if starts_with needle (c # cs) then Some 0 else map_option Suc (index_of needle cs))"

text \<open>\<open>haystack.indexOf(needle, from)\<close>.\<close>

definition index_of_from :: "string \<Rightarrow> string \<Rightarrow> nat \<Rightarrow> nat option" where
  "index_of_from needle s n = map_option (\<lambda>i. i + n) (index_of needle (drop n s))"

text \<open>\<open>s.slice(i, j)\<close> for \<open>0 \<le> i\<close>, \<open>0 \<le> j\<close>.\<close>

definition slice :: "nat \<Rightarrow> nat \<Rightarrow> 'a list \<Rightarrow> 'a list" where
  "slice i j s = drop i (take j s)"

text \<open>\<open>s[i]\<close>: \<open>None\<close> for \<open>undefined\<close>.\<close>

definition char_at :: "'a list \<Rightarrow> nat \<Rightarrow> 'a option" where
  "char_at s i = (if i < length s then Some (s ! i) else None)"

fun js_join :: "'a list \<Rightarrow> 'a list list \<Rightarrow> 'a list" where
  "js_join sep [] = []"
| "js_join sep [x] = x"
| "js_join sep (x # y # ys) = x @ sep @ js_join sep (y # ys)"

text \<open>\<open>s.replace(/c/g, r)\<close> for a single-character pattern.\<close>

definition replace_char :: "'a \<Rightarrow> 'a list \<Rightarrow> 'a list \<Rightarrow> 'a list" where
  "replace_char c r s = concat (map (\<lambda>x. if x = c then r else [x]) s)"

lemmas [js_simps] =
  js_space_def js_trim_def js_trim_start_def js_lower_def js_lower_char_def char_class_defs
  index_of_from_def slice_def char_at_def replace_char_def char_of_def bit_0

lemma starts_with_iff: "starts_with p s \<longleftrightarrow> (\<exists>t. s = p @ t)"
  by (induction p s rule: starts_with.induct) auto

lemma starts_with_length: "starts_with p s \<Longrightarrow> length p \<le> length s"
  by (auto simp: starts_with_iff)

lemma str_includes_iff: "str_includes p s \<longleftrightarrow> (\<exists>u v. s = u @ p @ v)"
proof (induction s)
  case Nil
  then show ?case by auto
next
  case (Cons c cs)
  have "(\<exists>u v. c # cs = u @ p @ v) \<longleftrightarrow> (\<exists>v. c # cs = p @ v) \<or> (\<exists>u v. cs = u @ p @ v)"
    by (metis append_Cons append_Nil append_eq_Cons_conv)
  then show ?case by (simp add: Cons.IH starts_with_iff)
qed

lemma str_includes_char: "str_includes [c] s \<longleftrightarrow> c \<in> set s"
  by (induction s) (auto simp: starts_with_iff)

lemma index_of_Some_bound: "index_of p s = Some i \<Longrightarrow> i + length p \<le> length s"
  by (induction s arbitrary: i) (auto split: if_splits dest: starts_with_length)

lemma index_of_Some_starts: "index_of p s = Some i \<Longrightarrow> starts_with p (drop i s)"
  by (induction s arbitrary: i) (auto split: if_splits)

lemma index_of_None_iff: "index_of p s = None \<longleftrightarrow> \<not> str_includes p s"
  by (induction s) auto

lemma index_of_from_bound: "index_of_from p s n = Some i \<Longrightarrow> n \<le> i \<and> (n \<le> length s \<longrightarrow> i + length p \<le> length s)"
  by (auto simp: index_of_from_def dest: index_of_Some_bound)

lemma length_slice [simp]: "length (slice i j s) = min j (length s) - i"
  by (simp add: slice_def)

lemma replace_char_simps [simp]:
  "replace_char c r [] = []"
  "replace_char c r (x # xs) = (if x = c then r else [x]) @ replace_char c r xs"
  by (simp_all add: replace_char_def)

lemma replace_char_append: "replace_char c r (xs @ ys) = replace_char c r xs @ replace_char c r ys"
  by (simp add: replace_char_def)

lemma replace_char_notin [simp]: "c \<notin> set s \<Longrightarrow> replace_char c r s = s"
  by (induction s) auto

lemma js_join_Cons: "js_join sep (x # xs) = (if xs = [] then x else x @ sep @ js_join sep xs)"
  by (cases xs) auto

text \<open>A trimmed string neither starts nor ends with white space.\<close>

lemma js_trim_nonspace:
  assumes ne: "js_trim s \<noteq> []"
  shows "\<not> js_space (hd (js_trim s))" and "\<not> js_space (last (js_trim s))"
proof -
  let ?t = "dropWhile js_space s" and ?r = "dropWhile js_space (rev (dropWhile js_space s))"
  have eq: "js_trim s = rev ?r" by (simp add: js_trim_def)
  from ne eq have rne: "?r \<noteq> []" by auto
  then show "\<not> js_space (last (js_trim s))"
    by (simp add: eq last_rev hd_dropWhile)
  have tne: "?t \<noteq> []" using rne by (cases "?t = []") (simp_all del: dropWhile_eq_Nil_conv)
  have "last ?r = last (rev ?t)"
    using rne by (metis last_appendR takeWhile_dropWhile_id)
  then have "hd (js_trim s) = hd ?t"
    using tne by (simp add: eq hd_rev last_rev)
  then show "\<not> js_space (hd (js_trim s))"
    using tne by (simp add: hd_dropWhile)
qed

lemma dropWhile_self: "xs = [] \<or> \<not> P (hd xs) \<Longrightarrow> dropWhile P xs = xs"
  by (cases xs) auto

lemma js_trim_fixed: "s = [] \<or> \<not> js_space (hd s) \<and> \<not> js_space (last s) \<Longrightarrow> js_trim s = s"
  by (auto simp: js_trim_def dropWhile_self hd_rev)

lemma js_trim_idem [simp]: "js_trim (js_trim s) = js_trim s"
  using js_trim_nonspace [of s] by (intro js_trim_fixed) blast

text \<open>
  The anchored patterns of the sources are sequences of character classes: \<open>matches ps s\<close>
  is \<open>/^\<dots>$/.test(s)\<close> for the sequence \<open>ps\<close>.
\<close>

definition matches :: "(char \<Rightarrow> bool) list \<Rightarrow> string \<Rightarrow> bool" where
  "matches ps s = list_all2 (\<lambda>p c. p c) ps s"

definition lit :: "string \<Rightarrow> (char \<Rightarrow> bool) list" where
  "lit s = map (\<lambda>c d. d = c) s"

lemma matches_length: "matches ps s \<Longrightarrow> length s = length ps"
  by (simp add: matches_def list_all2_lengthD)

lemma matches_char:
  assumes "matches ps s" and "c \<in> set s"
  shows "\<exists>p\<in>set ps. p c"
  using assms unfolding matches_def
  by (metis in_set_conv_nth list_all2_conv_all_nth)

lemma matches_append: "matches ps s \<Longrightarrow> matches qs t \<Longrightarrow> matches (ps @ qs) (s @ t)"
  by (simp add: matches_def list_all2_appendI)

lemma matches_lit: "matches (lit s) t \<longleftrightarrow> t = s"
  by (auto simp: matches_def lit_def list_all2_conv_all_nth intro: nth_equalityI)

lemma matches_replicate: "matches (replicate n p) s \<longleftrightarrow> length s = n \<and> (\<forall>c\<in>set s. p c)"
  by (auto simp: matches_def list_all2_conv_all_nth all_set_conv_all_nth)

text \<open>The version 1..8 UUID pattern, case-insensitive, that every module tests identifiers with.\<close>

definition is_hex :: "char \<Rightarrow> bool" where
  "is_hex c = is_hex_lower (js_lower_char c)"

definition uuid :: "string \<Rightarrow> bool" where
  "uuid s = matches
     (replicate 8 is_hex @ lit ''-'' @ replicate 4 is_hex @ lit ''-''
       @ [\<lambda>c. c \<in> set ''12345678''] @ replicate 3 is_hex @ lit ''-''
       @ [\<lambda>c. c \<in> set ''89abAB''] @ replicate 3 is_hex @ lit ''-'' @ replicate 12 is_hex) s"

definition hex64 :: "string \<Rightarrow> bool" where
  "hex64 s = matches (replicate 64 is_hex_lower) s"

section \<open>Decimal numerals\<close>

text \<open>\<open>String(n)\<close> for a natural number.\<close>

fun nat_str :: "nat \<Rightarrow> string" where
  "nat_str n = (if n < 10 then [char_of (48 + n)] else nat_str (n div 10) @ [char_of (48 + n mod 10)])"

declare nat_str.simps [simp del]

definition nat_val :: "string \<Rightarrow> nat" where
  "nat_val s = foldl (\<lambda>a c. a * 10 + (of_char c - 48)) 0 s"

lemma nat_val_nat_str [simp]: "nat_val (nat_str n) = n"
proof (induction n rule: nat_str.induct)
  case (1 n)
  show ?case
  proof (cases "n < 10")
    case True
    then show ?thesis by (subst nat_str.simps) (simp add: nat_val_def)
  next
    case False
    then have "nat_val (nat_str n) = nat_val (nat_str (n div 10)) * 10 + n mod 10"
      by (subst nat_str.simps) (simp add: nat_val_def)
    with 1 False show ?thesis by simp
  qed
qed

lemma nat_str_inject [simp]: "nat_str m = nat_str n \<longleftrightarrow> m = n"
  by (metis nat_val_nat_str)

lemma nat_str_digits: "c \<in> set (nat_str n) \<Longrightarrow> is_digit c"
proof (induction n rule: nat_str.induct)
  case (1 n)
  then show ?case
    by (subst (asm) (2) nat_str.simps) (auto simp: is_digit_def split: if_splits)
qed

lemma nat_str_nonempty [simp]: "nat_str n \<noteq> []"
  by (subst nat_str.simps) simp

section \<open>Lists and sets\<close>

text \<open>
  Rows of a SQL join: \<open>JOIN\<close> keeps the matching pairs, \<open>LEFT JOIN\<close> keeps a left row
  with \<open>NULL\<close> when nothing matches. \<open>sql_eq\<close> is equality of nullable columns, which is
  not true when either side is \<open>NULL\<close>.
\<close>

definition left_join :: "('b \<Rightarrow> bool) \<Rightarrow> 'b list \<Rightarrow> 'b option list" where
  "left_join on rows = (case filter on rows of [] \<Rightarrow> [None] | xs \<Rightarrow> map Some xs)"

definition sql_eq :: "'a option \<Rightarrow> 'a option \<Rightarrow> bool" where
  "sql_eq a b = (case (a, b) of (Some x, Some y) \<Rightarrow> x = y | _ \<Rightarrow> False)"

definition first_row :: "'a list \<Rightarrow> 'a option" where
  "first_row rows = (case rows of [] \<Rightarrow> None | r # _ \<Rightarrow> Some r)"

lemma first_row_Some: "first_row rows = Some r \<Longrightarrow> r \<in> set rows"
  by (auto simp: first_row_def split: list.splits)

lemma first_row_None: "first_row rows = None \<longleftrightarrow> rows = []"
  by (auto simp: first_row_def split: list.splits)

lemma left_join_Some: "Some r \<in> set (left_join on rows) \<Longrightarrow> on r \<and> r \<in> set rows"
proof (cases "filter on rows")
  case (Cons x xs)
  moreover assume "Some r \<in> set (left_join on rows)"
  ultimately have "r \<in> set (filter on rows)"
    by (auto simp: left_join_def simp del: filter_eq_Cons_iff set_filter)
  then show ?thesis by simp
qed (simp add: left_join_def)

text \<open>\<open>[...new Set(xs)]\<close> and every filter with a \<open>seen\<close> set: first occurrences, in order.\<close>

fun dedup_seen :: "'a list \<Rightarrow> 'a list \<Rightarrow> 'a list" where
  "dedup_seen seen [] = []"
| "dedup_seen seen (x # xs) =
     (if x \<in> set seen then dedup_seen seen xs else x # dedup_seen (x # seen) xs)"

lemma set_dedup_seen: "set (dedup_seen seen xs) = set xs - set seen"
  by (induction xs arbitrary: seen) auto

lemma distinct_dedup_seen: "distinct (dedup_seen seen xs)"
  by (induction xs arbitrary: seen) (auto simp: set_dedup_seen)

lemma Some_or_None [simp]: "(\<exists>y. x = Some y) \<or> x = None"
  by (cases x) simp_all

lemma find_None_iff': "find P xs = None \<longleftrightarrow> (\<forall>x\<in>set xs. \<not> P x)"
  by (auto simp: find_None_iff)

lemma find_SomeD: "find P xs = Some x \<Longrightarrow> P x \<and> x \<in> set xs"
  by (induction xs) (auto split: if_splits)

text \<open>\<open>xs.findIndex(p)\<close>, \<open>None\<close> for \<open>-1\<close>.\<close>

fun find_index :: "('a \<Rightarrow> bool) \<Rightarrow> 'a list \<Rightarrow> nat option" where
  "find_index p [] = None"
| "find_index p (x # xs) = (if p x then Some 0 else map_option Suc (find_index p xs))"

lemma find_index_Some: "find_index p xs = Some i \<Longrightarrow> i < length xs \<and> p (xs ! i)"
  by (induction xs arbitrary: i) (auto split: if_splits)

lemma find_index_None: "find_index p xs = None \<longleftrightarrow> (\<forall>x\<in>set xs. \<not> p x)"
  by (induction xs) auto

section \<open>Insertion-ordered maps\<close>

text \<open>
  A JavaScript \<open>Map\<close> is an association list in insertion order: \<open>set\<close> overwrites in place or
  appends (\<^const>\<open>AList.update\<close>), \<open>delete\<close> removes the key (\<^const>\<open>AList.delete\<close>), \<open>get\<close> is
  \<^const>\<open>map_of\<close>. Deleting and setting again moves a key to the end, which is how the
  sources keep least-recently-used order.
\<close>

abbreviation js_set :: "'k \<Rightarrow> 'v \<Rightarrow> ('k \<times> 'v) list \<Rightarrow> ('k \<times> 'v) list" where
  "js_set \<equiv> AList.update"

abbreviation js_delete :: "'k \<Rightarrow> ('k \<times> 'v) list \<Rightarrow> ('k \<times> 'v) list" where
  "js_delete \<equiv> AList.delete"

abbreviation js_keys :: "('k \<times> 'v) list \<Rightarrow> 'k list" where
  "js_keys m \<equiv> map fst m"

definition js_touch :: "'k \<Rightarrow> 'v \<Rightarrow> ('k \<times> 'v) list \<Rightarrow> ('k \<times> 'v) list" where
  "js_touch k v m = js_set k v (js_delete k m)"

lemma update_append_new: "k \<notin> fst ` set m \<Longrightarrow> js_set k v m = m @ [(k, v)]"
  by (induction m) auto

lemma keys_js_delete: "fst ` set (js_delete k m) = fst ` set m - {k}"
  by (induction m) auto

lemma js_touch_eq: "js_touch k v m = js_delete k m @ [(k, v)]"
  by (simp add: js_touch_def update_append_new keys_js_delete)

lemma map_of_js_touch [simp]: "map_of (js_touch k v m) = (map_of m)(k \<mapsto> v)"
  by (simp add: js_touch_def update_conv' delete_conv' fun_upd_idem_iff)

lemma distinct_js_touch: "distinct (js_keys m) \<Longrightarrow> distinct (js_keys (js_touch k v m))"
  by (simp add: js_touch_def distinct_update distinct_delete)

section \<open>JSON values\<close>

text \<open>What \<open>JSON.parse\<close> returns. \<open>json_get v k\<close> reads the property \<open>v.k\<close>, \<open>None\<close> for \<open>undefined\<close>.\<close>

datatype json = JNull | JBool bool | JNum int | JStr string | JArr "json list" | JObj "(string \<times> json) list"

fun json_get :: "json \<Rightarrow> string \<Rightarrow> json option" where
  "json_get (JObj fs) k = map_of fs k"
| "json_get _ k = None"

fun json_str :: "json \<Rightarrow> string option" where
  "json_str (JStr s) = Some s"
| "json_str _ = None"

section \<open>Stable sorting\<close>

text \<open>
  \<open>xs.sort(cmp)\<close> is stable in ECMAScript. Insertion of each element after the
  elements it does not strictly precede computes the same list for every lawful comparator.
\<close>

fun insert_cmp :: "('a \<Rightarrow> 'a \<Rightarrow> int) \<Rightarrow> 'a \<Rightarrow> 'a list \<Rightarrow> 'a list" where
  "insert_cmp cmp x [] = [x]"
| "insert_cmp cmp x (y # ys) = (if cmp x y \<le> 0 then x # y # ys else y # insert_cmp cmp x ys)"

fun js_sort :: "('a \<Rightarrow> 'a \<Rightarrow> int) \<Rightarrow> 'a list \<Rightarrow> 'a list" where
  "js_sort cmp [] = []"
| "js_sort cmp (x # xs) = insert_cmp cmp x (js_sort cmp xs)"

lemma mset_insert_cmp: "mset (insert_cmp cmp x ys) = add_mset x (mset ys)"
  by (induction ys) auto

lemma mset_js_sort [simp]: "mset (js_sort cmp xs) = mset xs"
  by (induction xs) (auto simp: mset_insert_cmp)

lemma set_js_sort [simp]: "set (js_sort cmp xs) = set xs"
  using mset_js_sort by (rule mset_eq_setD)

lemma length_js_sort [simp]: "length (js_sort cmp xs) = length xs"
  using mset_js_sort by (rule mset_eq_length)

text \<open>The laws ECMAScript asks of a comparator, and what sorting with one gives.\<close>

locale js_comparator =
  fixes cmp :: "'a \<Rightarrow> 'a \<Rightarrow> int"
  assumes total: "cmp x y \<le> 0 \<or> cmp y x \<le> 0"
    and trans: "cmp x y \<le> 0 \<Longrightarrow> cmp y z \<le> 0 \<Longrightarrow> cmp x z \<le> 0"
begin

lemma sorted_insert: "sorted_wrt (\<lambda>a b. cmp a b \<le> 0) ys \<Longrightarrow> sorted_wrt (\<lambda>a b. cmp a b \<le> 0) (insert_cmp cmp x ys)"
proof (induction ys)
  case Nil
  then show ?case by simp
next
  case (Cons y ys)
  have "set (insert_cmp cmp x ys) = insert x (set ys)"
    using mset_insert_cmp [of cmp x ys] by (metis set_mset_add_mset_insert set_mset_mset)
  with Cons show ?case
    using total [of x y] trans by auto
qed

lemma sorted_sort: "sorted_wrt (\<lambda>a b. cmp a b \<le> 0) (js_sort cmp xs)"
  by (induction xs) (auto intro: sorted_insert)

lemma sort_already_sorted: "sorted_wrt (\<lambda>a b. cmp a b \<le> 0) xs \<Longrightarrow> js_sort cmp xs = xs"
proof (induction xs)
  case (Cons x xs)
  then show ?case by (cases xs) auto
qed simp

lemma sort_idem: "js_sort cmp (js_sort cmp xs) = js_sort cmp xs"
  by (rule sort_already_sorted) (rule sorted_sort)

end

text \<open>
  \<open>ORDER BY k1, k2, \<dots>\<close> and comparators of the form \<open>a.k1 - b.k1 || a.k2 - b.k2\<close> compare a key
  lexicographically.
\<close>

definition cmp_key :: "('a \<Rightarrow> 'k::linorder) \<Rightarrow> 'a \<Rightarrow> 'a \<Rightarrow> int" where
  "cmp_key key x y = (if key x < key y then - 1 else if key y < key x then 1 else 0)"

lemma cmp_key_le [simp]: "cmp_key key x y \<le> 0 \<longleftrightarrow> key x \<le> key y"
  by (auto simp: cmp_key_def)

interpretation by_key: js_comparator "cmp_key key" for key :: "'a \<Rightarrow> 'k::linorder"
  by unfold_locales auto

section \<open>Step functions with an invariant\<close>

text \<open>
  Every stateful component is a step function over its commands. What each command keeps,
  every sequence of commands keeps.
\<close>

locale invariant_machine =
  fixes step :: "'s \<Rightarrow> 'e \<Rightarrow> 's" and inv :: "'s \<Rightarrow> bool"
  assumes step_inv: "inv s \<Longrightarrow> inv (step s e)"
begin

lemma run_inv: "inv s \<Longrightarrow> inv (foldl step s es)"
  by (induction es arbitrary: s) (auto intro: step_inv)

end

end
