(* ===== verification/Permissions.thy ===== *)
theory Permissions
  imports Prelude
begin

text \<open>
  Workspace roles, per-connection capabilities and the effective access rule
  (\<open>workspace-cloud/lib/workspace-permissions.ts\<close>), and the authorization queries built on
  them (\<open>workspace-cloud/lib/workspace-authorization.ts\<close>). The database is a record of row
  lists; a query is the comprehension its joins and \<open>WHERE\<close> clause describe, \<open>LIMIT 1\<close> is the
  first row. The session comes from \<open>authoritativeSession\<close>, an argument here.
\<close>

section \<open>Roles and capabilities\<close>

datatype workspace_role = Viewer | Analyst | Editor | Admin | Owner

datatype workspace_capability = CapView | CapRead | CapWrite | CapManage | CapDelete

datatype connection_capability = GrantView | GrantRead | GrantUse | GrantManage

datatype access_mode = ModeView | ModeRead | ModeWrite | ModeManage

fun connection_capability_rank :: "connection_capability \<Rightarrow> nat" where
  "connection_capability_rank GrantView = 0"
| "connection_capability_rank GrantRead = 1"
| "connection_capability_rank GrantUse = 2"
| "connection_capability_rank GrantManage = 3"

fun role_rank :: "workspace_role \<Rightarrow> nat" where
  "role_rank Viewer = 0"
| "role_rank Analyst = 1"
| "role_rank Editor = 2"
| "role_rank Admin = 3"
| "role_rank Owner = 4"

fun required_rank :: "workspace_capability \<Rightarrow> nat" where
  "required_rank CapView = role_rank Viewer"
| "required_rank CapRead = role_rank Analyst"
| "required_rank CapWrite = role_rank Editor"
| "required_rank CapManage = role_rank Admin"
| "required_rank CapDelete = role_rank Owner"

text \<open>
  Roles and capabilities arrive as database text. The type guards \<open>isWorkspaceRole\<close> and
  \<open>isWorkspaceConnectionCapability\<close> are partial readers: \<open>None\<close> where the guard is false.
\<close>

fun role_name :: "workspace_role \<Rightarrow> string" where
  "role_name Viewer = ''viewer''"
| "role_name Analyst = ''analyst''"
| "role_name Editor = ''editor''"
| "role_name Admin = ''admin''"
| "role_name Owner = ''owner''"

definition workspace_role_names :: "workspace_role list" where
  "workspace_role_names = [Viewer, Analyst, Editor, Admin, Owner]"

definition is_workspace_role :: "string \<Rightarrow> workspace_role option" where
  "is_workspace_role value = find (\<lambda>r. role_name r = value) workspace_role_names"

fun connection_capability_name :: "connection_capability \<Rightarrow> string" where
  "connection_capability_name GrantView = ''view''"
| "connection_capability_name GrantRead = ''read''"
| "connection_capability_name GrantUse = ''use''"
| "connection_capability_name GrantManage = ''manage''"

definition is_connection_capability :: "string \<Rightarrow> connection_capability option" where
  "is_connection_capability value =
     (if value = ''view'' then Some GrantView
      else if value = ''read'' then Some GrantRead
      else if value = ''use'' then Some GrantUse
      else if value = ''manage'' then Some GrantManage
      else None)"

definition has_connection_capability :: "connection_capability \<Rightarrow> connection_capability \<Rightarrow> bool" where
  "has_connection_capability actual required \<longleftrightarrow>
     connection_capability_rank required \<le> connection_capability_rank actual"

definition has_workspace_capability :: "workspace_role \<Rightarrow> workspace_capability \<Rightarrow> bool" where
  "has_workspace_capability role capability \<longleftrightarrow> required_rank capability \<le> role_rank role"

definition access_mode_for_role :: "workspace_role \<Rightarrow> access_mode" where
  "access_mode_for_role role =
     (if has_workspace_capability role CapManage then ModeManage
      else if has_workspace_capability role CapWrite then ModeWrite
      else if has_workspace_capability role CapRead then ModeRead
      else ModeView)"

definition access_mode_for_connection_grant ::
  "workspace_role \<Rightarrow> connection_capability \<Rightarrow> access_mode" where
  "access_mode_for_connection_grant role capability =
     (if capability = GrantManage \<and> has_workspace_capability role CapManage then ModeManage
      else if (capability = GrantUse \<or> capability = GrantManage)
        \<and> has_workspace_capability role CapWrite then ModeWrite
      else if capability = GrantRead \<or> capability = GrantUse \<or> capability = GrantManage then ModeRead
      else ModeView)"

definition access_mode_allows_write :: "access_mode \<Rightarrow> bool" where
  "access_mode_allows_write mode \<longleftrightarrow> mode = ModeWrite \<or> mode = ModeManage"

lemmas permission_defs =
  has_connection_capability_def has_workspace_capability_def access_mode_for_role_def
  access_mode_for_connection_grant_def access_mode_allows_write_def

text \<open>The linear order of roles and capabilities is that of their ranks.\<close>

instantiation workspace_role :: linorder
begin

definition less_eq_workspace_role :: "workspace_role \<Rightarrow> workspace_role \<Rightarrow> bool" where
  "less_eq_workspace_role a b \<longleftrightarrow> role_rank a \<le> role_rank b"

definition less_workspace_role :: "workspace_role \<Rightarrow> workspace_role \<Rightarrow> bool" where
  "less_workspace_role a b \<longleftrightarrow> role_rank a < role_rank b"

instance
proof
  fix x y z :: workspace_role
  show "(x < y) = (x \<le> y \<and> \<not> y \<le> x)"
    by (auto simp: less_eq_workspace_role_def less_workspace_role_def)
  show "x \<le> x" by (simp add: less_eq_workspace_role_def)
  show "x \<le> y \<Longrightarrow> y \<le> z \<Longrightarrow> x \<le> z" by (simp add: less_eq_workspace_role_def)
  show "x \<le> y \<Longrightarrow> y \<le> x \<Longrightarrow> x = y"
    by (cases x; cases y) (simp_all add: less_eq_workspace_role_def)
  show "x \<le> y \<or> y \<le> x" by (auto simp: less_eq_workspace_role_def)
qed

end

instantiation connection_capability :: linorder
begin

definition less_eq_connection_capability :: "connection_capability \<Rightarrow> connection_capability \<Rightarrow> bool" where
  "less_eq_connection_capability a b \<longleftrightarrow> connection_capability_rank a \<le> connection_capability_rank b"

definition less_connection_capability :: "connection_capability \<Rightarrow> connection_capability \<Rightarrow> bool" where
  "less_connection_capability a b \<longleftrightarrow> connection_capability_rank a < connection_capability_rank b"

instance
proof
  fix x y z :: connection_capability
  show "(x < y) = (x \<le> y \<and> \<not> y \<le> x)"
    by (auto simp: less_eq_connection_capability_def less_connection_capability_def)
  show "x \<le> x" by (simp add: less_eq_connection_capability_def)
  show "x \<le> y \<Longrightarrow> y \<le> z \<Longrightarrow> x \<le> z" by (simp add: less_eq_connection_capability_def)
  show "x \<le> y \<Longrightarrow> y \<le> x \<Longrightarrow> x = y"
    by (cases x; cases y) (simp_all add: less_eq_connection_capability_def)
  show "x \<le> y \<or> y \<le> x" by (auto simp: less_eq_connection_capability_def)
qed

end

text \<open>Rank of an effective access mode, the abstract quantity the grant rule computes.\<close>

fun mode_rank :: "access_mode \<Rightarrow> nat" where
  "mode_rank ModeView = 0"
| "mode_rank ModeRead = 1"
| "mode_rank ModeWrite = 2"
| "mode_rank ModeManage = 3"

lemma mode_rank_inj: "mode_rank a = mode_rank b \<longleftrightarrow> a = b"
  by (cases a; cases b) simp_all

lemma is_workspace_role_Some: "is_workspace_role s = Some r \<longleftrightarrow> s = role_name r"
  by (cases r) (auto simp: is_workspace_role_def workspace_role_names_def)

lemma is_connection_capability_Some: "is_connection_capability s = Some c \<longleftrightarrow> s = connection_capability_name c"
  by (cases c) (auto simp: is_connection_capability_def)

lemma grant_rank:
  "mode_rank (access_mode_for_connection_grant role capability)
     = min (connection_capability_rank capability) (max 1 (min 3 (role_rank role)))"
  by (cases role; cases capability) (simp_all add: permission_defs)

lemma grant_mono:
  "r \<le> r' \<Longrightarrow> c \<le> c' \<Longrightarrow>
     mode_rank (access_mode_for_connection_grant r c) \<le> mode_rank (access_mode_for_connection_grant r' c')"
  unfolding grant_rank less_eq_workspace_role_def less_eq_connection_capability_def
  by (auto simp: min_def max_def)

lemma grant_write_iff:
  "access_mode_allows_write (access_mode_for_connection_grant r c) \<longleftrightarrow> Editor \<le> r \<and> GrantUse \<le> c"
  by (cases r; cases c)
     (simp_all add: permission_defs less_eq_workspace_role_def less_eq_connection_capability_def)

text \<open>
The effective access rule of a shared connection
(\<open>accessModeForConnectionGrant\<close>) is exactly the meet of the grant and the role: a \<open>view\<close> grant
only views, otherwise the mode is the lower of the grant and the role's level, where every role
may at least read what it was granted. So neither a role nor a grant alone widens access, the
rule is monotone in both, and write authority needs an editor role and a \<open>use\<close> grant.
\<close>

theorem effective_access_is_meet:
  "mode_rank (access_mode_for_connection_grant role capability)
     = min (connection_capability_rank capability) (max 1 (min 3 (role_rank role)))
   \<and> (\<forall>role' capability'. role \<le> role' \<and> capability \<le> capability' \<longrightarrow>
        mode_rank (access_mode_for_connection_grant role capability)
          \<le> mode_rank (access_mode_for_connection_grant role' capability'))
   \<and> (access_mode_allows_write (access_mode_for_connection_grant role capability)
        \<longleftrightarrow> Editor \<le> role \<and> GrantUse \<le> capability)"
  by (intro conjI allI impI grant_rank grant_write_iff) (simp add: grant_mono)

theorem effective_access_is_meet_witness:
  "access_mode_for_connection_grant Viewer GrantManage = ModeRead
   \<and> mode_rank (access_mode_for_connection_grant Viewer GrantRead)
       \<le> mode_rank (access_mode_for_connection_grant Admin GrantManage)"
proof
  show "access_mode_for_connection_grant Viewer GrantManage = ModeRead"
    by (simp add: permission_defs)
  have "Viewer \<le> Admin \<and> GrantRead \<le> GrantManage"
    by (simp add: less_eq_workspace_role_def less_eq_connection_capability_def)
  then show "mode_rank (access_mode_for_connection_grant Viewer GrantRead)
       \<le> mode_rank (access_mode_for_connection_grant Admin GrantManage)"
    using effective_access_is_meet [of Viewer GrantRead] by blast
qed

end
