(* ===== verification/Authorization.thy ===== *)
theory Authorization
  imports Permissions
begin

text \<open>
  The authorization queries of \<open>workspace-cloud/lib/workspace-authorization.ts\<close>: a workspace
  request, the owner-only lifecycle request, a connection template, and the Broker preflight of
  one database action. Timestamps are epoch milliseconds; \<open>None\<close> is \<open>NULL\<close>.
\<close>

section \<open>Rows\<close>

record session_row =
  session_id :: string
  session_user :: string

record member_row =
  m_id :: string
  m_org :: string
  m_user :: string
  m_role :: string
  m_pending_at :: "int option"
  m_claim_id :: "string option"

record profile_row =
  p_org :: string
  p_lifecycle :: string
  p_deletion_requested_at :: "int option"

record grant_row =
  g_org :: string
  g_connection :: string
  g_member :: string
  g_capability :: string

record connection_row =
  c_id :: string
  c_org :: string
  c_revision :: int
  c_content_revision :: int
  c_engine :: string
  c_database :: string
  c_readonly_default :: bool
  c_allow_writes :: bool
  c_credential_mode :: string
  c_provider :: "string option"
  c_integration_id :: "string option"
  c_resource_id :: "string option"
  c_provisioning_mode :: "string option"
  c_pending_at :: "int option"
  c_deleted_at :: "int option"

record integration_row =
  i_id :: string
  i_org :: string
  i_status :: string
  i_provider :: string
  i_granted_scope :: "string option"
  i_revoked_at :: "int option"
  i_pending_at :: "int option"
  i_claim_id :: "string option"

record resource_row =
  r_id :: string
  r_org :: string
  r_provider :: string
  r_manifest :: string

record endpoint_row =
  e_org :: string
  e_connection :: string
  e_write_ceiling :: bool

record authority_db =
  members :: "member_row list"
  profiles :: "profile_row list"
  grants :: "grant_row list"
  connections :: "connection_row list"
  integrations :: "integration_row list"
  resources :: "resource_row list"
  endpoints :: "endpoint_row list"

section \<open>Outcomes\<close>

text \<open>A denial carries the HTTP status and the message; a success what the caller uses.\<close>

record denial =
  status :: nat
  message :: string

definition deny :: "nat \<Rightarrow> string \<Rightarrow> denial + 'a" where
  "deny st msg = Inl \<lparr>status = st, message = msg\<rparr>"

record workspace_grant =
  wg_session :: session_row
  wg_member :: member_row
  wg_role :: workspace_role
  wg_mode :: access_mode

record lifecycle_grant =
  lg_session :: session_row
  lg_member :: member_row
  lg_state :: string

record connection_grant =
  cg_workspace :: workspace_grant
  cg_capability :: connection_capability
  cg_mode :: access_mode

record action_connection =
  ac_connection :: connection_row
  ac_integration :: "integration_row option"
  ac_manifest :: "string option"
  ac_write_ceiling :: "bool option"

record action_grant =
  ag_session :: session_row
  ag_member :: member_row
  ag_role :: workspace_role
  ag_capability :: connection_capability
  ag_mode :: access_mode
  ag_connection :: action_connection

section \<open>Queries\<close>

definition workspace_rows :: "authority_db \<Rightarrow> string \<Rightarrow> session_row \<Rightarrow> (member_row \<times> profile_row) list" where
  "workspace_rows db org s =
     [(m, p). m \<leftarrow> members db, p \<leftarrow> profiles db, p_org p = m_org m,
        m_org m = org \<and> m_user m = session_user s \<and> m_pending_at m = None]"

definition authorize_workspace ::
  "authority_db \<Rightarrow> session_row option \<Rightarrow> string \<Rightarrow> workspace_capability \<Rightarrow> denial + workspace_grant" where
  "authorize_workspace db session org capability =
     (case session of
        None \<Rightarrow> deny 401 ''Unauthorized''
      | Some s \<Rightarrow>
          (case first_row (workspace_rows db org s) of
             None \<Rightarrow> deny 403 ''Workspace access denied''
           | Some (m, p) \<Rightarrow>
               (if m_pending_at m \<noteq> None then deny 403 ''Workspace access denied''
                else case is_workspace_role (m_role m) of
                    None \<Rightarrow> deny 403 ''Workspace access denied''
                  | Some role \<Rightarrow>
                      if p_lifecycle p \<noteq> ''active'' then deny 403 ''Workspace access denied''
                      else if \<not> has_workspace_capability role capability
                      then deny 403 ''Insufficient workspace permission''
                      else Inr \<lparr>wg_session = s, wg_member = m, wg_role = role,
                                wg_mode = access_mode_for_role role\<rparr>)))"

definition lifecycle_rows :: "authority_db \<Rightarrow> string \<Rightarrow> session_row \<Rightarrow> (member_row \<times> profile_row) list" where
  "lifecycle_rows db org s =
     [(m, p). m \<leftarrow> members db, p \<leftarrow> profiles db, p_org p = m_org m,
        m_org m = org \<and> m_user m = session_user s \<and> m_role m = ''owner'' \<and> m_claim_id m = None
        \<and> (p_lifecycle p = ''active'' \<and> m_pending_at m = None
           \<or> p_lifecycle p = ''deletion_pending''
             \<and> sql_eq (m_pending_at m) (p_deletion_requested_at p))]"

definition authorize_workspace_lifecycle ::
  "authority_db \<Rightarrow> session_row option \<Rightarrow> string \<Rightarrow> denial + lifecycle_grant" where
  "authorize_workspace_lifecycle db session org =
     (case session of
        None \<Rightarrow> deny 401 ''Unauthorized''
      | Some s \<Rightarrow>
          (case first_row (lifecycle_rows db org s) of
             None \<Rightarrow> deny 403 ''Workspace owner access is required''
           | Some (m, p) \<Rightarrow> Inr \<lparr>lg_session = s, lg_member = m, lg_state = p_lifecycle p\<rparr>))"

definition grant_rows :: "authority_db \<Rightarrow> string \<Rightarrow> string \<Rightarrow> string \<Rightarrow> string list" where
  "grant_rows db org conn member_id =
     [g_capability g. g \<leftarrow> grants db, c \<leftarrow> connections db,
        c_org c = g_org g \<and> c_id c = g_connection g,
        g_org g = org \<and> g_connection g = conn \<and> g_member g = member_id
        \<and> c_deleted_at c = None \<and> c_pending_at c = None]"

definition authorize_workspace_connection ::
  "authority_db \<Rightarrow> session_row option \<Rightarrow> string \<Rightarrow> string \<Rightarrow> connection_capability \<Rightarrow> denial + connection_grant" where
  "authorize_workspace_connection db session org conn required =
     (case authorize_workspace db session org CapView of
        Inl d \<Rightarrow> Inl d
      | Inr w \<Rightarrow>
          (case first_row (grant_rows db org conn (m_id (wg_member w))) of
             None \<Rightarrow> deny 403 ''Connection grant denied''
           | Some text \<Rightarrow>
               (case is_connection_capability text of
                  None \<Rightarrow> deny 403 ''Connection grant denied''
                | Some capability \<Rightarrow>
                    if \<not> has_connection_capability capability required
                    then deny 403 ''Connection grant denied''
                    else Inr \<lparr>cg_workspace = w, cg_capability = capability,
                              cg_mode = access_mode_for_connection_grant (wg_role w) capability\<rparr>)))"

text \<open>The Broker preflight resolves everything in one tenant-scoped query.\<close>

definition action_rows ::
  "authority_db \<Rightarrow> string \<Rightarrow> string \<Rightarrow> session_row \<Rightarrow>
     (member_row \<times> profile_row \<times> grant_row \<times> action_connection) list" where
  "action_rows db org conn s =
     [(m, p, g, \<lparr>ac_connection = c, ac_integration = i, ac_manifest = map_option r_manifest r,
                 ac_write_ceiling = map_option e_write_ceiling e\<rparr>).
        m \<leftarrow> members db,
        p \<leftarrow> profiles db, p_org p = m_org m,
        g \<leftarrow> grants db, g_org g = m_org m \<and> g_member g = m_id m \<and> g_connection g = conn,
        c \<leftarrow> connections db, c_org c = g_org g \<and> c_id c = g_connection g \<and> c_deleted_at c = None,
        i \<leftarrow> left_join (\<lambda>i. i_org i = c_org c \<and> sql_eq (Some (i_id i)) (c_integration_id c)) (integrations db),
        r \<leftarrow> left_join (\<lambda>r. r_org r = c_org c \<and> sql_eq (Some (r_id r)) (c_resource_id c)
               \<and> sql_eq (Some (r_provider r)) (c_provider c)) (resources db),
        e \<leftarrow> left_join (\<lambda>e. e_org e = c_org c \<and> e_connection e = c_id c) (endpoints db),
        m_org m = org \<and> m_user m = session_user s \<and> m_pending_at m = None \<and> c_id c = conn]"

definition authorize_workspace_connection_action ::
  "authority_db \<Rightarrow> session_row option \<Rightarrow> string \<Rightarrow> string \<Rightarrow> connection_capability \<Rightarrow> denial + action_grant" where
  "authorize_workspace_connection_action db session org conn required =
     (case session of
        None \<Rightarrow> deny 401 ''Unauthorized''
      | Some s \<Rightarrow>
          (case first_row (action_rows db org conn s) of
             None \<Rightarrow> deny 403 ''Workspace access denied''
           | Some (m, p, g, ac) \<Rightarrow>
               (if p_lifecycle p \<noteq> ''active'' then deny 403 ''Workspace access denied''
                else case is_workspace_role (m_role m) of
                    None \<Rightarrow> deny 403 ''Workspace access denied''
                  | Some role \<Rightarrow>
                      if \<not> has_workspace_capability role CapView
                      then deny 403 ''Workspace access denied''
                      else case is_connection_capability (g_capability g) of
                          None \<Rightarrow> deny 403 ''Connection grant denied''
                        | Some capability \<Rightarrow>
                            if \<not> has_connection_capability capability required
                            then deny 403 ''Connection grant denied''
                            else Inr \<lparr>ag_session = s, ag_member = m, ag_role = role,
                                      ag_capability = capability,
                                      ag_mode = access_mode_for_connection_grant role capability,
                                      ag_connection = ac\<rparr>)))"

section \<open>Fail-closed lemmas\<close>

lemma workspace_rows_member:
  "(m, p) \<in> set (workspace_rows db org s) \<longleftrightarrow>
     m \<in> set (members db) \<and> p \<in> set (profiles db) \<and> p_org p = org \<and> m_org m = org
     \<and> m_user m = session_user s \<and> m_pending_at m = None"
  by (auto simp: workspace_rows_def)

lemma lifecycle_rows_member:
  "(m, p) \<in> set (lifecycle_rows db org s) \<Longrightarrow>
     m \<in> set (members db) \<and> p \<in> set (profiles db) \<and> p_org p = org \<and> m_org m = org
     \<and> m_user m = session_user s \<and> m_role m = ''owner'' \<and> m_claim_id m = None
     \<and> (p_lifecycle p = ''active'' \<and> m_pending_at m = None
        \<or> p_lifecycle p = ''deletion_pending'' \<and> sql_eq (m_pending_at m) (p_deletion_requested_at p))"
  by (auto simp: lifecycle_rows_def)

lemma grant_rows_member:
  "text \<in> set (grant_rows db org conn mid) \<Longrightarrow>
     \<exists>g\<in>set (grants db). \<exists>c\<in>set (connections db). g_capability g = text \<and> g_org g = org
       \<and> g_connection g = conn \<and> g_member g = mid \<and> c_org c = org \<and> c_id c = conn
       \<and> c_deleted_at c = None \<and> c_pending_at c = None"
  by (fastforce simp: grant_rows_def)

lemma action_rows_member:
  "(m, p, g, ac) \<in> set (action_rows db org conn s) \<Longrightarrow>
     m \<in> set (members db) \<and> m_org m = org \<and> m_user m = session_user s \<and> m_pending_at m = None
     \<and> p \<in> set (profiles db) \<and> p_org p = org
     \<and> g \<in> set (grants db) \<and> g_org g = org \<and> g_member g = m_id m \<and> g_connection g = conn
     \<and> ac_connection ac \<in> set (connections db) \<and> c_org (ac_connection ac) = org
     \<and> c_id (ac_connection ac) = conn \<and> c_deleted_at (ac_connection ac) = None"
  by (auto simp: action_rows_def split: if_splits)

lemma deny_not_Inr [simp]: "deny st msg \<noteq> Inr x" "deny st msg = Inl d \<longleftrightarrow> d = \<lparr>status = st, message = msg\<rparr>"
  by (auto simp: deny_def)

lemma authorize_workspace_sound:
  assumes "authorize_workspace db session org capability = Inr w"
  shows "\<exists>s p. session = Some s \<and> wg_session w = s \<and> (wg_member w, p) \<in> set (workspace_rows db org s)
    \<and> p_lifecycle p = ''active'' \<and> m_role (wg_member w) = role_name (wg_role w)
    \<and> has_workspace_capability (wg_role w) capability \<and> wg_mode w = access_mode_for_role (wg_role w)"
  using assms unfolding authorize_workspace_def
  by (auto simp: is_workspace_role_Some split: option.splits if_splits dest!: first_row_Some) blast

lemma authorize_connection_sound:
  assumes "authorize_workspace_connection db session org conn required = Inr r"
  shows "authorize_workspace db session org CapView = Inr (cg_workspace r)
    \<and> connection_capability_name (cg_capability r) \<in> set (grant_rows db org conn (m_id (wg_member (cg_workspace r))))
    \<and> has_connection_capability (cg_capability r) required
    \<and> cg_mode r = access_mode_for_connection_grant (wg_role (cg_workspace r)) (cg_capability r)"
  using assms unfolding authorize_workspace_connection_def
  by (auto simp: is_connection_capability_Some split: option.splits if_splits sum.splits dest!: first_row_Some)

lemma authorize_action_sound:
  assumes "authorize_workspace_connection_action db session org conn required = Inr r"
  shows "\<exists>s p g. session = Some s \<and> ag_session r = s
    \<and> (ag_member r, p, g, ag_connection r) \<in> set (action_rows db org conn s)
    \<and> p_lifecycle p = ''active'' \<and> m_role (ag_member r) = role_name (ag_role r)
    \<and> g_capability g = connection_capability_name (ag_capability r)
    \<and> has_connection_capability (ag_capability r) required
    \<and> ag_mode r = access_mode_for_connection_grant (ag_role r) (ag_capability r)"
  using assms unfolding authorize_workspace_connection_action_def
  by (auto simp: is_connection_capability_Some is_workspace_role_Some
        split: option.splits if_splits dest!: first_row_Some) blast+

text \<open>
C1. The Broker preflight fails closed: when \<open>authorizeWorkspaceConnectionAction\<close> allows an
action, the request has a session, the session's user is a member of that workspace with no
revocation pending and a known role, the workspace is active, the member holds a grant row on
exactly that connection of at least the required capability, the connection is not deleted, and
the access mode returned is the effective access rule of that role and grant.
\<close>

theorem connection_action_fails_closed:
  assumes "authorize_workspace_connection_action db session org conn required = Inr r"
  shows "\<exists>s p g. session = Some s \<and> ag_session r = s
    \<and> ag_member r \<in> set (members db) \<and> m_org (ag_member r) = org
    \<and> m_user (ag_member r) = session_user s \<and> m_pending_at (ag_member r) = None
    \<and> m_role (ag_member r) = role_name (ag_role r)
    \<and> p \<in> set (profiles db) \<and> p_org p = org \<and> p_lifecycle p = ''active''
    \<and> g \<in> set (grants db) \<and> g_org g = org \<and> g_member g = m_id (ag_member r) \<and> g_connection g = conn
    \<and> g_capability g = connection_capability_name (ag_capability r) \<and> required \<le> ag_capability r
    \<and> ac_connection (ag_connection r) \<in> set (connections db)
    \<and> c_id (ac_connection (ag_connection r)) = conn
    \<and> c_deleted_at (ac_connection (ag_connection r)) = None
    \<and> ag_mode r = access_mode_for_connection_grant (ag_role r) (ag_capability r)"
  using authorize_action_sound [OF assms] action_rows_member
  unfolding has_connection_capability_def less_eq_connection_capability_def by blast

definition example_db :: "string \<Rightarrow> authority_db" where
  "example_db state = \<lparr>
     members = [\<lparr>m_id = ''m1'', m_org = ''o'', m_user = ''u'', m_role = ''owner'',
                 m_pending_at = (if state = ''active'' then None else Some 7), m_claim_id = None\<rparr>],
     profiles = [\<lparr>p_org = ''o'', p_lifecycle = state, p_deletion_requested_at = Some 7\<rparr>],
     grants = [\<lparr>g_org = ''o'', g_connection = ''c'', g_member = ''m1'', g_capability = ''use''\<rparr>],
     connections = [\<lparr>c_id = ''c'', c_org = ''o'', c_revision = 1, c_content_revision = 1,
        c_engine = ''postgres'', c_database = ''app'', c_readonly_default = True, c_allow_writes = True,
        c_credential_mode = ''managed'', c_provider = None, c_integration_id = None,
        c_resource_id = None, c_provisioning_mode = None, c_pending_at = None, c_deleted_at = None\<rparr>],
     integrations = [], resources = [], endpoints = []\<rparr>"

lemmas authorization_eval =
  example_db_def authorize_workspace_def authorize_workspace_lifecycle_def
  authorize_workspace_connection_def authorize_workspace_connection_action_def
  workspace_rows_def lifecycle_rows_def grant_rows_def action_rows_def first_row_def left_join_def
  sql_eq_def is_workspace_role_def workspace_role_names_def is_connection_capability_def
  permission_defs deny_def

theorem connection_action_fails_closed_witness:
  "\<exists>r. authorize_workspace_connection_action (example_db ''active'')
         (Some \<lparr>session_id = ''s'', session_user = ''u''\<rparr>) ''o'' ''c'' GrantRead = Inr r
       \<and> ag_mode r = ModeWrite \<and> m_pending_at (ag_member r) = None"
proof -
  let ?out = "authorize_workspace_connection_action (example_db ''active'')
    (Some \<lparr>session_id = ''s'', session_user = ''u''\<rparr>) ''o'' ''c'' GrantRead"
  have "\<exists>r. ?out = Inr r \<and> ag_mode r = ModeWrite" by (simp add: authorization_eval)
  then obtain r where r: "?out = Inr r" "ag_mode r = ModeWrite" by blast
  with connection_action_fails_closed [OF r(1)] show ?thesis by blast
qed

text \<open>
Scheduling a deletion suspends every ordinary gate: while no profile of the workspace is
\<open>active\<close>, workspace, connection and action requests are all denied with 401 or 403, and the
lifecycle request is allowed only to an unclaimed owner whose pending marker equals the
deletion timestamp of the profile.
\<close>

theorem deletion_suspends_ordinary_access:
  assumes "\<forall>p\<in>set (profiles db). p_org p = org \<longrightarrow> p_lifecycle p \<noteq> ''active''"
  shows "(\<exists>d. authorize_workspace db session org cap = Inl d \<and> status d \<in> {401, 403})
    \<and> (\<exists>d. authorize_workspace_connection db session org conn req = Inl d \<and> status d \<in> {401, 403})
    \<and> (\<exists>d. authorize_workspace_connection_action db session org conn req = Inl d \<and> status d \<in> {401, 403})
    \<and> (\<forall>l. authorize_workspace_lifecycle db session org = Inr l \<longrightarrow>
         lg_state l = ''deletion_pending'' \<and> m_role (lg_member l) = ''owner'' \<and> m_claim_id (lg_member l) = None
         \<and> (\<exists>p\<in>set (profiles db). p_org p = org \<and> m_pending_at (lg_member l) \<noteq> None
              \<and> m_pending_at (lg_member l) = p_deletion_requested_at p))"
proof (intro conjI allI impI)
  have den: "\<exists>d. authorize_workspace db session org c = Inl d \<and> status d \<in> {401, 403}" for c
  proof (cases "authorize_workspace db session org c")
    case (Inr w)
    with authorize_workspace_sound [OF Inr] assms show ?thesis
      by (auto simp: workspace_rows_member)
  qed (auto simp: authorize_workspace_def split: option.splits if_splits)
  show "\<exists>d. authorize_workspace db session org cap = Inl d \<and> status d \<in> {401, 403}" by (rule den)
  show "\<exists>d. authorize_workspace_connection db session org conn req = Inl d \<and> status d \<in> {401, 403}"
    using den [of CapView] by (auto simp: authorize_workspace_connection_def)
  show "\<exists>d. authorize_workspace_connection_action db session org conn req = Inl d \<and> status d \<in> {401, 403}"
  proof (cases "authorize_workspace_connection_action db session org conn req")
    case (Inr w)
    with authorize_action_sound [OF Inr] assms show ?thesis by (blast dest: action_rows_member)
  qed (auto simp: authorize_workspace_connection_action_def split: option.splits if_splits)
next
  fix l assume "authorize_workspace_lifecycle db session org = Inr l"
  then obtain s p where "(lg_member l, p) \<in> set (lifecycle_rows db org s)" "lg_state l = p_lifecycle p"
    by (auto simp: authorize_workspace_lifecycle_def split: option.splits dest!: first_row_Some)
  note f = lifecycle_rows_member [OF this(1)] this(2)
  with assms show "lg_state l = ''deletion_pending''" by auto
  from f show "m_role (lg_member l) = ''owner''" and "m_claim_id (lg_member l) = None" by auto
  from f assms show "\<exists>p\<in>set (profiles db). p_org p = org \<and> m_pending_at (lg_member l) \<noteq> None
      \<and> m_pending_at (lg_member l) = p_deletion_requested_at p"
    by (auto simp: sql_eq_def split: option.splits)
qed

theorem deletion_suspends_ordinary_access_witness:
  "(\<exists>d. authorize_workspace_connection_action (example_db ''deletion_pending'')
         (Some \<lparr>session_id = ''s'', session_user = ''u''\<rparr>) ''o'' ''c'' GrantRead = Inl d \<and> status d \<in> {401, 403})
   \<and> (\<exists>l. authorize_workspace_lifecycle (example_db ''deletion_pending'')
         (Some \<lparr>session_id = ''s'', session_user = ''u''\<rparr>) ''o'' = Inr l)"
proof
  have h: "\<forall>p\<in>set (profiles (example_db ''deletion_pending'')). p_org p = ''o'' \<longrightarrow> p_lifecycle p \<noteq> ''active''"
    by (simp add: example_db_def)
  show "\<exists>d. authorize_workspace_connection_action (example_db ''deletion_pending'')
         (Some \<lparr>session_id = ''s'', session_user = ''u''\<rparr>) ''o'' ''c'' GrantRead = Inl d \<and> status d \<in> {401, 403}"
    using deletion_suspends_ordinary_access [OF h] by blast
  show "\<exists>l. authorize_workspace_lifecycle (example_db ''deletion_pending'')
         (Some \<lparr>session_id = ''s'', session_user = ''u''\<rparr>) ''o'' = Inr l"
    by (simp add: authorization_eval)
qed

end
