(* ===== verification/DirectAccess.thy ===== *)
theory DirectAccess
  imports Permissions
begin

text \<open>
  The pure rules of direct shared databases (\<open>workspace-cloud/lib/workspace-direct-access-core.ts\<close>):
  verifier shapes, generated principal identities, the principal state machine, the level
  projection and the scope parser. Random bytes are an argument of the generators; \<open>btoa\<close> of the
  standard library is \<open>base64\<close> below.
\<close>

section \<open>Vocabularies\<close>

datatype direct_engine = DirectPostgres | DirectMysql

datatype direct_level = LevelNone | LevelRead | LevelWrite

datatype principal_state = Requested | Applying | Ready | Failed | DropPending | Dropped

text \<open>An unknown JSON value, as far as these guards look into it.\<close>

datatype json = JString string | JArray "json list" | JOther

definition is_direct_engine :: "json \<Rightarrow> direct_engine option" where
  "is_direct_engine value =
     (case value of JString s \<Rightarrow>
        if s = ''postgres'' then Some DirectPostgres
        else if s = ''mysql'' then Some DirectMysql else None
      | _ \<Rightarrow> None)"

definition verifier_kind_for_engine :: "direct_engine \<Rightarrow> string" where
  "verifier_kind_for_engine engine =
     (if engine = DirectPostgres then ''scram-sha-256'' else ''caching_sha2'')"

section \<open>Verifiers and generated identities\<close>

definition is_base64 :: "char \<Rightarrow> bool" where
  "is_base64 c \<longleftrightarrow> is_alnum c \<or> c = CHR ''+'' \<or> c = CHR ''/''"

definition scram_sha_256 :: "(char \<Rightarrow> bool) list" where
  "scram_sha_256 =
     lit ''SCRAM-SHA-256$4096:'' @ replicate 21 is_base64 @ [\<lambda>c. c \<in> set ''AQgw''] @ lit ''==$''
     @ replicate 42 is_base64 @ [\<lambda>c. c \<in> set ''AEIMQUYcgkosw048''] @ lit ''=:''
     @ replicate 42 is_base64 @ [\<lambda>c. c \<in> set ''AEIMQUYcgkosw048''] @ lit ''=''"

definition caching_sha2 :: "(char \<Rightarrow> bool) list" where
  "caching_sha2 = lit ''$A$005$'' @ replicate 63 (\<lambda>c. is_alnum c \<or> c = CHR ''.'' \<or> c = CHR ''/'')"

definition is_valid_direct_verifier :: "json \<Rightarrow> json \<Rightarrow> bool" where
  "is_valid_direct_verifier kind verifier =
     (case verifier of JString v \<Rightarrow>
        if kind = JString ''scram-sha-256'' then matches scram_sha_256 v
        else if kind = JString ''caching_sha2'' then matches caching_sha2 v
        else False
      | _ \<Rightarrow> False)"

definition is_valid_principal_name :: "json \<Rightarrow> bool" where
  "is_valid_principal_name value =
     (case value of JString s \<Rightarrow> matches (lit ''dopedb_'' @ replicate 20 is_hex_lower) s | _ \<Rightarrow> False)"

definition is_valid_principal_marker :: "json \<Rightarrow> bool" where
  "is_valid_principal_marker value =
     (case value of JString s \<Rightarrow>
        matches (replicate 43 (\<lambda>c. is_alnum c \<or> c = CHR ''_'' \<or> c = CHR ''-'')) s
      | _ \<Rightarrow> False)"

definition hex_digit :: "nat \<Rightarrow> char" where
  "hex_digit n = ''0123456789abcdef'' ! n"

text \<open>\<open>byte.toString(16).padStart(2, "0")\<close>.\<close>

definition hex_byte :: "nat \<Rightarrow> string" where
  "hex_byte b = [hex_digit (b div 16 mod 16), hex_digit (b mod 16)]"

definition generate_principal_name :: "nat list \<Rightarrow> string" where
  "generate_principal_name random_bytes = ''dopedb_'' @ concat (map hex_byte random_bytes)"

definition base64_char :: "nat \<Rightarrow> char" where
  "base64_char n = ''ABCDEFGHIJKLMNOPQRSTUVWXYZabcdefghijklmnopqrstuvwxyz0123456789+/'' ! (n mod 64)"

text \<open>The standard library's \<open>btoa\<close> on a binary string.\<close>

fun base64 :: "nat list \<Rightarrow> string" where
  "base64 [] = ''''"
| "base64 [a] = [base64_char (a div 4), base64_char (a mod 4 * 16)] @ ''==''"
| "base64 [a, b] =
     [base64_char (a div 4), base64_char (a mod 4 * 16 + b div 16), base64_char (b mod 16 * 4)] @ ''=''"
| "base64 (a # b # c # rest) =
     [base64_char (a div 4), base64_char (a mod 4 * 16 + b div 16),
      base64_char (b mod 16 * 4 + c div 64), base64_char (c mod 64)] @ base64 rest"

definition generate_principal_marker :: "nat list \<Rightarrow> string" where
  "generate_principal_marker random_bytes =
     replace_char CHR ''='' [] (replace_char CHR ''/'' ''_'' (replace_char CHR ''+'' ''-'' (base64 random_bytes)))"

section \<open>Levels and the principal state machine\<close>

fun direct_level_rank :: "direct_level \<Rightarrow> nat" where
  "direct_level_rank LevelNone = 0"
| "direct_level_rank LevelRead = 1"
| "direct_level_rank LevelWrite = 2"

definition cap_direct_level :: "direct_level \<Rightarrow> direct_level option \<Rightarrow> direct_level" where
  "cap_direct_level level cap =
     (case cap of
        Some c \<Rightarrow> if direct_level_rank c < direct_level_rank level then c else level
      | None \<Rightarrow> level)"

fun direct_principal_transitions :: "principal_state \<Rightarrow> principal_state list" where
  "direct_principal_transitions Requested = [Applying, DropPending, Dropped]"
| "direct_principal_transitions Applying = [Ready, Failed, Requested, DropPending]"
| "direct_principal_transitions Ready = [Applying, Requested, DropPending]"
| "direct_principal_transitions Failed = [Requested, Applying, DropPending, Dropped]"
| "direct_principal_transitions DropPending = [Dropped, Failed]"
| "direct_principal_transitions Dropped = []"

definition is_direct_transition_allowed :: "principal_state \<Rightarrow> principal_state \<Rightarrow> bool" where
  "is_direct_transition_allowed from to \<longleftrightarrow> from = to \<or> to \<in> set (direct_principal_transitions from)"

record direct_input =
  di_role :: string
  di_capability :: string
  di_write_ceiling :: bool
  di_member_present :: "bool option"
  di_revocation_pending :: "bool option"
  di_connection_deleted :: "bool option"

definition direct_desired_level :: "direct_input \<Rightarrow> direct_level" where
  "direct_desired_level input =
     (if di_member_present input = Some False \<or> di_revocation_pending input = Some True
         \<or> di_connection_deleted input = Some True then LevelNone
      else case (is_workspace_role (di_role input), is_connection_capability (di_capability input)) of
          (Some role, Some capability) \<Rightarrow>
            (let mode = access_mode_for_connection_grant role capability
             in if mode = ModeView then LevelNone
                else if access_mode_allows_write mode \<and> di_write_ceiling input then LevelWrite
                else LevelRead)
        | _ \<Rightarrow> LevelNone)"

section \<open>Scope\<close>

text \<open>\<open>new TextEncoder().encode(s).length\<close>: code units from 128 to 255 take two bytes.\<close>

definition utf8_length :: "string \<Rightarrow> nat" where
  "utf8_length s = sum_list (map (\<lambda>c. if (of_char c :: nat) < 128 then 1 else 2) s)"

definition pg_reserved_schema :: "string \<Rightarrow> bool" where
  "pg_reserved_schema s \<longleftrightarrow> starts_with ''pg_'' (js_lower s) \<or> js_lower s = ''information_schema''"

definition mysql_system_schemas :: "string list" where
  "mysql_system_schemas = [''mysql'', ''information_schema'', ''performance_schema'', ''sys'']"

definition scope_forbidden_char :: "char \<Rightarrow> bool" where
  "scope_forbidden_char c \<longleftrightarrow> (of_char c :: nat) \<le> 31 \<or> (of_char c :: nat) = 127
     \<or> c \<in> {CHR 0x22, CHR 0x60, CHR 0x27, CHR 0x5C, CHR ''%''}"

definition scope_entry_ok :: "direct_engine \<Rightarrow> string \<Rightarrow> bool" where
  "scope_entry_ok engine entry \<longleftrightarrow>
     1 \<le> length entry
     \<and> (if engine = DirectPostgres then utf8_length entry \<le> 63 else length entry \<le> 64)
     \<and> (\<forall>c\<in>set entry. \<not> scope_forbidden_char c)
     \<and> entry = js_trim entry
     \<and> \<not> (if engine = DirectPostgres then pg_reserved_schema entry
           else js_lower entry \<in> set mysql_system_schemas)"

text \<open>The loop with its \<open>seen\<close> set; \<open>None\<close> is the thrown error.\<close>

fun parse_direct_scope_entries :: "direct_engine \<Rightarrow> string list \<Rightarrow> json list \<Rightarrow> string list option" where
  "parse_direct_scope_entries engine seen [] = Some seen"
| "parse_direct_scope_entries engine seen (JString entry # rest) =
     (if scope_entry_ok engine entry \<and> entry \<notin> set seen
      then parse_direct_scope_entries engine (seen @ [entry]) rest else None)"
| "parse_direct_scope_entries engine seen (v # rest) = None"

definition parse_direct_scope :: "direct_engine \<Rightarrow> json \<Rightarrow> string list option" where
  "parse_direct_scope engine value =
     (case value of JArray entries \<Rightarrow>
        if length entries < 1 \<or> 32 < length entries then None
        else parse_direct_scope_entries engine [] entries
      | _ \<Rightarrow> None)"

section \<open>Verifiers carry no quoting character and have a fixed length\<close>

text \<open>The alphabet of every valid verifier: nothing that could end or escape a SQL literal.\<close>

definition verifier_char :: "char \<Rightarrow> bool" where
  "verifier_char c \<longleftrightarrow> is_alnum c \<or> c \<in> set ''+/=$:-.''"

lemma verifier_char_safe: "verifier_char c \<Longrightarrow> c \<notin> {CHR 0x27, CHR 0x22, CHR 0x5C, CHR 0x3B, CHR 0x20}"
  by (auto simp: verifier_char_def char_class_defs)

lemma lit_char: "p \<in> set (lit s) \<Longrightarrow> p c \<Longrightarrow> c \<in> set s"
  by (auto simp: lit_def)

lemma base64_verifier_char: "is_base64 c \<Longrightarrow> verifier_char c"
  by (auto simp: is_base64_def verifier_char_def)

lemma literal_verifier_char:
  "c \<in> set ''SCRAM-SHA-256$4096:'' \<union> set ''AQgw'' \<union> set ''==$'' \<union> set ''AEIMQUYcgkosw048'' \<union> set ''=:''
     \<union> set ''='' \<union> set ''$A$005$'' \<Longrightarrow> verifier_char c"
proof -
  have "\<forall>c\<in>set ''SCRAM-SHA-256$4096:AQgw==$AEIMQUYcgkosw048=:=$A$005$''. verifier_char c"
    by (simp add: verifier_char_def char_class_defs)
  then show "c \<in> set ''SCRAM-SHA-256$4096:'' \<union> set ''AQgw'' \<union> set ''==$'' \<union> set ''AEIMQUYcgkosw048'' \<union> set ''=:''
     \<union> set ''='' \<union> set ''$A$005$'' \<Longrightarrow> ?thesis"
    by simp blast
qed

lemma in_singleton: "p \<in> set [q] \<Longrightarrow> p = q"
  by simp

lemma scram_chars: "p \<in> set scram_sha_256 \<Longrightarrow> p c \<Longrightarrow> verifier_char c"
  unfolding scram_sha_256_def set_append
  using lit_char [of p _ c] literal_verifier_char [of c] base64_verifier_char [of c]
  by (elim UnE) (auto simp del: insert_iff list.set dest: in_singleton in_set_replicate [THEN iffD1])

lemma caching_chars: "p \<in> set caching_sha2 \<Longrightarrow> p c \<Longrightarrow> verifier_char c"
  unfolding caching_sha2_def set_append
  using lit_char [of p "''$A$005$''" c] literal_verifier_char [of c]
  by (elim UnE) (blast, auto simp: verifier_char_def)

lemma scram_length: "length scram_sha_256 = 133"
  by (simp add: scram_sha_256_def lit_def)

lemma caching_length: "length caching_sha2 = 70"
  by (simp add: caching_sha2_def lit_def)

text \<open>
C2. A verifier the control plane accepts (\<open>isValidDirectVerifier\<close>) is a string of the exact
length of its kind (133 for SCRAM, 70 for \<open>caching_sha2\<close>) over a closed alphabet: it holds no
single or double quote, backslash, semicolon or space, so quoting it into a statement cannot
terminate the literal.
\<close>

theorem valid_verifier_cannot_escape_literal:
  assumes "is_valid_direct_verifier kind verifier"
  shows "\<exists>v. verifier = JString v
    \<and> (kind = JString ''scram-sha-256'' \<and> length v = 133 \<or> kind = JString ''caching_sha2'' \<and> length v = 70)
    \<and> (\<forall>c\<in>set v. verifier_char c)
    \<and> set v \<inter> {CHR 0x27, CHR 0x22, CHR 0x5C, CHR 0x3B, CHR 0x20} = {}"
proof -
  from assms obtain v where v: "verifier = JString v"
    and alt: "kind = JString ''scram-sha-256'' \<and> matches scram_sha_256 v
      \<or> kind = JString ''caching_sha2'' \<and> matches caching_sha2 v"
    unfolding is_valid_direct_verifier_def by (auto split: json.splits if_splits)
  have chars: "\<forall>c\<in>set v. verifier_char c"
    using alt by (meson matches_char scram_chars caching_chars)
  with verifier_char_safe have "set v \<inter> {CHR 0x27, CHR 0x22, CHR 0x5C, CHR 0x3B, CHR 0x20} = {}"
    by blast
  with v alt chars show ?thesis
    by (auto dest!: matches_length simp: scram_length caching_length)
qed

definition example_verifier :: string where
  "example_verifier = ''$A$005$'' @ replicate 63 CHR ''x''"

theorem valid_verifier_cannot_escape_literal_witness:
  "is_valid_direct_verifier (JString ''caching_sha2'') (JString example_verifier)
   \<and> CHR 0x27 \<notin> set example_verifier"
proof
  have "matches (lit ''$A$005$'' @ replicate 63 (\<lambda>c. is_alnum c \<or> c = CHR ''.'' \<or> c = CHR ''/'')) example_verifier"
    unfolding example_verifier_def
    by (rule matches_append) (simp_all add: matches_lit matches_replicate char_class_defs)
  then show h: "is_valid_direct_verifier (JString ''caching_sha2'') (JString example_verifier)"
    by (simp add: is_valid_direct_verifier_def caching_sha2_def)
  show "CHR 0x27 \<notin> set example_verifier"
    using valid_verifier_cannot_escape_literal [OF h] by auto
qed

section \<open>Generated identities pass their own validators\<close>

lemma hex_digit_class: "n < 16 \<Longrightarrow> is_hex_lower (hex_digit n)"
proof -
  assume "n < 16"
  then have "hex_digit n \<in> set ''0123456789abcdef''"
    unfolding hex_digit_def by (intro nth_mem) simp
  then show ?thesis by (auto simp: char_class_defs)
qed

lemma hex_bytes_length: "length (concat (map hex_byte bs)) = 2 * length bs"
  by (induction bs) (auto simp: hex_byte_def)

lemma hex_bytes_class: "c \<in> set (concat (map hex_byte bs)) \<Longrightarrow> is_hex_lower c"
  by (auto simp: hex_byte_def intro: hex_digit_class)

lemma base64_char_class: "is_base64 (base64_char n)"
proof -
  have "base64_char n \<in> set ''ABCDEFGHIJKLMNOPQRSTUVWXYZabcdefghijklmnopqrstuvwxyz0123456789+/''"
    unfolding base64_char_def by (intro nth_mem) simp
  then show ?thesis by (auto simp: is_base64_def char_class_defs)
qed

lemma base64_not_pad: "is_base64 c \<Longrightarrow> c \<noteq> CHR ''=''"
  by (auto simp: is_base64_def char_class_defs)

text \<open>Base64 is a body of digits followed by at most two \<open>=\<close>.\<close>

lemma base64_shape:
  "\<exists>body pad. base64 bs = body @ replicate pad CHR ''='' \<and> (\<forall>c\<in>set body. is_base64 c)
     \<and> length body = (4 * length bs + 2) div 3"
proof (induction bs rule: base64.induct)
  case (2 a)
  show ?case
    by (intro exI [of _ "[base64_char (a div 4), base64_char (a mod 4 * 16)]"] exI [of _ 2])
       (simp add: base64_char_class numeral_2_eq_2)
next
  case (3 a b)
  show ?case
    by (intro exI [of _ "[base64_char (a div 4), base64_char (a mod 4 * 16 + b div 16), base64_char (b mod 16 * 4)]"]
          exI [of _ 1]) (simp add: base64_char_class)
next
  case (4 a b c rest)
  then obtain body pad where "base64 rest = body @ replicate pad CHR ''=''"
    "\<forall>c\<in>set body. is_base64 c" "length body = (4 * length rest + 2) div 3" by blast
  then show ?case
    by (intro exI [of _ "[base64_char (a div 4), base64_char (a mod 4 * 16 + b div 16),
          base64_char (b mod 16 * 4 + c div 64), base64_char (c mod 64)] @ body"] exI [of _ pad])
       (simp add: base64_char_class)
qed simp

text \<open>The three replacements act character by character on a body without padding.\<close>

definition url_char :: "char \<Rightarrow> char" where
  "url_char c = (if c = CHR ''+'' then CHR ''-'' else if c = CHR ''/'' then CHR ''_'' else c)"

lemma marker_body:
  "\<forall>c\<in>set body. is_base64 c \<Longrightarrow>
     replace_char CHR ''='' [] (replace_char CHR ''/'' ''_'' (replace_char CHR ''+'' ''-''
       (body @ replicate pad CHR ''=''))) = map url_char body"
proof (induction body)
  case Nil
  have rep: "replace_char d r (replicate pad CHR ''='') = replicate pad CHR ''=''" if "d \<noteq> CHR ''=''" for d r
    using that by (induction pad) auto
  have "replace_char CHR ''='' [] (replicate pad CHR ''='') = []" by (induction pad) auto
  then show ?case by (simp add: rep)
next
  case (Cons c body)
  then show ?case by (auto simp: url_char_def dest: base64_not_pad)
qed

lemma url_char_class: "is_base64 c \<Longrightarrow> is_alnum (url_char c) \<or> url_char c \<in> {CHR ''_'', CHR ''-''}"
  by (auto simp: url_char_def is_base64_def)

text \<open>
Every principal name and marker the server generates passes the server's own validators:
ten random bytes give \<open>dopedb_\<close> and twenty lowercase hex digits, and thirty-two random bytes
give forty-three URL-safe characters, for all byte values.
\<close>

theorem generated_identities_are_valid:
  "(length name_bytes = 10 \<longrightarrow> is_valid_principal_name (JString (generate_principal_name name_bytes)))
   \<and> (length marker_bytes = 32 \<longrightarrow> is_valid_principal_marker (JString (generate_principal_marker marker_bytes)))"
proof (intro conjI impI)
  assume "length name_bytes = 10"
  then show "is_valid_principal_name (JString (generate_principal_name name_bytes))"
    unfolding is_valid_principal_name_def generate_principal_name_def
    using hex_bytes_length [of name_bytes] hex_bytes_class [of _ name_bytes]
    by (simp del: append_Cons append.simps length_concat) (rule matches_append, auto simp: matches_lit matches_replicate)
next
  assume len: "length marker_bytes = 32"
  obtain body pad where b: "base64 marker_bytes = body @ replicate pad CHR ''=''"
    "\<forall>c\<in>set body. is_base64 c" "length body = (4 * length marker_bytes + 2) div 3"
    using base64_shape by blast
  then have "generate_principal_marker marker_bytes = map url_char body"
    by (simp add: generate_principal_marker_def marker_body)
  with b len url_char_class show "is_valid_principal_marker (JString (generate_principal_marker marker_bytes))"
    by (fastforce simp: is_valid_principal_marker_def matches_replicate)
qed

theorem generated_identities_are_valid_witness:
  "is_valid_principal_marker (JString (generate_principal_marker (replicate 32 255)))
   \<and> is_valid_principal_name (JString (generate_principal_name (replicate 10 7)))"
  using generated_identities_are_valid [of "replicate 10 7" "replicate 32 255"] by simp

section \<open>Desired levels\<close>

lemma cap_rank: "direct_level_rank (cap_direct_level level (Some c)) = min (direct_level_rank level) (direct_level_rank c)"
  by (auto simp: cap_direct_level_def)

lemma desired_none:
  "direct_desired_level input = LevelNone \<longleftrightarrow>
     di_member_present input = Some False \<or> di_revocation_pending input = Some True
     \<or> di_connection_deleted input = Some True
     \<or> is_workspace_role (di_role input) = None
     \<or> (\<forall>c. is_connection_capability (di_capability input) = Some c \<longrightarrow> c = GrantView)"
proof -
  have "access_mode_for_connection_grant r c = ModeView \<longleftrightarrow> c = GrantView" for r c
    by (cases r; cases c) (simp_all add: permission_defs)
  then show ?thesis
    by (auto simp: direct_desired_level_def Let_def split: option.splits)
qed

lemma desired_write:
  "direct_desired_level input = LevelWrite \<longleftrightarrow>
     di_member_present input \<noteq> Some False \<and> di_revocation_pending input \<noteq> Some True
     \<and> di_connection_deleted input \<noteq> Some True \<and> di_write_ceiling input
     \<and> (\<exists>role cap. di_role input = role_name role \<and> di_capability input = connection_capability_name cap
          \<and> Editor \<le> role \<and> GrantUse \<le> cap)"
proof -
  have "access_mode_for_connection_grant r c = ModeView \<Longrightarrow> \<not> (Editor \<le> r \<and> GrantUse \<le> c)" for r c
    by (simp add: grant_write_iff [symmetric] access_mode_allows_write_def)
  then show ?thesis
    by (auto simp: direct_desired_level_def Let_def grant_write_iff
          is_workspace_role_Some [symmetric] is_connection_capability_Some [symmetric]
          split: option.splits)
qed

text \<open>
The level a member should hold on a direct database: write exactly when the member is
present, nothing is being revoked or deleted, the endpoint's write ceiling is on, and the role is
at least editor with at least a \<open>use\<close> grant; nothing at all when the member is gone, a revocation
is pending, the connection is deleted, or the grant is \<open>view\<close> or unknown. A pending revocation's
cap takes the minimum of the two levels, so it never raises a level.
\<close>

theorem desired_level_exact:
  "(direct_desired_level input = LevelWrite \<longleftrightarrow>
      di_member_present input \<noteq> Some False \<and> di_revocation_pending input \<noteq> Some True
      \<and> di_connection_deleted input \<noteq> Some True \<and> di_write_ceiling input
      \<and> (\<exists>role cap. di_role input = role_name role \<and> di_capability input = connection_capability_name cap
           \<and> Editor \<le> role \<and> GrantUse \<le> cap))
   \<and> (direct_desired_level input = LevelNone \<longleftrightarrow>
      di_member_present input = Some False \<or> di_revocation_pending input = Some True
      \<or> di_connection_deleted input = Some True \<or> is_workspace_role (di_role input) = None
      \<or> is_connection_capability (di_capability input) \<in> {None, Some GrantView})
   \<and> direct_level_rank (cap_direct_level (direct_desired_level input) cap)
       = (case cap of None \<Rightarrow> direct_level_rank (direct_desired_level input)
          | Some c \<Rightarrow> min (direct_level_rank (direct_desired_level input)) (direct_level_rank c))"
proof (intro conjI)
  show "direct_desired_level input = LevelNone \<longleftrightarrow>
      di_member_present input = Some False \<or> di_revocation_pending input = Some True
      \<or> di_connection_deleted input = Some True \<or> is_workspace_role (di_role input) = None
      \<or> is_connection_capability (di_capability input) \<in> {None, Some GrantView}"
    unfolding desired_none by (cases "is_connection_capability (di_capability input)") auto
  show "direct_level_rank (cap_direct_level (direct_desired_level input) cap)
       = (case cap of None \<Rightarrow> direct_level_rank (direct_desired_level input)
          | Some c \<Rightarrow> min (direct_level_rank (direct_desired_level input)) (direct_level_rank c))"
    by (cases cap) (simp_all add: cap_rank, simp add: cap_direct_level_def)
qed (rule desired_write)

section \<open>The principal state machine\<close>

text \<open>A history is a list of states in which each move is allowed.\<close>

fun principal_history :: "principal_state \<Rightarrow> principal_state list \<Rightarrow> bool" where
  "principal_history s [] = True"
| "principal_history s (t # ts) = (is_direct_transition_allowed s t \<and> principal_history t ts)"

lemma dropped_final: "principal_history Dropped ts \<Longrightarrow> set ts \<subseteq> {Dropped}"
  by (induction ts) (auto simp: is_direct_transition_allowed_def)

lemma ready_only_from_applying: "is_direct_transition_allowed s Ready \<Longrightarrow> s = Ready \<or> s = Applying"
  by (cases s) (auto simp: is_direct_transition_allowed_def)

lemma no_failure_stays_dropping:
  "principal_history s ts \<Longrightarrow> s \<in> {DropPending, Dropped} \<Longrightarrow> Failed \<notin> set ts \<Longrightarrow> set ts \<subseteq> {DropPending, Dropped}"
  by (induction ts arbitrary: s) (fastforce simp: is_direct_transition_allowed_def)+

lemma drop_always_possible:
  assumes "s \<noteq> Dropped"
  shows "\<exists>ts. principal_history s (ts @ [Dropped])"
proof -
  from assms have "principal_history s ([DropPending] @ [Dropped])"
    by (cases s) (auto simp: is_direct_transition_allowed_def)
  then show ?thesis by blast
qed

text \<open>
The closed principal state machine: a dropped principal never leaves that state; a principal
whose drop is pending never becomes usable again unless the drop itself failed; \<open>ready\<close> is entered
only from \<open>applying\<close>; and from every live state the drop can still be carried out.
\<close>

theorem principal_machine_safe:
  "(principal_history Dropped ts \<longrightarrow> set ts \<subseteq> {Dropped})
   \<and> (principal_history DropPending ts \<and> Failed \<notin> set ts \<longrightarrow> set ts \<subseteq> {DropPending, Dropped})
   \<and> (is_direct_transition_allowed s Ready \<longrightarrow> s \<in> {Ready, Applying})
   \<and> (s \<noteq> Dropped \<longrightarrow> (\<exists>us. principal_history s (us @ [Dropped])))"
  using dropped_final no_failure_stays_dropping [of DropPending ts] ready_only_from_applying [of s]
    drop_always_possible [of s] by blast

theorem principal_machine_safe_witness:
  "principal_history DropPending [DropPending, Dropped] \<and> set [DropPending, Dropped] \<subseteq> {DropPending, Dropped}"
proof
  show h: "principal_history DropPending [DropPending, Dropped]"
    by (simp add: is_direct_transition_allowed_def)
  have "Failed \<notin> set [DropPending, Dropped]" by simp
  with h principal_machine_safe [of "[DropPending, Dropped]" Ready]
  show "set [DropPending, Dropped] \<subseteq> {DropPending, Dropped}" by blast
qed

section \<open>Scopes\<close>

lemma parse_entries_iff:
  "parse_direct_scope_entries engine seen entries = Some out \<longleftrightarrow>
     (\<exists>names. entries = map JString names \<and> out = seen @ names \<and> distinct names
        \<and> set names \<inter> set seen = {} \<and> (\<forall>n\<in>set names. scope_entry_ok engine n))"
proof (induction engine seen entries rule: parse_direct_scope_entries.induct)
  case (2 engine seen entry rest)
  show ?case
  proof (cases "scope_entry_ok engine entry \<and> entry \<notin> set seen")
    case True
    then have "parse_direct_scope_entries engine seen (JString entry # rest) = Some out
      \<longleftrightarrow> parse_direct_scope_entries engine (seen @ [entry]) rest = Some out" by simp
    also have "\<dots> \<longleftrightarrow> (\<exists>names. rest = map JString names \<and> out = (seen @ [entry]) @ names \<and> distinct names
        \<and> set names \<inter> set (seen @ [entry]) = {} \<and> (\<forall>n\<in>set names. scope_entry_ok engine n))"
      by (rule 2 [OF True])
    also have "\<dots> \<longleftrightarrow> (\<exists>names. JString entry # rest = map JString names \<and> out = seen @ names \<and> distinct names
        \<and> set names \<inter> set seen = {} \<and> (\<forall>n\<in>set names. scope_entry_ok engine n))" (is "?l \<longleftrightarrow> ?r")
    proof
      assume ?l
      then obtain names where "rest = map JString names" "out = (seen @ [entry]) @ names" "distinct names"
        "set names \<inter> set (seen @ [entry]) = {}" "\<forall>n\<in>set names. scope_entry_ok engine n" by blast
      with True show ?r by (intro exI [of _ "entry # names"]) auto
    next
      assume ?r
      then obtain names where n: "JString entry # rest = map JString names" "out = seen @ names" "distinct names"
        "set names \<inter> set seen = {}" "\<forall>n\<in>set names. scope_entry_ok engine n" by (elim exE conjE) (rule that)
      then obtain ns where "names = entry # ns" by (cases names) auto
      with n show ?l by (intro exI [of _ ns]) auto
    qed
    finally show ?thesis .
  next
    case False
    then show ?thesis by (auto simp: Cons_eq_map_conv)
  qed
qed (auto simp: Cons_eq_map_conv)

text \<open>
\<open>parseDirectScope\<close> accepts exactly the arrays of 1 to 32 distinct, individually valid names,
and returns them unchanged and in order; everything else throws.
\<close>

theorem scope_parser_exact:
  "parse_direct_scope engine value = Some out \<longleftrightarrow>
     value = JArray (map JString out) \<and> 1 \<le> length out \<and> length out \<le> 32
     \<and> distinct out \<and> (\<forall>n\<in>set out. scope_entry_ok engine n)"
  by (cases "value") (auto simp: parse_direct_scope_def parse_entries_iff Suc_le_eq split: if_splits)

theorem scope_parser_exact_witness:
  "parse_direct_scope DirectPostgres (JArray [JString ''public'', JString ''app'']) = Some [''public'', ''app'']
   \<and> parse_direct_scope DirectPostgres (JArray [JString ''PG_temp'']) = None"
proof
  have h: "\<forall>n\<in>set [''public'', ''app'']. scope_entry_ok DirectPostgres n"
    by (simp add: scope_entry_ok_def utf8_length_def scope_forbidden_char_def pg_reserved_schema_def js_simps)
  show "parse_direct_scope DirectPostgres (JArray [JString ''public'', JString ''app'']) = Some [''public'', ''app'']"
    using scope_parser_exact [of DirectPostgres "JArray [JString ''public'', JString ''app'']" "[''public'', ''app'']"] h
    by simp
  show "parse_direct_scope DirectPostgres (JArray [JString ''PG_temp'']) = None"
    by (simp add: parse_direct_scope_def scope_entry_ok_def pg_reserved_schema_def js_simps)
qed

end
