(* ===== verification/RevocationGate.thy ===== *)
theory RevocationGate
  imports Authorization
begin

text \<open>
  Durable authorization-mutation gates (\<open>workspace-cloud/lib/revocation-gates.ts\<close>, the gate
  half). A member, connection or integration row carries a pending marker, the time of the
  current claim and the UUID that owns it. Each operation is one conditional \<open>UPDATE\<close>: a row
  function returns the new row where the \<open>WHERE\<close> clause holds, and the table operation updates
  those rows and returns them. The clock and the fresh UUID are arguments.
\<close>

section \<open>Tables\<close>

record gate =
  pending_at :: "int option"
  claimed_at :: "int option"
  claim_id :: "string option"

record gated_member = member_row +
  m_claimed_at :: "int option"

record gated_connection = connection_row +
  c_claimed_at :: "int option"
  c_claim_id :: "string option"

record gated_integration = integration_row +
  i_claimed_at :: "int option"

record gate_db =
  gate_members :: "gated_member list"
  gate_connections :: "gated_connection list"
  gate_integrations :: "gated_integration list"

definition member_gate :: "gated_member \<Rightarrow> gate" where
  "member_gate m = \<lparr>pending_at = m_pending_at m, claimed_at = m_claimed_at m, claim_id = m_claim_id m\<rparr>"

definition set_member_gate :: "gate \<Rightarrow> gated_member \<Rightarrow> gated_member" where
  "set_member_gate g m = m\<lparr>m_pending_at := pending_at g, m_claimed_at := claimed_at g, m_claim_id := claim_id g\<rparr>"

definition connection_gate :: "gated_connection \<Rightarrow> gate" where
  "connection_gate c = \<lparr>pending_at = c_pending_at c, claimed_at = c_claimed_at c, claim_id = c_claim_id c\<rparr>"

definition set_connection_gate :: "gate \<Rightarrow> gated_connection \<Rightarrow> gated_connection" where
  "set_connection_gate g c = c\<lparr>c_pending_at := pending_at g, c_claimed_at := claimed_at g, c_claim_id := claim_id g\<rparr>"

definition integration_gate :: "gated_integration \<Rightarrow> gate" where
  "integration_gate i = \<lparr>pending_at = i_pending_at i, claimed_at = i_claimed_at i, claim_id = i_claim_id i\<rparr>"

definition set_integration_gate :: "gate \<Rightarrow> gated_integration \<Rightarrow> gated_integration" where
  "set_integration_gate g i = i\<lparr>i_pending_at := pending_at g, i_claimed_at := claimed_at g, i_claim_id := claim_id g\<rparr>"

text \<open>\<open>UPDATE \<dots> WHERE \<dots> RETURNING\<close>: \<open>f\<close> gives the new row where the clause holds.\<close>

definition sql_update :: "('r \<Rightarrow> 'r option) \<Rightarrow> 'r list \<Rightarrow> 'r list" where
  "sql_update f rows = map (\<lambda>r. case f r of None \<Rightarrow> r | Some r' \<Rightarrow> r') rows"

definition sql_returning :: "('r \<Rightarrow> 'r option) \<Rightarrow> 'r list \<Rightarrow> 'r list" where
  "sql_returning f rows = concat (map (\<lambda>r. case f r of None \<Rightarrow> [] | Some r' \<Rightarrow> [r']) rows)"

section \<open>Claims\<close>

datatype gate_target =
    MemberGate string string string
  | ConnectionGate string string
  | IntegrationGate string string

record gate_claim =
  gc_target :: gate_target
  gc_claim_id :: string
  gc_claimed_at :: int
  gc_pending_at :: int
  gc_first_pending :: bool
  gc_revision :: "int option"
  gc_role :: "workspace_role option"

record claimed_row =
  cr_pending_at :: "int option"
  cr_revision :: "int option"
  cr_role :: "string option"

datatype gate_error = InvalidRevocationGateClaim

definition revocation_claim_stale_ms :: int where
  "revocation_claim_stale_ms = 5 * 60 * 1000"

fun revocation_gate_lock_key :: "gate_target \<Rightarrow> string" where
  "revocation_gate_lock_key (MemberGate org member_id user_id) = ''member:'' @ org @ '':'' @ user_id"
| "revocation_gate_lock_key (ConnectionGate org conn) = ''connection:'' @ org @ '':'' @ conn"
| "revocation_gate_lock_key (IntegrationGate org integ) = ''integration:'' @ org @ '':'' @ integ"

definition safe_integer :: "int \<Rightarrow> bool" where
  "safe_integer n \<longleftrightarrow> \<bar>n\<bar> \<le> 2 ^ 53 - 1"

text \<open>\<open>parsedClaim\<close>: an unparsable date, an unsafe revision or an unknown role throws.\<close>

definition parsed_claim ::
  "gate_target \<Rightarrow> string \<Rightarrow> int \<Rightarrow> claimed_row option \<Rightarrow> gate_error + gate_claim option" where
  "parsed_claim target cid now row =
     (case row of
        None \<Rightarrow> Inr None
      | Some r \<Rightarrow>
          (case cr_pending_at r of
             None \<Rightarrow> Inl InvalidRevocationGateClaim
           | Some pending \<Rightarrow>
               if (\<exists>n\<in>set_option (cr_revision r). \<not> safe_integer n)
                 \<or> (\<exists>text\<in>set_option (cr_role r). is_workspace_role text = None)
               then Inl InvalidRevocationGateClaim
               else Inr (Some \<lparr>gc_target = target, gc_claim_id = cid, gc_claimed_at = now,
                 gc_pending_at = pending, gc_first_pending = (pending = now),
                 gc_revision = cr_revision r,
                 gc_role = Option.bind (cr_role r) is_workspace_role\<rparr>)))"

text \<open>The gate columns of the claiming \<open>UPDATE\<close>.\<close>

definition claim_gate :: "int \<Rightarrow> string \<Rightarrow> gate \<Rightarrow> gate option" where
  "claim_gate now cid g =
     (if claim_id g = None
        \<or> (case claimed_at g of None \<Rightarrow> False | Some t \<Rightarrow> t < now - revocation_claim_stale_ms)
      then Some \<lparr>pending_at = (case pending_at g of None \<Rightarrow> Some now | Some p \<Rightarrow> Some p),
                 claimed_at = Some now, claim_id = Some cid\<rparr>
      else None)"

definition claim_member :: "string \<Rightarrow> string \<Rightarrow> string \<Rightarrow> int \<Rightarrow> string \<Rightarrow> gated_member \<Rightarrow> gated_member option" where
  "claim_member org mid uid now cid m =
     (if m_org m = org \<and> m_id m = mid \<and> m_user m = uid
      then map_option (\<lambda>g. set_member_gate g m) (claim_gate now cid (member_gate m)) else None)"

definition claim_connection :: "string \<Rightarrow> string \<Rightarrow> int \<Rightarrow> string \<Rightarrow> gated_connection \<Rightarrow> gated_connection option" where
  "claim_connection org conn now cid c =
     (if c_org c = org \<and> c_id c = conn \<and> c_deleted_at c = None
      then map_option
             (\<lambda>g. set_connection_gate g
                    (c\<lparr>c_revision := (if c_pending_at c = None then c_revision c + 1 else c_revision c)\<rparr>))
             (claim_gate now cid (connection_gate c))
      else None)"

definition claim_integration :: "string \<Rightarrow> string \<Rightarrow> int \<Rightarrow> string \<Rightarrow> gated_integration \<Rightarrow> gated_integration option" where
  "claim_integration org integ now cid i =
     (if i_org i = org \<and> i_id i = integ \<and> i_status i = ''active'' \<and> i_revoked_at i = None
      then map_option (\<lambda>g. set_integration_gate g i) (claim_gate now cid (integration_gate i)) else None)"

fun claim_revocation_gate ::
  "int \<Rightarrow> string \<Rightarrow> gate_target \<Rightarrow> gate_db \<Rightarrow> gate_db \<times> (gate_error + gate_claim option)" where
  "claim_revocation_gate now cid (MemberGate org mid uid) db =
     (let f = claim_member org mid uid now cid
      in (db\<lparr>gate_members := sql_update f (gate_members db)\<rparr>,
          parsed_claim (MemberGate org mid uid) cid now
            (map_option (\<lambda>m. \<lparr>cr_pending_at = m_pending_at m, cr_revision = None, cr_role = Some (m_role m)\<rparr>)
              (first_row (sql_returning f (gate_members db))))))"
| "claim_revocation_gate now cid (ConnectionGate org conn) db =
     (let f = claim_connection org conn now cid
      in (db\<lparr>gate_connections := sql_update f (gate_connections db)\<rparr>,
          parsed_claim (ConnectionGate org conn) cid now
            (map_option (\<lambda>c. \<lparr>cr_pending_at = c_pending_at c, cr_revision = Some (c_revision c), cr_role = None\<rparr>)
              (first_row (sql_returning f (gate_connections db))))))"
| "claim_revocation_gate now cid (IntegrationGate org integ) db =
     (let f = claim_integration org integ now cid
      in (db\<lparr>gate_integrations := sql_update f (gate_integrations db)\<rparr>,
          parsed_claim (IntegrationGate org integ) cid now
            (map_option (\<lambda>i. \<lparr>cr_pending_at = i_pending_at i, cr_revision = None, cr_role = None\<rparr>)
              (first_row (sql_returning f (gate_integrations db))))))"

section \<open>Release, clear, renew\<close>

datatype gate_action = Release | Clear | Renew int string

definition act_gate :: "gate_action \<Rightarrow> string \<Rightarrow> gate \<Rightarrow> gate option" where
  "act_gate action cid g =
     (if pending_at g \<noteq> None \<and> claim_id g = Some cid
      then Some (case action of
          Clear \<Rightarrow> \<lparr>pending_at = None, claimed_at = None, claim_id = None\<rparr>
        | Release \<Rightarrow> g\<lparr>claimed_at := None, claim_id := None\<rparr>
        | Renew now next \<Rightarrow> g\<lparr>claimed_at := Some now, claim_id := Some next\<rparr>)
      else None)"

definition act_member :: "gate_action \<Rightarrow> string \<Rightarrow> string \<Rightarrow> string \<Rightarrow> string \<Rightarrow> gated_member \<Rightarrow> gated_member option" where
  "act_member action org mid uid cid m =
     (if m_id m = mid \<and> m_org m = org \<and> m_user m = uid
      then map_option (\<lambda>g. set_member_gate g m) (act_gate action cid (member_gate m)) else None)"

definition act_connection :: "gate_action \<Rightarrow> string \<Rightarrow> string \<Rightarrow> string \<Rightarrow> gated_connection \<Rightarrow> gated_connection option" where
  "act_connection action org conn cid c =
     (if c_id c = conn \<and> c_org c = org \<and> c_deleted_at c = None
      then map_option (\<lambda>g. set_connection_gate g c) (act_gate action cid (connection_gate c)) else None)"

definition act_integration :: "gate_action \<Rightarrow> string \<Rightarrow> string \<Rightarrow> string \<Rightarrow> gated_integration \<Rightarrow> gated_integration option" where
  "act_integration action org integ cid i =
     (if i_id i = integ \<and> i_org i = org
      then map_option (\<lambda>g. set_integration_gate g i) (act_gate action cid (integration_gate i)) else None)"

text \<open>\<open>updateClaim\<close>: the claim to keep using, \<open>None\<close> for \<open>false\<close>.\<close>

definition renewed_claim :: "gate_action \<Rightarrow> gate_claim \<Rightarrow> gate_claim" where
  "renewed_claim action claim =
     (case action of
        Renew now next \<Rightarrow> claim\<lparr>gc_claim_id := next, gc_claimed_at := now\<rparr>
      | _ \<Rightarrow> claim)"

definition update_claim :: "gate_action \<Rightarrow> gate_claim \<Rightarrow> gate_db \<Rightarrow> gate_db \<times> gate_claim option" where
  "update_claim action claim db =
     (case gc_target claim of
        MemberGate org mid uid \<Rightarrow>
          (let f = act_member action org mid uid (gc_claim_id claim)
           in (db\<lparr>gate_members := sql_update f (gate_members db)\<rparr>,
               if length (sql_returning f (gate_members db)) = 1 then Some (renewed_claim action claim) else None))
      | ConnectionGate org conn \<Rightarrow>
          (let f = act_connection action org conn (gc_claim_id claim)
           in (db\<lparr>gate_connections := sql_update f (gate_connections db)\<rparr>,
               if length (sql_returning f (gate_connections db)) = 1 then Some (renewed_claim action claim) else None))
      | IntegrationGate org integ \<Rightarrow>
          (let f = act_integration action org integ (gc_claim_id claim)
           in (db\<lparr>gate_integrations := sql_update f (gate_integrations db)\<rparr>,
               if length (sql_returning f (gate_integrations db)) = 1 then Some (renewed_claim action claim) else None)))"

definition release_revocation_gate_claim :: "gate_claim \<Rightarrow> gate_db \<Rightarrow> gate_db \<times> bool" where
  "release_revocation_gate_claim claim db = (let (db', r) = update_claim Release claim db in (db', r \<noteq> None))"

definition clear_revocation_gate :: "gate_claim \<Rightarrow> gate_db \<Rightarrow> gate_db \<times> bool" where
  "clear_revocation_gate claim db = (let (db', r) = update_claim Clear claim db in (db', r \<noteq> None))"

definition renew_revocation_gate_claim :: "int \<Rightarrow> string \<Rightarrow> gate_claim \<Rightarrow> gate_db \<Rightarrow> gate_db \<times> gate_claim option" where
  "renew_revocation_gate_claim now next claim db = update_claim (Renew now next) claim db"

section \<open>What every gated table shares\<close>

lemma claim_gate_Some:
  "claim_gate now cid g = Some g' \<longleftrightarrow>
     (claim_id g = None \<or> (\<exists>t. claimed_at g = Some t \<and> t < now - revocation_claim_stale_ms))
     \<and> g' = \<lparr>pending_at = Some (case pending_at g of None \<Rightarrow> now | Some p \<Rightarrow> p), claimed_at = Some now, claim_id = Some cid\<rparr>"
  by (auto simp: claim_gate_def split: option.splits if_splits)

lemma act_gate_owner: "act_gate a cid g = Some g' \<Longrightarrow> claim_id g = Some cid \<and> pending_at g \<noteq> None"
  by (auto simp: act_gate_def split: if_splits)

definition introduced :: "gate_action \<Rightarrow> string option" where
  "introduced a = (case a of Renew now next \<Rightarrow> Some next | _ \<Rightarrow> None)"

lemma act_gate_pending:
  "act_gate a cid g = Some g' \<Longrightarrow>
     pending_at g' = (if a = Clear then None else pending_at g) \<and> claim_id g' \<in> {None, introduced a}"
  by (cases a) (auto simp: act_gate_def introduced_def split: if_splits)

text \<open>
  The interface of a gated table: a row function for the claim and one for the actions, each
  acting on the gate columns as \<^const>\<open>claim_gate\<close> and \<^const>\<open>act_gate\<close> do.
\<close>

locale gate_rows =
  fixes get :: "'r \<Rightarrow> gate"
    and claim :: "int \<Rightarrow> string \<Rightarrow> 'r \<Rightarrow> 'r option"
    and act :: "gate_action \<Rightarrow> string \<Rightarrow> 'r \<Rightarrow> 'r option"
  assumes claim_get: "claim now cid r = Some r' \<Longrightarrow> claim_gate now cid (get r) = Some (get r')"
    and act_get: "act a cid r = Some r' \<Longrightarrow> act_gate a cid (get r) = Some (get r')"
begin

definition unowned :: "string \<Rightarrow> 'r list \<Rightarrow> bool" where
  "unowned cid rows \<longleftrightarrow> (\<forall>r\<in>set rows. claim_id (get r) \<noteq> Some cid)"

lemma act_unowned:
  assumes "unowned cid rows"
  shows "sql_update (act a cid) rows = rows" and "sql_returning (act a cid) rows = []"
proof -
  have none: "act a cid r = None" if "r \<in> set rows" for r
    using assms that act_get act_gate_owner unfolding unowned_def
    by (metis not_None_eq)
  show "sql_update (act a cid) rows = rows"
    unfolding sql_update_def by (rule map_idI) (simp add: none)
  show "sql_returning (act a cid) rows = []"
    unfolding sql_returning_def by (simp add: none)
qed

lemma claim_keeps_unowned: "unowned cid rows \<Longrightarrow> i \<noteq> cid \<Longrightarrow> unowned cid (sql_update (claim now i) rows)"
  by (fastforce simp: unowned_def sql_update_def claim_gate_Some split: option.splits dest: claim_get)

lemma act_keeps_unowned:
  "unowned cid rows \<Longrightarrow> introduced a \<noteq> Some cid \<Longrightarrow> unowned cid (sql_update (act a i) rows)"
  by (fastforce simp: unowned_def sql_update_def split: option.splits dest: act_get act_gate_pending)

lemma takeover_stale:
  "claim now i r = Some r' \<Longrightarrow> claim_id (get r) = Some j \<Longrightarrow>
     \<exists>t. claimed_at (get r) = Some t \<and> t < now - revocation_claim_stale_ms"
  by (auto simp: claim_gate_Some dest!: claim_get)

lemma claim_pending:
  "claim now i r = Some r' \<Longrightarrow> pending_at (get r') = Some (case pending_at (get r) of None \<Rightarrow> now | Some p \<Rightarrow> p)
     \<and> claim_id (get r') = Some i"
  by (auto simp: claim_gate_Some dest!: claim_get)

lemma act_pending:
  "act a i r = Some r' \<Longrightarrow> pending_at (get r') = (if a = Clear then None else pending_at (get r))
     \<and> claim_id (get r) = Some i"
  by (metis act_get act_gate_owner act_gate_pending)

end

lemmas gate_row_defs =
  member_gate_def set_member_gate_def connection_gate_def set_connection_gate_def
  integration_gate_def set_integration_gate_def

interpretation member_rows: gate_rows member_gate "claim_member org mid uid" "\<lambda>a. act_member a org mid uid"
  for org mid uid
  by unfold_locales (auto simp: claim_member_def act_member_def gate_row_defs split: if_splits)

interpretation connection_rows: gate_rows connection_gate "claim_connection org conn" "\<lambda>a. act_connection a org conn"
  for org conn
  by unfold_locales (auto simp: claim_connection_def act_connection_def gate_row_defs split: if_splits)

interpretation integration_rows: gate_rows integration_gate "claim_integration org integ" "\<lambda>a. act_integration a org integ"
  for org integ
  by unfold_locales (auto simp: claim_integration_def act_integration_def gate_row_defs split: if_splits)

section \<open>Runs of the gate operations\<close>

datatype gate_event =
    ClaimEvent int string gate_target
  | ActEvent gate_action gate_claim

fun gate_step :: "gate_db \<Rightarrow> gate_event \<Rightarrow> gate_db" where
  "gate_step db (ClaimEvent now cid target) = fst (claim_revocation_gate now cid target db)"
| "gate_step db (ActEvent a claim) = fst (update_claim a claim db)"

fun event_id :: "gate_event \<Rightarrow> string option" where
  "event_id (ClaimEvent now cid target) = Some cid"
| "event_id (ActEvent a claim) = introduced a"

text \<open>No row of any table is owned by the claim id.\<close>

definition lost :: "string \<Rightarrow> gate_db \<Rightarrow> bool" where
  "lost cid db \<longleftrightarrow>
     member_rows.unowned cid (gate_members db) \<and> connection_rows.unowned cid (gate_connections db)
     \<and> integration_rows.unowned cid (gate_integrations db)"

lemma gate_step_lost:
  assumes "lost cid db" and "event_id e \<noteq> Some cid"
  shows "lost cid (gate_step db e)"
proof (cases e)
  case (ClaimEvent now i target)
  with assms show ?thesis
    by (cases target)
       (auto simp: lost_def Let_def member_rows.claim_keeps_unowned connection_rows.claim_keeps_unowned
          integration_rows.claim_keeps_unowned)
next
  case (ActEvent a claim)
  with assms show ?thesis
    by (cases "gc_target claim")
       (auto simp: lost_def Let_def update_claim_def member_rows.act_keeps_unowned
          connection_rows.act_keeps_unowned integration_rows.act_keeps_unowned)
qed

lemma gate_run_lost:
  "lost cid db \<Longrightarrow> Some cid \<notin> event_id ` set es \<Longrightarrow> lost cid (foldl gate_step db es)"
proof (induction es arbitrary: db)
  case (Cons e es)
  then have "lost cid (gate_step db e)" by (metis gate_step_lost image_eqI list.set_intros(1))
  with Cons show ?case by simp
qed simp

lemma lost_update: "lost (gc_claim_id claim) db \<Longrightarrow> update_claim a claim db = (db, None)"
  by (cases "gc_target claim")
     (auto simp: lost_def update_claim_def Let_def member_rows.act_unowned connection_rows.act_unowned
        integration_rows.act_unowned)

text \<open>
C3. A lost claim is powerless forever. Once no row is owned by a claim's UUID (it was released,
cleared, renewed away or taken over after five minutes), then whatever claims, renewals, releases
and clears follow, as long as the UUID is not issued again, releasing, clearing or renewing with the
old claim changes nothing and reports failure. So a stalled worker can never undo its successor's gate.
\<close>

theorem lost_claim_is_powerless:
  assumes "lost (gc_claim_id claim) db" and "Some (gc_claim_id claim) \<notin> event_id ` set es"
  shows "update_claim a claim (foldl gate_step db es) = (foldl gate_step db es, None)
    \<and> release_revocation_gate_claim claim (foldl gate_step db es) = (foldl gate_step db es, False)
    \<and> clear_revocation_gate claim (foldl gate_step db es) = (foldl gate_step db es, False)"
  using lost_update [OF gate_run_lost [OF assms]]
  by (simp add: release_revocation_gate_claim_def clear_revocation_gate_def)

definition example_connection :: "gated_connection" where
  "example_connection = \<lparr>c_id = ''c'', c_org = ''o'', c_revision = 4, c_content_revision = 1,
     c_engine = ''postgres'', c_database = ''app'', c_readonly_default = False, c_allow_writes = True,
     c_credential_mode = ''managed'', c_provider = None, c_integration_id = None, c_resource_id = None,
     c_provisioning_mode = None, c_pending_at = None, c_deleted_at = None, c_claimed_at = None, c_claim_id = None\<rparr>"

definition example_gate_db :: gate_db where
  "example_gate_db = \<lparr>gate_members = [], gate_connections = [example_connection], gate_integrations = []\<rparr>"

definition example_claim :: "string \<Rightarrow> int \<Rightarrow> gate_claim" where
  "example_claim i t = \<lparr>gc_target = ConnectionGate ''o'' ''c'', gc_claim_id = i, gc_claimed_at = t,
     gc_pending_at = 10, gc_first_pending = (t = 10), gc_revision = Some 5, gc_role = None\<rparr>"

lemmas gate_eval =
  example_gate_db_def example_connection_def example_claim_def Let_def claim_connection_def act_connection_def
  claim_gate_def act_gate_def gate_row_defs sql_update_def sql_returning_def revocation_claim_stale_ms_def
  first_row_def parsed_claim_def safe_integer_def update_claim_def renewed_claim_def

theorem lost_claim_is_powerless_witness:
  "update_claim Clear (example_claim ''A'' 10)
     (foldl gate_step example_gate_db [ClaimEvent 10 ''B'' (ConnectionGate ''o'' ''c''), ActEvent (Renew 20 ''D'') (example_claim ''B'' 10)])
   = (foldl gate_step example_gate_db [ClaimEvent 10 ''B'' (ConnectionGate ''o'' ''c''), ActEvent (Renew 20 ''D'') (example_claim ''B'' 10)], None)
   \<and> c_claim_id (hd (gate_connections (foldl gate_step example_gate_db
       [ClaimEvent 10 ''B'' (ConnectionGate ''o'' ''c''), ActEvent (Renew 20 ''D'') (example_claim ''B'' 10)]))) = Some ''D''"
proof
  have "lost (gc_claim_id (example_claim ''A'' 10)) example_gate_db"
    by (simp add: lost_def example_gate_db_def example_connection_def member_rows.unowned_def
        connection_rows.unowned_def integration_rows.unowned_def connection_gate_def)
  moreover have "Some (gc_claim_id (example_claim ''A'' 10)) \<notin> event_id ` set [ClaimEvent 10 ''B'' (ConnectionGate ''o'' ''c''), ActEvent (Renew 20 ''D'') (example_claim ''B'' 10)]"
    by (simp add: example_claim_def introduced_def)
  ultimately show "update_claim Clear (example_claim ''A'' 10)
     (foldl gate_step example_gate_db [ClaimEvent 10 ''B'' (ConnectionGate ''o'' ''c''), ActEvent (Renew 20 ''D'') (example_claim ''B'' 10)])
   = (foldl gate_step example_gate_db [ClaimEvent 10 ''B'' (ConnectionGate ''o'' ''c''), ActEvent (Renew 20 ''D'') (example_claim ''B'' 10)], None)"
    using lost_claim_is_powerless by blast
  show "c_claim_id (hd (gate_connections (foldl gate_step example_gate_db
       [ClaimEvent 10 ''B'' (ConnectionGate ''o'' ''c''), ActEvent (Renew 20 ''D'') (example_claim ''B'' 10)]))) = Some ''D''"
    by (simp add: gate_eval)
qed

section \<open>The pending marker and the authority revision\<close>

text \<open>One step of one connection row.\<close>

definition connection_progress :: "gate_event \<Rightarrow> gated_connection \<Rightarrow> gated_connection \<Rightarrow> bool" where
  "connection_progress e c c' \<longleftrightarrow>
     (c_pending_at c \<noteq> None \<and> c_pending_at c' \<noteq> c_pending_at c \<longrightarrow>
        c_pending_at c' = None \<and> (\<exists>claim. e = ActEvent Clear claim \<and> c_claim_id c = Some (gc_claim_id claim)))
     \<and> c_revision c' = (if c_pending_at c = None \<and> c_pending_at c' \<noteq> None then c_revision c + 1 else c_revision c)
     \<and> (c_claim_id c' \<noteq> c_claim_id c \<and> c_claim_id c' \<noteq> None \<and> c_claim_id c \<noteq> None \<longrightarrow>
         (\<exists>now i t. e = ClaimEvent now i (ConnectionGate (c_org c) (c_id c)) \<and> c_claimed_at c = Some t \<and> t < now - revocation_claim_stale_ms)
         \<or> (\<exists>now i claim. e = ActEvent (Renew now i) claim \<and> c_claim_id c = Some (gc_claim_id claim)))"

lemma claim_connection_progress:
  "claim_connection org conn now i c = Some c' \<Longrightarrow> connection_progress (ClaimEvent now i (ConnectionGate org conn)) c c'"
  by (cases "c_pending_at c")
     (auto simp: claim_connection_def claim_gate_Some gate_row_defs connection_progress_def
        split: if_splits)

lemma act_connection_progress:
  "act_connection a org conn (gc_claim_id claim) c = Some c' \<Longrightarrow> connection_progress (ActEvent a claim) c c'"
  by (cases a) (auto simp: act_connection_def act_gate_def gate_row_defs connection_progress_def split: if_splits)

lemma connection_progress_refl: "connection_progress e c c"
  by (simp add: connection_progress_def)

lemma sql_update_progress:
  "(\<And>r r'. f r = Some r' \<Longrightarrow> P r r') \<Longrightarrow> (\<And>r. P r r) \<Longrightarrow> list_all2 P rows (sql_update f rows)"
  by (simp add: sql_update_def list_all2_conv_all_nth split: option.splits)

text \<open>
C4. Through every gate operation each connection row keeps its place, and: the pending marker is
set once and then stays, except that the owner of the current claim may clear it; the authority
revision grows by exactly one when the marker is set and never otherwise, so one revocation episode is
one new revision however many workers retry it; and a claim changes hands only by the owner's own
renewal or after the previous claim is more than five minutes old.
\<close>

theorem pending_marker_and_revision:
  "list_all2 (connection_progress e) (gate_connections db) (gate_connections (gate_step db e))"
proof (cases e)
  case (ClaimEvent now i target)
  then show ?thesis
    by (cases target)
       (simp_all add: Let_def list.rel_refl connection_progress_refl sql_update_progress claim_connection_progress)
next
  case (ActEvent a claim)
  then show ?thesis
    by (cases "gc_target claim")
       (simp_all add: Let_def update_claim_def list.rel_refl connection_progress_refl sql_update_progress act_connection_progress)
qed

section \<open>What a successful claim reports\<close>

lemma sql_returning_first:
  "first_row (sql_returning f rows) = Some r' \<Longrightarrow> \<exists>r\<in>set rows. f r = Some r'"
  by (drule first_row_Some) (auto simp: sql_returning_def split: option.splits)

lemma parsed_claim_Some:
  "parsed_claim target i now row = Inr (Some c) \<Longrightarrow>
     \<exists>r p. row = Some r \<and> cr_pending_at r = Some p \<and> gc_target c = target \<and> gc_claim_id c = i
       \<and> gc_claimed_at c = now \<and> gc_pending_at c = p \<and> gc_first_pending c = (p = now)
       \<and> gc_revision c = cr_revision r"
  by (auto simp: parsed_claim_def split: option.splits if_splits)

text \<open>
When \<open>claimRevocationGate\<close> on a connection returns a claim, that connection exists, is not
deleted, was unclaimed or its claim was stale, and now carries the claim; the claim reports the
connection's pending time and its new revision, and reports the first pending exactly when the marker was
absent or was set in the same millisecond.
\<close>

theorem connection_claim_reports_row:
  assumes "claim_revocation_gate now i (ConnectionGate org conn) db = (db', Inr (Some claim))"
  shows "\<exists>c\<in>set (gate_connections db). \<exists>c'\<in>set (gate_connections db').
    c_org c = org \<and> c_id c = conn \<and> c_deleted_at c = None
    \<and> (c_claim_id c = None \<or> (\<exists>t. c_claimed_at c = Some t \<and> t < now - revocation_claim_stale_ms))
    \<and> c_id c' = conn \<and> c_claim_id c' = Some i \<and> c_claimed_at c' = Some now
    \<and> gc_claim_id claim = i \<and> c_pending_at c' = Some (gc_pending_at claim)
    \<and> gc_revision claim = Some (c_revision c')
    \<and> c_revision c' = (if c_pending_at c = None then c_revision c + 1 else c_revision c)
    \<and> gc_first_pending claim = (c_pending_at c = None \<or> c_pending_at c = Some now)"
proof -
  let ?f = "claim_connection org conn now i"
  from assms have db': "db' = db\<lparr>gate_connections := sql_update ?f (gate_connections db)\<rparr>"
    and pc: "parsed_claim (ConnectionGate org conn) i now
      (map_option (\<lambda>c. \<lparr>cr_pending_at = c_pending_at c, cr_revision = Some (c_revision c), cr_role = None\<rparr>)
        (first_row (sql_returning ?f (gate_connections db)))) = Inr (Some claim)"
    by (auto simp: Let_def)
  from parsed_claim_Some [OF pc] obtain c' where
    first: "first_row (sql_returning ?f (gate_connections db)) = Some c'"
    and rep: "c_pending_at c' = Some (gc_pending_at claim)" "gc_claim_id claim = i"
      "gc_first_pending claim = (gc_pending_at claim = now)" "gc_revision claim = Some (c_revision c')"
    by auto
  from sql_returning_first [OF first] obtain c where c: "c \<in> set (gate_connections db)" "?f c = Some c'" by blast
  have "c' \<in> set (gate_connections db')"
    using c unfolding db' by (force simp: sql_update_def)
  moreover from c(2) have "c_org c = org \<and> c_id c = conn \<and> c_deleted_at c = None
    \<and> (c_claim_id c = None \<or> (\<exists>t. c_claimed_at c = Some t \<and> t < now - revocation_claim_stale_ms))
    \<and> c_id c' = conn \<and> c_claim_id c' = Some i \<and> c_claimed_at c' = Some now
    \<and> c_revision c' = (if c_pending_at c = None then c_revision c + 1 else c_revision c)
    \<and> c_pending_at c' = Some (case c_pending_at c of None \<Rightarrow> now | Some p \<Rightarrow> p)"
    by (auto simp: claim_connection_def claim_gate_Some gate_row_defs split: if_splits)
  ultimately show ?thesis
    using c(1) rep by (intro bexI [of _ c] bexI [of _ c']) (auto split: option.splits)
qed

theorem connection_claim_reports_row_witness:
  "\<exists>c\<in>set (gate_connections example_gate_db).
     \<exists>c'\<in>set (gate_connections (fst (claim_revocation_gate 10 ''A'' (ConnectionGate ''o'' ''c'') example_gate_db))).
       c_claim_id c' = Some ''A'' \<and> c_revision c' = c_revision c + 1"
proof -
  let ?run = "claim_revocation_gate 10 ''A'' (ConnectionGate ''o'' ''c'') example_gate_db"
  have h: "?run = (fst ?run, Inr (Some (example_claim ''A'' 10)))"
    by (simp add: gate_eval)
  have first: "gc_first_pending (example_claim ''A'' 10)" and none: "\<And>c. c \<in> set (gate_connections example_gate_db) \<Longrightarrow> c_pending_at c = None"
    by (simp_all add: gate_eval)
  from connection_claim_reports_row [OF h] none show ?thesis by fastforce
qed

end
