(* ===== verification/ManagedLease.thy ===== *)
theory ManagedLease
  imports RevocationGate
begin

text \<open>
  Short-lived database credentials. Issuance is the lease half of
  \<open>workspace-cloud/lib/revocation-gates.ts\<close> (reserve, finalize, still deliverable, each guarded by
  the durable authority join). The lease table is a list of rows; the clock is an argument.
\<close>

section \<open>Rows\<close>

datatype managed_access_mode = ReadAccess | WriteAccess | SchemaAccess

record lease_session = session_row +
  session_expires_at :: int

record lease_integration = gated_integration +
  i_generation :: int
  i_refresh_phase :: string

text \<open>\<open>rr_write\<close>: \<open>json_type(capability_manifest, '$.write') = 'true'\<close>.\<close>

record lease_resource = resource_row +
  rr_write :: bool

record lease_authority_db =
  la_sessions :: "lease_session list"
  la_members :: "gated_member list"
  la_connections :: "gated_connection list"
  la_grants :: "grant_row list"
  la_integrations :: "lease_integration list"
  la_resources :: "lease_resource list"
  la_profiles :: "profile_row list"

record lease_row =
  l_id :: string
  l_org :: string
  l_conn :: string
  l_integration :: string
  l_user :: string
  l_provider :: string
  l_mode :: managed_access_mode
  l_credential_id :: string
  l_kind :: string
  l_audit :: "string option"
  l_slot :: "nat option"
  l_expires :: int
  l_revoked :: "int option"
  l_attempts :: nat
  l_next_attempt :: "int option"
  l_claimed :: "int option"

record lease_authority =
  a_lease :: string
  a_org :: string
  a_member :: string
  a_user :: string
  a_session :: string
  a_role :: workspace_role
  a_conn :: string
  a_revision :: int
  a_resource :: string
  a_engine :: string
  a_integration :: string
  a_generation :: int
  a_conn_provider :: string
  a_provider :: string
  a_mode :: managed_access_mode

record provider_lease =
  pl_credential_id :: string
  pl_kind :: string
  pl_expires :: "int option"

section \<open>The durable authority join\<close>

definition capability_predicate ::
  "managed_access_mode \<Rightarrow> gated_member \<Rightarrow> gated_connection \<Rightarrow> lease_integration \<Rightarrow> lease_resource \<Rightarrow> bool" where
  "capability_predicate mode m c i r =
     (case mode of
        SchemaAccess \<Rightarrow> m_role m \<in> {''admin'', ''owner''} \<and> c_allow_writes c
          \<and> i_provider i \<in> {''neon'', ''gcpCloudSql''} \<and> c_engine c = ''postgres'' \<and> rr_write r
      | WriteAccess \<Rightarrow> m_role m \<in> {''editor'', ''admin'', ''owner''} \<and> c_allow_writes c \<and> rr_write r
      | ReadAccess \<Rightarrow> m_role m \<in> {''viewer'', ''analyst'', ''editor'', ''admin'', ''owner''})"

definition connection_grant_predicate :: "lease_authority \<Rightarrow> grant_row \<Rightarrow> bool" where
  "connection_grant_predicate inp g \<longleftrightarrow>
     g_org g = a_org inp \<and> g_connection g = a_conn inp \<and> g_member g = a_member inp
     \<and> (case a_mode inp of
          SchemaAccess \<Rightarrow> g_capability g = ''manage''
        | WriteAccess \<Rightarrow> g_capability g \<in> {''use'', ''manage''}
        | ReadAccess \<Rightarrow> g_capability g \<in> {''read'', ''use'', ''manage''})"

definition authority_session :: "int \<Rightarrow> lease_authority \<Rightarrow> lease_session \<Rightarrow> bool" where
  "authority_session now inp s \<longleftrightarrow>
     session_id s = a_session inp \<and> session_user s = a_user inp \<and> now < session_expires_at s"

definition authority_member :: "lease_authority \<Rightarrow> gated_member \<Rightarrow> bool" where
  "authority_member inp m \<longleftrightarrow>
     m_id m = a_member inp \<and> m_org m = a_org inp \<and> m_user m = a_user inp
     \<and> m_role m = role_name (a_role inp) \<and> m_pending_at m = None \<and> m_claim_id m = None"

definition authority_connection :: "lease_authority \<Rightarrow> gated_connection \<Rightarrow> bool" where
  "authority_connection inp c \<longleftrightarrow>
     c_id c = a_conn inp \<and> c_org c = a_org inp \<and> c_deleted_at c = None
     \<and> c_pending_at c = None \<and> c_claim_id c = None \<and> c_credential_mode c = ''managed''
     \<and> c_integration_id c = Some (a_integration inp) \<and> c_resource_id c = Some (a_resource inp)
     \<and> c_revision c = a_revision inp \<and> c_engine c = a_engine inp
     \<and> c_provider c = Some (a_conn_provider inp)"

definition authority_integration :: "lease_authority \<Rightarrow> lease_integration \<Rightarrow> bool" where
  "authority_integration inp i \<longleftrightarrow>
     i_id i = a_integration inp \<and> i_org i = a_org inp \<and> i_provider i = a_provider inp
     \<and> i_generation i = a_generation inp \<and> i_status i = ''active'' \<and> i_refresh_phase i = ''idle''
     \<and> i_revoked_at i = None \<and> i_pending_at i = None \<and> i_claim_id i = None"

definition authority_resource :: "lease_authority \<Rightarrow> lease_resource \<Rightarrow> bool" where
  "authority_resource inp r \<longleftrightarrow>
     r_id r = a_resource inp \<and> r_org r = a_org inp \<and> r_provider r = a_provider inp"

definition durable_authority :: "int \<Rightarrow> lease_authority \<Rightarrow> lease_authority_db \<Rightarrow> bool" where
  "durable_authority now inp db \<longleftrightarrow>
     list_ex (authority_session now inp) (la_sessions db)
     \<and> list_ex (\<lambda>m. authority_member inp m
         \<and> list_ex (\<lambda>c. authority_connection inp c
             \<and> list_ex (\<lambda>i. authority_integration inp i
                 \<and> list_ex (\<lambda>r. authority_resource inp r \<and> capability_predicate (a_mode inp) m c i r)
                     (la_resources db))
               (la_integrations db))
           (la_connections db))
         (la_members db)
     \<and> list_ex (connection_grant_predicate inp) (la_grants db)
     \<and> list_ex (\<lambda>p. p_org p = a_org inp \<and> p_lifecycle p = ''active'') (la_profiles db)"

section \<open>Reserve, finalize, deliver\<close>

datatype reservation = Reserved | Blocked | SchemaBusy | LimitReached

definition pending_lease_seconds :: int where
  "pending_lease_seconds = 2 * 60"

definition live :: "lease_row \<Rightarrow> bool" where
  "live l \<longleftrightarrow> l_revoked l = None"

definition schema_busy :: "lease_authority \<Rightarrow> lease_row list \<Rightarrow> bool" where
  "schema_busy inp leases \<longleftrightarrow> a_mode inp = SchemaAccess
     \<and> list_ex (\<lambda>l. l_org l = a_org inp \<and> l_conn l = a_conn inp \<and> l_mode l = SchemaAccess \<and> live l) leases"

definition duplicate_lease :: "lease_authority \<Rightarrow> lease_row list \<Rightarrow> bool" where
  "duplicate_lease inp leases \<longleftrightarrow> list_ex (\<lambda>l. l_id l = a_lease inp) leases"

definition free_slot :: "lease_authority \<Rightarrow> lease_row list \<Rightarrow> nat option" where
  "free_slot inp leases =
     find (\<lambda>v. \<not> list_ex (\<lambda>l. l_org l = a_org inp \<and> l_conn l = a_conn inp \<and> l_user l = a_user inp
                            \<and> l_slot l = Some v \<and> live l) leases)
       [1, 2, 3, 4, 5]"

definition pending_lease :: "int \<Rightarrow> lease_authority \<Rightarrow> nat \<Rightarrow> lease_row" where
  "pending_lease now inp slot =
     \<lparr>l_id = a_lease inp, l_org = a_org inp, l_conn = a_conn inp, l_integration = a_integration inp,
      l_user = a_user inp, l_provider = a_provider inp, l_mode = a_mode inp,
      l_credential_id = a_lease inp, l_kind = ''pending'', l_audit = None, l_slot = Some slot,
      l_expires = now + pending_lease_seconds * 1000, l_revoked = None,
      l_attempts = 0, l_next_attempt = None, l_claimed = None\<rparr>"

definition reserve_managed_lease_if_unblocked ::
  "int \<Rightarrow> lease_authority \<Rightarrow> lease_authority_db \<Rightarrow> lease_row list \<Rightarrow> lease_row list \<times> reservation" where
  "reserve_managed_lease_if_unblocked now inp db leases =
     (let allowed = durable_authority now inp db; busy = schema_busy inp leases;
          duplicate = duplicate_lease inp leases; slot = free_slot inp leases
      in (case slot of
            Some v \<Rightarrow> if allowed \<and> \<not> busy \<and> \<not> duplicate then leases @ [pending_lease now inp v] else leases
          | None \<Rightarrow> leases,
          if \<not> allowed then Blocked
          else if busy then SchemaBusy
          else if duplicate \<or> slot = None then LimitReached
          else Reserved))"

text \<open>The columns that finalize and deliver compare with the authority.\<close>

definition lease_matches :: "lease_authority \<Rightarrow> lease_row \<Rightarrow> bool" where
  "lease_matches inp l \<longleftrightarrow>
     l_id l = a_lease inp \<and> l_org l = a_org inp \<and> l_conn l = a_conn inp
     \<and> l_integration l = a_integration inp \<and> l_user l = a_user inp
     \<and> l_provider l = a_provider inp \<and> l_mode l = a_mode inp"

definition finalize_row :: "int \<Rightarrow> lease_authority \<Rightarrow> provider_lease \<Rightarrow> int \<Rightarrow> string \<Rightarrow> lease_row \<Rightarrow> lease_row option" where
  "finalize_row now inp pl expires audit l =
     (if lease_matches inp l \<and> l_kind l = ''pending'' \<and> live l \<and> now < l_expires l \<and> now < expires
      then Some (l\<lparr>l_credential_id := pl_credential_id pl, l_kind := pl_kind pl, l_audit := Some audit,
                   l_expires := expires\<rparr>)
      else None)"

definition finalize_managed_lease_if_unblocked ::
  "int \<Rightarrow> lease_authority \<Rightarrow> provider_lease \<Rightarrow> string \<Rightarrow> lease_authority_db \<Rightarrow> lease_row list
     \<Rightarrow> lease_row list \<times> bool" where
  "finalize_managed_lease_if_unblocked now inp pl audit db leases =
     (case pl_expires pl of
        None \<Rightarrow> (leases, False)
      | Some expires \<Rightarrow>
          if durable_authority now inp db
          then (sql_update (finalize_row now inp pl expires audit) leases,
                length (sql_returning (finalize_row now inp pl expires audit) leases) = 1)
          else (leases, False))"

definition managed_lease_still_deliverable ::
  "int \<Rightarrow> lease_authority \<Rightarrow> provider_lease \<Rightarrow> string \<Rightarrow> lease_authority_db \<Rightarrow> lease_row list \<Rightarrow> bool" where
  "managed_lease_still_deliverable now inp pl audit db leases =
     (case pl_expires pl of
        None \<Rightarrow> False
      | Some expires \<Rightarrow>
          durable_authority now inp db
          \<and> list_ex (\<lambda>l. lease_matches inp l \<and> l_credential_id l = pl_credential_id pl
               \<and> l_kind l = pl_kind pl \<and> l_kind l \<noteq> ''pending'' \<and> l_audit l = Some audit
               \<and> l_expires l = expires \<and> now < l_expires l \<and> live l) leases)"

section \<open>The lease table invariant\<close>

definition slot_key :: "lease_row \<Rightarrow> string \<times> string \<times> string \<times> nat option" where
  "slot_key l = (l_org l, l_conn l, l_user l, l_slot l)"

definition live_schema :: "lease_row \<Rightarrow> bool" where
  "live_schema l \<longleftrightarrow> live l \<and> l_mode l = SchemaAccess"

text \<open>
  Ids are distinct, live leases hold slots 1 to 5, no two live leases of a member on a
  connection share a slot, and a connection has at most one live schema lease.
\<close>

definition lease_inv :: "lease_row list \<Rightarrow> bool" where
  "lease_inv leases \<longleftrightarrow>
     distinct (map l_id leases)
     \<and> (\<forall>l\<in>set leases. live l \<longrightarrow> (\<exists>v\<in>{1..5}. l_slot l = Some v))
     \<and> distinct (map slot_key (filter live leases))
     \<and> distinct (map (\<lambda>l. (l_org l, l_conn l)) (filter live_schema leases))"

lemma lease_inv_Nil [simp]: "lease_inv []"
  by (simp add: lease_inv_def)

text \<open>An update that keeps the identity columns and revives nothing keeps the invariant.\<close>

definition keeps_lease :: "(lease_row \<Rightarrow> lease_row) \<Rightarrow> bool" where
  "keeps_lease f \<longleftrightarrow> (\<forall>l. l_id (f l) = l_id l \<and> slot_key (f l) = slot_key l \<and> l_mode (f l) = l_mode l
     \<and> (live (f l) \<longrightarrow> live l))"

lemma distinct_filter_map:
  assumes "\<And>x. k (f x) = k x" and "\<And>x. P (f x) \<Longrightarrow> P x" and "distinct (map k (filter P xs))"
  shows "distinct (map k (filter P (map f xs)))"
proof -
  have eq: "map k (filter P (map f xs)) = map k (filter (\<lambda>x. P (f x)) (filter P xs))"
    using assms(1,2) by (induction xs) auto
  show ?thesis unfolding eq using assms(3) by (rule distinct_map_filter)
qed

lemma lease_inv_map:
  assumes f: "keeps_lease f" and inv: "lease_inv leases"
  shows "lease_inv (map f leases)"
proof -
  have k: "l_id (f l) = l_id l" "slot_key (f l) = slot_key l" "live (f l) \<Longrightarrow> live l"
    "live_schema (f l) \<Longrightarrow> live_schema l" "(l_org (f l), l_conn (f l)) = (l_org l, l_conn l)" "l_slot (f l) = l_slot l" for l
    using f by (auto simp: keeps_lease_def live_schema_def slot_key_def)
  have "distinct (map l_id (map f leases))"
    using inv by (simp add: lease_inv_def k comp_def)
  moreover have "distinct (map slot_key (filter live (map f leases)))"
    by (rule distinct_filter_map) (use inv k in \<open>auto simp: lease_inv_def\<close>)
  moreover have "distinct (map (\<lambda>l. (l_org l, l_conn l)) (filter live_schema (map f leases)))"
    by (rule distinct_filter_map) (use inv k in \<open>auto simp: lease_inv_def\<close>)
  moreover have "\<forall>l\<in>set (map f leases). live l \<longrightarrow> (\<exists>v\<in>{1..5}. l_slot l = Some v)"
    using inv k by (force simp: lease_inv_def)
  ultimately show ?thesis by (simp add: lease_inv_def)
qed

lemma sql_update_keeps:
  assumes "\<And>l l'. f l = Some l' \<Longrightarrow> l_id l' = l_id l \<and> slot_key l' = slot_key l \<and> l_mode l' = l_mode l \<and> (live l' \<longrightarrow> live l)"
    and "lease_inv leases"
  shows "lease_inv (sql_update f leases)"
  unfolding sql_update_def
  by (rule lease_inv_map) (auto simp: keeps_lease_def assms dest!: assms(1) split: option.splits)

lemma free_slot_Some:
  assumes "free_slot inp leases = Some v"
  shows "v \<in> {1..5}" and "l \<in> set leases \<Longrightarrow> live l \<Longrightarrow> slot_key l \<noteq> (a_org inp, a_conn inp, a_user inp, Some v)"
  using find_SomeD [OF assms [unfolded free_slot_def]]
  by (auto simp: slot_key_def list_ex_iff)

lemma reserve_inv:
  assumes "lease_inv leases"
  shows "lease_inv (fst (reserve_managed_lease_if_unblocked now inp db leases))"
proof (cases "free_slot inp leases")
  case (Some v)
  note slot = free_slot_Some [OF Some]
  have "lease_inv (leases @ [pending_lease now inp v])"
    if "\<not> schema_busy inp leases" and "\<not> duplicate_lease inp leases"
    using assms that slot
    by (force simp: lease_inv_def pending_lease_def live_def live_schema_def slot_key_def
        schema_busy_def duplicate_lease_def list_ex_iff)
  with assms show ?thesis
    by (simp add: reserve_managed_lease_if_unblocked_def Let_def Some)
qed (simp add: assms reserve_managed_lease_if_unblocked_def Let_def)

lemma finalize_inv:
  assumes "lease_inv leases"
  shows "lease_inv (fst (finalize_managed_lease_if_unblocked now inp pl audit db leases))"
  unfolding finalize_managed_lease_if_unblocked_def
  using assms
  by (auto split: option.splits intro!: sql_update_keeps
      simp: finalize_row_def slot_key_def live_def split: if_splits)

lemma filter_card_slots:
  assumes inv: "lease_inv leases"
  shows "length (filter (\<lambda>l. live l \<and> l_org l = oid \<and> l_conn l = conn \<and> l_user l = u) leases) \<le> 5"
proof -
  let ?ls = "filter (\<lambda>l. live l \<and> l_org l = oid \<and> l_conn l = conn \<and> l_user l = u) leases"
  have ls: "?ls = filter (\<lambda>l. l_org l = oid \<and> l_conn l = conn \<and> l_user l = u) (filter live leases)"
    by (induction leases) auto
  have d: "distinct (map slot_key ?ls)"
    unfolding ls by (rule distinct_map_filter) (use inv in \<open>simp add: lease_inv_def\<close>)
  have "set (map slot_key ?ls) \<subseteq> (\<lambda>v. (oid, conn, u, Some v)) ` {1..5::nat}"
    using inv by (force simp: lease_inv_def slot_key_def)
  then have "card (set (map slot_key ?ls)) \<le> card ((\<lambda>v. (oid, conn, u, Some v)) ` {1..5::nat})"
    by (rule card_mono [rotated]) simp
  also have "\<dots> \<le> 5" using card_image_le [of "{1..5::nat}" "\<lambda>v. (oid, conn, u, Some v)"] by simp
  finally show ?thesis using distinct_card [OF d] by simp
qed

lemma filter_card_schema:
  assumes inv: "lease_inv leases"
  shows "length (filter (\<lambda>l. live_schema l \<and> l_org l = oid \<and> l_conn l = conn) leases) \<le> 1"
proof -
  let ?k = "\<lambda>l. (l_org l, l_conn l)"
  let ?ls = "filter (\<lambda>l. live_schema l \<and> l_org l = oid \<and> l_conn l = conn) leases"
  have ls: "?ls = filter (\<lambda>l. l_org l = oid \<and> l_conn l = conn) (filter live_schema leases)"
    by (induction leases) auto
  have d: "distinct (map ?k ?ls)"
    unfolding ls by (rule distinct_map_filter) (use inv in \<open>simp add: lease_inv_def\<close>)
  have "card (set (map ?k ?ls)) \<le> card {(oid, conn)}"
    by (rule card_mono) auto
  then show ?thesis using distinct_card [OF d] by simp
qed

section \<open>Reservation and delivery\<close>

lemma free_slot_None_iff:
  "free_slot inp leases = None \<longleftrightarrow>
     {1..5} \<subseteq> {v. \<exists>l\<in>set leases. live l \<and> slot_key l = (a_org inp, a_conn inp, a_user inp, Some v)}"
proof -
  have "{1..5::nat} = set [1, 2, 3, 4, 5]" by auto
  then show ?thesis
    by (auto simp: free_slot_def find_None_iff' list_ex_iff slot_key_def simp del: find.simps set_simps)
qed

text \<open>
The outcome of \<open>reserveManagedLeaseIfUnblocked\<close>, exactly. A lease row is added precisely when the
answer is \<open>reserved\<close>, and then it is one pending row in a free slot that expires after two minutes;
every other answer leaves the table as it was. \<open>reserved\<close> needs the durable authority, no live schema
lease on that connection for a schema request, an unused lease id and a free slot; \<open>blocked\<close> means
exactly that the authority is gone.
\<close>

theorem reservation_exact:
  "(case reserve_managed_lease_if_unblocked now inp db leases of
      (leases', Reserved) \<Rightarrow>
        durable_authority now inp db \<and> a_lease inp \<notin> l_id ` set leases
        \<and> (a_mode inp = SchemaAccess \<longrightarrow>
             (\<forall>l\<in>set leases. live_schema l \<longrightarrow> (l_org l, l_conn l) \<noteq> (a_org inp, a_conn inp)))
        \<and> (\<exists>v\<in>{1..5}. leases' = leases @ [pending_lease now inp v]
             \<and> (\<forall>l\<in>set leases. live l \<longrightarrow> slot_key l \<noteq> (a_org inp, a_conn inp, a_user inp, Some v)))
    | (leases', outcome) \<Rightarrow> leases' = leases \<and> (outcome = Blocked) = (\<not> durable_authority now inp db))"
proof -
  let ?r = "reserve_managed_lease_if_unblocked now inp db leases"
  show ?thesis
  proof (cases "snd ?r = Reserved")
    case True
    then obtain v where v: "free_slot inp leases = Some v" and ok: "durable_authority now inp db"
      "\<not> schema_busy inp leases" "\<not> duplicate_lease inp leases"
      by (auto simp: reserve_managed_lease_if_unblocked_def Let_def split: if_splits option.splits)
    then have "?r = (leases @ [pending_lease now inp v], Reserved)"
      by (simp add: reserve_managed_lease_if_unblocked_def Let_def)
    with free_slot_Some [OF v] ok show ?thesis
      by (auto simp: schema_busy_def duplicate_lease_def list_ex_iff live_schema_def)
  next
    case False
    then show ?thesis
      by (auto simp: reserve_managed_lease_if_unblocked_def Let_def
          split: reservation.splits if_splits option.splits)
  qed
qed

text \<open>A delivered lease is the finalized row of this authority.\<close>

lemma deliverable_row:
  "managed_lease_still_deliverable now inp pl audit db leases \<Longrightarrow>
     durable_authority now inp db \<and> (\<exists>l\<in>set leases. lease_matches inp l \<and> live l \<and> l_kind l = pl_kind pl
       \<and> pl_kind pl \<noteq> ''pending'' \<and> l_audit l = Some audit \<and> pl_expires pl = Some (l_expires l) \<and> now < l_expires l)"
  by (auto simp: managed_lease_still_deliverable_def list_ex_iff split: option.splits)

lemma durable_authority_parts:
  "durable_authority now inp db \<Longrightarrow>
     (\<exists>m\<in>set (la_members db). authority_member inp m) \<and> (\<exists>c\<in>set (la_connections db). authority_connection inp c)
     \<and> (\<exists>i\<in>set (la_integrations db). authority_integration inp i)"
  by (auto simp: durable_authority_def list_ex_iff)

text \<open>A finalized row is no longer pending, so the second finalize of a lease finds nothing.\<close>

lemma finalize_returning:
  assumes "distinct (map l_id leases)"
  shows "length (sql_returning (finalize_row now inp pl expires audit) leases) = 1
    \<longleftrightarrow> (\<exists>l\<in>set leases. finalize_row now inp pl expires audit l \<noteq> None)"
proof -
  let ?f = "finalize_row now inp pl expires audit"
  have none: "?f l = None" if "l_id l \<noteq> a_lease inp" for l
    using that by (simp add: finalize_row_def lease_matches_def)
  have le: "length (sql_returning ?f ls) \<le> length (filter (\<lambda>l. l_id l = a_lease inp) ls)" for ls
    by (induction ls) (auto simp: sql_returning_def none split: option.splits)
  have "length (filter (\<lambda>l. l_id l = a_lease inp) leases) \<le> 1"
    using assms
  proof (induction leases)
    case (Cons l ls)
    then have "filter (\<lambda>x. l_id x = a_lease inp) ls = []" if "l_id l = a_lease inp"
      using that by (force simp: filter_empty_conv)
    with Cons show ?case by auto
  qed simp
  with le [of leases] have "length (sql_returning ?f leases) \<le> 1" by simp
  moreover have "sql_returning ?f leases = [] \<longleftrightarrow> (\<forall>l\<in>set leases. ?f l = None)"
    by (induction leases) (auto simp: sql_returning_def split: option.splits)
  ultimately show ?thesis by (cases "sql_returning ?f leases") auto
qed

text \<open>
C5. A credential is delivered only under the authority it was reserved for. When the last check before
delivery passes, the member, connection and integration rows carry no pending revocation and no claim,
have the role, revision and generation the request was made with, and the lease row is live, no longer
pending, unexpired, and of that member, connection, integration and mode. And starting any revocation
gate on that connection, even before the lease is read again, makes the check fail.
\<close>

theorem delivery_needs_live_authority:
  assumes "managed_lease_still_deliverable now inp pl audit db leases"
  shows "(\<exists>m\<in>set (la_members db). m_id m = a_member inp \<and> m_role m = role_name (a_role inp)
            \<and> m_pending_at m = None \<and> m_claim_id m = None)
    \<and> (\<exists>c\<in>set (la_connections db). c_id c = a_conn inp \<and> c_revision c = a_revision inp
            \<and> c_pending_at c = None \<and> c_claim_id c = None \<and> c_deleted_at c = None)
    \<and> (\<exists>i\<in>set (la_integrations db). i_id i = a_integration inp \<and> i_generation i = a_generation inp
            \<and> i_pending_at i = None \<and> i_claim_id i = None \<and> i_revoked_at i = None)
    \<and> (\<exists>l\<in>set leases. l_id l = a_lease inp \<and> l_user l = a_user inp \<and> l_mode l = a_mode inp \<and> live l
            \<and> l_kind l \<noteq> ''pending'' \<and> now < l_expires l)
    \<and> \<not> managed_lease_still_deliverable now inp pl audit
         (db\<lparr>la_connections := sql_update (claim_connection (a_org inp) (a_conn inp) t i) (la_connections db)\<rparr>) leases"
proof -
  note d = deliverable_row [OF assms]
  let ?db = "db\<lparr>la_connections := sql_update (claim_connection (a_org inp) (a_conn inp) t i) (la_connections db)\<rparr>"
  have "\<not> authority_connection inp c" if "c \<in> set (la_connections ?db)" for c
  proof
    assume a: "authority_connection inp c"
    from that obtain c0 where
      c0: "c = (case claim_connection (a_org inp) (a_conn inp) t i c0 of None \<Rightarrow> c0 | Some c' \<Rightarrow> c')"
      by (auto simp: sql_update_def)
    show False
    proof (cases "claim_connection (a_org inp) (a_conn inp) t i c0")
      case None
      with a c0 show False
        by (simp add: authority_connection_def claim_connection_def claim_gate_def connection_gate_def)
    next
      case (Some c')
      with connection_rows.claim_pending [OF this] a c0 show False
        by (simp add: authority_connection_def connection_gate_def)
    qed
  qed
  then have "\<not> durable_authority now inp ?db"
    using durable_authority_parts [of now inp ?db] by blast
  then have "\<not> managed_lease_still_deliverable now inp pl audit ?db leases"
    using deliverable_row by blast
  moreover from d durable_authority_parts [of now inp db] show ?thesis
    using calculation
    by (auto simp: authority_member_def authority_connection_def authority_integration_def lease_matches_def)
qed

definition example_authority :: lease_authority where
  "example_authority = \<lparr>a_lease = ''L'', a_org = ''o'', a_member = ''m'', a_user = ''u'', a_session = ''s'',
     a_role = Editor, a_conn = ''c'', a_revision = 4, a_resource = ''r'', a_engine = ''postgres'',
     a_integration = ''i'', a_generation = 2, a_conn_provider = ''neon'', a_provider = ''neon'', a_mode = WriteAccess\<rparr>"

definition example_lease_db :: lease_authority_db where
  "example_lease_db =
     \<lparr>la_sessions = [\<lparr>session_id = ''s'', session_user = ''u'', session_expires_at = 900\<rparr>],
      la_members = [\<lparr>m_id = ''m'', m_org = ''o'', m_user = ''u'', m_role = ''editor'', m_pending_at = None,
        m_claim_id = None, m_claimed_at = None\<rparr>],
      la_connections = [example_connection\<lparr>c_credential_mode := ''managed'', c_provider := Some ''neon'',
        c_integration_id := Some ''i'', c_resource_id := Some ''r''\<rparr>],
      la_grants = [\<lparr>g_org = ''o'', g_connection = ''c'', g_member = ''m'', g_capability = ''use''\<rparr>],
      la_integrations = [\<lparr>i_id = ''i'', i_org = ''o'', i_status = ''active'', i_provider = ''neon'',
        i_granted_scope = None, i_revoked_at = None, i_pending_at = None, i_claim_id = None,
        i_claimed_at = None, i_generation = 2, i_refresh_phase = ''idle''\<rparr>],
      la_resources = [\<lparr>r_id = ''r'', r_org = ''o'', r_provider = ''neon'', r_manifest = ''{}'', rr_write = True\<rparr>],
      la_profiles = [\<lparr>p_org = ''o'', p_lifecycle = ''active'', p_deletion_requested_at = None\<rparr>]\<rparr>"

lemmas lease_eval =
  example_authority_def example_lease_db_def example_connection_def durable_authority_def authority_session_def
  authority_member_def authority_connection_def authority_integration_def authority_resource_def
  capability_predicate_def connection_grant_predicate_def free_slot_def schema_busy_def duplicate_lease_def
  pending_lease_def pending_lease_seconds_def live_def reserve_managed_lease_if_unblocked_def Let_def

lemma example_authority_holds: "durable_authority 100 example_authority example_lease_db"
  by (simp add: lease_eval)

theorem reservation_exact_witness:
  "a_lease example_authority \<notin> l_id ` set []
   \<and> snd (reserve_managed_lease_if_unblocked 100 example_authority example_lease_db []) = Reserved"
proof -
  have r: "reserve_managed_lease_if_unblocked 100 example_authority example_lease_db [] =
      ([pending_lease 100 example_authority 1], Reserved)"
    using example_authority_holds
    by (simp add: reserve_managed_lease_if_unblocked_def Let_def free_slot_def schema_busy_def duplicate_lease_def)
  show ?thesis
    using reservation_exact [of 100 example_authority example_lease_db "[]"] unfolding r by simp
qed

definition example_provider_lease :: provider_lease where
  "example_provider_lease = \<lparr>pl_credential_id = ''x'', pl_kind = ''role'', pl_expires = Some 700\<rparr>"

definition example_lease :: lease_row where
  "example_lease = (pending_lease 100 example_authority 1)
     \<lparr>l_credential_id := ''x'', l_kind := ''role'', l_audit := Some ''p'', l_expires := 700\<rparr>"

theorem delivery_needs_live_authority_witness:
  "managed_lease_still_deliverable 100 example_authority example_provider_lease ''p'' example_lease_db [example_lease]
   \<and> \<not> managed_lease_still_deliverable 100 example_authority example_provider_lease ''p''
        (example_lease_db\<lparr>la_connections := sql_update (claim_connection ''o'' ''c'' 50 ''g'') (la_connections example_lease_db)\<rparr>)
        [example_lease]"
proof -
  have h: "managed_lease_still_deliverable 100 example_authority example_provider_lease ''p'' example_lease_db [example_lease]"
    using example_authority_holds
    by (simp add: managed_lease_still_deliverable_def example_provider_lease_def example_lease_def
        pending_lease_def live_def lease_matches_def)
  have "a_org example_authority = ''o''" "a_conn example_authority = ''c''"
    by (simp_all add: example_authority_def)
  with h delivery_needs_live_authority [OF h, of 50 "''g''"] show ?thesis by simp
qed

end
