(* ===== verification/LeaseCleanup.thy ===== *)
theory LeaseCleanup
  imports ManagedLease
begin

text \<open>
  Revocation of expired credentials (\<open>workspace-cloud/lib/provider-integrations/lease-cleanup.ts\<close>
  with the delays of \<open>domain.ts\<close> beside it). Calls to a credential provider are an argument that
  gives their outcome; the clock is an argument. The lease table is that of the issuance theory, and
  the invariants below are over both theories' operations.
\<close>

section \<open>Claiming, persisting, revoking\<close>

definition cleanup_claim_stale_seconds :: int where
  "cleanup_claim_stale_seconds = 2 * 60"

text \<open>\<open>managedLeaseCleanupRetryDelayMs\<close>: \<open>None\<close> where it throws.\<close>

definition managed_lease_cleanup_retry_delay_ms :: "nat \<Rightarrow> int option" where
  "managed_lease_cleanup_retry_delay_ms attempt =
     (if attempt < 1 then None else Some (min (60 * 1000 * 2 ^ min (attempt - 1) 16) (60 * 60 * 1000)))"

record cleanup_row =
  k_lease :: lease_row
  k_conn_org :: string
  k_conn_integration :: "string option"
  k_attempt :: "nat option"

definition managed_lease_authority_matches ::
  "string \<Rightarrow> string \<Rightarrow> string \<Rightarrow> string option \<Rightarrow> string \<Rightarrow> string \<Rightarrow> string \<Rightarrow> bool" where
  "managed_lease_authority_matches lease_org conn_org lease_integ conn_integ integ_org lease_prov integ_prov \<longleftrightarrow>
     conn_org = lease_org \<and> conn_integ = Some lease_integ \<and> integ_org = lease_org \<and> integ_prov = lease_prov"

text \<open>\<open>persistLeaseCleanup\<close>: revoke, or reschedule when \<open>next\<close> is given, under the claim's fence.\<close>

definition persist_row :: "int \<Rightarrow> cleanup_row \<Rightarrow> int option \<Rightarrow> lease_row \<Rightarrow> lease_row option" where
  "persist_row now k next l =
     (if l_id l = l_id (k_lease k) \<and> l_org l = l_org (k_lease k) \<and> l_conn l = l_conn (k_lease k)
        \<and> l_integration l = l_integration (k_lease k) \<and> live l
        \<and> (case k_attempt k of None \<Rightarrow> True | Some a \<Rightarrow> l_attempts l = a \<and> l_claimed l \<noteq> None)
      then Some (l\<lparr>l_claimed := None, l_next_attempt := next,
                   l_revoked := (case next of Some _ \<Rightarrow> l_revoked l | None \<Rightarrow> Some now)\<rparr>)
      else None)"

definition persist_lease_cleanup :: "int \<Rightarrow> cleanup_row \<Rightarrow> int option \<Rightarrow> lease_row list \<Rightarrow> lease_row list \<times> bool" where
  "persist_lease_cleanup now k next leases =
     (sql_update (persist_row now k next) leases, length (sql_returning (persist_row now k next) leases) = 1)"

definition mark_lease_revoked :: "int \<Rightarrow> cleanup_row \<Rightarrow> lease_row list \<Rightarrow> lease_row list \<times> bool" where
  "mark_lease_revoked now k leases = persist_lease_cleanup now k None leases"

definition schedule_lease_cleanup_retry :: "int \<Rightarrow> cleanup_row \<Rightarrow> lease_row list \<Rightarrow> lease_row list \<times> bool" where
  "schedule_lease_cleanup_retry now k leases =
     (case Option.bind (k_attempt k) managed_lease_cleanup_retry_delay_ms of
        None \<Rightarrow> (leases, False)
      | Some delay \<Rightarrow> persist_lease_cleanup now k (Some (now + delay)) leases)"

text \<open>What the provider has to do before a lease may be marked revoked.\<close>

datatype provider_call =
    RevokePlanetScale string string
  | RevokeNeon string
  | RevokeNeonReserved string string
  | RevokeVault string

datatype call_outcome = CallOk | RequestError nat | OtherError

datatype lease_plan = PlanThrow | PlanDefer | PlanMark | PlanCall provider_call

definition lease_plan :: "int \<Rightarrow> lease_integration option \<Rightarrow> cleanup_row \<Rightarrow> lease_plan" where
  "lease_plan now integration k =
     (let l = k_lease k; expired = (l_expires l \<le> now)
      in case integration of
           None \<Rightarrow> PlanThrow
         | Some i \<Rightarrow>
             if \<not> managed_lease_authority_matches (l_org l) (k_conn_org k) (l_integration l)
                  (k_conn_integration k) (i_org i) (l_provider l) (i_provider i)
             then PlanThrow
             else if i_provider i = ''gcpCloudSql'' then (if expired then PlanMark else PlanDefer)
             else if l_kind l = ''pending'' then
               (if \<not> expired then PlanDefer
                else if i_provider i = ''neon'' then PlanCall (RevokeNeonReserved (l_user l) (l_id l))
                else PlanMark)
             else if i_provider i = ''planetScale'' \<and> (l_kind l = ''role'' \<or> l_kind l = ''password'')
               then PlanCall (RevokePlanetScale (l_kind l) (l_credential_id l))
             else if i_provider i = ''neon'' \<and> l_kind l = ''role'' then PlanCall (RevokeNeon (l_credential_id l))
             else if i_provider i = ''vault'' \<and> l_kind l = ''role'' then PlanCall (RevokeVault (l_credential_id l))
             else PlanThrow)"

text \<open>
  One iteration of \<open>revokeLeaseRows\<close>. \<open>call\<close> gives the outcome of parsing the resource and calling
  the provider; recording a deferral is an audit insert, whose success is \<open>audit_ok\<close>. The result is
  the table and how much \<open>revoked\<close> and \<open>deferred\<close> grow.
\<close>

definition lease_failure ::
  "int \<Rightarrow> cleanup_row \<Rightarrow> bool \<Rightarrow> call_outcome \<Rightarrow> lease_row list \<Rightarrow> lease_row list \<times> nat \<times> nat" where
  "lease_failure now k audit_ok outcome leases =
     (if l_provider (k_lease k) \<noteq> ''vault'' \<and> outcome = RequestError 404
      then (let (leases', done) = mark_lease_revoked now k leases in (leases', of_bool done, 0))
      else if k_attempt k \<noteq> None
      then (let (leases', done) = schedule_lease_cleanup_retry now k leases in (leases', 0, of_bool done))
      else (leases, 0, of_bool audit_ok))"

definition revoke_lease_row ::
  "int \<Rightarrow> lease_integration option \<Rightarrow> (provider_call \<Rightarrow> call_outcome) \<Rightarrow> bool \<Rightarrow> cleanup_row \<Rightarrow> lease_row list
     \<Rightarrow> lease_row list \<times> nat \<times> nat" where
  "revoke_lease_row now integration call audit_ok k leases =
     (case lease_plan now integration k of
        PlanThrow \<Rightarrow> lease_failure now k audit_ok OtherError leases
      | PlanDefer \<Rightarrow> (leases, 0, of_bool audit_ok)
      | PlanMark \<Rightarrow>
          (let (leases', done) = mark_lease_revoked now k leases in (leases', of_bool done, 0))
      | PlanCall c \<Rightarrow>
          (if call c = CallOk
           then (let (leases', done) = mark_lease_revoked now k leases in (leases', of_bool done, 0))
           else lease_failure now k audit_ok (call c) leases))"

definition usable_integration :: "lease_integration list \<Rightarrow> string \<Rightarrow> lease_integration option" where
  "usable_integration integs i =
     find (\<lambda>r. i_id r = i \<and> i_status r \<in> {''active'', ''reconnect_required''} \<and> i_revoked_at r = None) integs"

fun revoke_lease_rows ::
  "int \<Rightarrow> lease_integration list \<Rightarrow> (provider_call \<Rightarrow> call_outcome) \<Rightarrow> bool \<Rightarrow> cleanup_row list \<Rightarrow> lease_row list
     \<Rightarrow> lease_row list \<times> nat \<times> nat" where
  "revoke_lease_rows now integs call audit_ok [] leases = (leases, 0, 0)"
| "revoke_lease_rows now integs call audit_ok (k # ks) leases =
     (let (leases1, r1, d1) = revoke_lease_row now (usable_integration integs (l_integration (k_lease k)))
                                call audit_ok k leases;
          (leases2, r2, d2) = revoke_lease_rows now integs call audit_ok ks leases1
      in (leases2, r1 + r2, d1 + d2))"

section \<open>Claiming expired leases\<close>

definition ready_at :: "lease_row \<Rightarrow> int" where
  "ready_at l = (case l_next_attempt l of Some t \<Rightarrow> t | None \<Rightarrow> l_expires l)"

definition cleanup_ready :: "int \<Rightarrow> string option \<Rightarrow> lease_row \<Rightarrow> bool" where
  "cleanup_ready now integration l \<longleftrightarrow>
     live l \<and> l_expires l \<le> now
     \<and> (case l_next_attempt l of None \<Rightarrow> True | Some t \<Rightarrow> t \<le> now)
     \<and> (case l_claimed l of None \<Rightarrow> True | Some t \<Rightarrow> t < now - cleanup_claim_stale_seconds * 1000)
     \<and> (case integration of None \<Rightarrow> True | Some i \<Rightarrow> l_integration l = i)"

text \<open>\<open>row_number() OVER (PARTITION BY organization_id ORDER BY \<dots>)\<close>.\<close>

definition tenant_key :: "lease_row \<Rightarrow> nat \<times> int \<times> int \<times> string" where
  "tenant_key l = (l_attempts l, ready_at l, l_expires l, l_id l)"

definition tenant_rank :: "lease_row list \<Rightarrow> lease_row \<Rightarrow> nat" where
  "tenant_rank eligible l =
     Suc (length (filter (\<lambda>s. l_org s = l_org l \<and> tenant_key s < tenant_key l) eligible))"

definition claim_key :: "lease_row list \<Rightarrow> lease_row \<Rightarrow> nat \<times> nat \<times> int \<times> string" where
  "claim_key eligible l = (l_attempts l, tenant_rank eligible l, ready_at l, l_id l)"

text \<open>The clean-up rows join the connection of the lease.\<close>

definition lease_connections :: "gated_connection list \<Rightarrow> lease_row \<Rightarrow> gated_connection list" where
  "lease_connections conns l = filter (\<lambda>c. c_id c = l_conn l) conns"

definition selected_leases :: "int \<Rightarrow> string option \<Rightarrow> nat \<Rightarrow> gated_connection list \<Rightarrow> lease_row list \<Rightarrow> lease_row list" where
  "selected_leases now integration limit conns leases =
     (let eligible = filter (\<lambda>l. cleanup_ready now integration l \<and> lease_connections conns l \<noteq> []) leases
      in take limit (js_sort (cmp_key (claim_key eligible)) eligible))"

definition claim_lease :: "int \<Rightarrow> lease_row \<Rightarrow> lease_row" where
  "claim_lease now l = l\<lparr>l_claimed := Some now, l_attempts := Suc (l_attempts l)\<rparr>"

definition cleanup_row_of :: "gated_connection list \<Rightarrow> nat option \<Rightarrow> lease_row \<Rightarrow> cleanup_row option" where
  "cleanup_row_of conns attempt l =
     map_option (\<lambda>c. \<lparr>k_lease = l, k_conn_org = c_org c, k_conn_integration = c_integration_id c, k_attempt = attempt\<rparr>)
       (first_row (lease_connections conns l))"

definition claim_expired_managed_leases ::
  "int \<Rightarrow> string option \<Rightarrow> nat \<Rightarrow> gated_connection list \<Rightarrow> lease_row list \<Rightarrow> lease_row list \<times> cleanup_row list" where
  "claim_expired_managed_leases now integration limit conns leases =
     (let selected = selected_leases now integration limit conns leases
      in (map (\<lambda>l. if l_id l \<in> l_id ` set selected then claim_lease now l else l) leases,
          List.map_filter (\<lambda>l. cleanup_row_of conns (Some (Suc (l_attempts l))) (claim_lease now l)) selected))"

text \<open>\<open>cleanupExpiredManagedLeases\<close>: \<open>None\<close> for a limit outside 1 to 100, where it throws.\<close>

definition cleanup_expired_managed_leases ::
  "int \<Rightarrow> string option \<Rightarrow> nat \<Rightarrow> gated_connection list \<Rightarrow> lease_integration list \<Rightarrow> (provider_call \<Rightarrow> call_outcome)
     \<Rightarrow> bool \<Rightarrow> lease_row list \<Rightarrow> (lease_row list \<times> nat \<times> nat \<times> nat) option" where
  "cleanup_expired_managed_leases now integration limit conns integs call audit_ok leases =
     (if limit < 1 \<or> 100 < limit then None
      else (let (claimed, rows) = claim_expired_managed_leases now integration limit conns leases;
                (leases', revoked, deferred) = revoke_lease_rows now integs call audit_ok rows claimed
            in Some (leases', length rows, revoked, deferred)))"

text \<open>\<open>revokeActiveLeases\<close>: the live leases the filter selects, oldest expiry first, with no claim.\<close>

record lease_filter =
  f_org :: string
  f_lease :: "string option"
  f_user :: "string option"
  f_conn :: "string option"
  f_integration :: "string option"
  f_mode :: "managed_access_mode option"
  f_mutation_only :: bool

definition filter_selects :: "lease_filter \<Rightarrow> lease_row \<Rightarrow> bool" where
  "filter_selects f l \<longleftrightarrow>
     l_org l = f_org f \<and> live l
     \<and> (case f_lease f of None \<Rightarrow> True | Some x \<Rightarrow> l_id l = x)
     \<and> (case f_user f of None \<Rightarrow> True | Some x \<Rightarrow> l_user l = x)
     \<and> (case f_conn f of None \<Rightarrow> True | Some x \<Rightarrow> l_conn l = x)
     \<and> (case f_integration f of None \<Rightarrow> True | Some x \<Rightarrow> l_integration l = x)
     \<and> (if f_mutation_only f then l_mode l \<in> {WriteAccess, SchemaAccess}
        else case f_mode f of None \<Rightarrow> True | Some x \<Rightarrow> l_mode l = x)"

definition revoke_active_leases ::
  "int \<Rightarrow> lease_filter \<Rightarrow> gated_connection list \<Rightarrow> lease_integration list \<Rightarrow> (provider_call \<Rightarrow> call_outcome)
     \<Rightarrow> bool \<Rightarrow> lease_row list \<Rightarrow> lease_row list \<times> nat \<times> nat" where
  "revoke_active_leases now f conns integs call audit_ok leases =
     (let selected = js_sort (cmp_key l_expires) (filter (filter_selects f) leases)
      in revoke_lease_rows now integs call audit_ok (List.map_filter (cleanup_row_of conns None) selected) leases)"

section \<open>Runs of the lease table\<close>

datatype lease_event =
    ReserveLease int lease_authority lease_authority_db
  | FinalizeLease int lease_authority provider_lease string lease_authority_db
  | ClaimLeases int "string option" nat "gated_connection list"
  | PersistLease int cleanup_row "int option"

fun lease_step :: "lease_row list \<Rightarrow> lease_event \<Rightarrow> lease_row list" where
  "lease_step leases (ReserveLease now inp db) = fst (reserve_managed_lease_if_unblocked now inp db leases)"
| "lease_step leases (FinalizeLease now inp pl audit db) =
     fst (finalize_managed_lease_if_unblocked now inp pl audit db leases)"
| "lease_step leases (ClaimLeases now integration limit conns) =
     fst (claim_expired_managed_leases now integration limit conns leases)"
| "lease_step leases (PersistLease now k next) = fst (persist_lease_cleanup now k next leases)"

lemma claim_inv:
  assumes "lease_inv leases"
  shows "lease_inv (fst (claim_expired_managed_leases now integration limit conns leases))"
  unfolding claim_expired_managed_leases_def Let_def fst_conv
  by (rule lease_inv_map [OF _ assms]) (simp add: keeps_lease_def claim_lease_def slot_key_def live_def)

lemma persist_inv:
  assumes "lease_inv leases"
  shows "lease_inv (fst (persist_lease_cleanup now k next leases))"
  unfolding persist_lease_cleanup_def fst_conv
  by (rule sql_update_keeps [OF _ assms])
    (auto simp: persist_row_def slot_key_def live_def split: if_splits)

interpretation lease_table: invariant_machine lease_step lease_inv
proof
  show "lease_inv (lease_step leases e)" if "lease_inv leases" for leases e
    using that by (cases e) (simp_all add: reserve_inv finalize_inv claim_inv persist_inv)
qed

text \<open>
C6. However reservations, finalizations, clean-up claims and revocations interleave, from an empty
table, a member never holds more than five live credentials on a connection, a connection never has
two live schema credentials, and lease ids stay unique.
\<close>

theorem lease_limits_hold:
  "let leases = foldl lease_step [] es
   in length (filter (\<lambda>l. live l \<and> l_org l = oid \<and> l_conn l = conn \<and> l_user l = u) leases) \<le> 5
      \<and> length (filter (\<lambda>l. live l \<and> l_mode l = SchemaAccess \<and> l_org l = oid \<and> l_conn l = conn) leases) \<le> 1
      \<and> distinct (map l_id leases)"
  using lease_table.run_inv [of "[]" es] filter_card_slots filter_card_schema
  unfolding Let_def live_schema_def lease_inv_def by fastforce

section \<open>The clean-up fence\<close>

text \<open>The lease exists and every row with its id has been claimed at least \<open>n\<close> times.\<close>

definition at_least :: "string \<Rightarrow> nat \<Rightarrow> lease_row list \<Rightarrow> bool" where
  "at_least lid n leases \<longleftrightarrow> lid \<in> l_id ` set leases \<and> (\<forall>l\<in>set leases. l_id l = lid \<longrightarrow> n \<le> l_attempts l)"

lemma at_least_map:
  assumes "\<And>l. l_id (f l) = l_id l" and "\<And>l. l_attempts l \<le> l_attempts (f l)" and "at_least lid n leases"
  shows "at_least lid n (map f leases)"
  using assms(3) order_trans [OF _ assms(2)] by (auto simp: at_least_def assms(1) image_image)

lemma at_least_update:
  assumes "\<And>l l'. f l = Some l' \<Longrightarrow> l_id l' = l_id l \<and> l_attempts l' = l_attempts l" and "at_least lid n leases"
  shows "at_least lid n (sql_update f leases)"
  unfolding sql_update_def by (rule at_least_map) (auto simp: assms split: option.splits)

interpretation attempts: invariant_machine lease_step "at_least lid n" for lid n
proof
  show "at_least lid n (lease_step leases e)" if inv: "at_least lid n leases" for leases e
  proof (cases e)
    case (ReserveLease now inp db)
    with inv show ?thesis
      by (auto simp: reserve_managed_lease_if_unblocked_def Let_def at_least_def duplicate_lease_def
          list_ex_iff pending_lease_def split: option.splits)
  next
    case (FinalizeLease now inp pl audit db)
    with inv show ?thesis
      by (auto simp: finalize_managed_lease_if_unblocked_def finalize_row_def split: option.splits if_splits
          intro!: at_least_update)
  next
    case (ClaimLeases now integration limit conns)
    with inv show ?thesis
      by (auto simp: claim_expired_managed_leases_def Let_def claim_lease_def intro!: at_least_map)
  next
    case (PersistLease now k t)
    with inv show ?thesis
      by (auto simp: persist_lease_cleanup_def persist_row_def split: if_splits intro!: at_least_update)
  qed
qed

lemma selected_subset: "set (selected_leases now integration limit conns leases)
    \<subseteq> {l \<in> set leases. cleanup_ready now integration l \<and> lease_connections conns l \<noteq> []}"
  unfolding selected_leases_def Let_def using set_take_subset by fastforce

lemma set_map_filter: "set (List.map_filter f xs) = {y. \<exists>x\<in>set xs. f x = Some y}"
  by (induction xs) (auto simp: List.map_filter_simps split: option.splits)

lemma claimed_row:
  assumes "k \<in> set (snd (claim_expired_managed_leases now integration limit conns leases))"
  obtains l where "l \<in> set leases" "l \<in> set (selected_leases now integration limit conns leases)"
    "k_lease k = claim_lease now l" "k_attempt k = Some (Suc (l_attempts l))"
proof -
  from assms obtain l where "l \<in> set (selected_leases now integration limit conns leases)"
    and "k_lease k = claim_lease now l" "k_attempt k = Some (Suc (l_attempts l))"
    unfolding claim_expired_managed_leases_def Let_def snd_conv set_map_filter cleanup_row_of_def by auto
  with that selected_subset [of now integration limit conns leases] show ?thesis by blast
qed

lemma claim_at_least:
  assumes "k \<in> set (snd (claim_expired_managed_leases now integration limit conns leases))"
    and "at_least (l_id (k_lease k)) n leases"
  shows "at_least (l_id (k_lease k)) (Suc n) (fst (claim_expired_managed_leases now integration limit conns leases))"
proof -
  from claimed_row [OF assms(1)] obtain l where l: "l \<in> set leases"
    "l \<in> set (selected_leases now integration limit conns leases)" "k_lease k = claim_lease now l" by metis
  have "l_id (k_lease k) = l_id l" using l(3) by (simp add: claim_lease_def)
  then have sel: "l_id (k_lease k) \<in> l_id ` set (selected_leases now integration limit conns leases)"
    using l(2) by simp
  have keep: "l_id (claim_lease now x) = l_id x" "l_attempts (claim_lease now x) = Suc (l_attempts x)" for x
    by (simp_all add: claim_lease_def)
  from assms(2) have all: "n \<le> l_attempts x" if "x \<in> set leases" "l_id x = l_id (k_lease k)" for x
    using that by (simp add: at_least_def)
  let ?new = "fst (claim_expired_managed_leases now integration limit conns leases)"
  have "map l_id ?new = map l_id leases"
    by (simp add: claim_expired_managed_leases_def Let_def keep)
  then have "l_id ` set ?new = l_id ` set leases" by (metis set_map)
  with assms(2) have "l_id (k_lease k) \<in> l_id ` set ?new" by (simp add: at_least_def)
  moreover have "Suc n \<le> l_attempts y" if "y \<in> set ?new" "l_id y = l_id (k_lease k)" for y
    using that sel all by (auto simp: claim_expired_managed_leases_def Let_def keep split: if_splits)
  ultimately show ?thesis by (simp add: at_least_def)
qed

lemma claim_attempt:
  assumes "distinct (map l_id leases)"
    and "k \<in> set (snd (claim_expired_managed_leases now integration limit conns leases))"
  shows "\<exists>a. k_attempt k = Some a \<and> at_least (l_id (k_lease k)) a (fst (claim_expired_managed_leases now integration limit conns leases))"
proof -
  from claimed_row [OF assms(2)] obtain l where l: "l \<in> set leases"
    "k_lease k = claim_lease now l" "k_attempt k = Some (Suc (l_attempts l))" by metis
  then have "at_least (l_id (k_lease k)) (l_attempts l) leases"
    using assms(1) by (auto simp: at_least_def claim_lease_def distinct_map inj_on_def)
  with claim_at_least [OF assms(2)] l(3) show ?thesis by blast
qed

lemma persist_fenced:
  assumes "at_least (l_id (k_lease k)) (Suc a) leases" and "k_attempt k = Some a"
  shows "persist_lease_cleanup now k next leases = (leases, False)"
proof -
  have none: "persist_row now k next l = None" if "l \<in> set leases" for l
    using that assms by (auto simp: persist_row_def at_least_def)
  have "sql_update (persist_row now k next) leases = leases"
    unfolding sql_update_def by (rule map_idI) (simp add: none)
  moreover have "sql_returning (persist_row now k next) leases = []"
    unfolding sql_returning_def by (simp add: none)
  ultimately show ?thesis by (simp add: persist_lease_cleanup_def)
qed

text \<open>
C7. A clean-up worker that was overtaken cannot write. Once a second claim has taken a lease, the
first worker's attempt to revoke or to reschedule it changes nothing and reports failure, whatever
other events ran between the two claims and after them.
\<close>

theorem stale_cleanup_is_fenced:
  assumes "lease_inv leases"
    and "k \<in> set (snd (claim_expired_managed_leases t1 i1 n1 conns1 leases))"
    and "leases2 = foldl lease_step (fst (claim_expired_managed_leases t1 i1 n1 conns1 leases)) es1"
    and "k2 \<in> set (snd (claim_expired_managed_leases t2 i2 n2 conns2 leases2))"
    and "l_id (k_lease k2) = l_id (k_lease k)"
    and "leases3 = foldl lease_step (fst (claim_expired_managed_leases t2 i2 n2 conns2 leases2)) es2"
  shows "persist_lease_cleanup now k next leases3 = (leases3, False)"
proof -
  from claim_attempt [OF _ assms(2)] assms(1) obtain a where a: "k_attempt k = Some a"
    and first: "at_least (l_id (k_lease k)) a (fst (claim_expired_managed_leases t1 i1 n1 conns1 leases))"
    by (auto simp: lease_inv_def)
  from attempts.run_inv [OF first] have "at_least (l_id (k_lease k2)) a leases2"
    by (simp add: assms(3,5))
  from attempts.run_inv [OF claim_at_least [OF assms(4) this]]
  have "at_least (l_id (k_lease k)) (Suc a) leases3" by (simp add: assms(5,6))
  from persist_fenced [OF this a] show ?thesis .
qed

text \<open>A lease reserved at time 100 and claimed \<open>a\<close> times, last at \<open>t\<close>.\<close>

definition claimed_lease :: "int option \<Rightarrow> nat \<Rightarrow> lease_row" where
  "claimed_lease t a = (pending_lease 100 example_authority 1)\<lparr>l_claimed := t, l_attempts := a\<rparr>"

definition cleanup_claim :: "int \<Rightarrow> nat \<Rightarrow> cleanup_row" where
  "cleanup_claim t a = \<lparr>k_lease = claimed_lease (Some t) a, k_conn_org = ''o'', k_conn_integration = None,
     k_attempt = Some a\<rparr>"

lemmas cleanup_eval =
  claimed_lease_def cleanup_claim_def claim_expired_managed_leases_def selected_leases_def Let_def
  cleanup_ready_def live_def pending_lease_def pending_lease_seconds_def cleanup_claim_stale_seconds_def
  lease_connections_def cleanup_row_of_def first_row_def claim_lease_def example_authority_def
  List.map_filter_simps example_connection_def

lemma first_example_claim:
  "claim_expired_managed_leases 200000 None 20 [example_connection] [claimed_lease None 0]
     = ([claimed_lease (Some 200000) 1], [cleanup_claim 200000 1])"
  by (simp add: cleanup_eval)

lemma second_example_claim:
  "claim_expired_managed_leases 400000 None 20 [example_connection] [claimed_lease (Some 200000) 1]
     = ([claimed_lease (Some 400000) 2], [cleanup_claim 400000 2])"
  by (simp add: cleanup_eval)

theorem stale_cleanup_is_fenced_witness:
  "snd (persist_lease_cleanup 410000 (cleanup_claim 200000 1) None [claimed_lease (Some 400000) 2]) = False"
proof -
  have inv: "lease_inv [claimed_lease None 0]"
    by (simp add: lease_inv_def claimed_lease_def pending_lease_def slot_key_def live_def live_schema_def)
  have "persist_lease_cleanup 410000 (cleanup_claim 200000 1) None [claimed_lease (Some 400000) 2]
    = ([claimed_lease (Some 400000) 2], False)"
  proof (rule stale_cleanup_is_fenced [OF inv])
    show "cleanup_claim 200000 1 \<in> set (snd (claim_expired_managed_leases 200000 None 20 [example_connection] [claimed_lease None 0]))"
      unfolding first_example_claim by simp
    show "[claimed_lease (Some 200000) 1] =
        foldl lease_step (fst (claim_expired_managed_leases 200000 None 20 [example_connection] [claimed_lease None 0])) []"
      unfolding first_example_claim by simp
    show "cleanup_claim 400000 2 \<in> set (snd (claim_expired_managed_leases 400000 None 20 [example_connection] [claimed_lease (Some 200000) 1]))"
      unfolding second_example_claim by simp
    show "[claimed_lease (Some 400000) 2] =
        foldl lease_step (fst (claim_expired_managed_leases 400000 None 20 [example_connection] [claimed_lease (Some 200000) 1])) []"
      unfolding second_example_claim by simp
    show "l_id (k_lease (cleanup_claim 400000 2)) = l_id (k_lease (cleanup_claim 200000 1))"
      by (simp add: cleanup_claim_def claimed_lease_def)
  qed
  then show ?thesis by simp
qed

section \<open>What a revocation needs\<close>

lemma persist_retry_revokes_nothing:
  "l \<in> set (fst (persist_lease_cleanup now k (Some t) leases)) \<Longrightarrow> \<not> live l \<Longrightarrow> l \<in> set leases"
  by (auto simp: persist_lease_cleanup_def sql_update_def persist_row_def live_def split: if_splits)

lemma schedule_revokes_nothing:
  "l \<in> set (fst (schedule_lease_cleanup_retry now k leases)) \<Longrightarrow> \<not> live l \<Longrightarrow> l \<in> set leases"
  by (auto simp: schedule_lease_cleanup_retry_def dest: persist_retry_revokes_nothing split: option.splits)

lemma failure_revokes:
  assumes "l \<in> set (fst (lease_failure now k audit_ok outcome leases))" "\<not> live l" "l \<notin> set leases"
  shows "outcome = RequestError 404 \<and> l_provider (k_lease k) \<noteq> ''vault''"
  using assms schedule_revokes_nothing [of l now k leases]
  by (auto simp: lease_failure_def case_prod_unfold Let_def split: if_splits)

lemma plan_mark_expired: "lease_plan now integration k = PlanMark \<Longrightarrow> l_expires (k_lease k) \<le> now"
  by (auto simp: lease_plan_def Let_def split: option.splits if_splits)

lemma plan_pending: "l_kind (k_lease k) = ''pending'' \<Longrightarrow> lease_plan now integration k = PlanCall c \<Longrightarrow> l_expires (k_lease k) \<le> now"
  by (auto simp: lease_plan_def Let_def split: option.splits if_splits)

lemma plan_vault:
  "l_provider (k_lease k) = ''vault'' \<Longrightarrow> l_kind (k_lease k) \<noteq> ''pending'' \<Longrightarrow>
     lease_plan now integration k \<in> {PlanThrow, PlanCall (RevokeVault (l_credential_id (k_lease k)))}"
  by (auto simp: lease_plan_def Let_def managed_lease_authority_matches_def split: option.splits)

lemma revoked_by_plan:
  assumes "l \<in> set (fst (revoke_lease_row now integration call audit_ok k leases))" "\<not> live l" "l \<notin> set leases"
  shows "case lease_plan now integration k of
      PlanMark \<Rightarrow> True
    | PlanCall c \<Rightarrow> call c = CallOk \<or> call c = RequestError 404 \<and> l_provider (k_lease k) \<noteq> ''vault''
    | _ \<Rightarrow> False"
  using assms failure_revokes
  by (fastforce simp: revoke_lease_row_def split: lease_plan.splits prod.splits if_splits)

text \<open>
C8. No credential is reported revoked on a guess. When one iteration of \<open>revokeLeaseRows\<close> newly marks a
row revoked, then either nothing at the provider had to be revoked and the lease had expired, or the
provider call it planned succeeded, or it answered 404 and the provider is not Vault. A Vault credential needs
the successful revoke of exactly that credential, and a reservation that never got a credential is
only retired after it expired.
\<close>

theorem revocation_is_earned:
  assumes "l \<in> set (fst (revoke_lease_row now integration call audit_ok k leases))"
    and "\<not> live l" and "l \<notin> set leases"
  shows "((lease_plan now integration k = PlanMark \<and> l_expires (k_lease k) \<le> now)
    \<or> (\<exists>c. lease_plan now integration k = PlanCall c
         \<and> (call c = CallOk \<or> call c = RequestError 404 \<and> l_provider (k_lease k) \<noteq> ''vault'')))
    \<and> (l_provider (k_lease k) = ''vault'' \<and> l_kind (k_lease k) \<noteq> ''pending'' \<longrightarrow>
        call (RevokeVault (l_credential_id (k_lease k))) = CallOk)
    \<and> (l_kind (k_lease k) = ''pending'' \<longrightarrow> l_expires (k_lease k) \<le> now)"
proof (intro conjI impI)
  note r = revoked_by_plan [OF assms]
  show "(lease_plan now integration k = PlanMark \<and> l_expires (k_lease k) \<le> now)
    \<or> (\<exists>c. lease_plan now integration k = PlanCall c
         \<and> (call c = CallOk \<or> call c = RequestError 404 \<and> l_provider (k_lease k) \<noteq> ''vault''))"
    using r plan_mark_expired by (auto split: lease_plan.splits)
  show "call (RevokeVault (l_credential_id (k_lease k))) = CallOk"
    if "l_provider (k_lease k) = ''vault'' \<and> l_kind (k_lease k) \<noteq> ''pending''"
    using r plan_vault [of k now integration] that by auto
  show "l_expires (k_lease k) \<le> now" if "l_kind (k_lease k) = ''pending''"
    using r plan_mark_expired plan_pending [OF that] by (auto split: lease_plan.splits)
qed

definition vault_integration :: lease_integration where
  "vault_integration = \<lparr>i_id = ''i'', i_org = ''o'', i_status = ''active'', i_provider = ''vault'',
        i_granted_scope = None, i_revoked_at = None, i_pending_at = None, i_claim_id = None,
        i_claimed_at = None, i_generation = 2, i_refresh_phase = ''idle''\<rparr>"

definition vault_lease :: lease_row where
  "vault_lease = (claimed_lease (Some 5) 1)\<lparr>l_provider := ''vault'', l_kind := ''role'', l_credential_id := ''v''\<rparr>"

definition vault_row :: cleanup_row where
  "vault_row = \<lparr>k_lease = vault_lease, k_conn_org = ''o'', k_conn_integration = Some ''i'', k_attempt = Some 1\<rparr>"

theorem revocation_is_earned_witness:
  "(\<lambda>c. if c = RevokeVault ''v'' then CallOk else OtherError) (RevokeVault ''v'') = CallOk
   \<and> fst (revoke_lease_row 10 (Some vault_integration) (\<lambda>c. if c = RevokeVault ''v'' then CallOk else OtherError)
       True vault_row [vault_lease]) = [vault_lease\<lparr>l_claimed := None, l_revoked := Some 10\<rparr>]"
proof
  let ?call = "\<lambda>c. if c = RevokeVault ''v'' then CallOk else OtherError"
  show run: "fst (revoke_lease_row 10 (Some vault_integration) ?call True vault_row [vault_lease])
      = [vault_lease\<lparr>l_claimed := None, l_revoked := Some 10\<rparr>]"
    by (simp add: revoke_lease_row_def lease_plan_def vault_integration_def vault_row_def vault_lease_def
        claimed_lease_def pending_lease_def example_authority_def managed_lease_authority_matches_def Let_def
        mark_lease_revoked_def persist_lease_cleanup_def sql_update_def persist_row_def live_def)
  have "vault_lease\<lparr>l_claimed := None, l_revoked := Some 10\<rparr> \<in>
      set (fst (revoke_lease_row 10 (Some vault_integration) ?call True vault_row [vault_lease]))"
    unfolding run by simp
  from revocation_is_earned [OF this] show "?call (RevokeVault ''v'') = CallOk"
    by (simp add: vault_row_def vault_lease_def live_def claimed_lease_def pending_lease_def)
qed

section \<open>Fair batches and bounded delays\<close>

lemma retry_delay_bounds:
  "managed_lease_cleanup_retry_delay_ms a = Some d \<Longrightarrow> 60 * 1000 \<le> d \<and> d \<le> 60 * 60 * 1000"
  by (auto simp: managed_lease_cleanup_retry_delay_ms_def min_def split: if_splits)

lemma sorted_wrt_take_drop:
  "sorted_wrt P xs \<Longrightarrow> x \<in> set (take n xs) \<Longrightarrow> y \<in> set (drop n xs) \<Longrightarrow> P x y"
  by (metis append_take_drop_id sorted_wrt_append)

text \<open>
Clean-up batches are fair between tenants. At most \<open>limit\<close> leases are claimed, and only ready ones; a
ready lease is left out only when the batch is full, and then every lease that was taken has fewer
attempts, or as many attempts and no later rank within its own tenant. So a tenant with many failing or
expired leases cannot push another tenant's next lease out of the batch. A lease whose revocation
failed is retried after at least one minute and at most one hour.
\<close>

theorem cleanup_batch_is_fair:
  assumes "eligible = filter (\<lambda>l. cleanup_ready now integration l \<and> lease_connections conns l \<noteq> []) leases"
    and "selected = selected_leases now integration limit conns leases"
  shows "length selected = min limit (length eligible) \<and> set selected \<subseteq> set eligible
    \<and> (l \<in> set eligible \<and> l \<notin> set selected \<and> s \<in> set selected \<longrightarrow>
      length selected = limit \<and>
      (l_attempts s < l_attempts l \<or> l_attempts s = l_attempts l \<and> tenant_rank eligible s \<le> tenant_rank eligible l))
    \<and> (k_attempt k = Some a \<and> l' \<in> set (fst (schedule_lease_cleanup_retry now k leases)) \<and> l' \<notin> set leases \<longrightarrow>
      (\<exists>t. l_next_attempt l' = Some t \<and> now + 60 * 1000 \<le> t \<and> t \<le> now + 60 * 60 * 1000))"
proof (intro conjI impI; (elim conjE)?)
  let ?sorted = "js_sort (cmp_key (claim_key eligible)) eligible"
  have sel: "selected = take limit ?sorted"
    unfolding assms selected_leases_def Let_def ..
  show len: "length selected = min limit (length eligible)" by (simp add: sel min.commute)
  show "set selected \<subseteq> set eligible" unfolding sel using set_take_subset by fastforce
  {
    assume that: "l \<in> set eligible" "l \<notin> set selected" "s \<in> set selected"
    from that have drop: "l \<in> set (drop limit ?sorted)"
      unfolding sel by (metis Un_iff append_take_drop_id set_append set_js_sort)
    then have "limit < length ?sorted" by (metis drop_eq_Nil2 empty_iff empty_set linorder_not_le)
    then show "length selected = limit" by (simp add: sel)
    have "claim_key eligible s \<le> claim_key eligible l"
      using sorted_wrt_take_drop [OF by_key.sorted_sort _ drop] that(3) unfolding sel by force
    then show "l_attempts s < l_attempts l \<or> l_attempts s = l_attempts l \<and> tenant_rank eligible s \<le> tenant_rank eligible l"
      by (auto simp: claim_key_def less_eq_prod_def less_prod_def split: if_splits)
  }
  show "\<exists>t. l_next_attempt l' = Some t \<and> now + 60 * 1000 \<le> t \<and> t \<le> now + 60 * 60 * 1000"
    if "k_attempt k = Some a" "l' \<in> set (fst (schedule_lease_cleanup_retry now k leases))" "l' \<notin> set leases"
    using that retry_delay_bounds
    by (fastforce simp: schedule_lease_cleanup_retry_def persist_lease_cleanup_def sql_update_def persist_row_def
        split: option.splits if_splits)
qed

theorem cleanup_batch_is_fair_witness:
  "length (selected_leases 200000 None 1 [example_connection] [claimed_lease None 0, claimed_lease None 3]) = 1"
proof -
  have "length (selected_leases 200000 None 1 [example_connection] [claimed_lease None 0, claimed_lease None 3])
    = min 1 (length (filter (\<lambda>l. cleanup_ready 200000 None l \<and> lease_connections [example_connection] l \<noteq> [])
        [claimed_lease None 0, claimed_lease None 3]))"
    using cleanup_batch_is_fair [OF refl refl] by blast
  then show ?thesis by (simp add: cleanup_eval)
qed

end
