(* ===== verification/Regex.thy ===== *)
theory Regex
  imports Prelude
begin

text \<open>
  The regular expressions of the sources, as data: character classes, sequences, alternatives,
  repetition, the anchors and \<open>\\b\<close>. \<open>rx_ends r s i\<close> lists the positions where a match of \<open>r\<close>
  that starts at \<open>i\<close> can end, and \<open>rx_test\<close> is \<open>RegExp.prototype.test\<close>. The order in which
  JavaScript tries alternatives does not change whether a match exists, and the equivalence with the
  declarative relation \<open>rx_match\<close> is proved below.
\<close>

datatype rx =
    Cls "char \<Rightarrow> bool"
  | Seq rx rx
  | Alt rx rx
  | Eps
  | Star rx
  | Boundary
  | Bos
  | Eos

definition word_at :: "string \<Rightarrow> nat \<Rightarrow> bool" where
  "word_at s i \<longleftrightarrow> i < length s \<and> is_word (s ! i)"

definition at_boundary :: "string \<Rightarrow> nat \<Rightarrow> bool" where
  "at_boundary s i \<longleftrightarrow> (i > 0 \<and> word_at s (i - 1)) \<noteq> word_at s i"

text \<open>Iterations of a repetition that consume something, at most \<open>n\<close> of them.\<close>

fun star_ends :: "nat \<Rightarrow> (nat \<Rightarrow> nat list) \<Rightarrow> nat \<Rightarrow> nat list" where
  "star_ends 0 f i = [i]"
| "star_ends (Suc n) f i = i # concat (map (star_ends n f) (filter (\<lambda>j. i < j) (f i)))"

fun rx_ends :: "rx \<Rightarrow> string \<Rightarrow> nat \<Rightarrow> nat list" where
  "rx_ends (Cls p) s i = (if i < length s \<and> p (s ! i) then [Suc i] else [])"
| "rx_ends (Seq a b) s i = concat (map (rx_ends b s) (rx_ends a s i))"
| "rx_ends (Alt a b) s i = rx_ends a s i @ rx_ends b s i"
| "rx_ends Eps s i = [i]"
| "rx_ends (Star a) s i = star_ends (length s - i) (rx_ends a s) i"
| "rx_ends Boundary s i = (if at_boundary s i then [i] else [])"
| "rx_ends Bos s i = (if i = 0 then [i] else [])"
| "rx_ends Eos s i = (if i = length s then [i] else [])"

definition rx_test :: "rx \<Rightarrow> string \<Rightarrow> bool" where
  "rx_test r s = list_ex (\<lambda>i. rx_ends r s i \<noteq> []) [0..<Suc (length s)]"

text \<open>Pattern notation as functions.\<close>

definition rlit :: "string \<Rightarrow> rx" where
  "rlit t = foldr (\<lambda>c r. Seq (Cls (\<lambda>d. d = c)) r) t Eps"

text \<open>A literal under the flag \<open>i\<close>.\<close>

definition ilit :: "string \<Rightarrow> rx" where
  "ilit t = foldr (\<lambda>c r. Seq (Cls (\<lambda>d. js_lower_char d = js_lower_char c)) r) t Eps"

definition seqs :: "rx list \<Rightarrow> rx" where
  "seqs rs = foldr Seq rs Eps"

fun alts :: "rx list \<Rightarrow> rx" where
  "alts [] = Cls (\<lambda>_. False)"
| "alts [r] = r"
| "alts (r # rs) = Alt r (alts rs)"

definition opt :: "rx \<Rightarrow> rx" where
  "opt r = Alt r Eps"

definition plus1 :: "rx \<Rightarrow> rx" where
  "plus1 r = Seq r (Star r)"

definition times :: "nat \<Rightarrow> rx \<Rightarrow> rx" where
  "times n r = seqs (replicate n r)"

definition up_to :: "nat \<Rightarrow> rx \<Rightarrow> rx" where
  "up_to n r = seqs (replicate n (opt r))"

definition anchored :: "rx \<Rightarrow> rx" where
  "anchored r = seqs [Bos, r, Eos]"

lemmas rx_eval =
  rx_test_def rlit_def ilit_def seqs_def opt_def plus1_def times_def up_to_def anchored_def
  word_at_def at_boundary_def js_lower_char_def char_class_defs js_space_def Let_def

section \<open>What a match is\<close>

inductive rx_match :: "rx \<Rightarrow> string \<Rightarrow> nat \<Rightarrow> nat \<Rightarrow> bool" where
  cls: "i < length s \<Longrightarrow> p (s ! i) \<Longrightarrow> rx_match (Cls p) s i (Suc i)"
| seq: "rx_match a s i j \<Longrightarrow> rx_match b s j k \<Longrightarrow> rx_match (Seq a b) s i k"
| alt1: "rx_match a s i j \<Longrightarrow> rx_match (Alt a b) s i j"
| alt2: "rx_match b s i j \<Longrightarrow> rx_match (Alt a b) s i j"
| eps: "rx_match Eps s i i"
| star0: "rx_match (Star a) s i i"
| star1: "rx_match a s i j \<Longrightarrow> rx_match (Star a) s j k \<Longrightarrow> rx_match (Star a) s i k"
| boundary: "at_boundary s i \<Longrightarrow> rx_match Boundary s i i"
| bos: "rx_match Bos s 0 0"
| eos: "rx_match Eos s (length s) (length s)"

inductive_cases rx_match_ClsE: "rx_match (Cls p) s i j"
inductive_cases rx_match_SeqE: "rx_match (Seq a b) s i j"
inductive_cases rx_match_AltE: "rx_match (Alt a b) s i j"
inductive_cases rx_match_EpsE: "rx_match Eps s i j"
inductive_cases rx_match_BoundaryE: "rx_match Boundary s i j"
inductive_cases rx_match_BosE: "rx_match Bos s i j"
inductive_cases rx_match_EosE: "rx_match Eos s i j"

lemmas rx_match_elims =
  rx_match_ClsE rx_match_SeqE rx_match_AltE rx_match_EpsE rx_match_BoundaryE rx_match_BosE rx_match_EosE

lemma rx_match_range: "rx_match r s i j \<Longrightarrow> i \<le> j \<and> (i \<le> length s \<longrightarrow> j \<le> length s)"
  by (induction rule: rx_match.induct) auto

lemma star_ends_sound:
  "(\<And>i j. j \<in> set (f i) \<Longrightarrow> rx_match a s i j) \<Longrightarrow> k \<in> set (star_ends n f i) \<Longrightarrow> rx_match (Star a) s i k"
  by (induction n arbitrary: i) (auto intro: rx_match.star0 rx_match.star1)

lemma rx_ends_sound: "j \<in> set (rx_ends r s i) \<Longrightarrow> rx_match r s i j"
proof (induction r arbitrary: i j)
  case (Star r)
  then show ?case using star_ends_sound [of "rx_ends r s" r s j] by auto
next
  case (Seq a b)
  then obtain x where "x \<in> set (rx_ends a s i)" "j \<in> set (rx_ends b s x)" by auto
  with Seq.IH show ?case by (blast intro: rx_match.seq)
qed (auto intro: rx_match.intros split: if_splits)

text \<open>A repetition needs only iterations that consume something.\<close>

lemma star_ends_complete:
  assumes "rx_match r s i k" and "r = Star a"
    and "\<And>i j. rx_match a s i j \<Longrightarrow> j \<in> set (f i)" and "length s - i \<le> n"
  shows "k \<in> set (star_ends n f i)"
  using assms
proof (induction arbitrary: n rule: rx_match.induct)
  case (star0 a s i)
  then show ?case by (cases n) auto
next
  case (star1 a s i j k)
  show ?case
  proof (cases "i = j")
    case True
    with star1 show ?thesis by simp
  next
    case False
    with star1.hyps rx_match_range have lt: "i < j" by fastforce
    with star1.hyps(1) have "i < length s"
    proof (cases "i \<le> length s")
      case True
      with rx_match_range [OF star1.hyps(1)] lt show ?thesis by simp
    next
      case False
      have "rx_match a s i j \<Longrightarrow> length s < i \<Longrightarrow> j = i" for i j
        by (induction rule: rx_match.induct) auto
      with star1.hyps(1) False lt show ?thesis by fastforce
    qed
    then obtain m where n: "n = Suc m" using star1.prems by (cases n) auto
    have "k \<in> set (star_ends m f j)"
      using star1.IH(2) star1.prems lt n by auto
    moreover have "j \<in> set (f i)" using star1 by simp
    ultimately show ?thesis using n lt by force
  qed
qed simp_all

lemma rx_ends_complete: "rx_match r s i j \<Longrightarrow> j \<in> set (rx_ends r s i)"
proof (induction r arbitrary: i j)
  case (Star r)
  then show ?case using star_ends_complete [OF Star.prems refl, of "rx_ends r s"] by simp
next
  case (Seq a b)
  from Seq.prems obtain x where "rx_match a s i x" "rx_match b s x j" by (blast elim: rx_match_SeqE)
  with Seq.IH have "x \<in> set (rx_ends a s i)" "j \<in> set (rx_ends b s x)" by blast+
  then show ?case by auto
qed (auto elim: rx_match_elims)

lemma rx_ends_iff: "j \<in> set (rx_ends r s i) \<longleftrightarrow> rx_match r s i j"
  using rx_ends_sound rx_ends_complete by blast

lemma rx_test_iff: "rx_test r s \<longleftrightarrow> (\<exists>i j. i \<le> length s \<and> rx_match r s i j)"
proof -
  have "rx_ends r s i \<noteq> [] \<longleftrightarrow> (\<exists>j. rx_match r s i j)" for i
    by (metis all_not_in_conv rx_ends_iff set_empty)
  then have "rx_test r s \<longleftrightarrow> (\<exists>i\<in>{0..<Suc (length s)}. \<exists>j. rx_match r s i j)"
    by (simp add: rx_test_def list_ex_iff del: upt_Suc)
  then show ?thesis by (auto simp: less_Suc_eq_le)
qed

end
