(* ===== verification/SqlText.thy ===== *)
theory SqlText
  imports Regex
begin

text \<open>
  The SQL fragments of the data grid: identifier quoting (\<open>src/lib/tableRef.ts\<close>) and the literals,
  value formatting and fragment guard of \<open>src/lib/sqlBuild.ts\<close>, with reader functions for the
  two quoting styles that say what a database reads back.
\<close>

section \<open>Tables and identifiers\<close>

datatype engine = Postgres | Mysql | Sqlite | Mongodb | Bigquery

record catalog_column =
  col_name :: string
  col_type :: string
  col_pk :: bool

record catalog_table =
  tbl_name :: string
  tbl_schema :: "string option"
  tbl_database :: "string option"
  tbl_columns :: "catalog_column list"

definition ident_quote :: "engine \<Rightarrow> char" where
  "ident_quote e = (if e = Mysql \<or> e = Bigquery then CHR ''`'' else CHR 0x22)"

definition quote_ident :: "engine \<Rightarrow> string \<Rightarrow> string" where
  "quote_ident e name = [ident_quote e] @ replace_char (ident_quote e) [ident_quote e, ident_quote e] name @ [ident_quote e]"

text \<open>An empty or missing namespace is falsy.\<close>

definition truthy :: "string option \<Rightarrow> bool" where
  "truthy s \<longleftrightarrow> s \<noteq> None \<and> s \<noteq> Some []"

definition table_ref :: "engine \<Rightarrow> catalog_table \<Rightarrow> string" where
  "table_ref e t =
     (if e = Postgres \<and> truthy (tbl_schema t)
        then quote_ident e (the (tbl_schema t)) @ ''.'' @ quote_ident e (tbl_name t)
      else if e = Mysql \<and> truthy (tbl_database t)
        then quote_ident e (the (tbl_database t)) @ ''.'' @ quote_ident e (tbl_name t)
      else if e = Bigquery
        then (let namespace = (case tbl_schema t of Some s \<Rightarrow> Some s | None \<Rightarrow> tbl_database t)
              in quote_ident e (if truthy namespace then the namespace @ ''.'' @ tbl_name t else tbl_name t))
      else quote_ident e (tbl_name t))"

definition table_label :: "engine \<Rightarrow> catalog_table \<Rightarrow> string" where
  "table_label e t =
     (if (e = Postgres \<and> truthy (tbl_schema t) \<and> tbl_schema t \<noteq> Some ''public'') \<or> (e = Bigquery \<and> truthy (tbl_schema t))
      then the (tbl_schema t) @ ''.'' @ tbl_name t else tbl_name t)"

definition table_key :: "catalog_table \<Rightarrow> string" where
  "table_key t = case_option [] id (tbl_database t) @ ''.'' @ case_option [] id (tbl_schema t) @ ''.'' @ tbl_name t"

section \<open>Literals and values\<close>

definition sql_literal :: "engine \<Rightarrow> string option \<Rightarrow> string" where
  "sql_literal e value =
     (case value of
        None \<Rightarrow> ''NULL''
      | Some v \<Rightarrow>
          (let s = (if e = Mysql then replace_char CHR 0x5C [CHR 0x5C, CHR 0x5C] v else v)
           in [CHR 0x27] @ replace_char CHR 0x27 [CHR 0x27, CHR 0x27] s @ [CHR 0x27]))"

definition numeric_re :: rx where
  "numeric_re = alts
     [seqs [Boundary, opt (alts [ilit ''big'', ilit ''small'', ilit ''tiny'', ilit ''medium'']), ilit ''int'',
            opt (ilit ''eger''), Star (Cls is_digit), Boundary],
      seqs [Boundary, opt (alts [ilit ''big'', ilit ''small'']), ilit ''serial'', Star (Cls is_digit), Boundary],
      seqs [Boundary, alts [ilit ''numeric'', ilit ''decimal'', ilit ''dec'', ilit ''real'', ilit ''double'',
            Seq (ilit ''float'') (Star (Cls is_digit)), ilit ''money'', ilit ''fixed''], Boundary]]"

definition is_numeric_type :: "string \<Rightarrow> bool" where
  "is_numeric_type data_type = rx_test numeric_re data_type"

definition exponent :: rx where
  "exponent = seqs [Cls (\<lambda>c. c = CHR ''e'' \<or> c = CHR ''E''), opt (Cls (\<lambda>c. c = CHR ''+'' \<or> c = CHR ''-'')), plus1 (Cls is_digit)]"

definition number_re :: rx where
  "number_re = seqs
     [Bos, opt (rlit ''-''), plus1 (Cls is_digit), opt (Seq (rlit ''.'') (plus1 (Cls is_digit))), opt exponent, Eos]"

definition sql_value :: "engine \<Rightarrow> string \<Rightarrow> string option \<Rightarrow> string" where
  "sql_value e data_type value =
     (case value of
        None \<Rightarrow> ''NULL''
      | Some v \<Rightarrow>
          (if is_numeric_type data_type
           then (let t = js_trim v
                 in if t = [] then ''NULL'' else if rx_test number_re t then t else sql_literal e value)
           else sql_literal e value))"

definition cast_text :: "engine \<Rightarrow> string" where
  "cast_text e = (if e = Mysql then ''CHAR'' else if e = Bigquery then ''STRING'' else ''TEXT'')"

section \<open>Reading quoted text back\<close>

text \<open>
  The text after the opening quote \<open>q\<close>: where \<open>doubled\<close> holds a doubled quote stands for one, a
  single quote ends the token, and where \<open>backslash\<close> holds a backslash takes the next character as
  it is. The result is the content and what follows the token. Standard SQL doubles, MySQL
  strings have both, BigQuery strings have the backslash only.
\<close>

fun read_quoted :: "bool \<Rightarrow> bool \<Rightarrow> char \<Rightarrow> string \<Rightarrow> (string \<times> string) option" where
  "read_quoted doubled backslash q [] = None"
| "read_quoted doubled backslash q (c # cs) =
     (if backslash \<and> c = CHR 0x5C
      then (case cs of [] \<Rightarrow> None | d # ds \<Rightarrow> map_option (\<lambda>(v, r). (d # v, r)) (read_quoted doubled backslash q ds))
      else if c = q
      then (case cs of
              d # ds \<Rightarrow>
                (if d = q \<and> doubled then map_option (\<lambda>(v, r). (q # v, r)) (read_quoted doubled backslash q ds)
                 else Some ([], cs))
            | [] \<Rightarrow> Some ([], []))
      else map_option (\<lambda>(v, r). (c # v, r)) (read_quoted doubled backslash q cs))"

definition read_literal :: "engine \<Rightarrow> string \<Rightarrow> (string \<times> string) option" where
  "read_literal e = read_quoted (e \<noteq> Bigquery) (e = Mysql \<or> e = Bigquery) CHR 0x27"

definition ends_token :: "char \<Rightarrow> string \<Rightarrow> bool" where
  "ends_token q rest \<longleftrightarrow> rest = [] \<or> hd rest \<noteq> q"

lemma read_quoted_doubled:
  assumes "ends_token q rest" and "backslash \<Longrightarrow> q \<noteq> CHR 0x5C"
  shows "read_quoted True backslash q
      (replace_char q [q, q] (if backslash then replace_char CHR 0x5C [CHR 0x5C, CHR 0x5C] v else v) @ [q] @ rest)
    = Some (v, rest)"
proof (induction v)
  case Nil
  then show ?case using assms by (cases rest) (auto simp: ends_token_def)
next
  case (Cons c v)
  then show ?case using assms by (cases "c = q"; cases "c = CHR 0x5C") auto
qed

lemma read_sql_literal:
  "e \<noteq> Bigquery \<Longrightarrow> ends_token CHR 0x27 rest \<Longrightarrow> read_literal e (tl (sql_literal e (Some v)) @ rest) = Some (v, rest)"
  using read_quoted_doubled [of "CHR 0x27" rest "e = Mysql" v] by (simp add: read_literal_def sql_literal_def Let_def)

lemma read_quote_ident:
  "ends_token (ident_quote e) rest \<Longrightarrow> read_quoted True False (ident_quote e) (tl (quote_ident e n) @ rest) = Some (n, rest)"
  using read_quoted_doubled [of "ident_quote e" rest False n] by (simp add: quote_ident_def)



text \<open>
  BigQuery strings have no doubled quotes and do have backslash escapes, and \<open>sqlLiteral\<close> treats
  BigQuery as standard SQL: the literal of a single backslash takes the closing quote with it and
  goes on into the rest of the statement, up to the next quote.
\<close>

theorem bigquery_literal_gap:
  "read_literal Bigquery (tl (sql_literal Bigquery (Some [CHR 0x5C])) @ rest)
     = map_option (\<lambda>(v, r). (CHR 0x27 # v, r)) (read_literal Bigquery rest)"
  by (simp add: read_literal_def sql_literal_def)

section \<open>The guard of SQL fragments\<close>

datatype expression_kind = WhereExpression | OrderByExpression

datatype grid_issue = TooLong | StatementBoundary | Unbalanced | ClauseBoundary

text \<open>
  The loop of \<open>gridExpressionIssue\<close> over the rest of the text: the text it adds to \<open>visible\<close>, the
  quote it ends in and the final depth, or \<open>None\<close> where it returns \<open>unbalanced\<close>.
\<close>

fun grid_scan :: "char option \<Rightarrow> nat \<Rightarrow> string \<Rightarrow> (string \<times> char option \<times> nat) option" where
  "grid_scan quote depth [] = Some ([], quote, depth)"
| "grid_scan (Some q) depth (c # cs) =
     (if q = CHR '']'' then
        map_option (\<lambda>(v, r). (CHR '' '' # v, r)) (grid_scan (if c = CHR '']'' then None else Some q) depth cs)
      else if c = q then
        (case cs of
           n # ns \<Rightarrow>
             (if n = q then map_option (\<lambda>(v, r). (CHR '' '' # CHR '' '' # v, r)) (grid_scan (Some q) depth ns)
              else map_option (\<lambda>(v, r). (CHR '' '' # v, r)) (grid_scan None depth cs))
         | [] \<Rightarrow> map_option (\<lambda>(v, r). (CHR '' '' # v, r)) (grid_scan None depth cs))
      else map_option (\<lambda>(v, r). (CHR '' '' # v, r)) (grid_scan (Some q) depth cs))"
| "grid_scan None depth (c # cs) =
     (if c = CHR 0x27 \<or> c = CHR 0x22 \<or> c = CHR ''`'' then
        map_option (\<lambda>(v, r). (CHR '' '' # v, r)) (grid_scan (Some c) depth cs)
      else if c = CHR ''['' then
        map_option (\<lambda>(v, r). (CHR '' '' # v, r)) (grid_scan (Some CHR '']'') depth cs)
      else if c = CHR ''('' then map_option (\<lambda>(v, r). (c # v, r)) (grid_scan None (Suc depth) cs)
      else if c = CHR '')'' then
        (if depth = 0 then None else map_option (\<lambda>(v, r). (c # v, r)) (grid_scan None (depth - 1) cs))
      else map_option (\<lambda>(v, r). (c # v, r)) (grid_scan None depth cs))"

definition words_re :: "rx list \<Rightarrow> rx" where
  "words_re ws = seqs [Boundary, alts ws, Boundary]"

definition spaced :: "string \<Rightarrow> rx" where
  "spaced w = seqs [ilit w, plus1 (Cls js_space), ilit ''by'']"

definition clause_escape_re :: "expression_kind \<Rightarrow> rx" where
  "clause_escape_re kind =
     (case kind of
        WhereExpression \<Rightarrow> words_re [ilit ''union'', ilit ''intersect'', ilit ''except'', spaced ''order'',
          ilit ''limit'', ilit ''offset'', ilit ''fetch'', ilit ''returning'']
      | OrderByExpression \<Rightarrow> words_re [ilit ''select'', ilit ''from'', ilit ''where'', spaced ''group'',
          ilit ''having'', ilit ''union'', ilit ''intersect'', ilit ''except'', ilit ''limit'', ilit ''offset'',
          ilit ''fetch'', ilit ''returning''])"

definition hash_comment_re :: rx where
  "hash_comment_re = Seq (Alt Bos (Cls js_space)) (rlit ''#'')"

definition statement_boundary :: "string \<Rightarrow> bool" where
  "statement_boundary visible \<longleftrightarrow>
     CHR 0x00 \<in> set visible \<or> CHR '';'' \<in> set visible \<or> str_includes ''--'' visible
     \<or> str_includes ''/*'' visible \<or> str_includes ''*/'' visible \<or> rx_test hash_comment_re visible"

definition grid_expression_issue :: "expression_kind \<Rightarrow> string \<Rightarrow> grid_issue option" where
  "grid_expression_issue kind raw =
     (if length raw > 2048 then Some TooLong
      else case grid_scan None 0 raw of
             None \<Rightarrow> Some Unbalanced
           | Some (visible, quote, depth) \<Rightarrow>
               if quote \<noteq> None \<or> depth \<noteq> 0 then Some Unbalanced
               else if statement_boundary visible then Some StatementBoundary
               else if rx_test (clause_escape_re kind) visible then Some ClauseBoundary
               else None)"

section \<open>What lies outside quotes\<close>

abbreviation quotes :: "char set" where
  "quotes \<equiv> {CHR 0x27, CHR 0x22, CHR ''`''}"

text \<open>
  \<open>masked s v\<close>: \<open>v\<close> is \<open>s\<close> with every quoted token (as standard SQL reads it) and every bracketed
  token replaced by blanks of the same length.
\<close>

inductive masked :: "string \<Rightarrow> string \<Rightarrow> bool" where
  masked_end: "masked [] []"
| masked_code: "c \<notin> quotes \<Longrightarrow> c \<noteq> CHR ''['' \<Longrightarrow> masked cs vs \<Longrightarrow> masked (c # cs) (c # vs)"
| masked_quote: "q \<in> quotes \<Longrightarrow> read_quoted True False q cs = Some (v, rest) \<Longrightarrow> masked rest vs \<Longrightarrow>
    n = Suc (length cs) - length rest \<Longrightarrow> masked (q # cs) (replicate n CHR '' '' @ vs)"
| masked_bracket: "CHR '']'' \<notin> set body \<Longrightarrow> masked rest vs \<Longrightarrow>
    masked (CHR ''['' # body @ CHR '']'' # rest) (replicate (length body + 2) CHR '' '' @ vs)"

fun paren_depth :: "nat \<Rightarrow> string \<Rightarrow> nat option" where
  "paren_depth d [] = Some d"
| "paren_depth d (c # cs) =
     (if c = CHR ''('' then paren_depth (Suc d) cs
      else if c = CHR '')'' then (if d = 0 then None else paren_depth (d - 1) cs)
      else paren_depth d cs)"

lemma read_quoted_length: "read_quoted dbl b q s = Some (v, rest) \<Longrightarrow> length rest < length s"
proof (induction dbl b q s arbitrary: v rest rule: read_quoted.induct)
  case (2 dbl b q c cs)
  then show ?case by (force split: if_splits list.splits)
qed simp

text \<open>Scanning inside a token is reading the token and blanking it.\<close>

lemma grid_scan_bracket:
  "grid_scan (Some CHR '']'') d cs = Some (vis, None, d') \<Longrightarrow>
     \<exists>body rest vs. cs = body @ CHR '']'' # rest \<and> CHR '']'' \<notin> set body \<and> grid_scan None d rest = Some (vs, None, d')
       \<and> vis = replicate (length body + 1) CHR '' '' @ vs"
proof (induction cs arbitrary: vis)
  case (Cons c cs)
  show ?case
  proof (cases "c = CHR '']''")
    case True
    with Cons.prems obtain vs where "grid_scan None d cs = Some (vs, None, d')" "vis = CHR '' '' # vs" by auto
    with True show ?thesis by (intro exI [of _ "[]"] exI [of _ cs] exI [of _ vs]) simp
  next
    case False
    with Cons.prems obtain w where "grid_scan (Some CHR '']'') d cs = Some (w, None, d')" "vis = CHR '' '' # w" by auto
    with Cons.IH [of w] obtain body rest vs where "cs = body @ CHR '']'' # rest" "CHR '']'' \<notin> set body"
      "grid_scan None d rest = Some (vs, None, d')" "w = replicate (length body + 1) CHR '' '' @ vs" by auto
    with False \<open>vis = CHR '' '' # w\<close> show ?thesis
      by (intro exI [of _ "c # body"] exI [of _ rest] exI [of _ vs]) simp
  qed
qed simp

lemma grid_scan_quote:
  "q \<noteq> CHR '']'' \<Longrightarrow> grid_scan (Some q) d cs = Some (vis, None, d') \<Longrightarrow>
     \<exists>v rest vs. read_quoted True False q cs = Some (v, rest) \<and> grid_scan None d rest = Some (vs, None, d')
       \<and> vis = replicate (length cs - length rest) CHR '' '' @ vs"
proof (induction cs arbitrary: vis rule: length_induct)
  case (1 cs)
  note IH = 1(1) and prems = 1(2,3)
  have step: ?case
    if cs: "cs = pre @ cs'" "pre \<noteq> []" and rd: "\<And>v r. read_quoted True False q cs' = Some (v, r) \<Longrightarrow> \<exists>v'. read_quoted True False q cs = Some (v', r)"
      and sc: "grid_scan (Some q) d cs' = Some (w, None, d')" "vis = replicate (length pre) CHR '' '' @ w" for pre cs' w
  proof -
    have len: "length cs' < length cs" using cs by simp
    from IH [rule_format, OF len prems(1) sc(1)] obtain v rest vs where r: "read_quoted True False q cs' = Some (v, rest)"
      "grid_scan None d rest = Some (vs, None, d')" "w = replicate (length cs' - length rest) CHR '' '' @ vs"
      by blast
    from rd [OF r(1)] obtain v' where v': "read_quoted True False q cs = Some (v', rest)" ..
    from read_quoted_length [OF r(1)] have "length cs - length rest = length pre + (length cs' - length rest)"
      by (simp add: cs)
    then have "vis = replicate (length cs - length rest) CHR '' '' @ vs"
      using sc(2) r(3) by (simp add: replicate_add)
    with r(2) v' show ?thesis by (intro exI conjI)
  qed
  show ?case
  proof (cases cs)
    case Nil
    with prems show ?thesis by simp
  next
    case c: (Cons c ds)
    show ?thesis
    proof (cases "c = q")
      case False
      with c prems obtain w where "grid_scan (Some q) d ds = Some (w, None, d')" "vis = CHR '' '' # w" by auto
      with False c show ?thesis by (intro step [of "[c]" ds w]) simp_all
    next
      case True
      show ?thesis
      proof (cases "ds \<noteq> [] \<and> hd ds = q")
        case True
        then obtain es where ds: "ds = q # es" by (cases ds) auto
        with c \<open>c = q\<close> prems obtain w where "grid_scan (Some q) d es = Some (w, None, d')" "vis = CHR '' '' # CHR '' '' # w"
          by auto
        with ds c \<open>c = q\<close> show ?thesis by (intro step [of "[q, q]" es w]) simp_all
      next
        case False
        with c \<open>c = q\<close> prems obtain vs where vs: "grid_scan None d ds = Some (vs, None, d')" "vis = CHR '' '' # vs"
          by (cases ds) auto
        have "read_quoted True False q cs = Some ([], ds)"
          using False c \<open>c = q\<close> by (cases ds) auto
        moreover have "vis = replicate (length cs - length ds) CHR '' '' @ vs"
          using vs(2) c by simp
        ultimately show ?thesis using vs(1) by (intro exI conjI)
      qed
    qed
  qed
qed

text \<open>So the visible text is the masked text, and the depth that of its parentheses.\<close>

lemma paren_depth_blank: "paren_depth d (replicate n CHR '' '' @ v) = paren_depth d v"
  by (induction n) auto

lemma grid_scan_masked:
  "grid_scan None d raw = Some (vis, None, d') \<Longrightarrow> masked raw vis \<and> paren_depth d vis = Some d'"
proof (induction raw arbitrary: d vis rule: length_induct)
  case (1 raw)
  note IH = 1(1)
  show ?case
  proof (cases raw)
    case Nil
    with 1 show ?thesis by (simp add: masked_end)
  next
    case raw: (Cons c cs)
    consider (quote) "c \<in> quotes" | (bracket) "c = CHR ''[''" | (code) "c \<notin> quotes" "c \<noteq> CHR ''[''" by blast
    then show ?thesis
    proof cases
      case quote
      with 1 raw obtain w where w: "grid_scan (Some c) d cs = Some (w, None, d')" "vis = CHR '' '' # w" by auto
      from quote have "c \<noteq> CHR '']''" by auto
      from grid_scan_quote [OF this w(1)] obtain v rest vs where
        r: "read_quoted True False c cs = Some (v, rest)" "grid_scan None d rest = Some (vs, None, d')"
          "w = replicate (length cs - length rest) CHR '' '' @ vs" by blast
      from read_quoted_length [OF r(1)] have len: "length rest < length cs" .
      then have "masked rest vs \<and> paren_depth d vs = Some d'"
        using IH [rule_format, of rest d vs] raw r(2) by simp
      then have m: "masked rest vs \<and> paren_depth d vis = Some d'"
        using w(2) r(3) by (simp add: paren_depth_blank)
      have "vis = replicate (Suc (length cs) - length rest) CHR '' '' @ vs"
        using w(2) r(3) len by (simp add: Suc_diff_le)
      with m raw masked_quote [OF quote r(1) _ refl] show ?thesis by auto
    next
      case bracket
      with 1 raw obtain w where w: "grid_scan (Some CHR '']'') d cs = Some (w, None, d')" "vis = CHR '' '' # w" by auto
      from grid_scan_bracket [OF w(1)] obtain body rest vs where
        r: "cs = body @ CHR '']'' # rest" "CHR '']'' \<notin> set body" "grid_scan None d rest = Some (vs, None, d')"
          "w = replicate (length body + 1) CHR '' '' @ vs" by blast
      then have "length rest < length raw" using raw by simp
      with IH r(3) have "masked rest vs \<and> paren_depth d vs = Some d'" by blast
      with masked_bracket [OF r(2)] show ?thesis
        using raw bracket r(1,4) w(2) by (auto simp: paren_depth_blank)
    next
      case code
      with 1 raw show ?thesis
        by (auto simp: masked_code split: if_splits)
    qed
  qed
qed

lemma masked_length: "masked s v \<Longrightarrow> length v = length s"
  by (induction rule: masked.induct) (auto dest: read_quoted_length)

lemma accepted_fragment:
  assumes "grid_expression_issue kind raw = None"
  shows "\<exists>visible. masked raw visible \<and> length visible = length raw \<and> paren_depth 0 visible = Some 0
    \<and> CHR '';'' \<notin> set visible \<and> \<not> str_includes ''--'' visible
    \<and> \<not> str_includes ''/*'' visible \<and> CHR 0x00 \<notin> set visible \<and> \<not> rx_test hash_comment_re visible
    \<and> \<not> rx_test (clause_escape_re kind) visible \<and> length raw \<le> 2048"
proof -
  from assms obtain visible where scan: "grid_scan None 0 raw = Some (visible, None, 0)"
    and ok: "\<not> statement_boundary visible" "\<not> rx_test (clause_escape_re kind) visible" "length raw \<le> 2048"
    by (auto simp: grid_expression_issue_def split: if_splits option.splits prod.splits)
  from grid_scan_masked [OF scan] have "masked raw visible" "paren_depth 0 visible = Some 0" by auto
  with ok masked_length show ?thesis by (auto simp: statement_boundary_def)
qed


lemma no_words: "list_all (\<lambda>c. \<not> is_word c) v \<Longrightarrow> \<not> rx_test (words_re ws) v"
proof -
  assume "list_all (\<lambda>c. \<not> is_word c) v"
  then have "\<not> at_boundary v i" for i
    by (auto simp: at_boundary_def word_at_def list_all_iff)
  then show ?thesis by (simp add: rx_test_def list_ex_iff words_re_def seqs_def)
qed


end
