(* ===== verification/SqlBuild.thy ===== *)
theory SqlBuild
  imports SqlText
begin

text \<open>
  The statement builders of the data grid (\<open>src/lib/sqlBuild.ts\<close>, with \<open>decodeGridValueFilter\<close> of
  \<open>src/lib/gridValueFilter.ts\<close>). A \<open>Record\<close> is an association list in enumeration order; a
  builder that throws returns \<open>Inl\<close>. \<open>parse\<close>, an argument, is \<open>JSON.parse\<close> of an array of
  strings and nulls (\<open>None\<close> for any other text).
\<close>

section \<open>Filters\<close>

datatype build_error = InvalidExpression expression_kind grid_issue | NoInsertColumns | NoPrimaryKey | NoChangedColumns

type_synonym cell_values = "(string \<times> string option) list"

type_synonym json_values = "string \<Rightarrow> string option list option"

definition assert_grid_expression :: "expression_kind \<Rightarrow> string \<Rightarrow> build_error + unit" where
  "assert_grid_expression kind raw =
     (case grid_expression_issue kind raw of Some issue \<Rightarrow> Inl (InvalidExpression kind issue) | None \<Rightarrow> Inr ())"

definition grid_value_filter_prefix :: string where
  "grid_value_filter_prefix = CHR 0x1E # ''dopedb-grid-values:''"

definition decode_grid_value_filter :: "json_values \<Rightarrow> string \<Rightarrow> string option list option" where
  "decode_grid_value_filter parse text =
     (if starts_with grid_value_filter_prefix text then parse (drop (length grid_value_filter_prefix) text) else None)"

definition type_of_column :: "catalog_table \<Rightarrow> string \<Rightarrow> string" where
  "type_of_column t c = (case find (\<lambda>x. col_name x = c) (tbl_columns t) of Some x \<Rightarrow> col_type x | None \<Rightarrow> ''text'')"

definition filter_clause :: "json_values \<Rightarrow> engine \<Rightarrow> catalog_column \<Rightarrow> string \<Rightarrow> string option" where
  "filter_clause parse e col raw =
     (let v = js_trim raw; q = quote_ident e (col_name col); low = js_lower v
      in if v = [] then None
         else case decode_grid_value_filter parse raw of
           Some selected \<Rightarrow>
             (let texts = filter (\<lambda>x. x \<noteq> None) selected;
                  clauses = (if texts \<noteq> []
                             then [q @ '' IN ('' @ js_join '', '' (map (sql_value e (col_type col)) texts) @ '')''] else [])
                            @ (if None \<in> set selected then [q @ '' IS NULL''] else [])
              in if clauses = [] then None
                 else if length clauses = 1 then Some (hd clauses)
                 else Some (''('' @ js_join '' OR '' clauses @ '')''))
         | None \<Rightarrow>
             if low = ''null'' then Some (q @ '' IS NULL'')
             else if low = ''not null'' then Some (q @ '' IS NOT NULL'')
             else if starts_with ''='' v then Some (q @ '' = '' @ sql_value e (col_type col) (Some (tl v)))
             else Some (''CAST('' @ q @ '' AS '' @ cast_text e @ '') '' @ (if e = Postgres then ''ILIKE'' else ''LIKE'')
                        @ '' '' @ sql_literal e (Some (''%'' @ v @ ''%''))))"

definition filter_clauses :: "json_values \<Rightarrow> engine \<Rightarrow> catalog_column list \<Rightarrow> (string \<times> string) list \<Rightarrow> string list" where
  "filter_clauses parse e cols filters =
     List.map_filter (\<lambda>c. filter_clause parse e c (case map_of filters (col_name c) of Some f \<Rightarrow> f | None \<Rightarrow> [])) cols"

definition build_where ::
  "json_values \<Rightarrow> engine \<Rightarrow> catalog_column list \<Rightarrow> (string \<times> string) list \<Rightarrow> string \<Rightarrow> build_error + string" where
  "build_where parse e cols filters where_expression =
     (let parts = filter_clauses parse e cols filters; expression = js_trim where_expression
      in if expression = [] then Inr (js_join '' AND '' parts)
         else case assert_grid_expression WhereExpression expression of
                Inl err \<Rightarrow> Inl err
              | Inr _ \<Rightarrow> Inr (js_join '' AND '' (parts @ [''('' @ expression @ '')''])))"

section \<open>Pages and counts\<close>

definition pk_columns :: "catalog_table \<Rightarrow> catalog_column list" where
  "pk_columns t = filter col_pk (tbl_columns t)"

definition non_scalar_pk_re :: rx where
  "non_scalar_pk_re = Alt
     (seqs [Boundary, alts [ilit ''bytea'', Seq (opt (alts [ilit ''tiny'', ilit ''medium'', ilit ''long''])) (ilit ''blob''),
        Seq (opt (ilit ''var'')) (ilit ''binary''), ilit ''json'', ilit ''jsonb'', ilit ''array'', ilit ''composite'',
        ilit ''record''], Boundary])
     (rlit ''[]'')"

definition has_non_scalar_pk :: "catalog_table \<Rightarrow> bool" where
  "has_non_scalar_pk t = list_ex (\<lambda>c. rx_test non_scalar_pk_re (col_type c)) (pk_columns t)"

definition pk_tiebreakers :: "engine \<Rightarrow> catalog_table \<Rightarrow> string \<Rightarrow> string list" where
  "pk_tiebreakers e t exclude = map (\<lambda>c. quote_ident e (col_name c)) (filter (\<lambda>c. col_name c \<noteq> exclude) (pk_columns t))"

record grid_sort =
  sort_col :: string
  sort_desc :: bool

definition build_order_by :: "engine \<Rightarrow> catalog_table \<Rightarrow> grid_sort option \<Rightarrow> string \<Rightarrow> build_error + string" where
  "build_order_by e t sorting order_expression =
     (let expression = js_trim order_expression
      in if expression \<noteq> []
         then (case assert_grid_expression OrderByExpression expression of
                 Inl err \<Rightarrow> Inl err
               | Inr _ \<Rightarrow> Inr (''ORDER BY '' @ expression))
         else case sorting of
                Some s \<Rightarrow> Inr (''ORDER BY '' @ js_join '', ''
                  ((quote_ident e (sort_col s) @ '' '' @ (if sort_desc s then ''DESC'' else ''ASC''))
                     # pk_tiebreakers e t (sort_col s)))
              | None \<Rightarrow> Inr [])"

record page_options =
  opt_filters :: "(string \<times> string) list"
  opt_where :: string
  opt_order :: string
  opt_sort :: "grid_sort option"
  opt_limit :: int
  opt_offset :: int

definition build_page_query :: "json_values \<Rightarrow> engine \<Rightarrow> catalog_table \<Rightarrow> page_options \<Rightarrow> build_error + string" where
  "build_page_query parse e t opts =
     (case build_where parse e (tbl_columns t) (opt_filters opts) (opt_where opts) of
        Inl err \<Rightarrow> Inl err
      | Inr w \<Rightarrow>
          (case build_order_by e t (opt_sort opts) (opt_order opts) of
             Inl err \<Rightarrow> Inl err
           | Inr ord \<Rightarrow> Inr (''SELECT * FROM '' @ table_ref e t
               @ (if w \<noteq> [] then '' WHERE '' @ w else []) @ (if ord \<noteq> [] then '' '' @ ord else [])
               @ '' LIMIT '' @ nat_str (nat (opt_limit opts)) @ '' OFFSET '' @ nat_str (nat (opt_offset opts)))))"

definition build_count_query ::
  "json_values \<Rightarrow> engine \<Rightarrow> catalog_table \<Rightarrow> (string \<times> string) list \<Rightarrow> string \<Rightarrow> build_error + string" where
  "build_count_query parse e t filters where_expression =
     (case build_where parse e (tbl_columns t) filters where_expression of
        Inl err \<Rightarrow> Inl err
      | Inr w \<Rightarrow> Inr (''SELECT COUNT(*) AS n FROM '' @ table_ref e t @ (if w \<noteq> [] then '' WHERE '' @ w else [])))"

section \<open>Writes\<close>

definition comparison :: "engine \<Rightarrow> catalog_table \<Rightarrow> string \<Rightarrow> string option \<Rightarrow> string" where
  "comparison e t c value =
     (case value of
        None \<Rightarrow> quote_ident e c @ '' IS NULL''
      | Some _ \<Rightarrow> quote_ident e c @ '' = '' @ sql_value e (type_of_column t c) value)"

definition version_column_re :: rx where
  "version_column_re = seqs [Bos, alts [ilit ''version'', ilit ''row_version'', ilit ''lock_version'', ilit ''revision'',
     ilit ''updated_at'', ilit ''updatedat'', ilit ''modified_at''], Eos]"

definition has_key :: "string \<Rightarrow> cell_values \<Rightarrow> bool" where
  "has_key c vs \<longleftrightarrow> c \<in> set (js_keys vs)"

definition get_value :: "cell_values \<Rightarrow> string \<Rightarrow> string option" where
  "get_value vs c = (case map_of vs c of Some v \<Rightarrow> v | None \<Rightarrow> None)"

definition optimistic_columns :: "catalog_table \<Rightarrow> cell_values \<Rightarrow> string list option \<Rightarrow> string list" where
  "optimistic_columns t originals changed =
     (case find (\<lambda>c. rx_test version_column_re (col_name c) \<and> has_key (col_name c) originals) (tbl_columns t) of
        Some version \<Rightarrow> [col_name version]
      | None \<Rightarrow> map col_name
          (filter (\<lambda>c. \<not> col_pk c \<and> has_key (col_name c) originals
                     \<and> (case changed of None \<Rightarrow> True | Some cs \<Rightarrow> col_name c \<in> set cs)) (tbl_columns t)))"

definition assignments :: "engine \<Rightarrow> catalog_table \<Rightarrow> cell_values \<Rightarrow> string list" where
  "assignments e t vs =
     map (\<lambda>c. quote_ident e (col_name c) @ '' = '' @ sql_value e (col_type c) (get_value vs (col_name c)))
       (filter (\<lambda>c. has_key (col_name c) vs) (tbl_columns t))"

definition build_insert :: "engine \<Rightarrow> catalog_table \<Rightarrow> cell_values \<Rightarrow> build_error + string" where
  "build_insert e t vs =
     (let cols = filter (\<lambda>c. has_key (col_name c) vs) (tbl_columns t)
      in if cols = [] then Inl NoInsertColumns
         else Inr (''INSERT INTO '' @ table_ref e t @ '' ('' @ js_join '', '' (map (\<lambda>c. quote_ident e (col_name c)) cols)
           @ '') VALUES ('' @ js_join '', '' (map (\<lambda>c. sql_value e (col_type c) (get_value vs (col_name c))) cols) @ '')''))"

text \<open>The conditions of a write: every primary key column, then the optimistic columns that are not keys.\<close>

definition guard_conditions :: "engine \<Rightarrow> catalog_table \<Rightarrow> cell_values \<Rightarrow> cell_values option \<Rightarrow> string list option \<Rightarrow> string list" where
  "guard_conditions e t pk originals changed =
     map (\<lambda>c. comparison e t c (get_value pk c)) (js_keys pk)
     @ (case originals of
          None \<Rightarrow> []
        | Some os \<Rightarrow> map (\<lambda>c. comparison e t c (get_value os c))
            (filter (\<lambda>c. \<not> has_key c pk) (optimistic_columns t os changed)))"

definition build_update :: "engine \<Rightarrow> catalog_table \<Rightarrow> cell_values \<Rightarrow> cell_values \<Rightarrow> cell_values option \<Rightarrow> build_error + string" where
  "build_update e t pk set_values originals =
     (let sets = assignments e t set_values
      in if pk = [] then Inl NoPrimaryKey
         else if sets = [] then Inl NoChangedColumns
         else Inr (''UPDATE '' @ table_ref e t @ '' SET '' @ js_join '', '' sets
           @ '' WHERE '' @ js_join '' AND '' (guard_conditions e t pk originals (Some (js_keys set_values)))))"

definition build_delete :: "engine \<Rightarrow> catalog_table \<Rightarrow> cell_values \<Rightarrow> cell_values option \<Rightarrow> build_error + string" where
  "build_delete e t pk originals =
     (if pk = [] then Inl NoPrimaryKey
      else Inr (''DELETE FROM '' @ table_ref e t
        @ '' WHERE '' @ js_join '' AND '' (guard_conditions e t pk originals None)))"

section \<open>Text that is safe to put together\<close>

text \<open>
  \<open>safe i s j\<close>: read as standard SQL, all tokens of \<open>s\<close> are closed, the text outside them has no
  semicolon and no comment opener, and its parentheses lead from depth \<open>i\<close> to depth \<open>j\<close>.
\<close>

definition quiet_pair :: "char \<Rightarrow> char \<Rightarrow> bool" where
  "quiet_pair x y \<longleftrightarrow> \<not> (x = CHR ''-'' \<and> y = CHR ''-'') \<and> \<not> (x = CHR ''/'' \<and> y = CHR ''*'')"

definition quiet :: "string \<Rightarrow> bool" where
  "quiet v \<longleftrightarrow> CHR '';'' \<notin> set v \<and> successively quiet_pair v"

definition safe :: "nat \<Rightarrow> string \<Rightarrow> nat \<Rightarrow> bool" where
  "safe i s j \<longleftrightarrow> (\<exists>v. masked s v \<and> quiet v \<and> (\<forall>n. paren_depth (n + i) v = Some (n + j)))"

lemma paren_depth_append: "paren_depth d (a @ b) = Option.bind (paren_depth d a) (\<lambda>d'. paren_depth d' b)"
  by (induction a arbitrary: d) simp_all

lemma paren_depth_mono: "paren_depth i v = Some j \<Longrightarrow> paren_depth (n + i) v = Some (n + j)"
proof (induction i v arbitrary: j rule: paren_depth.induct)
  case (2 d c cs)
  then show ?case by (cases d) (auto split: if_splits)
qed simp

lemma read_quoted_append:
  "read_quoted dbl b q s = Some (v, rest) \<Longrightarrow> rest \<noteq> [] \<or> ends_token q t \<Longrightarrow>
     read_quoted dbl b q (s @ t) = Some (v, rest @ t)"
proof (induction dbl b q s arbitrary: v rest rule: read_quoted.induct)
  case (2 dbl b q c cs)
  show ?case
  proof (cases "b \<and> c = CHR 0x5C")
    case True
    with 2 show ?thesis by (fastforce split: list.splits)
  next
    case F1: False
    show ?thesis
    proof (cases "c = q")
      case True
      show ?thesis
      proof (cases cs)
        case Nil
        with 2 True F1 show ?thesis by (cases t) (auto simp: ends_token_def)
      next
        case (Cons d ds)
        with 2 True F1 show ?thesis by (auto split: if_splits)
      qed
    next
      case False
      with 2 F1 show ?thesis by (auto split: if_splits)
    qed
  qed
qed simp

text \<open>Two texts can be put together when no token and no comment opener can form across the seam.\<close>

definition seam :: "string \<Rightarrow> string \<Rightarrow> bool" where
  "seam a b \<longleftrightarrow> a = [] \<or> b = [] \<or> last a \<in> set '' (,.'' \<or> hd b \<in> set '' ,).''"

lemma read_quoted_rest: "read_quoted dbl b q s = Some (v, rest) \<Longrightarrow> \<exists>u. s = u @ rest"
proof (induction dbl b q s arbitrary: v rest rule: read_quoted.induct)
  case (2 dbl b q c cs)
  consider (plain) w where "\<not> (b \<and> c = CHR 0x5C)" "c \<noteq> q" "read_quoted dbl b q cs = Some (w, rest)"
    | (skip) d ds w where "cs = d # ds" "read_quoted dbl b q ds = Some (w, rest)" "b \<and> c = CHR 0x5C"
    | (pair) ds w where "cs = q # ds" "c = q" "\<not> (b \<and> c = CHR 0x5C)" "dbl" "read_quoted dbl b q ds = Some (w, rest)"
    | (tail) "rest = cs"
    using 2(4) by (auto split: if_splits list.splits)
  then show ?case
  proof cases
    case plain
    with 2(3) [OF plain(1,2,3)] obtain u where "cs = u @ rest" by blast
    then show ?thesis by (intro exI [of _ "c # u"]) simp
  next
    case skip
    with 2(1) [OF skip(3,1)] obtain u where "ds = u @ rest" by blast
    with skip show ?thesis by (intro exI [of _ "c # d # u"]) simp
  next
    case pair
    with 2(2) [OF pair(3,2,1)] obtain u where "ds = u @ rest" by blast
    with pair show ?thesis by (intro exI [of _ "c # q # u"]) simp
  next
    case tail
    then show ?thesis by (intro exI [of _ "[c]"]) simp
  qed
qed simp

lemma read_all_last: "read_quoted True False q cs = Some (v, []) \<Longrightarrow> cs \<noteq> [] \<and> last cs = q"
proof (induction True False q cs arbitrary: v rule: read_quoted.induct)
  case (2 q c cs)
  show ?case
  proof (cases "c = q \<and> (cs = [] \<or> hd cs \<noteq> q)")
    case True
    with 2 show ?thesis by (cases cs) auto
  next
    case False
    with 2 show ?thesis by (cases cs) (auto split: if_splits)
  qed
qed simp

lemma masked_append:
  "masked a va \<Longrightarrow> masked b vb \<Longrightarrow> b = [] \<or> a = [] \<or> last a \<notin> quotes \<or> hd b \<notin> quotes \<Longrightarrow> masked (a @ b) (va @ vb)"
proof (induction rule: masked.induct)
  case (masked_code c cs vs)
  then show ?case by (auto intro: masked.masked_code split: if_splits)
next
  case (masked_quote q cs v rest vs n)
  note len = read_quoted_length [OF masked_quote.hyps(2)]
  have ends: "rest \<noteq> [] \<or> ends_token q b"
    using masked_quote.prems(2) masked_quote.hyps(1,2) read_all_last [of q cs v]
    by (cases rest) (auto simp: ends_token_def)
  have "masked (rest @ b) (vs @ vb)"
  proof (cases "rest = []")
    case True
    then have "b = [] \<or> rest = [] \<or> last rest \<notin> quotes \<or> hd b \<notin> quotes" by simp
    with masked_quote show ?thesis by blast
  next
    case False
    have "last rest = last (q # cs)"
      using read_quoted_rest [OF masked_quote.hyps(2)] False by (auto simp: last_append)
    with masked_quote False show ?thesis by auto
  qed
  from masked.masked_quote [OF masked_quote.hyps(1) read_quoted_append [OF masked_quote.hyps(2) ends] this refl]
  show ?case using len masked_quote.hyps(4) by simp
next
  case (masked_bracket body rest vs)
  then have "masked (rest @ b) (vs @ vb)" by (auto split: if_splits)
  from masked.masked_bracket [OF masked_bracket.hyps(1) this] show ?case by simp
qed simp

lemma masked_hd: "masked s v \<Longrightarrow> s \<noteq> [] \<Longrightarrow> hd s \<notin> quotes \<Longrightarrow> hd s \<noteq> CHR ''['' \<Longrightarrow> hd v = hd s"
  by (induction rule: masked.induct) auto

lemma masked_last: "masked s v \<Longrightarrow> s \<noteq> [] \<Longrightarrow> last s \<notin> quotes \<Longrightarrow> last s \<noteq> CHR '']'' \<Longrightarrow> last v = last s"
proof (induction rule: masked.induct)
  case (masked_code c cs vs)
  then show ?case by (auto dest: masked_length)
next
  case (masked_quote q cs v rest vs n)
  have "rest \<noteq> []"
    using masked_quote.prems masked_quote.hyps(1,2) read_all_last [of q cs v] by auto
  moreover have "last rest = last (q # cs)"
    using read_quoted_rest [OF masked_quote.hyps(2)] calculation by (auto simp: last_append)
  moreover have "vs \<noteq> []" using calculation(1) masked_length [OF masked_quote.hyps(3)] by auto
  ultimately show ?case using masked_quote by auto
next
  case (masked_bracket body rest vs)
  then have "rest \<noteq> []" by auto
  moreover have "vs \<noteq> []" using calculation masked_length [OF masked_bracket.hyps(2)] by auto
  ultimately show ?case using masked_bracket by auto
qed simp

lemma quiet_append:
  "quiet a \<Longrightarrow> quiet b \<Longrightarrow> a = [] \<or> b = [] \<or> quiet_pair (last a) (hd b) \<Longrightarrow> quiet (a @ b)"
  by (auto simp: quiet_def successively_append_iff)

lemma safe_append:
  assumes "safe i a j" and "safe j b k" and seam: "seam a b"
  shows "safe i (a @ b) k"
proof -
  from assms obtain va vb where a: "masked a va" "quiet va" "\<And>n. paren_depth (n + i) va = Some (n + j)"
    and b: "masked b vb" "quiet vb" "\<And>n. paren_depth (n + j) vb = Some (n + k)"
    by (auto simp: safe_def)
  have "b = [] \<or> a = [] \<or> last a \<notin> quotes \<or> hd b \<notin> quotes"
    using seam by (auto simp: seam_def)
  then have "masked (a @ b) (va @ vb)" using masked_append [OF a(1) b(1)] by blast
  moreover have "va = [] \<or> vb = [] \<or> quiet_pair (last va) (hd vb)"
  proof (cases "a = [] \<or> b = []")
    case True
    then show ?thesis using masked_length [OF a(1)] masked_length [OF b(1)] by auto
  next
    case False
    with seam have "last va \<in> set '' (,.'' \<or> hd vb \<in> set '' ,).''"
      using masked_last [OF a(1)] masked_hd [OF b(1)] by (auto simp: seam_def)
    then show ?thesis by (auto simp: quiet_pair_def)
  qed
  ultimately show ?thesis
    using a b quiet_append by (auto simp: safe_def paren_depth_append)
qed

definition plain :: "char \<Rightarrow> bool" where
  "plain c \<longleftrightarrow> c \<notin> quotes \<and> c \<noteq> CHR ''['' \<and> c \<noteq> CHR '';''"

lemma masked_plain: "list_all plain s \<Longrightarrow> masked s s"
  by (induction s) (auto simp: plain_def intro: masked.intros)

lemma safe_plain:
  assumes "list_all plain s" and "successively quiet_pair s" and "paren_depth i s = Some j"
  shows "safe i s j"
proof -
  have "quiet s" using assms(1,2) by (auto simp: quiet_def plain_def list_all_iff)
  then show ?thesis
    unfolding safe_def using masked_plain [OF assms(1)] paren_depth_mono [OF assms(3)] by blast
qed

lemmas safe_const_eval = plain_def quiet_pair_def

lemma paren_depth_blanks: "paren_depth d (replicate n CHR '' '') = Some d"
  using paren_depth_blank [of d n "[]"] by simp

lemma quiet_blanks: "quiet (replicate n CHR '' '')"
  by (induction n) (auto simp: quiet_def successively_Cons quiet_pair_def)

lemma safe_token: "q \<in> quotes \<Longrightarrow> safe i (q # replace_char q [q, q] n @ [q]) i"
proof -
  assume q: "q \<in> quotes"
  let ?body = "replace_char q [q, q] n @ [q]"
  have "read_quoted True False q ?body = Some (n, [])"
    using read_quoted_doubled [of q "[]" False n] by (simp add: ends_token_def)
  from masked_quote [OF q this masked_end refl]
  have "masked (q # ?body) (replicate (Suc (length ?body)) CHR '' '')" by simp
  then show ?thesis
    using quiet_blanks paren_depth_blanks unfolding safe_def by (metis append_Cons)
qed

lemma safe_ident [simp]: "safe i (quote_ident e n) i"
  using safe_token [of "ident_quote e" i n] by (simp add: quote_ident_def ident_quote_def)

lemma safe_null [simp]: "safe i ''NULL'' i"
  by (rule safe_plain) (simp_all add: safe_const_eval)

lemma safe_literal: "e \<noteq> Mysql \<Longrightarrow> safe i (sql_literal e v) i"
  using safe_token [of "CHR 0x27" i "the v"] by (cases v) (simp_all add: sql_literal_def Let_def)

text \<open>The characters of a match are those of the classes of the pattern.\<close>

fun rx_all :: "(char \<Rightarrow> bool) \<Rightarrow> rx \<Rightarrow> bool" where
  "rx_all P (Cls p) = (\<forall>c. p c \<longrightarrow> P c)"
| "rx_all P (Seq a b) = (rx_all P a \<and> rx_all P b)"
| "rx_all P (Alt a b) = (rx_all P a \<and> rx_all P b)"
| "rx_all P (Star a) = rx_all P a"
| "rx_all P r = True"

lemma rx_all_match: "rx_match r s i j \<Longrightarrow> rx_all P r \<Longrightarrow> i \<le> k \<Longrightarrow> k < j \<Longrightarrow> P (s ! k)"
proof (induction rule: rx_match.induct)
  case (cls i s p)
  then have "k = i" by simp
  with cls show ?case by simp
next
  case (seq a s i j b k')
  then show ?case by (cases "k < j") auto
next
  case (star1 a s i j k')
  then show ?case by (cases "k < j") auto
qed auto

lemma rx_match_seqs_Cons: "rx_match (seqs (r # rs)) s i k \<longleftrightarrow> (\<exists>j. rx_match r s i j \<and> rx_match (seqs rs) s j k)"
  by (auto simp: seqs_def intro: rx_match.seq elim: rx_match_SeqE)

lemma rx_match_seqs_Nil: "rx_match (seqs []) s i k \<longleftrightarrow> k = i"
  by (auto simp: seqs_def intro: rx_match.eps elim: rx_match_EpsE)

lemma rx_match_Bos: "rx_match Bos s i j \<longleftrightarrow> i = 0 \<and> j = 0"
  by (auto intro: rx_match.bos elim: rx_match_BosE)

lemma rx_match_Eos: "rx_match Eos s i j \<longleftrightarrow> i = length s \<and> j = length s"
  by (auto intro: rx_match.eos elim: rx_match_EosE)

lemma rx_match_Cls: "rx_match (Cls p) s i j \<longleftrightarrow> i < length s \<and> p (s ! i) \<and> j = Suc i"
  by (auto intro: rx_match.cls elim: rx_match_ClsE)

lemma rx_match_opt: "rx_match (opt r) s i j \<longleftrightarrow> rx_match r s i j \<or> j = i"
  by (auto simp: opt_def intro: rx_match.intros elim: rx_match_AltE rx_match_EpsE)

lemma rx_match_Seq: "rx_match (Seq a b) s i k \<longleftrightarrow> (\<exists>j. rx_match a s i j \<and> rx_match b s j k)"
  by (auto intro: rx_match.seq elim: rx_match_SeqE)

lemma rx_match_rlit: "rx_match (rlit t) s i j \<Longrightarrow> j = i + length t \<and> slice i j s = t"
proof (induction t arbitrary: i)
  case Nil
  then show ?case by (auto simp: rlit_def slice_def elim: rx_match_EpsE)
next
  case (Cons c t)
  then have "i < length s" "s ! i = c" "rx_match (rlit t) s (Suc i) j"
    by (auto simp: rlit_def rx_match_Seq rx_match_Cls)
  with Cons.IH [of "Suc i"] show ?case
    by (auto simp: slice_def) (metis Cons_nth_drop_Suc add_Suc_right length_take min_less_iff_conj less_add_Suc1 nth_take)
qed

lemmas rx_match_simps =
  rx_match_seqs_Cons rx_match_seqs_Nil rx_match_Bos rx_match_Eos rx_match_Cls rx_match_opt rx_match_Seq

text \<open>A bare number has no two adjacent signs and no character of a token.\<close>

lemma number_shape:
  assumes "rx_test number_re t"
  shows "list_all (\<lambda>c. is_digit c \<or> c \<in> set ''+-.eE'') t" and "successively quiet_pair t"
proof -
  from assms obtain i j where "rx_match number_re t i j" by (auto simp: rx_test_iff)
  then obtain p1 p2 p3 where m: "rx_match (opt (rlit ''-'')) t 0 p1" "rx_match (plus1 (Cls is_digit)) t p1 p2"
    "rx_match (opt (Seq (rlit ''.'') (plus1 (Cls is_digit)))) t p2 p3" "rx_match (opt exponent) t p3 (length t)"
    unfolding number_re_def rx_match_simps(1,2,3,4) by blast
  define P where "P = (\<lambda>c. is_digit c \<or> c \<in> set ''+-.eE'')"
  have cls: "rx_all P (opt (rlit ''-''))" "rx_all P (plus1 (Cls is_digit))"
    "rx_all P (opt (Seq (rlit ''.'') (plus1 (Cls is_digit))))" "rx_all P (opt exponent)"
    by (auto simp: P_def opt_def rlit_def plus1_def exponent_def seqs_def)
  have range: "0 \<le> p1" "p1 \<le> p2" "p2 \<le> p3" "p3 \<le> length t"
    using m rx_match_range by blast+
  have "P (t ! k)" if "k < length t" for k
    using rx_all_match [OF m(1) cls(1)] rx_all_match [OF m(2) cls(2)] rx_all_match [OF m(3) cls(3)]
      rx_all_match [OF m(4) cls(4)] that by (meson le0 not_le)
  then show "list_all (\<lambda>c. is_digit c \<or> c \<in> set ''+-.eE'') t"
    by (simp add: list_all_length P_def)
  define Q where "Q = (\<lambda>c. is_digit c \<or> c = CHR ''.'')"
  have q: "rx_all Q (plus1 (Cls is_digit))" "rx_all Q (opt (Seq (rlit ''.'') (plus1 (Cls is_digit))))"
    by (auto simp: Q_def opt_def rlit_def plus1_def)
  have sign: "\<not> Q (CHR ''-'')" "\<not> Q (CHR ''*'')" "\<not> P (CHR ''*'')" by (simp_all add: Q_def P_def is_digit_def)
  have p1: "p1 \<le> 1" using m(1) by (auto simp: rx_match_opt dest: rx_match_rlit)
  have ex: "t ! p3 \<noteq> CHR ''-'' \<and> (\<forall>k. p3 + 1 < k \<and> k < length t \<longrightarrow> Q (t ! k))" if "p3 < length t"
  proof -
    from m(4) that have "rx_match exponent t p3 (length t)" by (auto simp: rx_match_opt)
    then obtain p where e: "t ! p3 = CHR ''e'' \<or> t ! p3 = CHR ''E''"
      "rx_match (opt (Cls (\<lambda>c. c = CHR ''+'' \<or> c = CHR ''-''))) t (Suc p3) p" "rx_match (plus1 (Cls is_digit)) t p (length t)"
      unfolding exponent_def rx_match_simps(1,2,5) by blast
    from e(2) have "p \<le> p3 + 2" by (auto simp: rx_match_simps)
    with e(1) rx_all_match [OF e(3) q(1)] show ?thesis by force
  qed
  have "\<not> (t ! k = CHR ''-'' \<and> t ! Suc k = CHR ''-'')" if k: "Suc k < length t" for k
  proof
    assume bad: "t ! k = CHR ''-'' \<and> t ! Suc k = CHR ''-''"
    with sign(1) rx_all_match [OF m(2) q(1), of "Suc k"] rx_all_match [OF m(3) q(2), of "Suc k"] p1
    have "p3 \<le> Suc k" by (metis One_nat_def Suc_le_mono le0 le_trans not_le)
    with k ex bad sign show False
      by (metis Suc_eq_plus1 Suc_leI le_neq_implies_less less_SucE not_less_eq order_le_less_trans)
  qed
  moreover have "t ! Suc k \<noteq> CHR ''*''" if "Suc k < length t" for k
    using \<open>\<And>k. k < length t \<Longrightarrow> P (t ! k)\<close> [OF that] sign(3) by metis
  ultimately show "successively quiet_pair t"
    by (auto simp: successively_conv_nth quiet_pair_def)
qed

lemma safe_value: "e \<noteq> Mysql \<Longrightarrow> safe i (sql_value e ty v) i"
proof -
  assume e: "e \<noteq> Mysql"
  have "safe i t i" if "rx_test number_re t" for t
  proof (rule safe_plain)
    note sh = number_shape [OF that]
    show "list_all plain t"
      using sh(1) by (auto simp: list_all_iff plain_def is_digit_def)
    show "successively quiet_pair t" by (rule sh(2))
    have "CHR ''('' \<notin> set t \<and> CHR '')'' \<notin> set t"
      using sh(1) by (auto simp: list_all_iff is_digit_def)
    then show "paren_depth i t = Some i" by (induction t) auto
  qed
  then show ?thesis
    using safe_literal [OF e] by (auto simp: sql_value_def Let_def split: option.splits)
qed

lemma successively_no_pair: "\<not> str_includes [x, y] v \<Longrightarrow> successively (\<lambda>a b. \<not> (a = x \<and> b = y)) v"
  by (induction v rule: induct_list012) auto

lemma safe_expression: "grid_expression_issue kind raw = None \<Longrightarrow> safe 0 raw 0"
proof -
  assume "grid_expression_issue kind raw = None"
  from accepted_fragment [OF this] obtain v where v: "masked raw v" "paren_depth 0 v = Some 0" "CHR '';'' \<notin> set v"
    "\<not> str_includes ''--'' v" "\<not> str_includes ''/*'' v" by blast
  have "successively quiet_pair v"
    using successively_no_pair [OF v(4)] successively_no_pair [OF v(5)]
    by (auto simp: successively_conv_nth quiet_pair_def)
  with v paren_depth_mono [OF v(2)] show ?thesis by (auto simp: safe_def quiet_def)
qed

text \<open>The separators of the builders.\<close>

definition separator :: "string \<Rightarrow> bool" where
  "separator s \<longleftrightarrow> s \<noteq> [] \<and> hd s \<in> set '' ,).'' \<and> last s \<in> set '' (,.''"

lemma safe_around:
  "safe i a j \<Longrightarrow> safe j s k \<Longrightarrow> safe k b l \<Longrightarrow> separator s \<Longrightarrow> safe i (a @ s @ b) l"
  by (rule safe_append [of i a j], simp, rule safe_append [of j s k])
     (auto simp: separator_def seam_def)

lemma safe_after: "safe i s j \<Longrightarrow> safe j b k \<Longrightarrow> s \<noteq> [] \<and> last s \<in> set '' (,.'' \<Longrightarrow> safe i (s @ b) k"
  by (rule safe_append) (auto simp: seam_def)

lemma safe_before: "safe i a j \<Longrightarrow> safe j s k \<Longrightarrow> s \<noteq> [] \<and> hd s \<in> set '' ,).'' \<Longrightarrow> safe i (a @ s) k"
  by (rule safe_append) (auto simp: seam_def)

lemma safe_Nil [simp]: "safe i [] i"
  by (rule safe_plain) auto

lemma safe_join:
  "separator sep \<Longrightarrow> safe i sep i \<Longrightarrow> (\<And>x. x \<in> set xs \<Longrightarrow> safe i x i) \<Longrightarrow> safe i (js_join sep xs) i"
proof (induction xs)
  case (Cons x xs)
  then have "safe i (js_join sep xs) i" by simp
  with Cons.prems show ?case by (auto simp: js_join_Cons intro: safe_around)
qed simp

lemma separators:
  "separator '', ''" "separator '' AND ''" "separator '' OR ''" "separator '' = ''" "separator ''.''"
  "separator '' AS ''" "separator '') ILIKE ''" "separator '') LIKE ''" "separator '' IN (''" "separator '' SET ''"
  "separator '' WHERE ''" "separator '') VALUES (''" "separator '' (''" "separator '' ''"
  by (simp_all add: separator_def)

lemma safe_consts:
  "safe i '', '' i" "safe i '' AND '' i" "safe i '' OR '' i" "safe i '' = '' i" "safe i ''.'' i" "safe i '' '' i"
  "safe i '' AS '' i" "safe (Suc i) '') ILIKE '' i" "safe (Suc i) '') LIKE '' i" "safe i '' IN ('' (Suc i)"
  "safe i '' SET '' i" "safe i '' WHERE '' i" "safe (Suc i) '') VALUES ('' (Suc i)" "safe i '' ('' (Suc i)"
  "safe i ''('' (Suc i)" "safe (Suc i) '')'' i" "safe i '' IS NULL'' i" "safe i '' IS NOT NULL'' i"
  "safe i ''CAST('' (Suc i)" "safe i ''CHAR'' i" "safe i ''STRING'' i" "safe i ''TEXT'' i" "safe i '' DESC'' i" "safe i '' ASC'' i"
  "safe i ''ORDER BY '' i" "safe i ''SELECT * FROM '' i" "safe i ''SELECT COUNT(*) AS n FROM '' i"
  "safe i ''UPDATE '' i" "safe i ''DELETE FROM '' i" "safe i ''INSERT INTO '' i" "safe i '' LIMIT '' i" "safe i '' OFFSET '' i"
  by (rule safe_plain; simp add: safe_const_eval)+

lemma safe_table_ref: "safe i (table_ref e t) i"
  unfolding table_ref_def Let_def
  using safe_around [OF safe_ident safe_consts(5) safe_ident separators(5)] by auto

lemma safe_is_null: "safe i (quote_ident e c @ '' IS NULL'') i"
  by (rule safe_before [of i _ i]) (simp_all add: safe_consts)

lemma safe_equals: "safe i b i \<Longrightarrow> safe i (quote_ident e c @ '' = '' @ b) i"
  by (rule safe_around [of i _ i _ i]) (simp_all add: safe_consts separators)

lemma safe_comparison: "e \<noteq> Mysql \<Longrightarrow> safe i (comparison e t c v) i"
  by (auto simp: comparison_def safe_is_null [simplified] safe_equals [simplified] safe_value split: option.splits)

lemma safe_cast_text: "safe i (cast_text e) i"
  by (simp add: cast_text_def safe_consts)

lemma safe_in_list:
  assumes "e \<noteq> Mysql"
  shows "safe i (quote_ident e c @ '' IN ('' @ js_join '', '' (map (sql_value e ty) vs) @ '')'') i"
proof -
  have "safe (Suc i) (js_join '', '' (map (sql_value e ty) vs)) (Suc i)"
    by (rule safe_join) (auto simp: separators safe_consts safe_value assms)
  then have "safe (Suc i) (js_join '', '' (map (sql_value e ty) vs) @ '')'') i"
    by (rule safe_before) (simp_all add: safe_consts)
  then show ?thesis
    by (rule safe_around [of i _ i _ "Suc i", rotated 2]) (simp_all add: safe_consts separators)
qed

lemma safe_parens: "safe (Suc i) a (Suc i) \<Longrightarrow> safe i (''('' @ a @ '')'') i"
  by (rule safe_after [of i "''(''" "Suc i"], simp add: safe_consts)
     (rule safe_before [of "Suc i" a "Suc i"], simp_all add: safe_consts)

lemma safe_like:
  assumes "e \<noteq> Mysql"
  shows "safe i (''CAST('' @ quote_ident e c @ '' AS '' @ cast_text e @ '') '' @ (if e = Postgres then ''ILIKE'' else ''LIKE'')
           @ '' '' @ sql_literal e v) i"
proof -
  let ?op = "if e = Postgres then '') ILIKE '' else '') LIKE ''"
  have "safe (Suc i) (cast_text e @ ?op @ sql_literal e v) i"
    by (rule safe_around [of "Suc i" _ "Suc i" _ i]) (simp_all add: safe_cast_text safe_consts separators safe_literal assms)
  then have "safe (Suc i) (quote_ident e c @ '' AS '' @ cast_text e @ ?op @ sql_literal e v) i"
    by (rule safe_around [of "Suc i" _ "Suc i" _ "Suc i", rotated 2]) (simp_all add: safe_consts separators)
  then have "safe i (''CAST('' @ quote_ident e c @ '' AS '' @ cast_text e @ ?op @ sql_literal e v) i"
    by (rule safe_after [rotated]) (simp_all add: safe_consts)
  then show ?thesis by (cases "e = Postgres") simp_all
qed

lemma safe_filter_clause:
  assumes e: "e \<noteq> Mysql" and clause: "filter_clause parse e col raw = Some x"
  shows "safe i x i"
proof (cases "decode_grid_value_filter parse raw")
  case None
  with clause show ?thesis
    using safe_is_null safe_equals safe_value [OF e] safe_like [OF e] safe_before [of i _ i "'' IS NOT NULL''"]
    by (auto simp: filter_clause_def Let_def safe_consts split: if_splits)
next
  case (Some selected)
  let ?texts = "filter (\<lambda>x. x \<noteq> None) selected"
  define clauses where "clauses = (if ?texts \<noteq> []
      then [quote_ident e (col_name col) @ '' IN ('' @ js_join '', '' (map (sql_value e (col_type col)) ?texts) @ '')''] else [])
      @ (if None \<in> set selected then [quote_ident e (col_name col) @ '' IS NULL''] else [])"
  have all: "safe k c k" if "c \<in> set clauses" for c k
    using that safe_in_list [OF e] safe_is_null unfolding clauses_def by (auto split: if_splits)
  have "x = (if length clauses = 1 then hd clauses else ''('' @ js_join '' OR '' clauses @ '')'')" "clauses \<noteq> []"
    using clause Some by (simp_all add: filter_clause_def Let_def clauses_def split: if_splits)
  moreover have "safe i (''('' @ js_join '' OR '' clauses @ '')'') i"
    by (rule safe_parens, rule safe_join) (auto simp: separators safe_consts all)
  ultimately show ?thesis using all by auto
qed

lemma safe_where:
  assumes e: "e \<noteq> Mysql" and w: "build_where parse e cols filters expr = Inr x"
  shows "safe 0 x 0"
proof -
  have parts: "safe 0 c 0" if "c \<in> set (filter_clauses parse e cols filters)" for c
    using that safe_filter_clause [OF e]
    by (induction cols) (auto simp: filter_clauses_def List.map_filter_simps split: option.splits)
  have fragment: "safe 0 (''('' @ js_trim expr @ '')'') 0" if "grid_expression_issue WhereExpression (js_trim expr) = None"
  proof (rule safe_parens)
    from safe_expression [OF that] show "safe (Suc 0) (js_trim expr) (Suc 0)"
      unfolding safe_def by (metis add.right_neutral)
  qed
  show ?thesis
    using w parts fragment
    by (auto simp: build_where_def Let_def assert_grid_expression_def separators safe_consts
        split: if_splits option.splits intro!: safe_join)
qed

lemma safe_order_by: "build_order_by e t s expr = Inr x \<Longrightarrow> safe 0 x 0"
proof -
  assume o: "build_order_by e t s expr = Inr x"
  have key: "safe 0 (quote_ident e c @ '' '' @ (if d then ''DESC'' else ''ASC'')) 0" for c d
    using safe_before [of 0 "quote_ident e c" 0 "'' DESC''" 0] safe_before [of 0 "quote_ident e c" 0 "'' ASC''" 0]
    by (simp add: safe_consts)
  have keys: "safe 0 (js_join '', '' ((quote_ident e c @ '' '' @ (if d then ''DESC'' else ''ASC'')) # pk_tiebreakers e t c)) 0" for c d
    by (rule safe_join) (auto simp: separators safe_consts pk_tiebreakers_def key [simplified])
  have order: "safe 0 b 0 \<Longrightarrow> safe 0 (''ORDER BY '' @ b) 0" for b
    by (rule safe_after [of 0 "''ORDER BY ''" 0 b 0]) (simp_all add: safe_consts)
  show ?thesis
    using o order [OF keys, of "sort_col (the s)" "sort_desc (the s)"] order [OF safe_expression]
    by (auto simp: build_order_by_def Let_def assert_grid_expression_def split: if_splits option.splits)
qed

lemma digits_plain:
  assumes "\<And>c. c \<in> set s \<Longrightarrow> is_digit c"
  shows "list_all plain s" and "successively quiet_pair s" and "paren_depth i s = Some i"
proof -
  show "list_all plain s" using assms by (force simp: list_all_iff plain_def is_digit_def)
  have "quiet_pair (s ! k) (s ! Suc k)" if "Suc k < length s" for k
    using assms [of "s ! k"] that by (auto simp: quiet_pair_def is_digit_def)
  then show "successively quiet_pair s" by (simp add: successively_conv_nth)
  have "CHR ''('' \<notin> set s" "CHR '')'' \<notin> set s" using assms by (force simp: is_digit_def)+
  then show "paren_depth i s = Some i" by (induction s) auto
qed

lemma safe_nat_str: "safe i (nat_str n) i"
  by (intro safe_plain digits_plain nat_str_digits)

text \<open>The paging clause is outside every token.\<close>

lemma masked_suffix:
  assumes "safe 0 a 0" and "list_all plain s" and "s = [] \<or> hd s = CHR '' ''"
  shows "\<exists>va. masked (a @ s) (va @ s) \<and> paren_depth 0 va = Some 0"
proof -
  from assms(1) obtain va where "masked a va" "\<forall>n. paren_depth (n + 0) va = Some (n + 0)"
    by (auto simp: safe_def)
  then have "masked a va" "paren_depth 0 va = Some 0" by auto
  moreover have "s = [] \<or> a = [] \<or> last a \<notin> quotes \<or> hd s \<notin> quotes" using assms(3) by auto
  ultimately show ?thesis using masked_append [OF _ masked_plain [OF assms(2)]] by blast
qed

lemma safe_page_head:
  assumes "e \<noteq> Mysql" and "build_where parse e cols filters w = Inr wh" and "build_order_by e t s ord = Inr oc"
  shows "safe 0 (''SELECT * FROM '' @ table_ref e t @ (if wh \<noteq> [] then '' WHERE '' @ wh else [])
           @ (if oc \<noteq> [] then '' '' @ oc else [])) 0"
proof -
  have o: "safe 0 (a @ (if oc \<noteq> [] then '' '' @ oc else [])) 0" if "safe 0 a 0" for a
    using that safe_around [OF that safe_consts(6) safe_order_by [OF assms(3)] separators(14)] by auto
  have "safe 0 (table_ref e t @ (if wh \<noteq> [] then '' WHERE '' @ wh else [])) 0"
    using safe_around [OF safe_table_ref safe_consts(12) safe_where [OF assms(1,2)] separators(11)] safe_table_ref
    by auto
  then have "safe 0 (''SELECT * FROM '' @ table_ref e t @ (if wh \<noteq> [] then '' WHERE '' @ wh else [])) 0"
    by (rule safe_after [rotated]) (simp_all add: safe_consts)
  from o [OF this] show ?thesis by simp
qed

text \<open>
A page of a table is one statement, whatever the user typed. For engines with standard quoting, when
\<open>buildPageQuery\<close> returns a query then, for any filters, free WHERE and ORDER BY text, sort column, table and
column names, the text outside quoted tokens has no semicolon and no comment opener, its parentheses balance,
and it ends, at parenthesis depth 0, with the generated LIMIT and OFFSET, which are natural numbers. So no
input can append a statement or swallow the paging.
\<close>

theorem page_query_is_one_statement:
  assumes "e \<in> {Postgres, Sqlite}" and "build_page_query parse e t opts = Inr q"
  shows "safe 0 q 0
    \<and> (\<exists>head. masked q (head @ '' LIMIT '' @ nat_str (nat (opt_limit opts)) @ '' OFFSET '' @ nat_str (nat (opt_offset opts)))
         \<and> paren_depth 0 head = Some 0)"
proof -
  from assms(1) have e: "e \<noteq> Mysql" by auto
  from assms(2) obtain w oc where w: "build_where parse e (tbl_columns t) (opt_filters opts) (opt_where opts) = Inr w"
    and oc: "build_order_by e t (opt_sort opts) (opt_order opts) = Inr oc"
    by (auto simp: build_page_query_def split: sum.splits)
  define head where "head = ''SELECT * FROM '' @ table_ref e t @ (if w \<noteq> [] then '' WHERE '' @ w else [])
      @ (if oc \<noteq> [] then '' '' @ oc else [])"
  define tail where "tail = '' LIMIT '' @ nat_str (nat (opt_limit opts)) @ '' OFFSET '' @ nat_str (nat (opt_offset opts))"
  have q: "q = head @ tail" using assms(2) w oc by (simp add: build_page_query_def head_def tail_def)
  have head: "safe 0 head 0" unfolding head_def by (rule safe_page_head [OF e w oc])
  have "separator '' LIMIT ''" "separator '' OFFSET ''" by (simp_all add: separator_def)
  then have tail: "safe 0 (head @ tail) 0"
    unfolding tail_def
    by (intro safe_around [OF head safe_consts(31)] safe_around [OF safe_nat_str safe_consts(32) safe_nat_str])
  have "list_all plain tail"
    using digits_plain(1) [OF nat_str_digits] by (simp add: tail_def safe_const_eval)
  with masked_suffix [OF head, of tail] tail q show ?thesis by (auto simp: tail_def)
qed

text \<open>The conditions of a write: every key, then the optimistic-lock columns.\<close>

definition lock_columns :: "catalog_table \<Rightarrow> cell_values \<Rightarrow> cell_values option \<Rightarrow> string list \<Rightarrow> bool" where
  "lock_columns t pk originals extra \<longleftrightarrow>
     set extra \<inter> set (js_keys pk) = {} \<and> (originals = None \<longrightarrow> extra = [])
     \<and> (\<forall>c\<in>set (tbl_columns t). rx_test version_column_re (col_name c) \<and> originals \<noteq> None
          \<and> has_key (col_name c) (the originals) \<longrightarrow> length extra \<le> 1)"

lemma guard_shape:
  "\<exists>extra. guard_conditions e t pk originals changed
      = map (\<lambda>c. comparison e t c (get_value pk c)) (js_keys pk)
        @ map (\<lambda>c. comparison e t c (get_value (the originals) c)) extra
      \<and> lock_columns t pk originals extra"
proof (cases originals)
  case None
  then show ?thesis by (intro exI [of _ "[]"]) (simp add: guard_conditions_def lock_columns_def)
next
  case (Some os)
  let ?extra = "filter (\<lambda>c. \<not> has_key c pk) (optimistic_columns t os changed)"
  have "length (optimistic_columns t os changed) \<le> 1"
    if "c \<in> set (tbl_columns t)" "rx_test version_column_re (col_name c)" "has_key (col_name c) os" for c
    using that by (auto simp: optimistic_columns_def find_None_iff' split: option.splits)
  then have one: "length ?extra \<le> 1"
    if "c \<in> set (tbl_columns t)" "rx_test version_column_re (col_name c)" "has_key (col_name c) os" for c
    using that length_filter_le order_trans by blast
  have "set ?extra \<inter> set (js_keys pk) = {}" by (auto simp: has_key_def)
  then show ?thesis
    using Some one by (intro exI [of _ ?extra]) (simp add: guard_conditions_def lock_columns_def)
qed

lemma safe_guards: "e \<noteq> Mysql \<Longrightarrow> safe 0 (js_join '' AND '' (guard_conditions e t pk originals changed)) 0"
  by (rule safe_join) (auto simp: guard_conditions_def separators safe_consts safe_comparison split: option.splits)

lemma safe_update_head:
  assumes "e \<noteq> Mysql"
  shows "safe 0 (''UPDATE '' @ table_ref e t @ '' SET '' @ js_join '', '' (assignments e t vs)) 0"
proof -
  have "safe 0 (js_join '', '' (assignments e t vs)) 0"
    by (rule safe_join) (auto simp: assignments_def separators safe_consts intro!: safe_equals [simplified] safe_value [OF assms])
  from safe_after [OF safe_consts(28) safe_around [OF safe_table_ref safe_consts(11) this separators(10)]]
  show ?thesis by simp
qed

lemma safe_delete_head: "safe 0 (''DELETE FROM '' @ table_ref e t) 0"
  by (rule safe_after [OF safe_consts(29) safe_table_ref]) simp

lemma safe_insert:
  assumes e: "e \<noteq> Mysql" and ins: "build_insert e t vs = Inr q"
  shows "safe 0 q 0"
proof -
  let ?cols = "filter (\<lambda>c. has_key (col_name c) vs) (tbl_columns t)"
  let ?vals = "map (\<lambda>c. sql_value e (col_type c) (get_value vs (col_name c))) ?cols"
  have "safe (Suc 0) (js_join '', '' (map (\<lambda>c. quote_ident e (col_name c)) ?cols)) (Suc 0)" "safe (Suc 0) (js_join '', '' ?vals) (Suc 0)"
    by (rule safe_join; auto simp: separators safe_consts safe_value [OF e])+
  from safe_around [OF this(1) safe_consts(13) safe_before [OF this(2) safe_consts(16)] separators(12)]
  have "safe (Suc 0) (js_join '', '' (map (\<lambda>c. quote_ident e (col_name c)) ?cols) @ '') VALUES ('' @ js_join '', '' ?vals @ '')'') 0"
    by simp
  from safe_after [OF safe_consts(30) safe_around [OF safe_table_ref safe_consts(14) this separators(13)]]
  show ?thesis using ins by (auto simp: build_insert_def Let_def split: if_splits)
qed

text \<open>An UPDATE or DELETE is a harmless head and its guard conditions.\<close>

lemma keyed_write:
  assumes e: "e \<noteq> Mysql" and wr: "build_update e t pk vs originals = Inr q \<or> build_delete e t pk originals = Inr q"
  obtains head changed where "safe 0 head 0" "pk \<noteq> []"
    "q = head @ '' WHERE '' @ js_join '' AND '' (guard_conditions e t pk originals changed)"
proof -
  have pk: "pk \<noteq> []"
    using wr by (auto simp: build_update_def build_delete_def Let_def split: if_splits)
  show thesis
  proof (cases "build_update e t pk vs originals = Inr q")
    case True
    with pk have "q = (''UPDATE '' @ table_ref e t @ '' SET '' @ js_join '', '' (assignments e t vs))
        @ '' WHERE '' @ js_join '' AND '' (guard_conditions e t pk originals (Some (js_keys vs)))"
      by (simp add: build_update_def Let_def split: if_splits)
    with safe_update_head [OF e] pk that show thesis by blast
  next
    case False
    with wr pk have "q = (''DELETE FROM '' @ table_ref e t)
        @ '' WHERE '' @ js_join '' AND '' (guard_conditions e t pk originals None)"
      by (simp add: build_delete_def split: if_splits)
    with safe_delete_head pk that show thesis by blast
  qed
qed


section \<open>Examples\<close>

definition users_table :: catalog_table where
  "users_table = \<lparr>tbl_name = ''users'', tbl_schema = None, tbl_database = None,
     tbl_columns = [\<lparr>col_name = ''id'', col_type = ''text'', col_pk = True\<rparr>, \<lparr>col_name = ''n'', col_type = ''text'', col_pk = False\<rparr>]\<rparr>"

definition hostile_page :: page_options where
  "hostile_page = \<lparr>opt_filters = [(''n'', ''null'')], opt_where = [], opt_order = [],
     opt_sort = Some \<lparr>sort_col = CHR 0x22 # ''; DROP'', sort_desc = True\<rparr>, opt_limit = 5, opt_offset = - 3\<rparr>"

theorem page_query_is_one_statement_witness:
  "\<exists>q. build_page_query (\<lambda>_. None) Sqlite users_table hostile_page = Inr q \<and> safe 0 q 0"
proof -
  have "\<exists>q. build_page_query (\<lambda>_. None) Sqlite users_table hostile_page = Inr q"
    by (simp add: build_page_query_def hostile_page_def build_where_def build_order_by_def Let_def js_trim_def)
  with page_query_is_one_statement [of Sqlite "\<lambda>_. None" users_table hostile_page] show ?thesis by blast
qed


text \<open>
  The guard reads quotes as standard SQL does and MySQL does not: for a fragment whose literal ends with an
  escaped quote the guard masks text that MySQL reads as code, here a semicolon.
\<close>

theorem mysql_fragment_gap:
  "grid_expression_issue kind ([CHR 0x27, CHR 0x5C, CHR 0x27, CHR 0x27] @ '' ; '' @ [CHR 0x27]) = None
   \<and> read_literal Mysql ([CHR 0x5C, CHR 0x27, CHR 0x27] @ '' ; '' @ [CHR 0x27]) = Some ([CHR 0x27], '' ; '' @ [CHR 0x27])"
proof
  define v where "v = replicate 8 CHR '' ''"
  have blank: "list_all (\<lambda>c. \<not> is_word c) v"
    by (simp add: v_def list_all_iff char_class_defs)
  have "\<not> rx_match (rlit ''#'') v i j" for i j
    by (auto simp: rlit_def rx_match_Seq rx_match_Cls v_def)
  then have hash: "\<not> rx_test hash_comment_re v"
    by (auto simp: rx_test_iff hash_comment_re_def rx_match_Seq)
  have v8: "v = CHR '' '' # CHR '' '' # CHR '' '' # CHR '' '' # CHR '' '' # CHR '' '' # CHR '' '' # CHR '' '' # []"
    by (simp add: v_def numeral_eq_Suc)
  have "grid_scan None 0 ([CHR 0x27, CHR 0x5C, CHR 0x27, CHR 0x27] @ '' ; '' @ [CHR 0x27]) = Some (v, None, 0)"
    by (simp add: v8)
  moreover have "\<not> rx_test (clause_escape_re kind) v"
    using no_words [OF blank] by (simp add: clause_escape_re_def split: expression_kind.splits)
  moreover have "\<not> statement_boundary v"
    using hash by (simp add: statement_boundary_def v8)
  ultimately show "grid_expression_issue kind ([CHR 0x27, CHR 0x5C, CHR 0x27, CHR 0x27] @ '' ; '' @ [CHR 0x27]) = None"
    by (simp add: grid_expression_issue_def)
  show "read_literal Mysql ([CHR 0x5C, CHR 0x27, CHR 0x27] @ '' ; '' @ [CHR 0x27]) = Some ([CHR 0x27], '' ; '' @ [CHR 0x27])"
    by (simp add: read_literal_def)
qed

end
