(* ===== verification/ResultExport.thy ===== *)
theory ResultExport
  imports SqlText
begin

text \<open>
  Result export (\<open>src/lib/sqlBuild.ts\<close>, the CSV and JSON part). A cell is \<open>null\<close>, a text, or any
  other value with its \<open>String\<close>/\<open>JSON.stringify\<close> rendering. An RFC 4180 reader states what a
  consumer of the file gets back.
\<close>

section \<open>Writing\<close>

datatype cell = CellNull | CellText string | CellRendered string

definition formula_start :: "string \<Rightarrow> bool" where
  "formula_start s \<longleftrightarrow> s \<noteq> [] \<and> hd s \<in> {CHR ''='', CHR ''+'', CHR ''-'', CHR ''@'', CHR 0x09, CHR 0x0D}"

abbreviation digit :: rx where "digit \<equiv> Cls is_digit"
abbreviation sign :: rx where "sign \<equiv> Cls (\<lambda>c. c = CHR ''+'' \<or> c = CHR ''-'')"

definition clock_re :: rx where
  "clock_re = seqs [plus1 digit, rlit '':'', times 2 digit, rlit '':'', times 2 digit, opt (Seq (rlit ''.'') (plus1 digit))]"

definition interval_unit :: rx where
  "interval_unit = alts [Seq (rlit ''year'') (opt (rlit ''s'')), Seq (rlit ''mon'') (opt (rlit ''s'')), Seq (rlit ''day'') (opt (rlit ''s''))]"

definition inert_value_re :: rx where
  "inert_value_re = anchored (alts
     [seqs [opt sign, Alt (Seq (plus1 digit) (opt (Seq (rlit ''.'') (Star digit)))) (Seq (rlit ''.'') (plus1 digit)),
            opt (seqs [Cls (\<lambda>c. c = CHR ''e'' \<or> c = CHR ''E''), opt sign, plus1 digit])],
      seqs [opt sign, Cls (\<lambda>c. c = CHR ''I'' \<or> c = CHR ''i''), rlit ''nfinity''],
      seqs [opt (rlit ''-''), plus1 digit, rlit '' '', interval_unit,
            Star (seqs [rlit '' '', opt sign, plus1 digit, rlit '' '', interval_unit]),
            opt (seqs [rlit '' '', opt sign, clock_re])],
      seqs [opt (rlit ''-''), clock_re]])"

definition spreadsheet_safe_text :: "string \<Rightarrow> string" where
  "spreadsheet_safe_text text =
     (if formula_start text \<and> \<not> rx_test inert_value_re text then CHR 0x27 # text else text)"

definition cell_text :: "cell \<Rightarrow> string" where
  "cell_text v = (case v of CellNull \<Rightarrow> [] | CellText s \<Rightarrow> spreadsheet_safe_text s | CellRendered s \<Rightarrow> s)"

definition quote_field :: "string \<Rightarrow> string" where
  "quote_field s =
     (if list_ex (\<lambda>c. c \<in> {CHR 0x22, CHR '','', CHR 0x0A, CHR 0x0D}) s
      then CHR 0x22 # replace_char CHR 0x22 [CHR 0x22, CHR 0x22] s @ [CHR 0x22] else s)"

definition escape_csv_field :: "cell \<Rightarrow> string" where
  "escape_csv_field v = (if v = CellNull then [] else quote_field (cell_text v))"

definition crlf :: string where
  "crlf = [CHR 0x0D, CHR 0x0A]"

definition csv_line :: "cell list \<Rightarrow> string" where
  "csv_line r = js_join '','' (map escape_csv_field r)"

definition to_csv :: "string list \<Rightarrow> cell list list \<Rightarrow> string" where
  "to_csv columns rows =
     (let head = csv_line (map CellText columns); body = js_join crlf (map csv_line rows)
      in if body \<noteq> [] then head @ crlf @ body else head)"

section \<open>Reading\<close>

definition field_end :: "char \<Rightarrow> bool" where
  "field_end c \<longleftrightarrow> c = CHR '','' \<or> c = CHR 0x0D \<or> c = CHR 0x0A"

definition csv_field :: "string \<Rightarrow> (string \<times> string) option" where
  "csv_field s =
     (if s \<noteq> [] \<and> hd s = CHR 0x22 then read_quoted True False CHR 0x22 (tl s)
      else Some (takeWhile (\<lambda>c. \<not> field_end c) s, dropWhile (\<lambda>c. \<not> field_end c) s))"

lemma csv_field_length: "csv_field s = Some (f, rest) \<Longrightarrow> length rest \<le> length s"
  by (cases s) (auto simp: csv_field_def le_SucI length_dropWhile_le dest!: read_quoted_length split: if_splits)

function csv_fields :: "string \<Rightarrow> (string list \<times> string) option" where
  "csv_fields s =
     (case csv_field s of
        None \<Rightarrow> None
      | Some (f, []) \<Rightarrow> Some ([f], [])
      | Some (f, c # r) \<Rightarrow>
          (if c = CHR '','' then map_option (\<lambda>(fs, r'). (f # fs, r')) (csv_fields r) else Some ([f], c # r)))"
  by pat_completeness auto
termination
  by (relation "measure length") (auto dest: csv_field_length)

declare csv_fields.simps [simp del]

lemma csv_fields_length: "csv_fields s = Some (fs, rest) \<Longrightarrow> length rest \<le> length s"
proof (induction s arbitrary: fs rest rule: csv_fields.induct)
  case (1 s)
  then show ?case
    by (subst (asm) (2) csv_fields.simps)
       (fastforce split: option.splits prod.splits list.splits if_splits dest: csv_field_length)
qed

function csv_records :: "string \<Rightarrow> string list list option" where
  "csv_records s =
     (case csv_fields s of
        None \<Rightarrow> None
      | Some (fs, []) \<Rightarrow> Some [fs]
      | Some (fs, [c]) \<Rightarrow> None
      | Some (fs, c # d # r) \<Rightarrow>
          (if c = CHR 0x0D \<and> d = CHR 0x0A then map_option (Cons fs) (csv_records r) else None))"
  by pat_completeness auto
termination
  by (relation "measure length") (auto dest: csv_fields_length)

declare csv_records.simps [simp del]

section \<open>Round trip\<close>

lemma csv_field_quoted:
  assumes "rest = [] \<or> hd rest = CHR '','' \<or> hd rest = CHR 0x0D"
  shows "csv_field (quote_field t @ rest) = Some (t, rest)"
proof (cases "list_ex (\<lambda>c. c \<in> {CHR 0x22, CHR '','', CHR 0x0A, CHR 0x0D}) t")
  case True
  have "ends_token CHR 0x22 rest" using assms by (auto simp: ends_token_def)
  with True read_quoted_doubled [of "CHR 0x22" rest False t] show ?thesis
    by (simp add: csv_field_def quote_field_def)
next
  case False
  have plain: "\<forall>c\<in>set t. \<not> field_end c \<and> c \<noteq> CHR 0x22"
    using False by (auto simp: list_ex_iff field_end_def)
  have "rest = [] \<or> field_end (hd rest)" using assms by (auto simp: field_end_def)
  then have "takeWhile (\<lambda>c. \<not> field_end c) (t @ rest) = t" "dropWhile (\<lambda>c. \<not> field_end c) (t @ rest) = rest"
    using plain by (cases rest; auto simp: takeWhile_append dropWhile_append)+
  moreover have "\<not> (t @ rest \<noteq> [] \<and> hd (t @ rest) = CHR 0x22)"
    using plain assms by (cases t) auto
  ultimately show ?thesis using False by (auto simp: csv_field_def quote_field_def)
qed

lemma escape_is_quoted: "escape_csv_field v = quote_field (cell_text v)"
  by (simp add: escape_csv_field_def cell_text_def quote_field_def)

lemma csv_fields_line:
  "r \<noteq> [] \<Longrightarrow> rest = [] \<or> hd rest = CHR 0x0D \<Longrightarrow> csv_fields (csv_line r @ rest) = Some (map cell_text r, rest)"
proof (induction r)
  case (Cons v r)
  show ?case
  proof (cases r)
    case Nil
    with Cons.prems csv_field_quoted [of rest "cell_text v"] show ?thesis
      by (subst csv_fields.simps) (auto simp: csv_line_def escape_is_quoted split: list.splits)
  next
    case (Cons w ws)
    then have "csv_field (csv_line (v # r) @ rest) = Some (cell_text v, '','' @ csv_line r @ rest)"
      using csv_field_quoted [of "'','' @ csv_line r @ rest" "cell_text v"]
      by (simp add: csv_line_def escape_is_quoted)
    with Cons Cons.IH Cons.prems show ?thesis
      by (subst csv_fields.simps) simp
  qed
qed simp

lemma csv_records_lines:
  "rows \<noteq> [] \<Longrightarrow> [] \<notin> set rows \<Longrightarrow> csv_records (js_join crlf (map csv_line rows)) = Some (map (map cell_text) rows)"
proof (induction rows)
  case (Cons r rows)
  show ?case
  proof (cases rows)
    case Nil
    with Cons.prems csv_fields_line [of r "[]"] show ?thesis
      by (subst csv_records.simps) simp
  next
    case (Cons r' rs)
    then have "csv_fields (js_join crlf (map csv_line (r # rows)))
        = Some (map cell_text r, crlf @ js_join crlf (map csv_line rows))"
      using csv_fields_line [of r "crlf @ js_join crlf (map csv_line rows)"] Cons.prems(2)
      by (auto simp: crlf_def)
    with Cons Cons.IH Cons.prems show ?thesis
      by (subst csv_records.simps) (simp add: crlf_def)
  qed
qed simp

lemma spreadsheet_safe:
  "\<not> formula_start (spreadsheet_safe_text t) \<or> (spreadsheet_safe_text t = t \<and> rx_test inert_value_re t)"
  by (auto simp: spreadsheet_safe_text_def formula_start_def)



text \<open>A single row of one empty cell leaves no trace in the file: the export is that of the empty result.\<close>

theorem csv_drops_single_empty_row: "to_csv columns [[CellNull]] = to_csv columns []"
  by (simp add: to_csv_def csv_line_def escape_csv_field_def)

section \<open>Unique JSON keys\<close>

text \<open>The suffix loop: numbers from \<open>suffix\<close> on until the key is unused.\<close>

definition suffixed :: "string \<Rightarrow> nat \<Rightarrow> string" where
  "suffixed column n = column @ ''_'' @ nat_str n"

lemma suffixed_inject [simp]: "suffixed c m = suffixed c n \<longleftrightarrow> m = n"
  by (simp add: suffixed_def)

lemma finite_suffixes: "finite {n. k \<le> n \<and> suffixed c n \<in> set used}"
proof -
  have "inj (suffixed c)" by (simp add: inj_on_def)
  then have "finite (suffixed c -` set used)" by (rule finite_vimageI [rotated]) simp
  then show ?thesis by (rule rev_finite_subset) auto
qed

function next_key :: "string list \<Rightarrow> string \<Rightarrow> nat \<Rightarrow> string" where
  "next_key used column suffix =
     (if suffixed column suffix \<in> set used then next_key used column (suffix + 1) else suffixed column suffix)"
  by pat_completeness auto
termination
proof (relation "measure (\<lambda>(used, c, k). card {n. k \<le> n \<and> suffixed c n \<in> set used})")
  fix used c k
  assume "suffixed c k \<in> set used"
  then have "{n. k + 1 \<le> n \<and> suffixed c n \<in> set used} \<subset> {n. k \<le> n \<and> suffixed c n \<in> set used}"
    by (intro psubsetI) (auto simp: set_eq_iff intro: exI [of _ k])
  from psubset_card_mono [OF finite_suffixes this]
  show "((used, c, k + 1), (used, c, k)) \<in> measure (\<lambda>(used, c, k). card {n. k \<le> n \<and> suffixed c n \<in> set used})"
    by simp
qed simp

declare next_key.simps [simp del]

definition unique_key :: "string list \<Rightarrow> string \<Rightarrow> string" where
  "unique_key used column = (if column \<in> set used then next_key used column 2 else column)"

fun unique_keys_from :: "string list \<Rightarrow> string list \<Rightarrow> string list" where
  "unique_keys_from used [] = []"
| "unique_keys_from used (c # cs) = (let key = unique_key used c in key # unique_keys_from (key # used) cs)"

definition unique_column_keys :: "string list \<Rightarrow> string list" where
  "unique_column_keys columns = unique_keys_from [] columns"

lemma next_key_unused: "next_key used c k \<notin> set used"
proof (induction used c k rule: next_key.induct)
  case (1 used c k)
  then show ?case by (subst next_key.simps) simp
qed

lemma next_key_shape: "\<exists>n\<ge>k. next_key used c k = suffixed c n"
proof (induction used c k rule: next_key.induct)
  case (1 used c k)
  then show ?case
  proof (cases "suffixed c k \<in> set used")
    case True
    with 1 obtain n where "k + 1 \<le> n" "next_key used c (k + 1) = suffixed c n" by blast
    with True show ?thesis by (subst next_key.simps) (auto intro: exI [of _ n])
  next
    case False
    then show ?thesis by (subst next_key.simps) auto
  qed
qed

lemma unique_key_unused: "unique_key used c \<notin> set used"
  by (simp add: unique_key_def next_key_unused)

lemma unique_keys_from_distinct:
  "distinct (unique_keys_from used cs) \<and> set (unique_keys_from used cs) \<inter> set used = {}"
proof (induction cs arbitrary: used)
  case (Cons c cs)
  from Cons.IH [of "unique_key used c # used"] show ?case
    by (auto simp: Let_def unique_key_unused)
qed simp

lemma unique_keys_from_shape:
  "list_all2 (\<lambda>key c. key = c \<or> (\<exists>n\<ge>2. key = suffixed c n)) (unique_keys_from used cs) cs"
  by (induction cs arbitrary: used) (auto simp: Let_def unique_key_def next_key_shape)

lemma unique_keys_from_fresh: "distinct cs \<Longrightarrow> set cs \<inter> set used = {} \<Longrightarrow> unique_keys_from used cs = cs"
  by (induction cs arbitrary: used) (auto simp: Let_def unique_key_def)

text \<open>
JSON export keeps every column. \<open>uniqueColumnKeys\<close> gives pairwise distinct keys, one per column and in
order, each the column's own name or that name with a suffix from \<open>_2\<close> on (its search for a free suffix
ends for every set of used names), and it leaves column lists without repetition unchanged.
\<close>

theorem unique_keys_distinct:
  "distinct (unique_column_keys columns) \<and> length (unique_column_keys columns) = length columns
   \<and> list_all2 (\<lambda>key c. key = c \<or> (\<exists>n\<ge>2. key = suffixed c n)) (unique_column_keys columns) columns
   \<and> (if distinct columns then unique_column_keys columns = columns else True)"
  using unique_keys_from_distinct [of "[]" columns] unique_keys_from_shape [of "[]" columns]
    unique_keys_from_fresh [of columns "[]"]
  by (auto simp: unique_column_keys_def dest: list_all2_lengthD)

end
