(* ===== verification/SqlParameters.thy ===== *)
theory SqlParameters
  imports SqlText
begin

text \<open>
  Query parameters (\<open>src/features/query/sqlParameters.ts\<close>): the scanner that finds parameter tokens
  outside strings, identifiers, comments and dollar quotes, and the substitution of values at their
  ranges. The loop of \<open>findSqlParameters\<close> is \<open>find_from\<close>, one iteration of it is \<open>scan_at\<close>.
\<close>

section \<open>The scanner\<close>

record sql_parameter =
  par_key :: string
  par_label :: string
  par_token :: string
  par_start :: nat
  par_end :: nat

definition has_char :: "(char \<Rightarrow> bool) \<Rightarrow> char option \<Rightarrow> bool" where
  "has_char p c = (case c of None \<Rightarrow> False | Some c \<Rightarrow> p c)"

definition char_before :: "string \<Rightarrow> nat \<Rightarrow> nat \<Rightarrow> char option" where
  "char_before sql i k = (if k \<le> i then char_at sql (i - k) else None)"

definition identifier_start :: "char \<Rightarrow> bool" where
  "identifier_start c \<longleftrightarrow> is_alpha c \<or> c = CHR ''_''"

definition identifier_part :: "char \<Rightarrow> bool" where
  "identifier_part c \<longleftrightarrow> is_word c \<or> c = CHR ''.''"

function skip_from :: "string \<Rightarrow> nat \<Rightarrow> char \<Rightarrow> bool \<Rightarrow> nat" where
  "skip_from sql index q backslash =
     (if index < length sql then
        (if backslash \<and> sql ! index = CHR 0x5C then skip_from sql (index + 2) q backslash
         else if sql ! index \<noteq> q then skip_from sql (index + 1) q backslash
         else if char_at sql (index + 1) = Some q then skip_from sql (index + 2) q backslash
         else index + 1)
      else length sql)"
  by pat_completeness auto
termination by (relation "measure (\<lambda>(sql, i, q, b). length sql - i)") auto

declare skip_from.simps [simp del]

definition skip_quoted :: "string \<Rightarrow> nat \<Rightarrow> char \<Rightarrow> bool \<Rightarrow> nat" where
  "skip_quoted sql start q backslash = skip_from sql (start + 1) q backslash"

text \<open>The pattern \<open>^\\$[A-Za-z_][A-Za-z0-9_]*\\$|^\\$\\$\<close> at \<open>start\<close>.\<close>

definition dollar_quote_tag :: "string \<Rightarrow> nat \<Rightarrow> string option" where
  "dollar_quote_tag sql start =
     (case drop start sql of
        d # rest \<Rightarrow>
          (let body = takeWhile is_word rest
           in if d = CHR ''$'' \<and> starts_with ''$'' (dropWhile is_word rest)
                \<and> (body = [] \<or> identifier_start (hd body))
              then Some (''$'' @ body @ ''$'') else None)
      | [] \<Rightarrow> None)"

text \<open>\<open>pushNamed\<close>: the map of keys only ever holds \<open>named:\<close> and the label.\<close>

definition named :: "string \<Rightarrow> string \<Rightarrow> nat \<Rightarrow> nat \<Rightarrow> sql_parameter" where
  "named sql label i j = \<lparr>par_key = ''named:'' @ label, par_label = label, par_token = slice i j sql, par_start = i, par_end = j\<rparr>"

definition end_or :: "string \<Rightarrow> nat option \<Rightarrow> nat \<Rightarrow> nat" where
  "end_or sql found n = (case found of None \<Rightarrow> length sql | Some e \<Rightarrow> e + n)"

text \<open>\<open>while (p(sql[end])) end += 1\<close>.\<close>

definition run_end :: "(char \<Rightarrow> bool) \<Rightarrow> string \<Rightarrow> nat \<Rightarrow> nat" where
  "run_end p sql e = e + length (takeWhile p (drop e sql))"

definition depth_after :: "char \<Rightarrow> nat \<Rightarrow> nat" where
  "depth_after c depth = (if c = CHR ''['' then depth + 1 else if c = CHR '']'' then depth - 1 else depth)"

text \<open>
  One iteration at \<open>index\<close>: the next index, the subscript depth, the positional counter and the
  parameter that was pushed.
\<close>

type_synonym scan = "nat \<times> nat \<times> nat \<times> sql_parameter option"

definition scan_dollar :: "string \<Rightarrow> nat \<Rightarrow> (nat \<times> sql_parameter option) option" where
  "scan_dollar sql index =
     (let template = (if char_at sql (index + 1) = Some CHR ''{'' then index_of_from ''}'' sql (index + 2) else None)
      in case template of
           Some e \<Rightarrow>
             (let label = js_trim (slice (index + 2) e sql)
              in if index + 2 < e \<and> label \<noteq> [] then Some (e + 1, Some (named sql label index (e + 1)))
                 else None)
         | None \<Rightarrow> None)"

definition scan_dollar_rest :: "string \<Rightarrow> nat \<Rightarrow> (nat \<times> sql_parameter option) option" where
  "scan_dollar_rest sql index =
     (case dollar_quote_tag sql index of
        Some tag \<Rightarrow> Some (end_or sql (index_of_from tag sql (index + length tag)) (length tag), None)
      | None \<Rightarrow>
          if has_char is_digit (char_at sql (index + 1))
          then (let e = run_end is_digit sql (index + 2)
                in Some (e, Some (named sql (slice (index + 1) e sql) index e)))
          else None)"

definition colon_parameter :: "string \<Rightarrow> nat \<Rightarrow> nat \<Rightarrow> bool" where
  "colon_parameter sql index depth \<longleftrightarrow>
     sql ! index = CHR '':'' \<and> char_before sql index 1 \<noteq> Some CHR '':'' \<and> char_at sql (index + 1) \<noteq> Some CHR ''=''
     \<and> depth = 0 \<and> \<not> has_char (\<lambda>c. is_word c \<or> c = CHR '')'' \<or> c = CHR '']'') (char_before sql index 1)
     \<and> has_char identifier_start (char_at sql (index + 1))"

definition scan_at :: "engine \<Rightarrow> string \<Rightarrow> nat \<Rightarrow> nat \<Rightarrow> nat \<Rightarrow> scan" where
  "scan_at e sql index depth0 pos_count =
     (let c = sql ! index; nxt = char_at sql (index + 1)
      in if c \<in> quotes then
           (let escape = (c = CHR 0x27 \<and> e = Postgres
                \<and> has_char (\<lambda>d. d = CHR ''e'' \<or> d = CHR ''E'') (char_before sql index 1)
                \<and> \<not> has_char identifier_part (char_before sql index 2))
            in (skip_quoted sql index c (e = Mysql \<or> escape), depth0, pos_count, None))
         else if c = CHR ''['' \<and> e = Sqlite
           then (end_or sql (index_of_from '']'' sql (index + 1)) 1, depth0, pos_count, None)
         else (let depth = depth_after c depth0
           in if c = CHR ''-'' \<and> nxt = Some CHR ''-''
                then (end_or sql (index_of_from [CHR 0x0A] sql (index + 2)) 1, depth, pos_count, None)
              else if c = CHR ''/'' \<and> nxt = Some CHR ''*''
                then (end_or sql (index_of_from ''*/'' sql (index + 2)) 2, depth, pos_count, None)
              else if e = Mysql \<and> c = CHR ''#''
                then (end_or sql (index_of_from [CHR 0x0A] sql (index + 1)) 1, depth, pos_count, None)
              else if c = CHR ''$'' \<and> scan_dollar sql index \<noteq> None
                then (let (i, p) = the (scan_dollar sql index) in (i, depth, pos_count, p))
              else if c = CHR ''$'' \<and> scan_dollar_rest sql index \<noteq> None
                then (let (i, p) = the (scan_dollar_rest sql index) in (i, depth, pos_count, p))
              else if colon_parameter sql index depth
                then (let j = run_end identifier_part sql (index + 2)
                      in (j, depth, pos_count, Some (named sql (slice (index + 1) j sql) index j)))
              else if c = CHR ''?'' then
                (let j = run_end identifier_part sql (index + 1)
                 in if index + 1 < j then (j, depth, pos_count, Some (named sql (slice (index + 1) j sql) index j))
                    else if e \<noteq> Postgres
                    then (index + 1, depth, pos_count + 1,
                          Some \<lparr>par_key = ''positional:'' @ nat_str (pos_count + 1), par_label = nat_str (pos_count + 1),
                                par_token = ''?'', par_start = index, par_end = index + 1\<rparr>)
                    else (index + 1, depth, pos_count, None))
              else (index + 1, depth, pos_count, None)))"

section \<open>Progress\<close>

text \<open>Skipping is reading: the end of the token that the reader of standard or MySQL quotes finds.\<close>

definition read_end :: "string \<Rightarrow> nat \<Rightarrow> char \<Rightarrow> bool \<Rightarrow> nat" where
  "read_end sql i q b = (case read_quoted True b q (drop i sql) of Some (v, rest) \<Rightarrow> length sql - length rest | None \<Rightarrow> length sql)"

lemma skip_from_reads: "skip_from sql i q b = read_end sql i q b"
proof (induction sql i q b rule: skip_from.induct)
  case (1 sql i q b)
  show ?case
  proof (cases "i < length sql")
    case False
    then show ?thesis by (subst skip_from.simps) (simp add: read_end_def)
  next
    case True
    let ?c = "sql ! i"
    have d: "drop i sql = ?c # drop (i + 1) sql" using True by (simp add: Cons_nth_drop_Suc)
    have d2: "drop (i + 1) sql = [] \<and> \<not> i + 1 < length sql \<or> i + 1 < length sql \<and> drop (i + 1) sql = sql ! (i + 1) # drop (i + 2) sql"
      using Cons_nth_drop_Suc [of "i + 1" sql] by (cases "i + 1 < length sql") auto
    consider (esc) "b \<and> ?c = CHR 0x5C" | (plain) "\<not> (b \<and> ?c = CHR 0x5C)" "?c \<noteq> q"
      | (pair) "\<not> (b \<and> ?c = CHR 0x5C)" "?c = q" "char_at sql (i + 1) = Some q"
      | (close) "\<not> (b \<and> ?c = CHR 0x5C)" "?c = q" "char_at sql (i + 1) \<noteq> Some q" by blast
    then show ?thesis
    proof cases
      case esc
      with 1(1) True have "skip_from sql i q b = read_end sql (i + 2) q b" by (subst skip_from.simps) auto
      also have "\<dots> = read_end sql i q b"
        using d d2 esc by (auto simp: read_end_def split: option.splits)
      finally show ?thesis .
    next
      case plain
      with 1(2) True have "skip_from sql i q b = read_end sql (i + 1) q b" by (subst skip_from.simps) auto
      also have "\<dots> = read_end sql i q b"
        using d plain by (auto simp: read_end_def split: option.splits)
      finally show ?thesis .
    next
      case pair
      with 1(3) True have "skip_from sql i q b = read_end sql (i + 2) q b" by (subst skip_from.simps) auto
      also have "\<dots> = read_end sql i q b"
        using d d2 pair by (auto simp: read_end_def char_at_def split: option.splits)
      finally show ?thesis .
    next
      case close
      then have "skip_from sql i q b = i + 1" using True by (subst skip_from.simps) auto
      also have "\<dots> = read_end sql i q b"
        using d d2 close True by (auto simp: read_end_def char_at_def)
      finally show ?thesis .
    qed
  qed
qed

lemma skip_from_bounds: "i < length sql \<Longrightarrow> i < skip_from sql i q b \<and> skip_from sql i q b \<le> length sql"
  by (auto simp: skip_from_reads read_end_def dest: read_quoted_length split: option.splits)

lemma char_at_Some: "char_at s i = Some c \<Longrightarrow> i < length s \<and> s ! i = c"
  by (simp add: char_at_def split: if_splits)

lemma has_char_at: "has_char p (char_at s i) \<Longrightarrow> i < length s \<and> p (s ! i)"
  by (simp add: has_char_def char_at_def split: if_splits)

lemma run_end_bounds: "e \<le> length sql \<Longrightarrow> e \<le> run_end p sql e \<and> run_end p sql e \<le> length sql"
  using length_takeWhile_le [of p "drop e sql"] by (simp add: run_end_def)

lemma end_or_bounds:
  "index_of_from p sql k = found \<Longrightarrow> k \<le> length sql \<Longrightarrow> k \<le> end_or sql found (length p) \<and> end_or sql found (length p) \<le> length sql"
  by (auto simp: end_or_def dest: index_of_from_bound split: option.splits)

lemma dollar_quote_tag_length: "dollar_quote_tag sql i = Some tag \<Longrightarrow> 2 \<le> length tag \<and> i + length tag \<le> length sql"
proof -
  assume tag: "dollar_quote_tag sql i = Some tag"
  then obtain d rest where d: "drop i sql = d # rest" "starts_with ''$'' (dropWhile is_word rest)"
    "tag = ''$'' @ takeWhile is_word rest @ ''$''"
    by (auto simp: dollar_quote_tag_def Let_def split: list.splits if_splits)
  from d(2) have "length (takeWhile is_word rest) + 1 \<le> length rest"
    using starts_with_length [OF d(2)] takeWhile_dropWhile_id [of is_word rest]
    by (metis One_nat_def add_le_cancel_left length_append list.size(3,4) plus_nat.add_0)
  moreover have "i + Suc (length rest) = length sql"
    using d(1) by (metis add_diff_inverse_nat drop_all length_Cons length_drop list.distinct(1) not_le_imp_less order_less_imp_le linorder_not_less)
  ultimately show ?thesis using d(3) by simp
qed

text \<open>A pushed parameter is the text from the index to the next index.\<close>

definition parameter_ok :: "string \<Rightarrow> nat \<Rightarrow> nat \<Rightarrow> sql_parameter \<Rightarrow> bool" where
  "parameter_ok sql i j p \<longleftrightarrow> par_start p = i \<and> par_end p = j \<and> par_token p = slice i j sql \<and> par_label p \<noteq> []
     \<and> sql ! i \<in> set ''$:?''"

text \<open>What the dollar branches find lies ahead, inside the text.\<close>

lemma scan_dollar_ok:
  "scan_dollar sql i = Some (j, p) \<Longrightarrow> i < length sql \<Longrightarrow>
     i < j \<and> j \<le> length sql \<and> (\<forall>x. p = Some x \<longrightarrow> par_start x = i \<and> par_end x = j \<and> par_token x = slice i j sql \<and> par_label x \<noteq> [])"
  by (auto simp: scan_dollar_def Let_def named_def split: option.splits if_splits
      dest!: char_at_Some index_of_from_bound)

lemma digit_label: "i + 1 < length sql \<Longrightarrow> i + 2 \<le> e \<Longrightarrow> e \<le> length sql \<Longrightarrow> slice (i + 1) e sql \<noteq> []"
  by (simp add: slice_def)

lemma scan_dollar_rest_ok:
  assumes "scan_dollar_rest sql i = Some (j, p)"
  shows "i < j \<and> j \<le> length sql \<and> (\<forall>x. p = Some x \<longrightarrow> par_start x = i \<and> par_end x = j \<and> par_token x = slice i j sql \<and> par_label x \<noteq> [])"
proof (cases "dollar_quote_tag sql i")
  case (Some tag)
  note len = dollar_quote_tag_length [OF Some]
  with end_or_bounds [OF refl, of "i + length tag" sql tag] assms Some show ?thesis
    by (auto simp: scan_dollar_rest_def)
next
  case None
  with assms have d: "has_char is_digit (char_at sql (i + 1))" and j: "j = run_end is_digit sql (i + 2)"
    and p: "p = Some (named sql (slice (i + 1) j sql) i j)"
    by (auto simp: scan_dollar_rest_def Let_def split: if_splits)
  from has_char_at [OF d] run_end_bounds [of "i + 2" sql is_digit] j have "i + 2 \<le> j" "j \<le> length sql" by auto
  with p digit_label [of i sql j] has_char_at [OF d] show ?thesis by (auto simp: named_def)
qed

text \<open>
  One iteration goes forward and stays inside the text; what it pushes is the text from the index to
  the next index, and starts with one of the three marks.
\<close>

definition step_ok :: "string \<Rightarrow> nat \<Rightarrow> scan \<Rightarrow> bool" where
  "step_ok sql i r \<longleftrightarrow>
     (case r of (j, _, _, p) \<Rightarrow> i < j \<and> j \<le> length sql
        \<and> (\<forall>x. p = Some x \<longrightarrow> par_start x = i \<and> par_end x = j \<and> par_token x = slice i j sql \<and> par_label x \<noteq> []
             \<and> sql ! i \<in> set ''$:?''))"

lemma step_ok_quote: "i < length sql \<Longrightarrow> step_ok sql i (skip_quoted sql i c b, d, n, None)"
  using skip_from_bounds [of "i + 1" sql c b]
  by (cases "i + 1 < length sql") (auto simp: step_ok_def skip_quoted_def skip_from.simps [of sql "Suc i"])

lemma step_ok_skip:
  "i < k \<Longrightarrow> k \<le> length sql \<Longrightarrow> step_ok sql i (end_or sql (index_of_from p sql k) (length p), d, n, None)"
  using end_or_bounds [OF refl, of k sql p] by (auto simp: step_ok_def)

lemma step_ok_if: "(P \<Longrightarrow> step_ok sql i a) \<Longrightarrow> (\<not> P \<Longrightarrow> step_ok sql i b) \<Longrightarrow> step_ok sql i (if P then a else b)"
  by simp

lemma step_ok_next: "i < length sql \<Longrightarrow> step_ok sql i (i + 1, d, n, None)"
  by (simp add: step_ok_def)

lemma step_ok_run:
  "i < length sql \<Longrightarrow> i + 1 < j \<Longrightarrow> j \<le> length sql \<Longrightarrow> sql ! i \<in> set ''$:?'' \<Longrightarrow>
     step_ok sql i (j, d, n, Some (named sql (slice (i + 1) j sql) i j))"
  by (auto simp: step_ok_def named_def slice_def)

lemma scan_at_ok:
  assumes i: "i < length sql"
  shows "step_ok sql i (scan_at e sql i d n)"
proof -
  have two: "char_at sql (i + 1) = Some c \<Longrightarrow> i + 2 \<le> length sql" for c by (auto dest: char_at_Some)
  have colon: "step_ok sql i (let j = run_end identifier_part sql (i + 2)
      in (j, dd, n, Some (named sql (slice (i + 1) j sql) i j)))" if "colon_parameter sql i dd" for dd
  proof -
    from that have c: "sql ! i = CHR '':''" and "has_char identifier_start (char_at sql (i + 1))"
      by (simp_all add: colon_parameter_def)
    then have "i + 2 \<le> length sql" using has_char_at by fastforce
    with run_end_bounds [of "i + 2" sql identifier_part] i c show ?thesis
      unfolding Let_def by (intro step_ok_run) auto
  qed
  have mark: "step_ok sql i (let j = run_end identifier_part sql (i + 1)
       in if i + 1 < j then (j, dd, n, Some (named sql (slice (i + 1) j sql) i j))
          else if e \<noteq> Postgres
          then (i + 1, dd, n + 1,
                Some \<lparr>par_key = ''positional:'' @ nat_str (n + 1), par_label = nat_str (n + 1),
                      par_token = ''?'', par_start = i, par_end = i + 1\<rparr>)
          else (i + 1, dd, n, None))" if "sql ! i = CHR ''?''" for dd
  proof -
    have tok: "slice i (i + 1) sql = ''?''"
      using i that by (simp add: slice_def drop_take hd_drop_conv_nth Cons_nth_drop_Suc [symmetric])
    from run_end_bounds [of "i + 1" sql identifier_part] i that tok show ?thesis
      unfolding Let_def
      by (cases "i + 1 < run_end identifier_part sql (i + 1)"; cases "e = Postgres")
         (simp_all add: step_ok_next step_ok_run [simplified], auto simp: step_ok_def)
  qed
  have dollar: "step_ok sql i (let (j, p) = the (scan_dollar sql i) in (j, dd, n, p))"
    if "sql ! i = CHR ''$''" "scan_dollar sql i \<noteq> None" for dd
    using that scan_dollar_ok [OF _ i] by (auto simp: step_ok_def split: prod.splits)
  have dollar_rest: "step_ok sql i (let (j, p) = the (scan_dollar_rest sql i) in (j, dd, n, p))"
    if "sql ! i = CHR ''$''" "scan_dollar_rest sql i \<noteq> None" for dd
    using that scan_dollar_rest_ok by (auto simp: step_ok_def split: prod.splits)
  have skip: "step_ok sql i (end_or sql (index_of_from [c] sql k) 1, dd, n, None)" if "i < k" "k \<le> length sql" for c k dd
    using step_ok_skip [OF that, of "[c]" dd n] by simp
  have comment: "step_ok sql i (end_or sql (index_of_from ''*/'' sql (i + 2)) 2, dd, n, None)" if "i + 2 \<le> length sql" for dd
    using step_ok_skip [OF _ that, of i "''*/''" dd n] by (simp add: numeral_2_eq_2)
  have near: "i < i + 1" "i + 1 \<le> length sql" "i < i + 2" using i by auto
  show ?thesis
    unfolding scan_at_def Let_def [of "sql ! i"] Let_def [of "char_at sql (i + 1)"] Let_def [of "depth_after (sql ! i) d"]
      Let_def [of "_ :: bool"]
    by (intro step_ok_if; (elim conjE)?;
        (rule step_ok_quote [OF i] skip comment dollar dollar_rest mark colon step_ok_next [OF i];
          (rule near | erule two | assumption)?))
qed

section \<open>The loop\<close>

function find_from :: "engine \<Rightarrow> string \<Rightarrow> nat \<Rightarrow> nat \<Rightarrow> nat \<Rightarrow> sql_parameter list" where
  "find_from e sql index depth pos_count =
     (if index < length sql
      then (let (index', depth', pos_count', p) = scan_at e sql index depth pos_count
            in (case p of None \<Rightarrow> [] | Some x \<Rightarrow> [x]) @ find_from e sql index' depth' pos_count')
      else [])"
  by pat_completeness auto
termination
proof (relation "measure (\<lambda>(e, sql, i, d, n). length sql - i)")
  fix e sql index depth pos_count r i' r' d' r'' n' p
  assume "index < length sql" "r = scan_at e sql index depth pos_count" "(i', r') = r" "(d', r'') = r'" "(n', p) = r''"
  with scan_at_ok [of index sql e depth pos_count] have "index < i'" by (auto simp: step_ok_def split: prod.splits)
  with \<open>index < length sql\<close>
  show "((e, sql, i', d', n'), (e, sql, index, depth, pos_count)) \<in> measure (\<lambda>(e, sql, i, d, n). length sql - i)"
    by simp
qed simp

declare find_from.simps [simp del]

definition find_sql_parameters :: "string \<Rightarrow> engine \<Rightarrow> sql_parameter list" where
  "find_sql_parameters sql e = find_from e sql 0 0 0"

fun unique_from :: "string list \<Rightarrow> sql_parameter list \<Rightarrow> sql_parameter list" where
  "unique_from seen [] = []"
| "unique_from seen (p # ps) =
     (if par_key p \<in> set seen then unique_from seen ps else p # unique_from (par_key p # seen) ps)"

definition unique_sql_parameters :: "sql_parameter list \<Rightarrow> sql_parameter list" where
  "unique_sql_parameters ps = unique_from [] ps"

section \<open>Materialization\<close>

text \<open>\<open>values[key]?.trim()\<close>, \<open>None\<close> when missing or blank.\<close>

definition parameter_value :: "(string \<times> string) list \<Rightarrow> sql_parameter \<Rightarrow> string option" where
  "parameter_value vals p =
     (case map_of vals (par_key p) of None \<Rightarrow> None | Some v \<Rightarrow> if js_trim v = [] then None else Some (js_trim v))"

text \<open>The loop runs over the reversed list; an error carries the label.\<close>

fun replace_all :: "(string \<times> string) list \<Rightarrow> sql_parameter list \<Rightarrow> string \<Rightarrow> string + string" where
  "replace_all vals [] sql = Inr sql"
| "replace_all vals (p # ps) sql =
     (case parameter_value vals p of
        None \<Rightarrow> Inl (''Missing SQL parameter: '' @ par_label p)
      | Some v \<Rightarrow> replace_all vals ps (slice 0 (par_start p) sql @ v @ drop (par_end p) sql))"

definition materialize_sql_parameters ::
  "string \<Rightarrow> sql_parameter list \<Rightarrow> (string \<times> string) list \<Rightarrow> string + string" where
  "materialize_sql_parameters sql ps vals = replace_all vals (rev ps) sql"

section \<open>Well-placed parameters\<close>

text \<open>From \<open>i\<close> on: in order, disjoint, inside the text, each the text of its range.\<close>

fun placed :: "string \<Rightarrow> nat \<Rightarrow> sql_parameter list \<Rightarrow> bool" where
  "placed sql i [] = True"
| "placed sql i (p # ps) =
     (i \<le> par_start p \<and> par_start p < par_end p \<and> par_end p \<le> length sql \<and> par_label p \<noteq> []
      \<and> par_token p = slice (par_start p) (par_end p) sql \<and> sql ! par_start p \<in> set ''$:?''
      \<and> placed sql (par_end p) ps)"

lemma placed_mono: "placed sql j ps \<Longrightarrow> i \<le> j \<Longrightarrow> placed sql i ps"
  by (cases ps) auto

lemma placed_find_from: "placed sql i (find_from e sql i d n)"
proof (induction e sql i d n rule: find_from.induct)
  case (1 e sql i d n)
  show ?case
  proof (cases "i < length sql")
    case False
    then show ?thesis by (subst find_from.simps) simp
  next
    case True
    obtain j d' n' p where r: "scan_at e sql i d n = (j, d', n', p)" by (cases "scan_at e sql i d n") auto
    from scan_at_ok [OF True, of e d n] r have ok: "i < j" "j \<le> length sql"
      "\<And>x. p = Some x \<Longrightarrow> par_start x = i \<and> par_end x = j \<and> par_token x = slice i j sql \<and> par_label x \<noteq> []
             \<and> sql ! i \<in> set ''$:?''"
      by (auto simp: step_ok_def)
    have "find_from e sql i d n = (case p of None \<Rightarrow> [] | Some x \<Rightarrow> [x]) @ find_from e sql j d' n'"
      using True r by (subst find_from.simps) simp
    moreover have "placed sql j (find_from e sql j d' n')"
      using 1 [OF True r [symmetric]] by simp
    ultimately show ?thesis
      using ok placed_mono [of sql j _ i] by (cases p) auto
  qed
qed

text \<open>The text with the values in place, from \<open>i\<close> on.\<close>

fun splice :: "string \<Rightarrow> (string \<times> string) list \<Rightarrow> nat \<Rightarrow> sql_parameter list \<Rightarrow> string" where
  "splice sql vals i [] = drop i sql"
| "splice sql vals i (p # ps) =
     slice i (par_start p) sql @ the (parameter_value vals p) @ splice sql vals (par_end p) ps"

lemma replace_all_append:
  "replace_all vals (ps @ qs) sql = (case replace_all vals ps sql of Inl e \<Rightarrow> Inl e | Inr s \<Rightarrow> replace_all vals qs s)"
  by (induction ps arbitrary: sql) (auto split: option.splits)

lemma replace_all_splice:
  assumes "placed sql i ps" and "i \<le> length sql" and "\<And>p. p \<in> set ps \<Longrightarrow> parameter_value vals p \<noteq> None"
  shows "replace_all vals (rev ps) sql = Inr (take i sql @ splice sql vals i ps)"
  using assms
proof (induction ps arbitrary: i)
  case (Cons p ps)
  let ?s = "par_start p" and ?e = "par_end p"
  from Cons.prems obtain v where v: "parameter_value vals p = Some v" by auto
  from Cons.prems have b: "i \<le> ?s" "?s < ?e" "?e \<le> length sql" by auto
  have "replace_all vals (rev (p # ps)) sql =
      Inr (slice 0 ?s (take ?e sql @ splice sql vals ?e ps) @ v @ drop ?e (take ?e sql @ splice sql vals ?e ps))"
    using Cons.IH [of ?e] Cons.prems v by (simp add: replace_all_append)
  also have "slice 0 ?s (take ?e sql @ splice sql vals ?e ps) = take i sql @ slice i ?s sql"
  proof -
    have "take ?s sql = take i sql @ drop i (take ?s sql)"
      using b(1) by (metis append_take_drop_id min.absorb_iff1 take_take)
    with b show ?thesis by (simp add: slice_def)
  qed
  finally show ?case using b v by simp
qed simp

lemma replace_all_missing:
  "p \<in> set ps \<Longrightarrow> parameter_value vals p = None \<Longrightarrow> \<exists>q\<in>set ps. replace_all vals ps sql = Inl (''Missing SQL parameter: '' @ par_label q)"
  by (induction ps arbitrary: sql) (auto split: option.splits)


text \<open>
Quoted text holds no parameters. Whatever a generated literal or quoted identifier contains (colons,
dollars, question marks, the other quotes, and for MySQL literals backslashes), the scanner skips it as a
whole and goes on with the text behind it, in the same subscript depth and with the same positional count.
(BigQuery literals are left out, see the text about them, and so are MySQL identifiers.)
\<close>

theorem quoted_text_has_no_parameters:
  assumes "e \<noteq> Bigquery" and "ends_token CHR 0x27 rest" and "ends_token (ident_quote e) rest'"
  shows "find_from e (sql_literal e (Some v) @ rest) 0 d n
      = find_from e (sql_literal e (Some v) @ rest) (length (sql_literal e (Some v))) d n
    \<and> (e \<noteq> Mysql \<longrightarrow>
        find_from e (quote_ident e x @ rest') 0 d n = find_from e (quote_ident e x @ rest') (length (quote_ident e x)) d n)"
proof (intro conjI impI)
  have one: "find_from e (s @ r) 0 d n = find_from e (s @ r) (length s) d n"
    if s: "s \<noteq> []" "hd s = q" "q \<in> quotes" and rd: "read_quoted True (e = Mysql) q (tl s @ r) = Some (w, r)" for s r q w
  proof -
    from s obtain cs where cs: "s = q # cs" by (cases s) auto
    have "skip_quoted (s @ r) 0 q (e = Mysql) = length s"
      using rd cs by (simp add: skip_quoted_def skip_from_reads read_end_def)
    then have "scan_at e (s @ r) 0 d n = (length s, d, n, None)"
      using s cs by (auto simp: scan_at_def Let_def char_before_def has_char_def)
    then show ?thesis using cs by (subst find_from.simps) simp
  qed
  have "read_quoted True (e = Mysql) CHR 0x27 (tl (sql_literal e (Some v)) @ rest) = Some (v, rest)"
    using read_sql_literal [OF assms(1,2), of v] assms(1) by (simp add: read_literal_def)
  then show "find_from e (sql_literal e (Some v) @ rest) 0 d n
      = find_from e (sql_literal e (Some v) @ rest) (length (sql_literal e (Some v))) d n"
    by (intro one [of _ "CHR 0x27"]) (simp_all add: sql_literal_def Let_def)
  show "find_from e (quote_ident e x @ rest') 0 d n = find_from e (quote_ident e x @ rest') (length (quote_ident e x)) d n"
    if "e \<noteq> Mysql"
    using read_quote_ident [OF assms(3), of x] that
    by (intro one [of _ "ident_quote e"]) (simp_all add: quote_ident_def ident_quote_def)
qed

theorem quoted_text_has_no_parameters_witness:
  "find_from Mysql (sql_literal Mysql (Some '':x'') @ '' AND ?'') 0 0 0
     = find_from Mysql (sql_literal Mysql (Some '':x'') @ '' AND ?'') 4 0 0"
  using quoted_text_has_no_parameters [of Mysql "'' AND ?''" "[]" "'':x''" 0 0 "''i''"]
  by (simp add: ends_token_def sql_literal_def eval_nat_numeral)

text \<open>
  The scanner reads a backslash as an escape in every MySQL quote, also in back-quoted identifiers, where
  MySQL has no escapes: an identifier that ends in a backslash hides the parameters behind it.
\<close>

theorem mysql_identifier_gap:
  "read_quoted True False CHR ''`'' (tl (quote_ident Mysql [CHR 0x5C]) @ ''=?'') = Some ([CHR 0x5C], ''=?'')
   \<and> find_sql_parameters (quote_ident Mysql [CHR 0x5C] @ ''=?'') Mysql = []"
proof
  have s: "skip_quoted (quote_ident Mysql [CHR 0x5C] @ ''=?'') 0 CHR ''`'' True = 5"
    by (simp add: skip_quoted_def skip_from_reads read_end_def quote_ident_def ident_quote_def)
  have "scan_at Mysql (quote_ident Mysql [CHR 0x5C] @ ''=?'') 0 0 0 = (5, 0, 0, None)"
    using s by (simp add: scan_at_def Let_def quote_ident_def ident_quote_def)
  then show "find_sql_parameters (quote_ident Mysql [CHR 0x5C] @ ''=?'') Mysql = []"
    by (simp add: find_sql_parameters_def find_from.simps [of Mysql _ 0] find_from.simps [of Mysql _ 5]
        quote_ident_def ident_quote_def)
qed (simp add: quote_ident_def ident_quote_def)


end
