(* ===== verification/Scheduler.thy ===== *)
theory Scheduler
  imports Prelude
begin

text \<open>
  The background scheduler worker (\<open>workspace-scheduler-cloudflare/src/index.ts\<close>): the two JSON
  contracts with their RFC 3339 timestamps, bounded bodies, the constant-time secret comparison, and
  the task table with kicks, leases and receipts. Times are epoch milliseconds; the clock, the lease
  token, the SHA-256 digest and the decoding of a body to JSON are arguments.
\<close>

unbundle bit_operations_syntax

section \<open>JSON and timestamps\<close>

definition exact_keys :: "json \<Rightarrow> string list \<Rightarrow> (string \<times> json) list option" where
  "exact_keys v keys =
     (case v of
        JObj fs \<Rightarrow>
          if length fs = length keys \<and> list_all (\<lambda>k. map_of fs k \<noteq> None) keys then Some fs else None
      | _ \<Rightarrow> None)"

definition leap_year :: "nat \<Rightarrow> bool" where
  "leap_year y \<longleftrightarrow> y mod 4 = 0 \<and> (y mod 100 \<noteq> 0 \<or> y mod 400 = 0)"

definition month_days :: "nat \<Rightarrow> nat list" where
  "month_days y = [31, if leap_year y then 29 else 28, 31, 30, 31, 30, 31, 31, 30, 31, 30, 31]"

text \<open>Days of the proleptic Gregorian calendar since 1970-01-01, as \<open>Date.parse\<close> counts them.\<close>

definition days_before_year :: "nat \<Rightarrow> int" where
  "days_before_year y =
     (if y = 0 then - 719528
      else 365 * int y + int ((y - 1) div 4) - int ((y - 1) div 100) + int ((y - 1) div 400) + 1 - 719528)"

definition days_since_epoch :: "nat \<Rightarrow> nat \<Rightarrow> nat \<Rightarrow> int" where
  "days_since_epoch y m d = days_before_year y + int (sum_list (take (m - 1) (month_days y))) + int d - 1"

record rfc3339 =
  t_year :: nat
  t_month :: nat
  t_day :: nat
  t_hour :: nat
  t_minute :: nat
  t_second :: nat
  t_millis :: nat
  t_offset :: int

text \<open>Exactly \<open>n\<close> digits, and a given character.\<close>

definition take_digits :: "nat \<Rightarrow> string \<Rightarrow> (nat \<times> string) option" where
  "take_digits n s = (if n \<le> length s \<and> list_all is_digit (take n s) then Some (nat_val (take n s), drop n s) else None)"

definition take_char :: "char \<Rightarrow> string \<Rightarrow> string option" where
  "take_char c s = (case s of [] \<Rightarrow> None | d # r \<Rightarrow> if d = c then Some r else None)"

text \<open>The fraction: one to nine digits, of which \<open>Date.parse\<close> keeps the milliseconds.\<close>

definition take_fraction :: "string \<Rightarrow> (nat \<times> string) option" where
  "take_fraction s =
     (case take_char CHR ''.'' s of
        None \<Rightarrow> Some (0, s)
      | Some r \<Rightarrow>
          (let ds = takeWhile is_digit r
           in if 1 \<le> length ds \<and> length ds \<le> 9
              then Some (nat_val (take 3 (ds @ ''00'')), dropWhile is_digit r) else None))"

text \<open>\<open>Z\<close> or a signed offset; the offset in minutes, and its hour and minute for the range check.\<close>

definition take_zone :: "string \<Rightarrow> (int \<times> nat \<times> nat) option" where
  "take_zone s =
     (case s of
        [] \<Rightarrow> None
      | z # r \<Rightarrow>
          if z = CHR ''Z'' then (if r = [] then Some (0, 0, 0) else None)
          else if z = CHR ''+'' \<or> z = CHR ''-'' then
            (case take_digits 2 r of
               None \<Rightarrow> None
             | Some (h, r1) \<Rightarrow>
                 (case Option.bind (take_char CHR '':'' r1) (take_digits 2) of
                    None \<Rightarrow> None
                  | Some (m, r2) \<Rightarrow>
                      if r2 = [] then Some ((if z = CHR ''-'' then - 1 else 1) * int (h * 60 + m), h, m) else None))
          else None)"

definition take_sep :: "char \<Rightarrow> nat \<Rightarrow> string \<Rightarrow> (nat \<times> string) option" where
  "take_sep c n s = Option.bind (take_char c s) (take_digits n)"

definition parse_rfc3339 :: "string \<Rightarrow> (rfc3339 \<times> nat \<times> nat) option" where
  "parse_rfc3339 s =
     Option.bind (take_digits 4 s) (\<lambda>(y, s1).
     Option.bind (take_sep CHR ''-'' 2 s1) (\<lambda>(mo, s2).
     Option.bind (take_sep CHR ''-'' 2 s2) (\<lambda>(d, s3).
     Option.bind (take_sep CHR ''T'' 2 s3) (\<lambda>(h, s4).
     Option.bind (take_sep CHR '':'' 2 s4) (\<lambda>(mi, s5).
     Option.bind (take_sep CHR '':'' 2 s5) (\<lambda>(sec, s6).
     Option.bind (take_fraction s6) (\<lambda>(ms, s7).
     Option.bind (take_zone s7) (\<lambda>(off, oh, om).
       Some (\<lparr>t_year = y, t_month = mo, t_day = d, t_hour = h, t_minute = mi, t_second = sec, t_millis = ms,
               t_offset = off\<rparr>, oh, om)))))))))"

definition epoch_ms :: "rfc3339 \<Rightarrow> int" where
  "epoch_ms t =
     (((days_since_epoch (t_year t) (t_month t) (t_day t) * 24 + int (t_hour t)) * 60 + int (t_minute t) - t_offset t) * 60
        + int (t_second t)) * 1000 + int (t_millis t)"

definition valid_fields :: "rfc3339 \<Rightarrow> nat \<Rightarrow> nat \<Rightarrow> bool" where
  "valid_fields t oh om \<longleftrightarrow>
     1 \<le> t_month t \<and> t_month t \<le> 12 \<and> 1 \<le> t_day t \<and> t_day t \<le> month_days (t_year t) ! (t_month t - 1)
     \<and> t_hour t \<le> 23 \<and> t_minute t \<le> 59 \<and> t_second t \<le> 59 \<and> oh \<le> 23 \<and> om \<le> 59"

definition valid_rfc3339 :: "json \<Rightarrow> int option" where
  "valid_rfc3339 v =
     (case v of
        JStr s \<Rightarrow>
          (if length s > 40 then None
           else case parse_rfc3339 s of
                  None \<Rightarrow> None
                | Some (t, oh, om) \<Rightarrow> if valid_fields t oh om then Some (epoch_ms t) else None)
      | _ \<Rightarrow> None)"

section \<open>Contracts\<close>

datatype task = Credential | Maintenance

definition task_of :: "string \<Rightarrow> task option" where
  "task_of s = (if s = ''credential'' then Some Credential else if s = ''maintenance'' then Some Maintenance else None)"

definition max_not_before_ms :: int where "max_not_before_ms = 366 * 24 * 60 * 60000"
definition past_skew_ms :: int where "past_skew_ms = 5 * 60000"
definition lease_ms :: int where "lease_ms = 90000"
definition min_retry_ms :: int where "min_retry_ms = 60000"
definition max_retry_ms :: int where "max_retry_ms = 15 * 60000"
definition circuit_breaker_failures :: nat where "circuit_breaker_failures = 5"
definition circuit_breaker_retry_ms :: int where "circuit_breaker_retry_ms = 6 * 60 * 60000"

definition dormant_due_at_ms :: int where
  "dormant_due_at_ms = days_since_epoch 3000 1 1 * 24 * 60 * 60 * 1000"

lemmas scheduler_constants =
  max_not_before_ms_def past_skew_ms_def lease_ms_def min_retry_ms_def max_retry_ms_def
  circuit_breaker_failures_def circuit_breaker_retry_ms_def

definition parse_kick :: "int \<Rightarrow> json \<Rightarrow> (task \<times> int) option" where
  "parse_kick now v =
     (case exact_keys v [''task'', ''notBefore''] of
        None \<Rightarrow> None
      | Some fs \<Rightarrow>
          (case (the (map_of fs ''task''), valid_rfc3339 (the (map_of fs ''notBefore''))) of
             (JStr s, Some due) \<Rightarrow>
               (case task_of s of
                  None \<Rightarrow> None
                | Some t \<Rightarrow>
                    if due < now - past_skew_ms \<or> now + max_not_before_ms < due then None else Some (t, max due now))
           | _ \<Rightarrow> None))"

definition parse_scheduler_receipt :: "int \<Rightarrow> json \<Rightarrow> int option" where
  "parse_scheduler_receipt now v =
     (case v of
        JObj outer \<Rightarrow>
          (case Option.bind (map_of outer ''scheduler'') (\<lambda>s. exact_keys s [''contractVersion'', ''nextRunAt'']) of
             None \<Rightarrow> None
           | Some fs \<Rightarrow>
               if map_of fs ''contractVersion'' \<noteq> Some (JNum 2) then None
               else if map_of fs ''nextRunAt'' = Some JNull then Some dormant_due_at_ms
               else (case valid_rfc3339 (the (map_of fs ''nextRunAt'')) of
                       None \<Rightarrow> None
                     | Some t \<Rightarrow>
                         if t < now - past_skew_ms \<or> now + max_not_before_ms < t then None
                         else Some (max t (now + min_retry_ms))))
      | _ \<Rightarrow> None)"

section \<open>Bodies and secrets\<close>

text \<open>The reading loop: \<open>None\<close> as soon as a chunk would exceed the limit.\<close>

fun read_chunks :: "nat \<Rightarrow> nat list \<Rightarrow> nat list list \<Rightarrow> nat list option" where
  "read_chunks max_bytes bytes [] = Some bytes"
| "read_chunks max_bytes bytes (chunk # chunks) =
     (if length chunk > max_bytes - length bytes then None else read_chunks max_bytes (bytes @ chunk) chunks)"

definition declared_ok :: "nat \<Rightarrow> string option \<Rightarrow> bool" where
  "declared_ok max_bytes declared =
     (case declared of None \<Rightarrow> True | Some s \<Rightarrow> s \<noteq> [] \<and> list_all is_digit s \<and> nat_val s \<le> max_bytes)"

text \<open>\<open>decode\<close> is the fatal UTF-8 decoding and \<open>JSON.parse\<close>.\<close>

definition bounded_json :: "(nat list \<Rightarrow> json option) \<Rightarrow> nat \<Rightarrow> string option \<Rightarrow> nat list list option \<Rightarrow> json option" where
  "bounded_json decode max_bytes declared body =
     (if \<not> declared_ok max_bytes declared then None
      else case body of None \<Rightarrow> None | Some chunks \<Rightarrow> Option.bind (read_chunks max_bytes [] chunks) decode)"

definition byte_at :: "nat list \<Rightarrow> nat \<Rightarrow> nat" where
  "byte_at xs i = (if i < length xs then xs ! i else 0)"

definition same_bytes :: "nat list \<Rightarrow> nat list \<Rightarrow> bool" where
  "same_bytes a b \<longleftrightarrow>
     foldl (\<lambda>m i. m OR (byte_at a i XOR byte_at b i)) (length a XOR length b) [0..<max (length a) (length b)] = 0"

definition same_secret :: "(string \<Rightarrow> nat list) \<Rightarrow> string \<Rightarrow> string \<Rightarrow> bool" where
  "same_secret digest candidate expected = same_bytes (digest candidate) (digest expected)"

section \<open>The task table\<close>

datatype error_kind = TransportError | ResponseError | ReceiptError | StorageError

record task_row =
  due_at :: int
  lease_until :: int
  lease_token :: "string option"
  generation :: nat
  failure_count :: nat
  last_error :: "error_kind option"
  updated_at :: int

type_synonym task_table = "task \<Rightarrow> task_row option"

record claimed_task =
  cl_task :: task
  cl_generation :: nat
  cl_failures :: nat
  cl_token :: string

definition kick_row :: "int \<Rightarrow> int \<Rightarrow> task_row option \<Rightarrow> task_row" where
  "kick_row due now row =
     (case row of
        None \<Rightarrow> \<lparr>due_at = due, lease_until = 0, lease_token = None, generation = 1, failure_count = 0,
                 last_error = None, updated_at = now\<rparr>
      | Some r \<Rightarrow> r\<lparr>due_at := min (due_at r) due, generation := generation r + 1, failure_count := 0,
                    last_error := None, updated_at := now\<rparr>)"

definition kick_task :: "task \<Rightarrow> int \<Rightarrow> int \<Rightarrow> task_table \<Rightarrow> task_table" where
  "kick_task t due now db = db(t \<mapsto> kick_row due now (db t))"

record kick_request =
  k_token :: string
  k_contract :: "string option"
  k_content_type :: "string option"
  k_declared :: "string option"
  k_body :: "nat list list option"

text \<open>\<open>split(";", 1)[0].trim().toLowerCase()\<close>.\<close>

definition media_type :: "string \<Rightarrow> string" where
  "media_type s = js_lower (js_trim (takeWhile (\<lambda>c. c \<noteq> CHR '';'') s))"

definition max_kick_body_bytes :: nat where "max_kick_body_bytes = 1024"

text \<open>The handler: the table and the HTTP status. \<open>storage_ok\<close> is false where the write throws.\<close>

definition kick ::
  "(string \<Rightarrow> nat list) \<Rightarrow> (nat list \<Rightarrow> json option) \<Rightarrow> string \<Rightarrow> bool \<Rightarrow> int \<Rightarrow> kick_request \<Rightarrow> task_table \<Rightarrow> task_table \<times> nat" where
  "kick digest decode secret storage_ok now req db =
     (if \<not> hex64 (k_token req) \<or> \<not> hex64 secret \<or> \<not> same_secret digest (k_token req) secret then (db, 401)
      else if k_contract req \<noteq> Some ''2'' then (db, 400)
      else if map_option media_type (k_content_type req) \<noteq> Some ''application/json'' then (db, 415)
      else case Option.bind (bounded_json decode max_kick_body_bytes (k_declared req) (k_body req)) (parse_kick now) of
             None \<Rightarrow> (db, 400)
           | Some (t, due) \<Rightarrow> if storage_ok then (kick_task t due now db, 202) else (db, 503))"

definition claim_task :: "task \<Rightarrow> int \<Rightarrow> string \<Rightarrow> task_table \<Rightarrow> task_table \<times> claimed_task option" where
  "claim_task t now token db =
     (case db t of
        None \<Rightarrow> (db, None)
      | Some r \<Rightarrow>
          if due_at r \<le> now \<and> lease_until r \<le> now
          then (db(t \<mapsto> r\<lparr>lease_until := now + lease_ms, lease_token := Some token, generation := generation r + 1,
                           updated_at := now\<rparr>),
                Some \<lparr>cl_task = t, cl_generation = generation r + 1, cl_failures = failure_count r, cl_token = token\<rparr>)
          else (db, None))"

definition retry_delay :: "nat \<Rightarrow> int" where
  "retry_delay failures =
     (if circuit_breaker_failures \<le> failures then circuit_breaker_retry_ms
      else min (min_retry_ms * 2 ^ (failures - 1)) max_retry_ms)"

definition finish_task :: "claimed_task \<Rightarrow> int \<Rightarrow> error_kind option \<Rightarrow> int \<Rightarrow> task_table \<Rightarrow> task_table" where
  "finish_task claim next_run err now db =
     (case db (cl_task claim) of
        None \<Rightarrow> db
      | Some r \<Rightarrow>
          if generation r = cl_generation claim \<and> lease_token r = Some (cl_token claim)
          then db(cl_task claim \<mapsto> r\<lparr>due_at := next_run, lease_until := 0, lease_token := None,
                 failure_count := (if err \<noteq> None then min (cl_failures claim + 1) 20 else 0),
                 last_error := err, updated_at := now\<rparr>)
          else if lease_token r = Some (cl_token claim)
          then db(cl_task claim \<mapsto> r\<lparr>lease_until := 0, lease_token := None, updated_at := now\<rparr>)
          else db)"

section \<open>Running a task\<close>

text \<open>
  What the fetch gives: an exception, or a response with its status, whether the contract header is right, and
  the JSON of its bounded body.
\<close>

datatype upstream = FetchThrew | Responded nat bool "json option"

definition upstream_result :: "int \<Rightarrow> int \<Rightarrow> claimed_task \<Rightarrow> upstream \<Rightarrow> int \<times> error_kind option" where
  "upstream_result now later claim u =
     (let fallback = now + retry_delay (cl_failures claim + 1)
      in case u of
           FetchThrew \<Rightarrow> (fallback, Some TransportError)
         | Responded status contract body \<Rightarrow>
             if 300 \<le> status \<and> status < 400 then (fallback, Some ResponseError)
             else (let value = (if contract \<and> (status = 200 \<or> status = 503) then body else None)
                   in case Option.bind value (parse_scheduler_receipt later) of
                        None \<Rightarrow> (fallback, Some (if 200 \<le> status \<and> status < 300 then ReceiptError else ResponseError))
                      | Some t \<Rightarrow> (t, None)))"

datatype scheduler_event =
    KickEvent task int int
  | ClaimTask task int string
  | FinishEvent claimed_task int "error_kind option" int

fun scheduler_step :: "task_table \<Rightarrow> scheduler_event \<Rightarrow> task_table" where
  "scheduler_step db (KickEvent t due now) = kick_task t due now db"
| "scheduler_step db (ClaimTask t now token) = fst (claim_task t now token db)"
| "scheduler_step db (FinishEvent claim next_run err now) = finish_task claim next_run err now db"

text \<open>\<open>executeTask\<close> without interruption: claim, fetch, finish.\<close>

definition execute_task :: "task \<Rightarrow> int \<Rightarrow> string \<Rightarrow> upstream \<Rightarrow> int \<Rightarrow> task_table \<Rightarrow> task_table" where
  "execute_task t now token u later db =
     (case claim_task t now token db of
        (db', None) \<Rightarrow> db'
      | (db', Some claim) \<Rightarrow>
          (case upstream_result now later claim u of
             (next_run, err) \<Rightarrow> finish_task claim next_run err later db'))"

definition run_due_tasks :: "int \<Rightarrow> (task \<Rightarrow> string) \<Rightarrow> (task \<Rightarrow> upstream) \<Rightarrow> int \<Rightarrow> task_table \<Rightarrow> task_table" where
  "run_due_tasks now tokens us later db =
     foldl (\<lambda>db t. execute_task t now (tokens t) (us t) later db) db [Credential, Maintenance]"

section \<open>Facts\<close>

lemma scheduler_delay_bounds:
  shows "min_retry_ms \<le> retry_delay n" and "n < 5 \<Longrightarrow> retry_delay n \<le> max_retry_ms"
    and "retry_delay n \<le> circuit_breaker_retry_ms"
  by (auto simp: retry_delay_def scheduler_constants min_def)

lemma scheduler_delay_mono: "m \<le> n \<Longrightarrow> retry_delay m \<le> retry_delay n"
proof -
  assume mn: "m \<le> n"
  define a b where "a = (2::int) ^ (m - 1)" and "b = (2::int) ^ (n - 1)"
  from mn have "a \<le> b" unfolding a_def b_def by (intro power_increasing) auto
  then show ?thesis
    using mn unfolding retry_delay_def a_def [symmetric] b_def [symmetric] scheduler_constants by auto
qed

lemma read_chunks_Some: "read_chunks n bytes chunks = Some r \<Longrightarrow> length bytes \<le> n \<Longrightarrow> r = bytes @ concat chunks \<and> length r \<le> n"
proof (induction n bytes chunks rule: read_chunks.induct)
  case (2 n bytes chunk chunks)
  then have fits: "\<not> n - length bytes < length chunk" "read_chunks n (bytes @ chunk) chunks = Some r"
    by (simp_all split: if_splits)
  with 2(3) have "length (bytes @ chunk) \<le> n" by simp
  with 2(1) fits show ?case by auto
qed auto

lemma fold_or_zero: "foldl (\<lambda>m i. m OR f i) (z::nat) is = 0 \<longleftrightarrow> z = 0 \<and> (\<forall>i\<in>set is. f i = 0)"
  by (induction "is" arbitrary: z) (auto simp: or_eq_0_iff)

lemma xor_zero: "(a::nat) XOR b = 0 \<longleftrightarrow> a = b"
  by (metis bit.xor_cancel_left xor.comm_neutral xor_self_eq xor.assoc)

lemma same_bytes_iff: "same_bytes a b \<longleftrightarrow> a = b"
proof -
  have "same_bytes a b \<longleftrightarrow> length a = length b \<and> (\<forall>i<max (length a) (length b). byte_at a i = byte_at b i)"
    by (auto simp: same_bytes_def fold_or_zero xor_zero)
  also have "\<dots> \<longleftrightarrow> a = b"
    by (auto simp: byte_at_def intro: nth_equalityI)
  finally show ?thesis .
qed

text \<open>A row without a token has no lease, and failures are capped.\<close>

definition row_ok :: "task_row \<Rightarrow> bool" where
  "row_ok r \<longleftrightarrow> (lease_token r = None \<longrightarrow> lease_until r = 0) \<and> failure_count r \<le> 20"

definition table_ok :: "task_table \<Rightarrow> bool" where
  "table_ok db \<longleftrightarrow> (\<forall>t r. db t = Some r \<longrightarrow> row_ok r)"

interpretation scheduler: invariant_machine scheduler_step table_ok
proof
  show "table_ok (scheduler_step db e)" if ok: "table_ok db" for db e
  proof (cases e)
    case (KickEvent t due now)
    with ok show ?thesis by (auto simp: table_ok_def row_ok_def kick_task_def kick_row_def split: option.splits)
  next
    case (ClaimTask t now token)
    with ok show ?thesis by (auto simp: table_ok_def row_ok_def claim_task_def split: option.splits)
  next
    case (FinishEvent claim next_run err now)
    with ok show ?thesis by (auto simp: table_ok_def row_ok_def finish_task_def split: option.splits)
  qed
qed

text \<open>
  A wake-up is safe: the task is due no later than \<open>d\<close>, and its generation is above \<open>g\<close>, the last one a
  worker had claimed when the kick arrived.
\<close>

definition woken :: "task \<Rightarrow> int \<Rightarrow> nat \<Rightarrow> task_table \<Rightarrow> bool" where
  "woken t d g db \<longleftrightarrow> (\<exists>r. db t = Some r \<and> due_at r \<le> d \<and> g < generation r)"

text \<open>Events other than a claim of the task, where a worker finishes only a claim it took before the kick.\<close>

fun undisturbed :: "task \<Rightarrow> nat \<Rightarrow> scheduler_event \<Rightarrow> bool" where
  "undisturbed t g (KickEvent t' due now) = True"
| "undisturbed t g (ClaimTask t' now token) = (t' \<noteq> t)"
| "undisturbed t g (FinishEvent claim next_run err now) = (cl_task claim = t \<longrightarrow> cl_generation claim \<le> g)"

lemma woken_step: "woken t d g db \<Longrightarrow> undisturbed t g e \<Longrightarrow> woken t d g (scheduler_step db e)"
  by (cases e) (auto simp: woken_def kick_task_def kick_row_def claim_task_def finish_task_def split: option.splits if_splits)

lemma woken_run: "woken t d g db \<Longrightarrow> list_all (undisturbed t g) es \<Longrightarrow> woken t d g (foldl scheduler_step db es)"
  by (induction es arbitrary: db) (auto intro: woken_step)

text \<open>
C14. A wake-up is never lost. After a kick for time \<open>due\<close>, however many further kicks, events of the other task and
completions of claims taken before the kick follow, in any order, the task stays due no later than
\<open>due\<close> until it is claimed again: a worker that was already running cannot overwrite the earlier wake-up with its own
next run, and at most gives its lease back. And once \<open>due\<close> has come and no lease is held, the next claim succeeds.
\<close>

theorem kick_is_never_lost:
  assumes "g = (case db t of None \<Rightarrow> 0 | Some r \<Rightarrow> generation r)" and "list_all (undisturbed t g) es"
    and "db' = foldl scheduler_step (kick_task t due now db) es"
  shows "\<exists>r. db' t = Some r \<and> due_at r \<le> due \<and> g < generation r
    \<and> (due \<le> later \<and> lease_until r \<le> later \<longrightarrow>
        (\<exists>claim. snd (claim_task t later token db') = Some claim \<and> cl_generation claim = generation r + 1))"
proof -
  have "woken t due g (kick_task t due now db)"
    by (auto simp: woken_def kick_task_def kick_row_def assms(1) split: option.splits)
  from woken_run [OF this assms(2)] obtain r where r: "db' t = Some r" "due_at r \<le> due" "g < generation r"
    by (auto simp: woken_def assms(3))
  then show ?thesis by (auto simp: claim_task_def)
qed

theorem kick_is_never_lost_witness:
  "\<exists>r. foldl scheduler_step (kick_task Credential 50 40 (\<lambda>_. None))
        [FinishEvent \<lparr>cl_task = Credential, cl_generation = 0, cl_failures = 0, cl_token = ''x''\<rparr> 900 None 45] Credential = Some r
     \<and> due_at r \<le> 50"
  using kick_is_never_lost [of 0 "\<lambda>_. None" Credential
      "[FinishEvent \<lparr>cl_task = Credential, cl_generation = 0, cl_failures = 0, cl_token = ''x''\<rparr> 900 None 45]" _ 50 40]
  by fastforce


definition due_table :: task_table where
  "due_table = kick_task Credential 50 40 (\<lambda>_. None)"


text \<open>
Only an authenticated, well-formed, bounded kick reaches the table. When the kick handler changes the table
or answers 202 then the presented token equals in digest the configured one (both 64 lower-case hex digits), the
contract and the media type are right, the body is at most 1024 bytes, and the new wake-up is between now and
366 days from now. The byte comparison accepts exactly equal digests.
\<close>

theorem kick_is_guarded:
  assumes "kick digest decode secret storage_ok now req db = (db', code)" and "db' \<noteq> db \<or> code = 202"
  shows "code = 202 \<and> digest (k_token req) = digest secret \<and> hex64 (k_token req) \<and> hex64 secret \<and> k_contract req = Some ''2''
    \<and> (\<exists>ct. k_content_type req = Some ct \<and> media_type ct = ''application/json'')
    \<and> (\<exists>chunks t due. k_body req = Some chunks \<and> length (concat chunks) \<le> 1024
         \<and> now \<le> due \<and> due \<le> now + max_not_before_ms \<and> db' = kick_task t due now db)"
proof -
  have acc: "hex64 (k_token req)" "hex64 secret" "same_secret digest (k_token req) secret" "k_contract req = Some ''2''"
    "map_option media_type (k_content_type req) = Some ''application/json''"
    using assms unfolding kick_def by (auto split: if_splits)
  then have k: "kick digest decode secret storage_ok now req db =
     (case Option.bind (bounded_json decode max_kick_body_bytes (k_declared req) (k_body req)) (parse_kick now) of
             None \<Rightarrow> (db, 400)
           | Some (t, due) \<Rightarrow> if storage_ok then (kick_task t due now db, 202) else (db, 503))"
    by (simp add: kick_def)
  from k assms obtain v t due where v: "bounded_json decode max_kick_body_bytes (k_declared req) (k_body req) = Some v"
    "parse_kick now v = Some (t, due)" and db': "db' = kick_task t due now db" "code = 202"
    by (auto split: option.splits if_splits prod.splits simp: bind_eq_Some_conv)
  from v(1) obtain chunks bytes where b: "k_body req = Some chunks" "read_chunks max_kick_body_bytes [] chunks = Some bytes"
    by (auto simp: bounded_json_def bind_eq_Some_conv split: if_splits option.splits)
  from read_chunks_Some [OF b(2)] have "length (concat chunks) \<le> 1024" by (auto simp: max_kick_body_bytes_def)
  moreover have "now \<le> due \<and> due \<le> now + max_not_before_ms"
    using v(2) by (auto simp: parse_kick_def max_not_before_ms_def split: option.splits json.splits if_splits)
  moreover have "digest (k_token req) = digest secret"
    using acc(3) by (simp add: same_secret_def same_bytes_iff)
  ultimately show ?thesis using acc b(1) db' by auto
qed

definition example_kick :: kick_request where
  "example_kick = \<lparr>k_token = replicate 64 CHR ''a'', k_contract = Some ''2'', k_content_type = Some ''application/json'',
     k_declared = None, k_body = Some [[1, 2], [3]]\<rparr>"

definition example_body :: json where
  "example_body = JObj [(''task'', JStr ''credential''), (''notBefore'', JStr ''1970-01-01T00:00:01Z'')]"

theorem kick_is_guarded_witness:
  "(\<lambda>_. [7]) (k_token example_kick) = (\<lambda>_. [7]) (replicate 64 CHR ''b'')
   \<and> snd (kick (\<lambda>_. [7::nat]) (\<lambda>_. Some example_body) (replicate 64 CHR ''b'') True 500 example_kick (\<lambda>_. None)) = 202"
proof -
  have h: "hex64 (replicate 64 CHR ''a'')" "hex64 (replicate 64 CHR ''b'')"
    by (simp_all add: hex64_def matches_replicate char_class_defs)
  have m: "media_type ''application/json'' = ''application/json''"
    by (simp add: media_type_def js_trim_def js_space_def js_lower_def js_lower_char_def char_of_def)
  have k: "parse_kick 500 example_body = Some (Credential, 1000)"
    by code_simp
  have b: "bounded_json (\<lambda>_. Some example_body) max_kick_body_bytes None (Some [[1, 2], [3]]) = Some example_body"
    by (simp add: bounded_json_def declared_ok_def max_kick_body_bytes_def)
  have run: "kick (\<lambda>_. [7::nat]) (\<lambda>_. Some example_body) (replicate 64 CHR ''b'') True 500 example_kick (\<lambda>_. None)
      = (kick_task Credential 1000 500 (\<lambda>_. None), 202)"
    using h by (simp add: kick_def example_kick_def same_secret_def same_bytes_iff m b [simplified] k)
  from kick_is_guarded [OF run] show ?thesis unfolding run by simp
qed

end
