(* ===== verification/ResultCache.thy ===== *)
theory ResultCache
  imports Prelude
begin

text \<open>
  The result page cache (\<open>src/features/queries/resultPageCache.ts\<close>). The module-level maps are a record
  of association lists in insertion order; \<open>rc_caches\<close> is kept in least-recently-used order by
  deleting and setting again, as are the pages of one cache. A cache object carries an identity because the
  closures of a page read keep the object after the map has dropped it. Listeners are only counted as
  present; calling them has no effect on this state. The clock is an argument.
\<close>

section \<open>State\<close>

datatype cell_value = NullCell | TextCell string | OtherCell string

type_synonym row = "cell_value list"

record decode_failure =
  df_row :: int
  df_column :: int
  df_type :: string

datatype page_error_kind = AuthorityChanged | Expired | Unavailable

record page_error =
  pe_kind :: page_error_kind
  pe_retrying :: bool

record page_failure =
  pf_attempts :: nat
  pf_retry_at :: int
  pf_kind :: page_error_kind

record page =
  pg_start :: int
  pg_rows :: "row list"

record page_cache =
  pc_object :: nat
  pc_pages :: "(nat \<times> page) list"
  pc_failures :: "(nat \<times> decode_failure list) list"
  pc_loading :: "nat list"
  pc_page_failures :: "(nat \<times> page_failure) list"
  pc_timer :: bool
  pc_error :: "page_error option"

record result_caches =
  rc_caches :: "(string \<times> page_cache) list"
  rc_listeners :: "string list"
  rc_next :: nat

record page_range =
  pr_sequence :: nat
  pr_start :: int
  pr_count :: nat

record row_source =
  rs_operation :: "string option"
  rs_capability :: "string option"
  rs_page_rows :: nat
  rs_ranges :: "page_range list"
  rs_row_count :: int
  rs_complete :: bool

definition max_pages :: nat where "max_pages = 6"
definition max_results :: nat where "max_results = 4"
definition max_attempts :: nat where "max_attempts = 3"
definition retry_base_ms :: int where "retry_base_ms = 1000"

definition source_key :: "row_source \<Rightarrow> string option" where
  "source_key s =
     (case (rs_operation s, rs_capability s) of
        (Some oid, Some cap) \<Rightarrow> if oid \<noteq> [] \<and> cap \<noteq> [] then Some (oid @ '':'' @ cap) else None
      | _ \<Rightarrow> None)"

section \<open>Errors and decode failures\<close>

record load_error =
  le_kind :: "string option"
  le_message :: "string option"

definition classify_page_error :: "load_error \<Rightarrow> page_error_kind" where
  "classify_page_error e =
     (let message = (case le_message e of Some m \<Rightarrow> m | None \<Rightarrow> [])
      in if le_kind e = Some ''blocked'' \<and> str_includes ''authority changed'' message then AuthorityChanged
         else if le_kind e = Some ''notFound''
           \<or> (le_kind e = Some ''io''
              \<and> (str_includes ''no such file'' (js_lower message) \<or> str_includes ''not found'' (js_lower message)
                 \<or> str_includes ''cannot find'' (js_lower message)))
         then Expired
         else Unavailable)"

text \<open>\<open>number\<close> is \<open>Number(text)\<close> where that is a safe integer.\<close>

definition truncated_cell_bytes :: "(string \<Rightarrow> int option) \<Rightarrow> string \<Rightarrow> int option" where
  "truncated_cell_bytes number database_type =
     (if starts_with ''dopedb.truncated:'' database_type
      then (case number (drop 17 database_type) of Some n \<Rightarrow> if n \<ge> 0 then Some n else None | None \<Rightarrow> None)
      else None)"

definition decode_failure_cell_is_consistent :: "(string \<Rightarrow> int option) \<Rightarrow> decode_failure \<Rightarrow> cell_value option \<Rightarrow> bool" where
  "decode_failure_cell_is_consistent number f v =
     (case truncated_cell_bytes number (df_type f) of
        None \<Rightarrow> v = Some NullCell
      | Some _ \<Rightarrow> (case v of Some (TextCell _) \<Rightarrow> True | _ \<Rightarrow> False))"

section \<open>Caches\<close>

definition new_cache :: "nat \<Rightarrow> page_cache" where
  "new_cache obj = \<lparr>pc_object = obj, pc_pages = [], pc_failures = [], pc_loading = [], pc_page_failures = [],
     pc_timer = False, pc_error = None\<rparr>"

text \<open>\<open>cacheFor\<close>: get or create, then move to the end.\<close>

definition cache_for :: "string \<Rightarrow> result_caches \<Rightarrow> result_caches" where
  "cache_for key st =
     (case map_of (rc_caches st) key of
        Some c \<Rightarrow> st\<lparr>rc_caches := js_touch key c (rc_caches st)\<rparr>
      | None \<Rightarrow> st\<lparr>rc_caches := js_touch key (new_cache (rc_next st)) (rc_caches st), rc_next := rc_next st + 1\<rparr>)"

definition the_cache :: "result_caches \<Rightarrow> string \<Rightarrow> page_cache" where
  "the_cache st key = the (map_of (rc_caches st) key)"

definition put_cache :: "string \<Rightarrow> page_cache \<Rightarrow> result_caches \<Rightarrow> result_caches" where
  "put_cache key c st = st\<lparr>rc_caches := js_set key c (rc_caches st)\<rparr>"

definition clear_page_failures :: "page_cache \<Rightarrow> page_cache" where
  "clear_page_failures c = c\<lparr>pc_timer := False, pc_page_failures := [], pc_error := None\<rparr>"

text \<open>\<open>trimResultPages\<close>: the loop that drops the oldest page-bearing results, then the empty ones.\<close>

definition bearing :: "(string \<times> page_cache) list \<Rightarrow> (string \<times> page_cache) list" where
  "bearing m = filter (\<lambda>(k, c). pc_pages c \<noteq> []) m"

function trim_bearing :: "string \<Rightarrow> (string \<times> page_cache) list \<Rightarrow> (string \<times> page_cache) list" where
  "trim_bearing protected m =
     (if length (bearing m) > max_results
      then (case find (\<lambda>(k, c). k \<noteq> protected \<and> pc_pages c \<noteq> []) m of
              None \<Rightarrow> m
            | Some (k, c) \<Rightarrow> trim_bearing protected (js_delete k m))
      else m)"
  by pat_completeness auto
termination
proof (relation "measure (\<lambda>(p, m). length m)")
  fix protected m x k c
  assume "find (\<lambda>(k, c). k \<noteq> protected \<and> pc_pages c \<noteq> []) m = Some x" "(k, c) = x"
  then have "(k, c) \<in> set m" by (auto dest: find_SomeD)
  then have "length (js_delete k m) < length m"
    unfolding AList.delete_eq by (intro length_filter_less) auto
  then show "((protected, js_delete k m), (protected, m)) \<in> measure (\<lambda>(p, m). length m)" by simp
qed simp

declare trim_bearing.simps [simp del]

fun trim_empty :: "string \<Rightarrow> string list \<Rightarrow> string list \<Rightarrow> (string \<times> page_cache) list \<Rightarrow> (string \<times> page_cache) list" where
  "trim_empty protected listening [] m = m"
| "trim_empty protected listening (k # ks) m =
     (if length m \<le> max_results then m
      else if k \<noteq> protected \<and> (\<exists>c\<in>set_option (map_of m k). pc_pages c = [] \<and> pc_loading c = []) \<and> k \<notin> set listening
      then trim_empty protected listening ks (js_delete k m)
      else trim_empty protected listening ks m)"

definition trim_result_pages :: "string \<Rightarrow> result_caches \<Rightarrow> result_caches" where
  "trim_result_pages protected st =
     (let m = trim_bearing protected (rc_caches st)
      in st\<lparr>rc_caches := trim_empty protected (rc_listeners st) (js_keys m) m\<rparr>)"

section \<open>Retaining pages\<close>

text \<open>The loop that drops the oldest pages.\<close>

function drop_oldest :: "page_cache \<Rightarrow> page_cache" where
  "drop_oldest c =
     (if length (pc_pages c) > max_pages
      then (case pc_pages c of
              [] \<Rightarrow> c
            | (k, p) # rest \<Rightarrow> drop_oldest (c\<lparr>pc_pages := js_delete k (pc_pages c), pc_failures := js_delete k (pc_failures c)\<rparr>))
      else c)"
  by pat_completeness auto
termination
  by (relation "measure (\<lambda>c. length (pc_pages c))") (auto simp: le_imp_less_Suc length_delete_le)

declare drop_oldest.simps [simp del]

definition source_range :: "row_source \<Rightarrow> nat \<Rightarrow> page_range option" where
  "source_range s sequence = char_at (rs_ranges s) sequence"

definition retain_in :: "nat \<Rightarrow> int \<Rightarrow> row list \<Rightarrow> decode_failure list \<Rightarrow> page_cache \<Rightarrow> page_cache" where
  "retain_in sequence row_start rows fails c =
     (let c1 = c\<lparr>pc_pages := js_touch sequence \<lparr>pg_start = row_start, pg_rows = rows\<rparr> (pc_pages c),
                 pc_failures := js_set sequence fails (pc_failures c),
                 pc_page_failures := js_delete sequence (pc_page_failures c)\<rparr>;
          c2 = drop_oldest c1
      in if pc_page_failures c2 = [] then c2\<lparr>pc_error := None\<rparr> else c2)"

definition range_fits :: "row_source \<Rightarrow> nat \<Rightarrow> int \<Rightarrow> nat \<Rightarrow> bool" where
  "range_fits s sequence row_start rows \<longleftrightarrow>
     (case source_range s sequence of
        None \<Rightarrow> False
      | Some r \<Rightarrow> pr_sequence r = sequence \<and> pr_start r = row_start \<and> pr_count r = rows)"

definition retain :: "row_source \<Rightarrow> nat \<Rightarrow> int \<Rightarrow> row list \<Rightarrow> decode_failure list \<Rightarrow> result_caches \<Rightarrow> result_caches" where
  "retain s sequence row_start rows fails st =
     (case source_key s of
        None \<Rightarrow> st
      | Some key \<Rightarrow>
          (let st1 = cache_for key st
           in if range_fits s sequence row_start (length rows)
              then trim_result_pages key (put_cache key (retain_in sequence row_start rows fails (the_cache st1 key)) st1)
              else st1))"

record stream_batch =
  sb_operation :: string
  sb_sequence :: nat
  sb_row_start :: "int option"
  sb_columns :: "string list"
  sb_rows :: "row list"
  sb_failures :: "decode_failure list option"

definition retain_sql_stream_batch :: "row_source \<Rightarrow> stream_batch \<Rightarrow> result_caches \<Rightarrow> result_caches" where
  "retain_sql_stream_batch s b st =
     retain s (sb_sequence b)
       (case sb_row_start b of
          Some i \<Rightarrow> i
        | None \<Rightarrow> (case source_range s (sb_sequence b) of Some r \<Rightarrow> pr_start r | None \<Rightarrow> - 1))
       (sb_rows b) (case sb_failures b of Some f \<Rightarrow> f | None \<Rightarrow> []) st"

section \<open>Failures and retries\<close>

definition record_failure_in :: "nat \<Rightarrow> page_error_kind \<Rightarrow> int \<Rightarrow> page_cache \<Rightarrow> page_cache" where
  "record_failure_in sequence kind now c =
     (let attempts = (case map_of (pc_page_failures c) sequence of Some f \<Rightarrow> pf_attempts f | None \<Rightarrow> 0) + 1;
          retrying = (kind = Unavailable \<and> attempts < max_attempts);
          delay = retry_base_ms * 4 ^ (attempts - 1)
      in c\<lparr>pc_page_failures := js_set sequence
             \<lparr>pf_attempts = (if retrying then attempts else max_attempts), pf_retry_at = now + delay, pf_kind = kind\<rparr>
             (pc_page_failures c),
           pc_error := Some \<lparr>pe_kind = kind, pe_retrying = retrying\<rparr>,
           pc_timer := pc_timer c \<or> retrying\<rparr>)"

definition record_page_failure :: "string \<Rightarrow> nat \<Rightarrow> load_error \<Rightarrow> int \<Rightarrow> result_caches \<Rightarrow> result_caches" where
  "record_page_failure key sequence err now st =
     put_cache key (record_failure_in sequence (classify_page_error err) now (the_cache st key)) st"

definition retry_sql_result_pages :: "row_source \<Rightarrow> result_caches \<Rightarrow> result_caches" where
  "retry_sql_result_pages s st =
     (case source_key s of
        None \<Rightarrow> st
      | Some key \<Rightarrow>
          (case map_of (rc_caches st) key of None \<Rightarrow> st | Some c \<Rightarrow> put_cache key (clear_page_failures c) st))"

section \<open>Lookups\<close>

text \<open>The binary search of \<open>pageRangeIndexForRow\<close>, over the indices \<open>low\<close> to \<open>high - 1\<close>.\<close>

function search_range :: "page_range list \<Rightarrow> int \<Rightarrow> nat \<Rightarrow> nat \<Rightarrow> nat option" where
  "search_range ranges row low high =
     (if low < high
      then (let middle = (low + (high - 1)) div 2; r = ranges ! middle
            in if row < pr_start r then search_range ranges row low middle
               else if row \<ge> pr_start r + int (pr_count r) then search_range ranges row (middle + 1) high
               else Some middle)
      else None)"
  by pat_completeness auto
termination
  by (relation "measure (\<lambda>(ranges, row, low, high). high - low)") auto

declare search_range.simps [simp del]

definition page_range_index_for_row :: "row_source \<Rightarrow> int \<Rightarrow> nat option" where
  "page_range_index_for_row s row = search_range (rs_ranges s) row 0 (length (rs_ranges s))"

text \<open>The coverage loop over the ranges from the first on.\<close>

fun covered_from :: "page_cache \<Rightarrow> int \<Rightarrow> int \<Rightarrow> page_range list \<Rightarrow> int option" where
  "covered_from c requested_end covered [] = Some covered"
| "covered_from c requested_end covered (r # rs) =
     (if covered < requested_end
      then (case map_of (pc_pages c) (pr_sequence r) of
              None \<Rightarrow> None
            | Some p \<Rightarrow>
                if pr_start r > covered \<or> pg_start p \<noteq> pr_start r \<or> length (pg_rows p) \<noteq> pr_count r then None
                else covered_from c requested_end (min requested_end (pr_start r + int (pr_count r))) rs)
      else Some covered)"

definition sql_result_range_is_cached :: "row_source \<Rightarrow> int \<Rightarrow> int \<Rightarrow> result_caches \<Rightarrow> result_caches \<times> bool" where
  "sql_result_range_is_cached s start end_row st =
     (let requested_start = max 0 start; requested_end = min (rs_row_count s) end_row
      in if requested_end \<le> requested_start then (st, True)
         else case source_key s of
                None \<Rightarrow> (st, False)
              | Some key \<Rightarrow>
                  (let st1 = cache_for key st
                   in case page_range_index_for_row s requested_start of
                        None \<Rightarrow> (st1, False)
                      | Some i \<Rightarrow> (st1, covered_from (the_cache st1 key) requested_end requested_start (drop i (rs_ranges s))
                                        = Some requested_end)))"

definition sql_result_row_at :: "row_source \<Rightarrow> int \<Rightarrow> result_caches \<Rightarrow> result_caches \<times> row option" where
  "sql_result_row_at s i st =
     (if i < 0 \<or> i \<ge> rs_row_count s then (st, None)
      else case source_key s of
             None \<Rightarrow> (st, None)
           | Some key \<Rightarrow>
               (let st1 = cache_for key st; c = the_cache st1 key
                in case page_range_index_for_row s i of
                     None \<Rightarrow> (st1, None)
                   | Some n \<Rightarrow>
                       (let r = rs_ranges s ! n
                        in case map_of (pc_pages c) (pr_sequence r) of
                             None \<Rightarrow> (st1, None)
                           | Some p \<Rightarrow>
                               if pg_start p \<noteq> pr_start r then (st1, None)
                               else (put_cache key (c\<lparr>pc_pages := js_touch (pr_sequence r) p (pc_pages c)\<rparr>) st1,
                                     char_at (pg_rows p) (nat (i - pr_start r))))))"

definition failure_at :: "int \<Rightarrow> int \<Rightarrow> page_cache \<Rightarrow> decode_failure option" where
  "failure_at row column c = find (\<lambda>f. df_row f = row \<and> df_column f = column) (concat (map snd (pc_failures c)))"

definition sql_result_decode_failure_at :: "row_source \<Rightarrow> int \<Rightarrow> int \<Rightarrow> result_caches \<Rightarrow> result_caches \<times> decode_failure option" where
  "sql_result_decode_failure_at s row column st =
     (case source_key s of
        None \<Rightarrow> (st, None)
      | Some key \<Rightarrow> (let st1 = cache_for key st in (st1, failure_at row column (the_cache st1 key))))"

text \<open>\<open>collectCachedSqlResultRows\<close>: every range in order, or nothing.\<close>

fun collect_rows :: "page_range list \<Rightarrow> page_cache \<Rightarrow> page_cache \<times> row list option" where
  "collect_rows [] c = (c, Some [])"
| "collect_rows (r # rs) c =
     (case map_of (pc_pages c) (pr_sequence r) of
        None \<Rightarrow> (c, None)
      | Some p \<Rightarrow>
          if pg_start p \<noteq> pr_start r \<or> length (pg_rows p) \<noteq> pr_count r then (c, None)
          else (case collect_rows rs (c\<lparr>pc_pages := js_touch (pr_sequence r) p (pc_pages c)\<rparr>) of
                  (c', None) \<Rightarrow> (c', None)
                | (c', Some rows) \<Rightarrow> (c', Some (pg_rows p @ rows))))"

definition collect_cached_sql_result_rows :: "row_source \<Rightarrow> result_caches \<Rightarrow> result_caches \<times> row list option" where
  "collect_cached_sql_result_rows s st =
     (if length (rs_ranges s) > max_pages then (st, None)
      else case source_key s of
             None \<Rightarrow> (st, None)
           | Some key \<Rightarrow>
               (let st1 = cache_for key st; (c, rows) = collect_rows (rs_ranges s) (the_cache st1 key)
                in (put_cache key c st1,
                    case rows of None \<Rightarrow> None | Some rs \<Rightarrow> if int (length rs) = rs_row_count s then Some rs else None)))"

text \<open>\<open>iterateCachedSqlResultRows\<close>: the retained rows with their indices.\<close>

definition cached_rows :: "page_cache \<Rightarrow> (int \<times> row) list" where
  "cached_rows c = concat (map (\<lambda>(k, p). map (\<lambda>i. (pg_start p + int i, pg_rows p ! i)) [0..<length (pg_rows p)]) (pc_pages c))"

definition subscribe :: "row_source \<Rightarrow> result_caches \<Rightarrow> result_caches" where
  "subscribe s st =
     (case source_key s of
        None \<Rightarrow> st
      | Some key \<Rightarrow> (cache_for key st)\<lparr>rc_listeners := List.insert key (rc_listeners st)\<rparr>)"

text \<open>The last listener of a result leaves.\<close>

definition unsubscribe :: "row_source \<Rightarrow> result_caches \<Rightarrow> result_caches" where
  "unsubscribe s st =
     (case source_key s of None \<Rightarrow> st | Some key \<Rightarrow> st\<lparr>rc_listeners := removeAll key (rc_listeners st)\<rparr>)"

section \<open>Reading pages\<close>

text \<open>The ranges that \<open>ensureSqlResultRange\<close> considers.\<close>

definition wanted_ranges :: "row_source \<Rightarrow> int \<Rightarrow> int \<Rightarrow> page_range list" where
  "wanted_ranges s start end_row =
     (let requested_start = max 0 start; requested_end = min (rs_row_count s) end_row
      in case page_range_index_for_row s requested_start of
           None \<Rightarrow> []
         | Some i \<Rightarrow> if requested_end \<le> requested_start then []
             else take max_pages (takeWhile (\<lambda>r. pr_start r < requested_end) (drop i (rs_ranges s))))"

definition may_request :: "page_cache \<Rightarrow> int \<Rightarrow> nat \<Rightarrow> bool" where
  "may_request c now sequence \<longleftrightarrow>
     map_of (pc_pages c) sequence = None
     \<and> (case map_of (pc_page_failures c) sequence of
          None \<Rightarrow> True
        | Some f \<Rightarrow> pf_attempts f < max_attempts \<and> pf_retry_at f \<le> now)"

text \<open>The state and the sequences for which \<open>readPage\<close> is called.\<close>

definition ensure_sql_result_range :: "row_source \<Rightarrow> int \<Rightarrow> int \<Rightarrow> int \<Rightarrow> result_caches \<Rightarrow> result_caches \<times> nat list" where
  "ensure_sql_result_range s start end_row now st =
     (if \<not> rs_complete s \<or> rs_row_count s = 0 \<or> end_row \<le> start then (st, [])
      else case source_key s of
             None \<Rightarrow> (st, [])
           | Some key \<Rightarrow>
               (let st1 = cache_for key st; c = the_cache st1 key;
                    reads = dedup_seen (pc_loading c)
                      (filter (may_request c now) (map pr_sequence (wanted_ranges s start end_row)))
                in (put_cache key (c\<lparr>pc_loading := pc_loading c @ reads\<rparr>) st1, reads)))"

definition batch_matches :: "(string \<Rightarrow> int option) \<Rightarrow> row_source \<Rightarrow> page_range \<Rightarrow> string list \<Rightarrow> stream_batch \<Rightarrow> bool" where
  "batch_matches number s r expected_columns b \<longleftrightarrow>
     Some (sb_operation b) = rs_operation s \<and> sb_sequence b = pr_sequence r
     \<and> (case sb_row_start b of None \<Rightarrow> True | Some i \<Rightarrow> i = pr_start r)
     \<and> length (sb_rows b) = pr_count r \<and> length (sb_rows b) \<le> rs_page_rows s
     \<and> sb_columns b = expected_columns
     \<and> list_all (\<lambda>row. length row = length (sb_columns b)) (sb_rows b)
     \<and> list_all (\<lambda>f. pr_start r \<le> df_row f \<and> df_row f < pr_start r + int (length (sb_rows b))
          \<and> 0 \<le> df_column f \<and> df_column f < int (length (sb_columns b)) \<and> df_type f \<noteq> []
          \<and> decode_failure_cell_is_consistent number f
              (Option.bind (char_at (sb_rows b) (nat (df_row f - pr_start r))) (\<lambda>row. char_at row (nat (df_column f)))))
        (case sb_failures b of Some fs \<Rightarrow> fs | None \<Rightarrow> [])"

text \<open>The \<open>finally\<close> clause acts on the cache object the read started from.\<close>

definition finish_loading :: "string \<Rightarrow> nat \<Rightarrow> nat \<Rightarrow> result_caches \<Rightarrow> result_caches" where
  "finish_loading key obj sequence st =
     (case map_of (rc_caches st) key of
        Some c \<Rightarrow> if pc_object c = obj then put_cache key (c\<lparr>pc_loading := removeAll sequence (pc_loading c)\<rparr>) st else st
      | None \<Rightarrow> st)"

definition mismatch_error :: load_error where
  "mismatch_error = \<lparr>le_kind = None, le_message = Some ''SQL result page did not match its artifact''\<rparr>"

text \<open>The continuation of a page read: a batch, or the error it failed with.\<close>

definition page_read_done ::
  "(string \<Rightarrow> int option) \<Rightarrow> row_source \<Rightarrow> page_range \<Rightarrow> string list \<Rightarrow> nat \<Rightarrow> load_error + stream_batch \<Rightarrow> int
     \<Rightarrow> result_caches \<Rightarrow> result_caches" where
  "page_read_done number s r expected_columns obj outcome now st =
     (case source_key s of
        None \<Rightarrow> st
      | Some key \<Rightarrow>
          finish_loading key obj (pr_sequence r)
            (case outcome of
               Inl err \<Rightarrow> record_page_failure key (pr_sequence r) err now (cache_for key st)
             | Inr b \<Rightarrow>
                 if batch_matches number s r expected_columns b
                 then retain s (pr_sequence r) (pr_start r) (sb_rows b) (case sb_failures b of Some fs \<Rightarrow> fs | None \<Rightarrow> []) st
                 else record_page_failure key (pr_sequence r) mismatch_error now (cache_for key st)))"

definition retry_timer_fires :: "string \<Rightarrow> nat \<Rightarrow> result_caches \<Rightarrow> result_caches" where
  "retry_timer_fires key obj st =
     (case map_of (rc_caches st) key of
        Some c \<Rightarrow> if pc_object c = obj then put_cache key (c\<lparr>pc_timer := False\<rparr>) st else st
      | None \<Rightarrow> st)"

definition clear_sql_result_page_cache :: "row_source option \<Rightarrow> result_caches \<Rightarrow> result_caches" where
  "clear_sql_result_page_cache source st =
     (case source of
        None \<Rightarrow> st\<lparr>rc_caches := []\<rparr>
      | Some s \<Rightarrow> (case source_key s of None \<Rightarrow> st | Some key \<Rightarrow> st\<lparr>rc_caches := js_delete key (rc_caches st)\<rparr>))"

section \<open>The bounds\<close>

lemma set_js_delete: "set (js_delete k m) = {(k', v) \<in> set m. k' \<noteq> k}"
  by (auto simp: AList.delete_eq)

lemma set_js_set: "set (js_set k v m) \<subseteq> insert (k, v) (set m)"
  by (induction m) auto

lemma set_js_touch: "set (js_touch k v m) = insert (k, v) {(k', v') \<in> set m. k' \<noteq> k}"
  by (auto simp: js_touch_eq set_js_delete)

lemma distinct_js_delete: "distinct (js_keys m) \<Longrightarrow> distinct (js_keys (js_delete k m))"
  by (rule distinct_delete)

lemma distinct_js_set: "distinct (js_keys m) \<Longrightarrow> distinct (js_keys (js_set k v m))"
  by (rule distinct_update)

lemma length_js_delete_mem: "distinct (js_keys m) \<Longrightarrow> map_of m k = Some v \<Longrightarrow> Suc (length (js_delete k m)) = length m"
proof (induction m)
  case (Cons x m)
  show ?case
  proof (cases "fst x = k")
    case True
    with Cons.prems have "k \<notin> fst ` set m" by auto
    with True show ?thesis by (cases x) simp
  next
    case False
    with Cons show ?thesis by (cases x) (auto split: if_splits)
  qed
qed simp

lemma length_js_touch_mem: "distinct (js_keys m) \<Longrightarrow> map_of m k = Some v \<Longrightarrow> length (js_touch k w m) = length m"
  using length_js_delete_mem by (fastforce simp: js_touch_eq)

lemma keys_js_touch [simp]: "fst ` set (js_touch k v m) = insert k (fst ` set m)"
  by (auto simp: js_touch_eq keys_js_delete)

lemma map_of_mem_key: "map_of m k = Some v \<Longrightarrow> k \<in> set (js_keys m)"
  by (metis domI dom_map_of_conv_image_fst set_map)

text \<open>
  One cache: at most six pages, decode failures for exactly the pages, at most three attempts per page,
  an error only while a failure is recorded, no page read twice at a time.
\<close>

definition cache_inv :: "page_cache \<Rightarrow> bool" where
  "cache_inv c \<longleftrightarrow>
     distinct (js_keys (pc_pages c)) \<and> length (pc_pages c) \<le> max_pages
     \<and> distinct (js_keys (pc_failures c)) \<and> set (js_keys (pc_failures c)) = set (js_keys (pc_pages c))
     \<and> list_all (\<lambda>(k, f). pf_attempts f \<le> max_attempts) (pc_page_failures c)
     \<and> (pc_page_failures c = [] \<longrightarrow> pc_error c = None) \<and> distinct (pc_loading c)"

definition bearing_keys :: "(string \<times> page_cache) list \<Rightarrow> string set" where
  "bearing_keys m = {k. \<exists>c. map_of m k = Some c \<and> pc_pages c \<noteq> []}"

definition caches_inv :: "result_caches \<Rightarrow> bool" where
  "caches_inv st \<longleftrightarrow>
     distinct (js_keys (rc_caches st)) \<and> (\<forall>k c. map_of (rc_caches st) k = Some c \<longrightarrow> cache_inv c)
     \<and> card (bearing_keys (rc_caches st)) \<le> max_results"

lemma finite_bearing_keys [simp]: "finite (bearing_keys m)"
proof -
  have "bearing_keys m \<subseteq> dom (map_of m)" by (auto simp: bearing_keys_def)
  then show ?thesis using finite_dom_map_of finite_subset by blast
qed

lemma card_bearing: "distinct (js_keys m) \<Longrightarrow> card (bearing_keys m) = length (bearing m)"
proof -
  assume d: "distinct (js_keys m)"
  have "bearing_keys m = set (js_keys (bearing m))"
    using d by (force simp: bearing_keys_def bearing_def map_of_eq_Some_iff)
  moreover have "distinct (js_keys (bearing m))"
    unfolding bearing_def by (rule distinct_map_filter) (rule d)
  ultimately show ?thesis by (metis distinct_card length_map)
qed

lemma cache_inv_new [simp]: "cache_inv (new_cache n)"
  by (simp add: cache_inv_def new_cache_def max_pages_def)

lemma caches_inv_cache_for:
  assumes "caches_inv st"
  shows "caches_inv (cache_for key st)" and "\<exists>c. map_of (rc_caches (cache_for key st)) key = Some c \<and> cache_inv c"
proof -
  define c where "c = (case map_of (rc_caches st) key of Some c \<Rightarrow> c | None \<Rightarrow> new_cache (rc_next st))"
  have c: "rc_caches (cache_for key st) = js_touch key c (rc_caches st)" "cache_inv c"
    "map_of (rc_caches st) key = Some c \<or> map_of (rc_caches st) key = None \<and> pc_pages c = []"
    using assms
    by (auto simp: c_def cache_for_def caches_inv_def split: option.splits) (simp add: new_cache_def)
  have "bearing_keys (js_touch key c (rc_caches st)) \<subseteq> bearing_keys (rc_caches st)"
    using c(3) by (auto simp: bearing_keys_def split: if_splits)
  then have "card (bearing_keys (js_touch key c (rc_caches st))) \<le> card (bearing_keys (rc_caches st))"
    by (rule card_mono [rotated]) simp
  with assms c show "caches_inv (cache_for key st)"
    by (auto simp: caches_inv_def distinct_js_touch split: if_splits)
  show "\<exists>c. map_of (rc_caches (cache_for key st)) key = Some c \<and> cache_inv c"
    using c by simp
qed

lemma caches_inv_put:
  assumes "caches_inv st" and "cache_inv c" and "map_of (rc_caches st) key = Some c0" and "pc_pages c \<noteq> [] \<Longrightarrow> pc_pages c0 \<noteq> []"
  shows "caches_inv (put_cache key c st)"
proof -
  have "bearing_keys (js_set key c (rc_caches st)) \<subseteq> bearing_keys (rc_caches st)"
    using assms(3,4) by (auto simp: bearing_keys_def update_conv' split: if_splits)
  then have "card (bearing_keys (js_set key c (rc_caches st))) \<le> card (bearing_keys (rc_caches st))"
    by (rule card_mono [rotated]) simp
  with assms(1,2) show ?thesis
    by (auto simp: caches_inv_def put_cache_def distinct_js_set update_conv' split: if_splits)
qed

lemma caches_inv_deletion:
  "caches_inv st \<Longrightarrow> caches_inv (st\<lparr>rc_caches := js_delete k (rc_caches st)\<rparr>)"
proof -
  assume inv: "caches_inv st"
  have "bearing_keys (js_delete k (rc_caches st)) \<subseteq> bearing_keys (rc_caches st)"
    by (auto simp: bearing_keys_def delete_conv' split: if_splits)
  then have "card (bearing_keys (js_delete k (rc_caches st))) \<le> card (bearing_keys (rc_caches st))"
    by (rule card_mono [rotated]) simp
  with inv show ?thesis
    by (auto simp: caches_inv_def distinct_js_delete delete_conv' split: if_splits)
qed

text \<open>What trimming leaves: some of the entries, the protected one among them, within the bound.\<close>

definition trimmed :: "string \<Rightarrow> (string \<times> page_cache) list \<Rightarrow> (string \<times> page_cache) list \<Rightarrow> bool" where
  "trimmed protected m m' \<longleftrightarrow> (distinct (js_keys m) \<longrightarrow> distinct (js_keys m')) \<and> map_of m' \<subseteq>\<^sub>m map_of m
     \<and> map_of m' protected = map_of m protected"

lemma trimmed_refl: "trimmed p m m"
  by (simp add: trimmed_def)

lemma trimmed_delete: "k \<noteq> p \<Longrightarrow> trimmed p (js_delete k m) m' \<Longrightarrow> trimmed p m m'"
proof -
  assume k: "k \<noteq> p" and t: "trimmed p (js_delete k m) m'"
  have "map_of (js_delete k m) \<subseteq>\<^sub>m map_of m" by (auto simp: map_le_def delete_conv' split: if_splits)
  with t have "map_of m' \<subseteq>\<^sub>m map_of m" by (auto simp: trimmed_def intro: map_le_trans)
  with k t show ?thesis by (simp add: trimmed_def distinct_js_delete)
qed

lemma trim_bearing_trimmed: "trimmed p m (trim_bearing p m)"
proof (induction p m rule: trim_bearing.induct)
  case (1 p m)
  show ?case
  proof (cases "length (bearing m) > max_results")
    case True
    show ?thesis
    proof (cases "find (\<lambda>(k, c). k \<noteq> p \<and> pc_pages c \<noteq> []) m")
      case None
      with True show ?thesis by (subst trim_bearing.simps) (simp add: trimmed_refl)
    next
      case (Some x)
      obtain k c where x: "x = (k, c)" by (cases x)
      with Some have "k \<noteq> p" by (auto dest: find_SomeD)
      from trimmed_delete [OF this 1 [OF True Some [unfolded x] refl]] True Some x show ?thesis
        by (subst trim_bearing.simps) simp
    qed
  qed (subst trim_bearing.simps, simp add: trimmed_refl)
qed

lemma trim_bearing_bound: "distinct (js_keys m) \<Longrightarrow> length (bearing (trim_bearing p m)) \<le> max_results"
proof (induction p m rule: trim_bearing.induct)
  case (1 p m)
  show ?case
  proof (cases "length (bearing m) > max_results")
    case True
    show ?thesis
    proof (cases "find (\<lambda>(k, c). k \<noteq> p \<and> pc_pages c \<noteq> []) m")
      case None
      then have "bearing_keys m \<subseteq> {p}"
        using 1(2) by (force simp: find_None_iff' bearing_keys_def map_of_eq_Some_iff)
      then have "card (bearing_keys m) \<le> 1" using card_mono [of "{p}"] by fastforce
      with card_bearing [OF 1(2)] True show ?thesis by (simp add: max_results_def)
    next
      case (Some x)
      obtain k c where x: "x = (k, c)" by (cases x)
      from 1(1) [OF True Some [unfolded x] refl] 1(2) True Some x show ?thesis
        by (subst trim_bearing.simps) (simp add: distinct_js_delete)
    qed
  qed (subst trim_bearing.simps, simp)
qed

lemma trimmed_trans: "trimmed p a b \<Longrightarrow> trimmed p b c \<Longrightarrow> trimmed p a c"
  by (auto simp: trimmed_def intro: map_le_trans)

lemma trim_empty_trimmed: "trimmed p m (trim_empty p listening ks m)"
  by (induction p listening ks m rule: trim_empty.induct) (auto simp: trimmed_refl intro: trimmed_delete)

lemma bearing_keys_mono: "map_of m' \<subseteq>\<^sub>m map_of m \<Longrightarrow> bearing_keys m' \<subseteq> bearing_keys m"
  by (auto simp: bearing_keys_def map_le_def dom_def)

lemma trim_result_pages_inv:
  assumes "distinct (js_keys (rc_caches st))" and "\<And>k c. map_of (rc_caches st) k = Some c \<Longrightarrow> cache_inv c"
  shows "caches_inv (trim_result_pages p st)"
    and "map_of (rc_caches (trim_result_pages p st)) p = map_of (rc_caches st) p"
proof -
  let ?m = "trim_bearing p (rc_caches st)"
  let ?m' = "trim_empty p (rc_listeners st) (js_keys ?m) ?m"
  have t: "trimmed p (rc_caches st) ?m" "trimmed p ?m ?m'"
    by (rule trim_bearing_trimmed, rule trim_empty_trimmed)
  from trimmed_trans [OF t] have t3: "trimmed p (rc_caches st) ?m'" .
  have d: "distinct (js_keys ?m)" using t(1) assms(1) by (simp add: trimmed_def)
  have "card (bearing_keys ?m') \<le> card (bearing_keys ?m)"
    using t(2) by (intro card_mono bearing_keys_mono) (auto simp: trimmed_def)
  also have "\<dots> \<le> max_results" using trim_bearing_bound [OF assms(1)] card_bearing [OF d] by simp
  finally have "card (bearing_keys ?m') \<le> max_results" .
  moreover have "cache_inv c" if "map_of ?m' k = Some c" for k c
    using that t3 assms(2) [of k c] unfolding trimmed_def map_le_def by (metis domI)
  ultimately show "caches_inv (trim_result_pages p st)"
    using t3 assms(1) by (simp add: caches_inv_def trim_result_pages_def Let_def trimmed_def)
  show "map_of (rc_caches (trim_result_pages p st)) p = map_of (rc_caches st) p"
    using t3 by (simp add: trim_result_pages_def Let_def trimmed_def)
qed

section \<open>Operations keep the bounds\<close>

definition pages_ok :: "page_cache \<Rightarrow> bool" where
  "pages_ok c \<longleftrightarrow> distinct (js_keys (pc_pages c)) \<and> distinct (js_keys (pc_failures c))
     \<and> set (js_keys (pc_failures c)) = set (js_keys (pc_pages c))"

lemma drop_oldest_ok:
  "pages_ok c \<Longrightarrow> pages_ok (drop_oldest c) \<and> length (pc_pages (drop_oldest c)) \<le> max_pages
     \<and> pc_page_failures (drop_oldest c) = pc_page_failures c \<and> pc_error (drop_oldest c) = pc_error c
     \<and> pc_loading (drop_oldest c) = pc_loading c \<and> pc_object (drop_oldest c) = pc_object c
     \<and> (pc_pages c \<noteq> [] \<longrightarrow> pc_pages (drop_oldest c) \<noteq> [] \<and> last (pc_pages (drop_oldest c)) = last (pc_pages c))"
proof (induction c rule: drop_oldest.induct)
  case (1 c)
  show ?case
  proof (cases "length (pc_pages c) > max_pages")
    case False
    with 1(2) show ?thesis by (subst (1 2 3 4 5 6 7 8) drop_oldest.simps) simp
  next
    case True
    then obtain k p rest where c: "pc_pages c = (k, p) # rest" by (cases "pc_pages c") auto
    let ?c = "c\<lparr>pc_pages := js_delete k (pc_pages c), pc_failures := js_delete k (pc_failures c)\<rparr>"
    have rest: "js_delete k (pc_pages c) = rest" "rest \<noteq> []"
      using 1(2) c True by (auto simp: pages_ok_def max_pages_def)
    have ok: "pages_ok ?c"
      using 1(2) by (auto simp: pages_ok_def distinct_js_delete keys_js_delete)
    have step: "drop_oldest c = drop_oldest ?c"
      using True c by (subst drop_oldest.simps) simp
    from 1(1) [OF True c refl ok] rest c show ?thesis unfolding step by simp
  qed
qed

lemma cache_inv_retain_in:
  assumes "cache_inv c"
  shows "cache_inv (retain_in sequence row_start rows fails c)"
    and "map_of (pc_pages (retain_in sequence row_start rows fails c)) sequence = Some \<lparr>pg_start = row_start, pg_rows = rows\<rparr>"
proof -
  let ?p = "\<lparr>pg_start = row_start, pg_rows = rows\<rparr>"
  define c1 where "c1 = c\<lparr>pc_pages := js_touch sequence ?p (pc_pages c), pc_failures := js_set sequence fails (pc_failures c),
      pc_page_failures := js_delete sequence (pc_page_failures c)\<rparr>"
  have "pages_ok c1"
    using assms by (auto simp: pages_ok_def c1_def cache_inv_def distinct_js_touch distinct_js_set dom_update)
  note d = drop_oldest_ok [OF this]
  have att: "list_all (\<lambda>(k, f). pf_attempts f \<le> max_attempts) (pc_page_failures c1)"
    using assms by (auto simp: cache_inv_def c1_def list_all_iff set_js_delete)
  have r: "retain_in sequence row_start rows fails c =
      (if pc_page_failures (drop_oldest c1) = [] then (drop_oldest c1)\<lparr>pc_error := None\<rparr> else drop_oldest c1)"
    by (simp add: retain_in_def Let_def c1_def)
  have load: "pc_loading c1 = pc_loading c" by (simp add: c1_def)
  show "cache_inv (retain_in sequence row_start rows fails c)"
    using d att assms load unfolding r by (auto simp: cache_inv_def pages_ok_def)
  have "last (pc_pages c1) = (sequence, ?p)" "pc_pages c1 \<noteq> []" by (simp_all add: c1_def js_touch_eq)
  with d have "(sequence, ?p) \<in> set (pc_pages (drop_oldest c1))" "distinct (js_keys (pc_pages (drop_oldest c1)))"
    by (metis last_in_set, simp add: pages_ok_def)
  then show "map_of (pc_pages (retain_in sequence row_start rows fails c)) sequence = Some ?p"
    unfolding r by (simp add: map_of_eq_Some_iff)
qed

lemma retain_st:
  assumes "caches_inv st" and "source_key s = Some key" and "range_fits s sequence row_start (length rows)"
  shows "\<exists>c. map_of (rc_caches (retain s sequence row_start rows fails st)) key = Some c
    \<and> map_of (pc_pages c) sequence = Some \<lparr>pg_start = row_start, pg_rows = rows\<rparr>"
    and "caches_inv (retain s sequence row_start rows fails st)"
proof -
  let ?st1 = "cache_for key st"
  from caches_inv_cache_for [OF assms(1), of key] obtain c where
    c: "caches_inv ?st1" "map_of (rc_caches ?st1) key = Some c" "cache_inv c" by blast
  let ?c = "retain_in sequence row_start rows fails c"
  let ?st2 = "put_cache key ?c ?st1"
  have r: "retain s sequence row_start rows fails st = trim_result_pages key ?st2"
    using assms(2,3) c(2) by (simp add: retain_def Let_def the_cache_def)
  have d: "distinct (js_keys (rc_caches ?st2))"
    using c(1) by (simp add: put_cache_def caches_inv_def distinct_js_set)
  have all: "cache_inv x" if "map_of (rc_caches ?st2) k = Some x" for k x
    using that c(1) cache_inv_retain_in(1) [OF c(3)] by (auto simp: put_cache_def caches_inv_def update_conv' split: if_splits)
  note t = trim_result_pages_inv [of ?st2 key, OF d all]
  show "caches_inv (retain s sequence row_start rows fails st)" unfolding r by (rule t(1)) simp_all
  have "map_of (rc_caches (trim_result_pages key ?st2)) key = Some ?c"
    using t(2) by (simp add: put_cache_def update_conv')
  with cache_inv_retain_in(2) [OF c(3)] r show "\<exists>c. map_of (rc_caches (retain s sequence row_start rows fails st)) key = Some c
    \<and> map_of (pc_pages c) sequence = Some \<lparr>pg_start = row_start, pg_rows = rows\<rparr>" by auto
qed

lemma caches_inv_retain: "caches_inv st \<Longrightarrow> caches_inv (retain s sequence row_start rows fails st)"
  using retain_st(2) [of st s] caches_inv_cache_for(1)
  by (cases "source_key s"; cases "range_fits s sequence row_start (length rows)") (auto simp: retain_def Let_def)

lemma attempts_js_set:
  "list_all (\<lambda>(k, f). pf_attempts f \<le> n) m \<Longrightarrow> pf_attempts x \<le> n \<Longrightarrow> list_all (\<lambda>(k, f). pf_attempts f \<le> n) (js_set k' x m)"
  by (induction m) auto

lemma js_set_not_Nil [simp]: "js_set k v m \<noteq> []"
  by (induction m) auto

lemma cache_inv_record: "cache_inv c \<Longrightarrow> cache_inv (record_failure_in sequence kind now c)"
  by (auto simp: cache_inv_def record_failure_in_def Let_def max_attempts_def intro!: attempts_js_set)

lemma cache_inv_clear: "cache_inv c \<Longrightarrow> cache_inv (clear_page_failures c)"
  by (simp add: cache_inv_def clear_page_failures_def)

lemma cache_inv_touch_page:
  "cache_inv c \<Longrightarrow> map_of (pc_pages c) k = Some p \<Longrightarrow> cache_inv (c\<lparr>pc_pages := js_touch k p (pc_pages c)\<rparr>)"
  using map_of_mem_key [of "pc_pages c" k p]
  by (auto simp: cache_inv_def distinct_js_touch length_js_touch_mem insert_absorb)

lemma collect_rows_inv:
  "cache_inv c \<Longrightarrow> cache_inv (fst (collect_rows rs c)) \<and> (pc_pages (fst (collect_rows rs c)) \<noteq> [] \<longrightarrow> pc_pages c \<noteq> [])"
proof (induction rs c rule: collect_rows.induct)
  case (2 r rs c)
  show ?case
  proof (cases "map_of (pc_pages c) (pr_sequence r)")
    case (Some p)
    show ?thesis
    proof (cases "pg_start p \<noteq> pr_start r \<or> length (pg_rows p) \<noteq> pr_count r")
      case False
      with 2(1) [OF Some False cache_inv_touch_page [OF 2(2) Some]] Some show ?thesis
        by (auto split: prod.splits option.splits)
    qed (simp add: Some 2(2))
  qed (simp add: 2(2))
qed simp

text \<open>Every command of the module.\<close>

datatype cache_event =
    RetainBatch row_source stream_batch
  | ReadDone row_source page_range "string list" nat "load_error + stream_batch" int
  | EnsureRange row_source int int int
  | RowAt row_source int
  | RangeCached row_source int int
  | FailureAt row_source int int
  | CollectRows row_source
  | Subscribe row_source
  | Unsubscribe row_source
  | RetryPages row_source
  | TimerFires string nat
  | ClearCache "row_source option"

fun cache_step :: "(string \<Rightarrow> int option) \<Rightarrow> result_caches \<Rightarrow> cache_event \<Rightarrow> result_caches" where
  "cache_step number st (RetainBatch s b) = retain_sql_stream_batch s b st"
| "cache_step number st (ReadDone s r columns obj outcome now) = page_read_done number s r columns obj outcome now st"
| "cache_step number st (EnsureRange s start end_row now) = fst (ensure_sql_result_range s start end_row now st)"
| "cache_step number st (RowAt s i) = fst (sql_result_row_at s i st)"
| "cache_step number st (RangeCached s start end_row) = fst (sql_result_range_is_cached s start end_row st)"
| "cache_step number st (FailureAt s row column) = fst (sql_result_decode_failure_at s row column st)"
| "cache_step number st (CollectRows s) = fst (collect_cached_sql_result_rows s st)"
| "cache_step number st (Subscribe s) = subscribe s st"
| "cache_step number st (Unsubscribe s) = unsubscribe s st"
| "cache_step number st (RetryPages s) = retry_sql_result_pages s st"
| "cache_step number st (TimerFires key obj) = retry_timer_fires key obj st"
| "cache_step number st (ClearCache source) = clear_sql_result_page_cache source st"

lemma caches_inv_update:
  "caches_inv st \<Longrightarrow> map_of (rc_caches st) key = Some c \<Longrightarrow> cache_inv (f c) \<Longrightarrow> pc_pages (f c) = pc_pages c \<Longrightarrow> caches_inv (put_cache key (f c) st)"
  by (rule caches_inv_put) auto

lemma caches_inv_finish: "caches_inv st \<Longrightarrow> caches_inv (finish_loading key obj sequence st)"
  by (auto simp: finish_loading_def split: option.splits intro!: caches_inv_put)
     (simp add: caches_inv_def cache_inv_def distinct_removeAll)

lemma caches_inv_record:
  "caches_inv st \<Longrightarrow> caches_inv (record_page_failure key sequence err now (cache_for key st))"
proof -
  assume "caches_inv st"
  from caches_inv_cache_for [OF this, of key] obtain c where
    c: "caches_inv (cache_for key st)" "map_of (rc_caches (cache_for key st)) key = Some c" "cache_inv c" by blast
  then show ?thesis
    unfolding record_page_failure_def the_cache_def
    by (intro caches_inv_put [OF c(1) _ c(2)]) (auto simp: cache_inv_record, simp add: record_failure_in_def Let_def)
qed

lemma caches_inv_row_at: "caches_inv st \<Longrightarrow> caches_inv (fst (sql_result_row_at s i st))"
proof (cases "source_key s")
  case (Some key)
  assume inv: "caches_inv st"
  from caches_inv_cache_for [OF inv, of key] obtain c where
    c: "caches_inv (cache_for key st)" "map_of (rc_caches (cache_for key st)) key = Some c" "cache_inv c" by blast
  show ?thesis
    using c inv cache_inv_touch_page [OF c(3)] Some
    by (auto simp: sql_result_row_at_def Let_def the_cache_def split: option.splits intro!: caches_inv_put [OF c(1) _ c(2)])
qed (simp add: sql_result_row_at_def)

lemma caches_inv_ensure: "caches_inv st \<Longrightarrow> caches_inv (fst (ensure_sql_result_range s start end_row now st))"
proof (cases "source_key s")
  case (Some key)
  assume inv: "caches_inv st"
  from caches_inv_cache_for [OF inv, of key] obtain c where
    c: "caches_inv (cache_for key st)" "map_of (rc_caches (cache_for key st)) key = Some c" "cache_inv c" by blast
  have "cache_inv (c\<lparr>pc_loading := pc_loading c @ dedup_seen (pc_loading c) xs\<rparr>)" for xs
    using c(3) by (auto simp: cache_inv_def distinct_dedup_seen set_dedup_seen)
  then show ?thesis
    using inv Some c by (auto simp: ensure_sql_result_range_def Let_def the_cache_def intro!: caches_inv_put [OF c(1) _ c(2)])
qed (simp add: ensure_sql_result_range_def)

lemma caches_inv_collect: "caches_inv st \<Longrightarrow> caches_inv (fst (collect_cached_sql_result_rows s st))"
proof (cases "source_key s")
  case (Some key)
  assume inv: "caches_inv st"
  from caches_inv_cache_for [OF inv, of key] obtain c where
    c: "caches_inv (cache_for key st)" "map_of (rc_caches (cache_for key st)) key = Some c" "cache_inv c" by blast
  show ?thesis
    using inv Some c collect_rows_inv [OF c(3), of "rs_ranges s"]
    by (auto simp: collect_cached_sql_result_rows_def Let_def the_cache_def split: prod.splits
        intro!: caches_inv_put [OF c(1) _ c(2)])
qed (simp add: collect_cached_sql_result_rows_def)

interpretation result_cache: invariant_machine "cache_step number" caches_inv for number
proof
  show "caches_inv (cache_step number st e)" if inv: "caches_inv st" for st e
  proof (cases e)
    case (RetainBatch s b)
    with inv show ?thesis by (simp add: retain_sql_stream_batch_def caches_inv_retain)
  next
    case (ReadDone s r columns obj outcome now)
    with inv show ?thesis
      by (auto simp: page_read_done_def caches_inv_record caches_inv_retain split: option.splits sum.splits
          intro!: caches_inv_finish)
  next
    case (EnsureRange s start end_row now)
    with inv show ?thesis by (simp add: caches_inv_ensure)
  next
    case (RowAt s i)
    with inv show ?thesis by (simp add: caches_inv_row_at)
  next
    case (RangeCached s start end_row)
    with inv caches_inv_cache_for(1) [OF inv] show ?thesis
      by (simp add: sql_result_range_is_cached_def Let_def split: option.splits)
  next
    case (FailureAt s row column)
    with inv caches_inv_cache_for(1) [OF inv] show ?thesis
      by (simp add: sql_result_decode_failure_at_def Let_def split: option.splits)
  next
    case (CollectRows s)
    with inv show ?thesis by (simp add: caches_inv_collect)
  next
    case (Subscribe s)
    with inv caches_inv_cache_for(1) [OF inv] show ?thesis
      by (simp add: subscribe_def caches_inv_def split: option.splits)
  next
    case (Unsubscribe s)
    with inv show ?thesis by (simp add: unsubscribe_def caches_inv_def split: option.splits)
  next
    case (RetryPages s)
    have "caches_inv (put_cache key (clear_page_failures c) st)" if "map_of (rc_caches st) key = Some c" for key c
      using inv that by (intro caches_inv_update cache_inv_clear) (auto simp: caches_inv_def clear_page_failures_def)
    with RetryPages inv show ?thesis
      by (simp add: retry_sql_result_pages_def split: option.splits)
  next
    case (TimerFires key obj)
    have "caches_inv (put_cache key (c\<lparr>pc_timer := False\<rparr>) st)" if "map_of (rc_caches st) key = Some c" for c
      using inv that by (intro caches_inv_put [OF inv _ that]) (auto simp: caches_inv_def cache_inv_def)
    with TimerFires inv show ?thesis
      by (simp add: retry_timer_fires_def split: option.splits)
  next
    case (ClearCache source)
    have "caches_inv (st\<lparr>rc_caches := []\<rparr>)" by (simp add: caches_inv_def bearing_keys_def)
    with ClearCache inv show ?thesis
      by (simp add: clear_sql_result_page_cache_def caches_inv_deletion split: option.splits)
  qed
qed

lemma cache_inv_numbers:
  assumes "cache_inv c"
  shows "length (pc_pages c) \<le> 6 \<and> set (js_keys (pc_failures c)) = set (js_keys (pc_pages c))
    \<and> (\<forall>(q, f) \<in> set (pc_page_failures c). pf_attempts f \<le> 3) \<and> distinct (pc_loading c)"
  using assms by (auto simp: cache_inv_def max_pages_def max_attempts_def list_all_iff)


section \<open>Lookups find the rows\<close>

text \<open>Page ranges in row order, without overlap.\<close>

definition ranges_ordered :: "page_range list \<Rightarrow> bool" where
  "ranges_ordered rs = sorted_wrt (\<lambda>a b. pr_start a + int (pr_count a) \<le> pr_start b) rs"

definition in_range :: "int \<Rightarrow> page_range \<Rightarrow> bool" where
  "in_range row r \<longleftrightarrow> pr_start r \<le> row \<and> row < pr_start r + int (pr_count r)"

lemma ranges_disjoint:
  assumes "ranges_ordered rs" and "i < length rs" "j < length rs" and "in_range row (rs ! i)" "in_range row (rs ! j)"
  shows "i = j"
proof (rule ccontr)
  assume "i \<noteq> j"
  then consider "i < j" | "j < i" by linarith
  then show False
  proof cases
    case 1
    with assms sorted_wrt_nth_less [of _ rs i j] show False by (force simp: ranges_ordered_def in_range_def)
  next
    case 2
    with assms sorted_wrt_nth_less [of _ rs j i] show False by (force simp: ranges_ordered_def in_range_def)
  qed
qed

lemma search_range_step:
  "low < high \<Longrightarrow> m = (low + (high - 1)) div 2 \<Longrightarrow> search_range rs row low high =
     (if row < pr_start (rs ! m) then search_range rs row low m
      else if row \<ge> pr_start (rs ! m) + int (pr_count (rs ! m)) then search_range rs row (m + 1) high else Some m)"
  by (subst search_range.simps) (simp add: Let_def)

lemma search_range_sound: "search_range rs row low high = Some i \<Longrightarrow> low \<le> i \<and> i < high \<and> in_range row (rs ! i)"
proof (induction rs row low high rule: search_range.induct)
  case (1 rs row low high)
  define m where "m = (low + (high - 1)) div 2"
  from 1(3) have lt: "low < high" by (subst (asm) search_range.simps) (simp split: if_splits)
  then have m: "low \<le> m" "m < high" by (auto simp: m_def)
  have found: "(if row < pr_start (rs ! m) then search_range rs row low m
      else if row \<ge> pr_start (rs ! m) + int (pr_count (rs ! m)) then search_range rs row (m + 1) high else Some m) = Some i"
    using 1(3) search_range_step [OF lt m_def, of rs row] by simp
  consider "row < pr_start (rs ! m)" "search_range rs row low m = Some i"
    | "\<not> row < pr_start (rs ! m)" "row \<ge> pr_start (rs ! m) + int (pr_count (rs ! m))" "search_range rs row (m + 1) high = Some i"
    | "in_range row (rs ! m)" "i = m"
    using found by (auto simp: in_range_def split: if_splits)
  then show ?case
  proof cases
    case a: 1
    with 1(1) [OF lt m_def refl a] m show ?thesis by simp
  next
    case a: 2
    with 1(2) [OF lt m_def refl a] m show ?thesis by simp
  next
    case 3
    with m show ?thesis by simp
  qed
qed

lemma search_range_complete:
  assumes "ranges_ordered rs" and "high \<le> length rs" and "low \<le> j" "j < high" and "in_range row (rs ! j)"
  shows "search_range rs row low high = Some j"
  using assms
proof (induction rs row low high rule: search_range.induct)
  case (1 rs row low high)
  define m where "m = (low + (high - 1)) div 2"
  from 1 have m: "low \<le> m" "m < high" by (auto simp: m_def)
  have before: "pr_start (rs ! a) + int (pr_count (rs ! a)) \<le> pr_start (rs ! b)" if "a < b" "b < length rs" for a b
    using 1(3) that by (simp add: ranges_ordered_def sorted_wrt_iff_nth_less)
  have lt: "low < high" using 1 by simp
  note step = search_range_step [OF lt m_def, of rs row]
  consider "row < pr_start (rs ! m)" | "row \<ge> pr_start (rs ! m) + int (pr_count (rs ! m))" | "in_range row (rs ! m)"
    unfolding in_range_def by linarith
  then show ?case
  proof cases
    case 1
    have "j < m" using before [of m j] 1 "1.prems" m by (cases j m rule: linorder_cases) (auto simp: in_range_def)
    with "1.IH"(1) [OF lt m_def refl 1] "1.prems" m show ?thesis by (simp add: step 1)
  next
    case 2
    have "m < j" using before [of j m] 2 "1.prems" m by (cases j m rule: linorder_cases) (auto simp: in_range_def)
    moreover have "\<not> row < pr_start (rs ! m)" using 2 by linarith
    ultimately show ?thesis
      using "1.IH"(2) [OF lt m_def refl _ 2] "1.prems" m by (simp add: step 2)
  next
    case 3
    with ranges_disjoint [OF "1.prems"(1), of m j row] "1.prems" m have "m = j" by simp
    with 3 show ?thesis by (simp add: step in_range_def)
  qed
qed

text \<open>
A retained page answers exactly its rows. When a batch that fits the source's page range is retained (however
full the caches are), then asking for any row of that range returns the row of the batch at its offset, and the page
is still retained afterwards. The binary search over ordered page ranges finds the one range of a row whenever
there is one.
\<close>

theorem retained_page_answers:
  assumes "caches_inv st" and "source_key s = Some key" and "range_fits s sequence row_start (length rows)"
    and "ranges_ordered (rs_ranges s)" and "i < length rows" and "0 \<le> row_start" and "row_start + int i < rs_row_count s"
  shows "snd (sql_result_row_at s (row_start + int i) (retain s sequence row_start rows fails st)) = Some (rows ! i)
    \<and> page_range_index_for_row s (row_start + int i) = Some sequence"
proof -
  let ?st = "retain s sequence row_start rows fails st"
  from assms(3) have r: "sequence < length (rs_ranges s)" "pr_sequence (rs_ranges s ! sequence) = sequence"
    "pr_start (rs_ranges s ! sequence) = row_start" "pr_count (rs_ranges s ! sequence) = length rows"
    by (auto simp: range_fits_def source_range_def char_at_def split: if_splits)
  then have "in_range (row_start + int i) (rs_ranges s ! sequence)"
    using assms(5) by (simp add: in_range_def)
  then have idx: "page_range_index_for_row s (row_start + int i) = Some sequence"
    unfolding page_range_index_for_row_def
    by (intro search_range_complete [OF assms(4)]) (use r in auto)
  from retain_st(1) [OF assms(1-3)] obtain c where c: "map_of (rc_caches ?st) key = Some c"
    "map_of (pc_pages c) sequence = Some \<lparr>pg_start = row_start, pg_rows = rows\<rparr>" by blast
  have "the_cache (cache_for key ?st) key = c"
    using c(1) by (simp add: the_cache_def cache_for_def)
  then have "snd (sql_result_row_at s (row_start + int i) ?st) = Some (rows ! i)"
    using assms(2,5,6,7) idx r c(2) by (simp add: sql_result_row_at_def Let_def char_at_def)
  with idx show ?thesis by blast
qed

definition example_source :: row_source where
  "example_source = \<lparr>rs_operation = Some ''op'', rs_capability = Some ''cap'', rs_page_rows = 256,
     rs_ranges = [\<lparr>pr_sequence = 0, pr_start = 0, pr_count = 2\<rparr>, \<lparr>pr_sequence = 1, pr_start = 2, pr_count = 1\<rparr>],
     rs_row_count = 3, rs_complete = True\<rparr>"

theorem retained_page_answers_witness:
  "snd (sql_result_row_at example_source 2
      (retain example_source 1 2 [[TextCell ''x'']] [] \<lparr>rc_caches = [], rc_listeners = [], rc_next = 0\<rparr>)) = Some [TextCell ''x'']"
proof -
  have inv: "caches_inv \<lparr>rc_caches = [], rc_listeners = [], rc_next = 0\<rparr>"
    by (simp add: caches_inv_def bearing_keys_def)
  have k: "source_key example_source = Some ''op:cap''" by (simp add: source_key_def example_source_def)
  have f: "range_fits example_source 1 2 (length [[TextCell ''x'']])"
    by (simp add: range_fits_def source_range_def char_at_def example_source_def)
  have o: "ranges_ordered (rs_ranges example_source)"
    by (simp add: ranges_ordered_def example_source_def)
  from retained_page_answers [OF inv k f o, of 0 "[]"] show ?thesis by (simp add: example_source_def)
qed

section \<open>Retries are bounded\<close>

lemma record_attempts:
  "pf_attempts (the (map_of (pc_page_failures (record_failure_in q kind now c)) q)) =
     (let n = (case map_of (pc_page_failures c) q of Some f \<Rightarrow> pf_attempts f | None \<Rightarrow> 0) + 1
      in if kind = Unavailable \<and> n < max_attempts then n else max_attempts)"
  by (simp add: record_failure_in_def Let_def update_conv')

definition attempts_of :: "page_cache \<Rightarrow> nat \<Rightarrow> nat" where
  "attempts_of c q = (case map_of (pc_page_failures c) q of Some f \<Rightarrow> pf_attempts f | None \<Rightarrow> 0)"

lemma attempts_record:
  "attempts_of (record_failure_in q kind now c) q = (if kind = Unavailable \<and> attempts_of c q + 1 < max_attempts then attempts_of c q + 1 else max_attempts)"
  by (simp add: attempts_of_def record_failure_in_def Let_def update_conv')

lemma attempts_run:
  "min max_attempts (attempts_of c q + length fs) \<le> attempts_of (foldl (\<lambda>c (kind, t). record_failure_in q kind t c) c fs) q"
proof (induction fs arbitrary: c)
  case (Cons x fs)
  obtain kind t where x: "x = (kind, t)" by (cases x)
  from Cons [of "record_failure_in q kind t c"] show ?case
    by (simp add: x attempts_record split: if_splits)
qed simp

lemma may_request_attempts: "may_request c now q \<Longrightarrow> map_of (pc_pages c) q = None \<and> attempts_of c q < max_attempts"
  by (auto simp: may_request_def attempts_of_def max_attempts_def split: option.splits)

text \<open>
A page that cannot be read is not hammered. \<open>ensureSqlResultRange\<close> asks for at most six pages, each once, none
that is retained or being read, and none whose retry time has not come. After three failed reads, or one that
cannot heal (changed authority, expired artifact), no later call asks for the page until it is retained, cleared or
explicitly retried; before that the next attempt waits one second and then four.
\<close>

theorem page_reads_are_bounded:
  assumes "caches_inv st" and "source_key s = Some key" and "c = the_cache (cache_for key st) key"
  shows "length (snd (ensure_sql_result_range s start end_row now st)) \<le> 6
    \<and> distinct (snd (ensure_sql_result_range s start end_row now st))
    \<and> (q \<in> set (snd (ensure_sql_result_range s start end_row now st)) \<longrightarrow>
         map_of (pc_pages c) q = None \<and> q \<notin> set (pc_loading c) \<and> attempts_of c q < 3
         \<and> (\<forall>f. map_of (pc_page_failures c) q = Some f \<longrightarrow> pf_retry_at f \<le> now))
    \<and> (3 \<le> length fs \<or> (\<exists>x\<in>set fs. fst x \<noteq> Unavailable) \<longrightarrow>
         \<not> may_request (foldl (\<lambda>c (kind, t). record_failure_in q kind t c) c fs) later q)
    \<and> (attempts_of c q < 2 \<longrightarrow>
         map_of (pc_page_failures (record_failure_in q Unavailable t c)) q
           = Some \<lparr>pf_attempts = attempts_of c q + 1, pf_retry_at = t + 1000 * 4 ^ attempts_of c q, pf_kind = Unavailable\<rparr>)"
proof (intro conjI impI)
  let ?reads = "snd (ensure_sql_result_range s start end_row now st)"
  let ?want = "filter (may_request c now) (map pr_sequence (wanted_ranges s start end_row))"
  have cases: "?reads = [] \<or> ?reads = dedup_seen (pc_loading c) ?want"
    using assms(2,3) by (simp add: ensure_sql_result_range_def Let_def)
  have "length (dedup_seen seen xs) \<le> length xs" for seen and xs :: "nat list"
    by (induction xs arbitrary: seen) (auto intro: le_SucI)
  from this [of "pc_loading c" ?want] have "length (dedup_seen (pc_loading c) ?want) \<le> length (wanted_ranges s start end_row)"
    by (rule order_trans) (metis length_filter_le length_map)
  moreover have "length (wanted_ranges s start end_row) \<le> 6"
    by (simp add: wanted_ranges_def Let_def max_pages_def split: option.splits)
  ultimately show "length ?reads \<le> 6" using cases by auto
  show "distinct ?reads" using cases by (auto simp: distinct_dedup_seen)
  assume "q \<in> set ?reads"
  with cases have q: "may_request c now q" "q \<notin> set (pc_loading c)" by (auto simp: set_dedup_seen)
  from may_request_attempts [OF q(1)] show "map_of (pc_pages c) q = None" "attempts_of c q < 3"
    by (auto simp: max_attempts_def)
  show "q \<notin> set (pc_loading c)" by (rule q(2))
  show "\<forall>f. map_of (pc_page_failures c) q = Some f \<longrightarrow> pf_retry_at f \<le> now"
    using q(1) by (auto simp: may_request_def)
next
  assume "3 \<le> length fs \<or> (\<exists>x\<in>set fs. fst x \<noteq> Unavailable)"
  then have "max_attempts \<le> attempts_of (foldl (\<lambda>c (kind, t). record_failure_in q kind t c) c fs) q"
  proof
    assume "3 \<le> length fs"
    with attempts_run [of c q fs] show ?thesis by (simp add: max_attempts_def)
  next
    assume "\<exists>x\<in>set fs. fst x \<noteq> Unavailable"
    then obtain xs ys k t where fs: "fs = xs @ (k, t) # ys" "k \<noteq> Unavailable" by (metis in_set_conv_decomp prod.collapse)
    let ?c = "record_failure_in q k t (foldl (\<lambda>c (kind, t). record_failure_in q kind t c) c xs)"
    have "attempts_of ?c q = max_attempts" using fs(2) by (simp add: attempts_record)
    with attempts_run [of ?c q ys] fs show ?thesis by simp
  qed
  with may_request_attempts show "\<not> may_request (foldl (\<lambda>c (kind, t). record_failure_in q kind t c) c fs) later q"
    by (meson not_le)
next
  assume "attempts_of c q < 2"
  then show "map_of (pc_page_failures (record_failure_in q Unavailable t c)) q
           = Some \<lparr>pf_attempts = attempts_of c q + 1, pf_retry_at = t + 1000 * 4 ^ attempts_of c q, pf_kind = Unavailable\<rparr>"
    by (auto simp: record_failure_in_def Let_def update_conv' attempts_of_def max_attempts_def retry_base_ms_def
        split: option.splits)
qed

theorem page_reads_are_bounded_witness:
  "length (snd (ensure_sql_result_range example_source 0 3 5 \<lparr>rc_caches = [], rc_listeners = [], rc_next = 0\<rparr>)) \<le> 6"
proof -
  have inv: "caches_inv \<lparr>rc_caches = [], rc_listeners = [], rc_next = 0\<rparr>"
    by (simp add: caches_inv_def bearing_keys_def)
  have k: "source_key example_source = Some ''op:cap''" by (simp add: source_key_def example_source_def)
  from page_reads_are_bounded [OF inv k refl] show ?thesis by blast
qed

end
