(* ===== verification/ConnectionPolicy.thy ===== *)
theory ConnectionPolicy
  imports SqlText
begin

text \<open>
  What a member may do with a connection, as the desktop client projects it: the connection rules of
  \<open>src/features/connections/domain.ts\<close> and the write gates and write-block recovery of
  \<open>src/features/safetySettings/policy.ts\<close>. The optional properties of \<open>ConnectionWriteAuthority\<close>
  are options, \<open>None\<close> for \<open>undefined\<close>.
\<close>

section \<open>Connections\<close>

datatype provider = ProviderAuto | ProviderGeneric | ProviderNeon | ProviderPlanetScale | ProviderGcpCloudSql | ProviderCloudflareD1

datatype workspace_access = AccessView | AccessRead | AccessWrite | AccessManage | AccessLocal

datatype credential_mode = ModeLocal | ModeMemberLocal | ModeManaged | ModeProvisioned

record connection =
  cn_engine :: engine
  cn_provider :: provider
  cn_username :: string
  cn_secret_ref :: "string option"
  cn_allow_writes :: bool
  cn_schema_available :: "bool option"
  cn_credential_mode :: credential_mode
  cn_access :: workspace_access

definition is_device_only_sqlite :: "connection \<Rightarrow> bool" where
  "is_device_only_sqlite c \<longleftrightarrow>
     cn_access c = AccessLocal \<and> cn_engine c = Sqlite \<and> cn_provider c \<noteq> ProviderCloudflareD1"

definition can_recover_big_query_authentication :: "connection \<Rightarrow> bool" where
  "can_recover_big_query_authentication c =
     (if cn_engine c \<noteq> Bigquery then False
      else if cn_access c = AccessLocal \<and> cn_credential_mode c = ModeLocal then True
      else cn_access c \<noteq> AccessLocal \<and> cn_access c \<noteq> AccessView \<and> cn_credential_mode c = ModeMemberLocal)"

definition uses_cli_authentication :: "connection \<Rightarrow> bool" where
  "uses_cli_authentication c \<longleftrightarrow>
     cn_engine c = Bigquery \<or> (cn_engine c = Sqlite \<and> cn_provider c = ProviderCloudflareD1)"

definition can_bind_member_credentials :: "connection \<Rightarrow> bool" where
  "can_bind_member_credentials c \<longleftrightarrow>
     cn_credential_mode c = ModeMemberLocal \<and> cn_access c \<noteq> AccessView \<and> cn_access c \<noteq> AccessLocal
     \<and> \<not> uses_cli_authentication c"

definition provisioning_not_ready :: "connection \<Rightarrow> bool" where
  "provisioning_not_ready c \<longleftrightarrow> cn_credential_mode c = ModeProvisioned \<and> cn_username c = []"

datatype access_issue = IssueGrant | IssueCredentials | IssueProvisioning

definition connection_access_issue :: "connection \<Rightarrow> access_issue option" where
  "connection_access_issue c =
     (if cn_access c = AccessView then Some IssueGrant
      else if provisioning_not_ready c then Some IssueProvisioning
      else if \<not> uses_cli_authentication c \<and> cn_access c \<noteq> AccessLocal
           \<and> cn_credential_mode c = ModeMemberLocal \<and> cn_secret_ref c = None
        then Some IssueCredentials
      else None)"

section \<open>Write gates\<close>

record write_authority =
  wa_allow_writes :: bool
  wa_credential_mode :: credential_mode
  wa_access :: workspace_access
  wa_engine :: "engine option"
  wa_provider :: "provider option"
  wa_schema_available :: "bool option"

definition authority_of :: "connection \<Rightarrow> write_authority" where
  "authority_of c =
     \<lparr>wa_allow_writes = cn_allow_writes c, wa_credential_mode = cn_credential_mode c, wa_access = cn_access c,
      wa_engine = Some (cn_engine c), wa_provider = Some (cn_provider c), wa_schema_available = cn_schema_available c\<rparr>"

definition connection_can_enter_write_path :: "write_authority \<Rightarrow> bool" where
  "connection_can_enter_write_path c =
     (if \<not> wa_allow_writes c then False
      else wa_access c = AccessLocal \<or> wa_access c = AccessWrite \<or> wa_access c = AccessManage)"

definition can_manage_workspace_write_policy :: "write_authority \<Rightarrow> bool" where
  "can_manage_workspace_write_policy c \<longleftrightarrow> wa_credential_mode c = ModeManaged \<and> wa_access c = AccessManage"

definition personal :: "write_authority \<Rightarrow> bool" where
  "personal c \<longleftrightarrow> wa_credential_mode c = ModeLocal \<and> wa_access c = AccessLocal"

definition sql_editable :: "write_authority \<Rightarrow> bool" where
  "sql_editable c \<longleftrightarrow> wa_engine c \<noteq> Some Bigquery \<and> wa_engine c \<noteq> Some Mongodb"

definition safety_write_control_available :: "write_authority \<Rightarrow> bool" where
  "safety_write_control_available c =
     (if personal c then sql_editable c
      else can_manage_workspace_write_policy c \<or> connection_can_enter_write_path c)"

definition safety_schema_control_available :: "write_authority \<Rightarrow> bool" where
  "safety_schema_control_available c =
     (if personal c then sql_editable c
      else wa_credential_mode c = ModeManaged \<and> wa_access c = AccessManage
        \<and> (wa_provider c = Some ProviderNeon \<or> wa_provider c = Some ProviderGcpCloudSql)
        \<and> wa_engine c = Some Postgres \<and> wa_schema_available c = Some True)"

definition needs_local_schema_connection :: "write_authority \<Rightarrow> bool" where
  "needs_local_schema_connection c \<longleftrightarrow>
     wa_credential_mode c = ModeManaged \<and> wa_access c = AccessManage
     \<and> wa_provider c = Some ProviderGcpCloudSql \<and> wa_engine c = Some Postgres
     \<and> wa_schema_available c \<noteq> Some True"

record safety_settings =
  ss_allow_writes :: bool
  ss_allow_schema_changes :: bool
  ss_wrap_writes :: bool
  ss_explain_preview :: bool
  ss_auto_run_reads :: bool
  ss_max_rows :: int
  ss_exec_preview_row_limit :: int

definition requested_safety_settings :: "write_authority \<Rightarrow> safety_settings \<Rightarrow> safety_settings" where
  "requested_safety_settings c s =
     (let w = ss_allow_writes s \<and> safety_write_control_available c
      in s\<lparr>ss_allow_writes := w,
           ss_allow_schema_changes := w \<and> ss_allow_schema_changes s \<and> safety_schema_control_available c\<rparr>)"

definition effective_safety_settings :: "write_authority \<Rightarrow> safety_settings \<Rightarrow> safety_settings" where
  "effective_safety_settings c s =
     (let w = ss_allow_writes s \<and> connection_can_enter_write_path c
      in s\<lparr>ss_allow_writes := w,
           ss_allow_schema_changes := w \<and> ss_allow_schema_changes s \<and> safety_schema_control_available c\<rparr>)"

section \<open>Blocked writes\<close>

datatype recovery_kind =
    DeviceSafety
  | LocalSafety
  | SchemaSafety
  | SchemaUnavailable
  | WorkspaceGrant
  | WorkspacePolicy
  | WorkspacePolicyAndDevice

record write_block_error =
  wb_kind :: "string option"
  wb_message :: string
  wb_sql :: "string option"

text \<open>
  The scanner of \<open>sqlAfterLeadingTrivia\<close>, on the text behind the cursor: the text from the first
  character that is neither white space nor in a comment, \<open>None\<close> when a block comment does not close.
\<close>

definition line_end :: "char \<Rightarrow> bool" where
  "line_end c \<longleftrightarrow> c = CHR 0x0D \<or> c = CHR 0x0A"

function sql_after_leading_trivia :: "string \<Rightarrow> string option" where
  "sql_after_leading_trivia s =
     (case s of
        [] \<Rightarrow> Some []
      | c # cs \<Rightarrow>
          if js_space c then sql_after_leading_trivia cs
          else if starts_with ''--'' s then sql_after_leading_trivia (dropWhile (\<lambda>d. \<not> line_end d) (drop 2 s))
          else if starts_with ''/*'' s then
            (case index_of ''*/'' (drop 2 s) of
               None \<Rightarrow> None
             | Some e \<Rightarrow> sql_after_leading_trivia (drop (e + 4) s))
          else Some s)"
  by pat_completeness auto
termination
proof (relation "measure length")
  have drop_less: "length (dropWhile P (drop 2 (c # cs))) < length (c # cs)" for P and c :: char and cs
    using length_dropWhile_le [of P "drop 2 (c # cs)"] by (simp del: length_dropWhile_le)
  then show "\<And>s c cs. s = c # cs \<Longrightarrow> \<not> js_space c \<Longrightarrow> starts_with ''--'' s \<Longrightarrow>
      (dropWhile (\<lambda>d. \<not> line_end d) (drop 2 s), s) \<in> measure length" by auto
qed auto

declare sql_after_leading_trivia.simps [simp del]

definition ddl_re :: rx where
  "ddl_re = seqs [Bos, alts [ilit ''create'', ilit ''alter'', ilit ''drop'', ilit ''truncate'', ilit ''comment'',
     ilit ''reindex''], Boundary]"

definition is_ddl_statement :: "string option \<Rightarrow> bool" where
  "is_ddl_statement sql =
     (case sql of
        None \<Rightarrow> False
      | Some s \<Rightarrow> s \<noteq> [] \<and> (case sql_after_leading_trivia s of None \<Rightarrow> False | Some t \<Rightarrow> rx_test ddl_re t))"

definition is_schema_access_error :: "write_block_error \<Rightarrow> bool" where
  "is_schema_access_error e =
     (let m = js_lower (wb_message e)
      in str_includes ''schema changes are disabled'' m
         \<or> str_includes ''workspace role does not permit schema changes'' m
         \<or> str_includes ''managed schema access requires'' m
         \<or> str_includes ''managed schema access is not supported'' m
         \<or> str_includes ''schema access requires a separately verified'' m
         \<or> str_includes ''schema policy owner is unavailable'' m
         \<or> str_includes ''managed schema access is not configured'' m
         \<or> (is_ddl_statement (wb_sql e)
            \<and> (str_includes ''permission denied for schema'' m \<or> str_includes ''must be owner of'' m)))"

definition is_writes_disabled_error :: "write_block_error \<Rightarrow> bool" where
  "is_writes_disabled_error e =
     (if wb_kind e \<noteq> Some ''blocked'' \<and> wb_kind e \<noteq> Some ''safety'' then False
      else let m = js_lower (wb_message e)
           in str_includes ''writes are disabled for this connection'' m
              \<or> str_includes ''writing is disabled for this connection'' m
              \<or> str_includes ''schema change (ddl) is disabled for this connection'' m)"

definition write_block_recovery_kind :: "write_authority \<Rightarrow> write_block_error \<Rightarrow> recovery_kind option" where
  "write_block_recovery_kind c e =
     (let schema_error = is_schema_access_error e
      in if \<not> schema_error \<and> \<not> is_writes_disabled_error e then None
         else if wa_access c = AccessView \<or> wa_access c = AccessRead then Some WorkspaceGrant
         else if schema_error then
           (if wa_credential_mode c = ModeManaged \<and> wa_access c \<noteq> AccessManage then Some WorkspaceGrant
            else if safety_schema_control_available c then Some SchemaSafety
            else Some SchemaUnavailable)
         else if \<not> wa_allow_writes c
              \<and> (wa_credential_mode c = ModeProvisioned \<or> wa_credential_mode c = ModeMemberLocal)
           then Some WorkspacePolicy
         else if \<not> wa_allow_writes c \<and> wa_credential_mode c = ModeManaged
           then (if wa_access c = AccessManage then Some WorkspacePolicyAndDevice else Some WorkspacePolicy)
         else if \<not> wa_allow_writes c then Some LocalSafety
         else Some DeviceSafety)"

definition write_block_recovery_opens_safety :: "recovery_kind \<Rightarrow> bool" where
  "write_block_recovery_opens_safety k \<longleftrightarrow>
     k = DeviceSafety \<or> k = LocalSafety \<or> k = SchemaSafety \<or> k = SchemaUnavailable \<or> k = WorkspacePolicyAndDevice"

section \<open>Gates narrow\<close>

text \<open>Less authority: writes withdrawn or the access lowered to one that only reads.\<close>

definition narrower :: "write_authority \<Rightarrow> write_authority \<Rightarrow> bool" where
  "narrower c d \<longleftrightarrow>
     wa_credential_mode c = wa_credential_mode d \<and> wa_engine c = wa_engine d \<and> wa_provider c = wa_provider d
     \<and> wa_schema_available c = wa_schema_available d
     \<and> (wa_allow_writes c \<longrightarrow> wa_allow_writes d)
     \<and> (wa_access c = wa_access d \<or> wa_access c = AccessView \<or> wa_access c = AccessRead)"

lemmas gate_defs =
  effective_safety_settings_def requested_safety_settings_def connection_can_enter_write_path_def
  safety_write_control_available_def safety_schema_control_available_def can_manage_workspace_write_policy_def
  personal_def sql_editable_def Let_def



section \<open>Recovery\<close>

text \<open>White space and closed comments.\<close>

inductive trivia :: "string \<Rightarrow> bool" where
  trivia_end: "trivia []"
| trivia_space: "js_space c \<Longrightarrow> trivia t \<Longrightarrow> trivia (c # t)"
| trivia_line: "\<forall>d\<in>set body. \<not> line_end d \<Longrightarrow> line_end e \<Longrightarrow> trivia t \<Longrightarrow> trivia (''--'' @ body @ e # t)"
| trivia_block: "\<not> str_includes ''*/'' (body @ ''*'') \<Longrightarrow> trivia t \<Longrightarrow> trivia (''/*'' @ body @ ''*/'' @ t)"

lemma index_of_close: "\<not> str_includes ''*/'' (body @ ''*'') \<Longrightarrow> index_of ''*/'' (body @ ''*/'' @ rest) = Some (length body)"
proof (induction body)
  case (Cons c cs)
  have "\<not> starts_with ''*/'' (c # cs @ ''*/'' @ rest)"
  proof
    assume "starts_with ''*/'' (c # cs @ ''*/'' @ rest)"
    then have "c = CHR ''*'' \<and> cs \<noteq> [] \<and> hd cs = CHR ''/''" by (cases cs) auto
    then have "starts_with ''*/'' (c # cs @ ''*'')" by (cases cs) auto
    with Cons.prems show False by (simp del: starts_with.simps)
  qed
  with Cons show ?case by simp
qed simp

lemma skip_trivia: "trivia t \<Longrightarrow> sql_after_leading_trivia (t @ s) = sql_after_leading_trivia s"
proof (induction rule: trivia.induct)
  case trivia_end
  then show ?case by simp
next
  case (trivia_space c t)
  then show ?case by (subst sql_after_leading_trivia.simps) simp
next
  case (trivia_line body e t)
  have "js_space e" using trivia_line(2) by (auto simp: line_end_def js_space_def)
  then have e: "sql_after_leading_trivia (e # t @ s) = sql_after_leading_trivia s"
    using trivia_line(4) by (subst sql_after_leading_trivia.simps) simp
  have "dropWhile (\<lambda>d. \<not> line_end d) (body @ e # t @ s) = e # t @ s"
    using trivia_line(1,2) by (simp add: dropWhile_append3)
  with e show ?case by (subst sql_after_leading_trivia.simps) (simp add: js_space_def)
next
  case (trivia_block body t)
  have i: "index_of ''*/'' (body @ ''*/'' @ t @ s) = Some (length body)"
    using index_of_close [OF trivia_block(1)] by simp
  have "drop (length body + 4) (''/*'' @ body @ ''*/'' @ t @ s) = t @ s" by (simp add: eval_nat_numeral)
  with i trivia_block(3) show ?case by (subst sql_after_leading_trivia.simps) (simp add: js_space_def)
qed

lemma ddl_after_trivia: "trivia t \<Longrightarrow> is_ddl_statement (Some (t @ s)) = is_ddl_statement (Some s)"
proof -
  assume t: "trivia t"
  have "\<not> is_ddl_statement (Some (t @ []))"
    using skip_trivia [OF t, of "[]"]
    by (simp add: is_ddl_statement_def sql_after_leading_trivia.simps [of "[]"] ddl_re_def rx_eval)
  with skip_trivia [OF t, of s] show ?thesis
    by (cases "s = []") (auto simp: is_ddl_statement_def)
qed

lemmas recovery_defs =
  write_block_recovery_kind_def write_block_recovery_opens_safety_def gate_defs

text \<open>
A blocked write is sent to the layer that blocks it. A member who may only view or read is sent for a
grant whatever the error says. Every other recovery names a layer that really refuses or could allow: device safety only
when the policy and the access allow writes, local safety only for a local credential, the workspace policy
only when writes are off there and the member may not change it, and the schema settings only where schema
control exists. A recovery that opens the safety page with something to do there finds a write control on it, for
connections with a SQL editor. Comments and white space before the failing statement change nothing.
\<close>

theorem recovery_matches_authority:
  assumes "write_block_recovery_kind c e = Some k"
  shows "(wa_access c \<in> {AccessView, AccessRead} \<longrightarrow> k = WorkspaceGrant)
     \<and> (k = WorkspaceGrant \<longrightarrow> \<not> ss_allow_schema_changes (effective_safety_settings c s))
     \<and> (k = DeviceSafety \<longrightarrow> connection_can_enter_write_path c)
     \<and> (k \<in> {LocalSafety, WorkspacePolicy, WorkspacePolicyAndDevice} \<longrightarrow> \<not> wa_allow_writes c)
     \<and> (k = LocalSafety \<longrightarrow> wa_credential_mode c = ModeLocal)
     \<and> (k = WorkspacePolicyAndDevice \<longrightarrow> can_manage_workspace_write_policy c)
     \<and> (k = WorkspacePolicy \<longrightarrow> \<not> can_manage_workspace_write_policy c \<and> \<not> safety_write_control_available c)
     \<and> (k = SchemaSafety \<longrightarrow> safety_schema_control_available c)
     \<and> (k = SchemaUnavailable \<longrightarrow> \<not> safety_schema_control_available c)
     \<and> (write_block_recovery_opens_safety k \<and> k \<noteq> SchemaUnavailable \<and> (wa_credential_mode c = ModeLocal \<longrightarrow> personal c \<and> sql_editable c)
          \<longrightarrow> safety_write_control_available c)
     \<and> (trivia t \<longrightarrow> write_block_recovery_kind c (e\<lparr>wb_sql := Some (t @ q)\<rparr>) = write_block_recovery_kind c (e\<lparr>wb_sql := Some q\<rparr>))"
proof (intro conjI)
  show "trivia t \<longrightarrow> write_block_recovery_kind c (e\<lparr>wb_sql := Some (t @ q)\<rparr>) = write_block_recovery_kind c (e\<lparr>wb_sql := Some q\<rparr>)"
    by (simp add: write_block_recovery_kind_def is_schema_access_error_def is_writes_disabled_error_def ddl_after_trivia)
qed (use assms in \<open>cases "wa_access c"; cases "wa_credential_mode c"; auto simp: recovery_defs split: if_splits\<close>)+

theorem recovery_matches_authority_witness:
  "let c = \<lparr>wa_allow_writes = False, wa_credential_mode = ModeManaged, wa_access = AccessManage, wa_engine = Some Postgres,
        wa_provider = Some ProviderNeon, wa_schema_available = Some True\<rparr>;
       e = \<lparr>wb_kind = Some ''blocked'', wb_message = ''Writes are disabled for this connection'', wb_sql = None\<rparr>
   in write_block_recovery_kind c e = Some WorkspacePolicyAndDevice \<and> safety_write_control_available c
      \<and> write_block_recovery_kind c (e\<lparr>wb_sql := Some ('' DROP TABLE t'')\<rparr>) = write_block_recovery_kind c (e\<lparr>wb_sql := Some ''DROP TABLE t''\<rparr>)"
proof -
  let ?c = "\<lparr>wa_allow_writes = False, wa_credential_mode = ModeManaged, wa_access = AccessManage, wa_engine = Some Postgres,
        wa_provider = Some ProviderNeon, wa_schema_available = Some True\<rparr>"
  let ?e = "\<lparr>wb_kind = Some ''blocked'', wb_message = ''Writes are disabled for this connection'', wb_sql = None\<rparr>"
  have kind: "write_block_recovery_kind ?c ?e = Some WorkspacePolicyAndDevice"
    by (simp add: write_block_recovery_kind_def is_schema_access_error_def is_writes_disabled_error_def is_ddl_statement_def
        js_lower_def js_lower_char_def char_of_def bit_0 Let_def)
  have "trivia '' ''" by (rule trivia_space) (simp_all add: js_space_def trivia_end)
  with kind recovery_matches_authority [OF kind, of _ "'' ''" "''DROP TABLE t''"]
  show ?thesis by (simp add: Let_def write_block_recovery_opens_safety_def personal_def)
qed

end
