(* ===== verification/Workbench.thy ===== *)
theory Workbench
  imports SqlText
begin

text \<open>
  The document strip of the workbench: documents and their recovery snapshots
  (\<open>src/features/workbench/domain.ts\<close>), the reducer (\<open>state.ts\<close>), the member-local set of open tabs
  (\<open>openTabs.ts\<close>) and what the effect of \<open>useWorkbenchDocuments.ts\<close> stores in it. \<open>localStorage\<close> is a map
  from keys to strings, \<open>JSON.parse\<close> and \<open>JSON.stringify\<close> are arguments, and the counter that
  numbers new documents is threaded through the reducer.
\<close>

section \<open>Documents\<close>

datatype resolve_mode = Playground | Script

datatype stable_kind = Welcome | Schema | Activity | Results

record sql_body =
  sb_draft :: string
  sb_title :: string
  sb_database :: string
  sb_schema :: "string option"
  sb_mode :: resolve_mode
  sb_persisted :: "string option"
  sb_revision :: int
  sb_recovered :: bool

datatype document =
    DataDocument (doc_id: string) (doc_connection: string) catalog_table
  | StableDocument (doc_id: string) (doc_connection: string) stable_kind
  | SqlDocument (doc_id: string) (doc_connection: string) sql_body
  | DocumentsDocument (doc_id: string) (doc_connection: string) "string option"

text \<open>The saved document of \<open>sqlDocuments/domain.ts\<close>, as far as the workbench reads it.\<close>

record saved_document =
  sd_id :: string
  sd_connection :: string
  sd_title :: string
  sd_database :: string
  sd_schema :: "string option"
  sd_mode :: resolve_mode
  sd_content :: string
  sd_revision :: int

fun stable_kind_name :: "stable_kind \<Rightarrow> string" where
  "stable_kind_name Welcome = ''welcome''"
| "stable_kind_name Schema = ''schema''"
| "stable_kind_name Activity = ''activity''"
| "stable_kind_name Results = ''results''"

definition stable_document :: "string \<Rightarrow> stable_kind \<Rightarrow> document" where
  "stable_document conn kind = StableDocument (conn @ '':'' @ stable_kind_name kind) conn kind"

definition table_document :: "string \<Rightarrow> catalog_table \<Rightarrow> document" where
  "table_document conn t = DataDocument (conn @ '':data:'' @ table_key t) conn t"

text \<open>\<open>n.toString(36)\<close>.\<close>

fun base36 :: "nat \<Rightarrow> string" where
  "base36 n = (let d = (\<lambda>k. if k < 10 then char_of (48 + k) else char_of (87 + k))
               in if n < 36 then [d n] else base36 (n div 36) @ [d (n mod 36)])"

declare base36.simps [simp del]

definition fresh_suffix :: "nat \<Rightarrow> nat \<Rightarrow> string" where
  "fresh_suffix now n = base36 now @ ''-'' @ base36 n"

text \<open>\<open>queryDocument\<close> bumps the counter \<open>n\<close>; \<open>sql_kind\<close> says which of its two kinds is asked for.\<close>

definition query_document ::
  "nat \<Rightarrow> nat \<Rightarrow> string \<Rightarrow> bool \<Rightarrow> string option \<Rightarrow> string \<Rightarrow> string \<Rightarrow> nat \<times> document" where
  "query_document now n conn sql_kind draft db title =
     (let n' = n + 1; suffix = fresh_suffix now n'
      in (n',
          if sql_kind then
            SqlDocument (conn @ '':sql:'' @ suffix) conn
              \<lparr>sb_draft = (case draft of None \<Rightarrow> ''SELECT 1;'' | Some d \<Rightarrow> d), sb_title = title, sb_database = db,
               sb_schema = None, sb_mode = Playground, sb_persisted = None, sb_revision = 0, sb_recovered = False\<rparr>
          else DocumentsDocument (conn @ '':documents:'' @ suffix) conn draft))"

type_synonym storage = "string \<Rightarrow> string option"

record recovery_snapshot =
  rs_title :: string
  rs_draft :: string
  rs_database :: string
  rs_schema :: "string option"
  rs_mode :: resolve_mode

definition sql_recovery_key :: "string \<Rightarrow> string" where
  "sql_recovery_key i = ''dopedb.sqlRecovery.'' @ i"

definition recovery_of_json :: "saved_document \<Rightarrow> json \<Rightarrow> recovery_snapshot option" where
  "recovery_of_json d v =
     (case (json_get v ''title'', json_get v ''draft'') of
        (Some (JStr title), Some (JStr draft)) \<Rightarrow>
          if json_get v ''revision'' \<noteq> Some (JNum (sd_revision d)) then None
          else
           (case (json_get v ''selectedDatabase'', json_get v ''selectedSchema'', json_get v ''resolveMode'') of
              (db, schema, mode) \<Rightarrow>
                if (db = None \<or> (\<exists>s\<in>set_option db. json_str s \<noteq> None))
                   \<and> (schema = None \<or> schema = Some JNull \<or> (\<exists>s\<in>set_option schema. json_str s \<noteq> None))
                   \<and> (mode = None \<or> mode = Some (JStr ''playground'') \<or> mode = Some (JStr ''script''))
                then Some \<lparr>rs_title = title, rs_draft = draft,
                       rs_database = (case db of None \<Rightarrow> sd_database d | Some s \<Rightarrow> the (json_str s)),
                       rs_schema = Option.bind schema json_str,
                       rs_mode = (if mode = Some (JStr ''script'') then Script else Playground)\<rparr>
                else None)
      | _ \<Rightarrow> None)"

definition read_recovery :: "(string \<Rightarrow> json option) \<Rightarrow> storage \<Rightarrow> saved_document \<Rightarrow> recovery_snapshot option" where
  "read_recovery parse store d =
     (case store (sql_recovery_key (sd_id d)) of
        None \<Rightarrow> None
      | Some raw \<Rightarrow> if raw = [] then None else Option.bind (parse raw) (recovery_of_json d))"

definition persisted_query_document :: "(string \<Rightarrow> json option) \<Rightarrow> storage \<Rightarrow> saved_document \<Rightarrow> document" where
  "persisted_query_document parse store d =
     SqlDocument (sd_connection d @ '':sql:'' @ sd_id d) (sd_connection d)
       (case read_recovery parse store d of
          None \<Rightarrow>
            \<lparr>sb_draft = sd_content d, sb_title = sd_title d, sb_database = sd_database d, sb_schema = sd_schema d,
             sb_mode = sd_mode d, sb_persisted = Some (sd_id d), sb_revision = sd_revision d, sb_recovered = False\<rparr>
        | Some r \<Rightarrow>
            \<lparr>sb_draft = rs_draft r, sb_title = rs_title r, sb_database = rs_database r,
             sb_schema = (case rs_schema r of None \<Rightarrow> sd_schema d | Some s \<Rightarrow> Some s),
             sb_mode = rs_mode r, sb_persisted = Some (sd_id d), sb_revision = sd_revision d,
             sb_recovered =
               (rs_draft r \<noteq> sd_content d \<or> rs_title r \<noteq> sd_title d \<or> rs_database r \<noteq> sd_database d
                \<or> rs_schema r \<noteq> sd_schema d \<or> rs_mode r \<noteq> sd_mode d)\<rparr>)"

text \<open>History entries; \<open>None\<close> and the empty name are falsy.\<close>

record history_target =
  ht_title :: string
  ht_database :: "string option"
  ht_schema :: "string option"

definition non_empty :: "string option \<Rightarrow> string option" where
  "non_empty s = (if truthy s then s else None)"

definition history_query_target :: "string option \<Rightarrow> string option \<Rightarrow> string \<Rightarrow> history_target" where
  "history_query_target db namespace title =
     \<lparr>ht_title = title, ht_database = non_empty db, ht_schema = non_empty namespace\<rparr>"

section \<open>The reducer\<close>

record workbench =
  documents :: "document list"
  active_id :: "string option"

definition empty_workbench :: workbench where
  "empty_workbench = \<lparr>documents = [], active_id = None\<rparr>"

datatype action =
    Reset
  | Initialize document
  | RestoreSql string "saved_document list" "string list" "string option"
  | Activate document
  | ActivateId string
  | Close string string bool
  | UpdateTitle string string
  | UpdateSelectedDatabase string string
  | UpdateSelectedSchema string "string option"
  | UpdateResolveMode string resolve_mode
  | Persist string saved_document

fun persisted_id :: "document \<Rightarrow> string option" where
  "persisted_id (SqlDocument i c b) = sb_persisted b"
| "persisted_id _ = None"

fun is_sql :: "document \<Rightarrow> bool" where
  "is_sql (SqlDocument i c b) = True"
| "is_sql _ = False"

text \<open>The last entry of a key wins in \<open>new Map(entries)\<close>.\<close>

definition last_match :: "('a \<Rightarrow> bool) \<Rightarrow> 'a list \<Rightarrow> 'a option" where
  "last_match p xs = find p (rev xs)"

definition already_open :: "workbench \<Rightarrow> string \<Rightarrow> string \<Rightarrow> document option" where
  "already_open st conn p =
     (if p = [] then None
      else last_match (\<lambda>d. doc_connection d = conn \<and> persisted_id d = Some p) (documents st))"

definition restored_document ::
  "(string \<Rightarrow> json option) \<Rightarrow> storage \<Rightarrow> workbench \<Rightarrow> string \<Rightarrow> saved_document list \<Rightarrow> string \<Rightarrow> document option" where
  "restored_document parse store st conn saved p =
     (case already_open st conn p of
        Some d \<Rightarrow> Some d
      | None \<Rightarrow> map_option (persisted_query_document parse store) (last_match (\<lambda>s. sd_id s = p) saved))"

definition restored_documents ::
  "(string \<Rightarrow> json option) \<Rightarrow> storage \<Rightarrow> workbench \<Rightarrow> string \<Rightarrow> saved_document list \<Rightarrow> string list \<Rightarrow> document list" where
  "restored_documents parse store st conn saved open =
     List.map_filter (restored_document parse store st conn saved) open"

definition restore_sql ::
  "(string \<Rightarrow> json option) \<Rightarrow> storage \<Rightarrow> workbench \<Rightarrow> string \<Rightarrow> saved_document list \<Rightarrow> string list
     \<Rightarrow> string option \<Rightarrow> workbench" where
  "restore_sql parse store st conn saved open active =
     (let restored = restored_documents parse store st conn saved open;
          docs = filter (\<lambda>d. doc_connection d \<noteq> conn \<or> \<not> is_sql d) (documents st) @ restored;
          is_active = (\<lambda>d. Some (doc_id d) = active_id st);
          reactivated = (if truthy active then map_option doc_id (find (\<lambda>d. persisted_id d = active) restored) else None)
      in \<lparr>documents = docs,
          active_id =
            (if list_ex is_active restored then active_id st
             else case reactivated of
                    Some i \<Rightarrow> Some i
                  | None \<Rightarrow> if list_ex is_active docs then active_id st else map_option doc_id (first_row docs))\<rparr>)"

fun update_sql :: "string \<Rightarrow> (sql_body \<Rightarrow> sql_body) \<Rightarrow> document \<Rightarrow> document" where
  "update_sql i f (SqlDocument j c b) = SqlDocument j c (if j = i then f b else b)"
| "update_sql i f d = d"

definition update_documents :: "string \<Rightarrow> (sql_body \<Rightarrow> sql_body) \<Rightarrow> workbench \<Rightarrow> workbench" where
  "update_documents i f st = st\<lparr>documents := map (update_sql i f) (documents st)\<rparr>"

text \<open>Closing: \<open>to_welcome\<close> is \<open>fallbackKind === "welcome"\<close>.\<close>

definition close_document :: "nat \<Rightarrow> nat \<Rightarrow> workbench \<Rightarrow> string \<Rightarrow> string \<Rightarrow> bool \<Rightarrow> nat \<times> workbench" where
  "close_document now n st i conn to_welcome =
     (let selected = filter (\<lambda>d. doc_connection d = conn) (documents st)
      in case find_index (\<lambda>d. doc_id d = i) selected of
           None \<Rightarrow> (n, st)
         | Some index \<Rightarrow>
             (let rest = filter (\<lambda>d. doc_id d \<noteq> i) selected;
                  (n', remaining) =
                    (if rest \<noteq> [] then (n, rest)
                     else if to_welcome then (n, [stable_document conn Welcome])
                     else let (m, d) = query_document now n conn False None [] ''Untitled query'' in (m, [d]))
              in (n', \<lparr>documents = filter (\<lambda>d. doc_connection d \<noteq> conn) (documents st) @ remaining,
                       active_id = (if active_id st = Some i
                                    then map_option doc_id (char_at remaining (min index (length remaining - 1)))
                                    else active_id st)\<rparr>)))"

fun workbench_reducer ::
  "(string \<Rightarrow> json option) \<Rightarrow> storage \<Rightarrow> nat \<Rightarrow> nat \<times> workbench \<Rightarrow> action \<Rightarrow> nat \<times> workbench" where
  "workbench_reducer parse store now (n, st) Reset = (n, empty_workbench)"
| "workbench_reducer parse store now (n, st) (Initialize d) = (n, \<lparr>documents = [d], active_id = Some (doc_id d)\<rparr>)"
| "workbench_reducer parse store now (n, st) (RestoreSql conn saved open active) =
     (n, restore_sql parse store st conn saved open active)"
| "workbench_reducer parse store now (n, st) (Activate d) =
     (n, \<lparr>documents = (if list_ex (\<lambda>e. doc_id e = doc_id d) (documents st) then documents st else documents st @ [d]),
          active_id = Some (doc_id d)\<rparr>)"
| "workbench_reducer parse store now (n, st) (ActivateId i) =
     (n, if list_ex (\<lambda>e. doc_id e = i) (documents st) then st\<lparr>active_id := Some i\<rparr> else st)"
| "workbench_reducer parse store now (n, st) (Close i conn to_welcome) = close_document now n st i conn to_welcome"
| "workbench_reducer parse store now (n, st) (UpdateTitle i title) =
     (n, update_documents i (\<lambda>b. b\<lparr>sb_title := title\<rparr>) st)"
| "workbench_reducer parse store now (n, st) (UpdateSelectedDatabase i db) =
     (n, update_documents i (\<lambda>b. b\<lparr>sb_database := db, sb_schema := None\<rparr>) st)"
| "workbench_reducer parse store now (n, st) (UpdateSelectedSchema i schema) =
     (n, update_documents i (\<lambda>b. b\<lparr>sb_schema := schema\<rparr>) st)"
| "workbench_reducer parse store now (n, st) (UpdateResolveMode i mode) =
     (n, update_documents i (\<lambda>b. b\<lparr>sb_mode := mode\<rparr>) st)"
| "workbench_reducer parse store now (n, st) (Persist i d) =
     (n, update_documents i (\<lambda>b. b\<lparr>sb_draft := sd_content d, sb_title := sd_title d, sb_database := sd_database d,
           sb_schema := sd_schema d, sb_mode := sd_mode d, sb_revision := sd_revision d, sb_recovered := False\<rparr>) st)"

section \<open>Open tabs\<close>

text \<open>
  \<open>encodeURIComponent\<close> on code units below 256: unreserved characters stay, any other is percent-encoded
  byte by byte in UTF-8, two bytes from 128 on.
\<close>

definition unreserved :: "char \<Rightarrow> bool" where
  "unreserved c \<longleftrightarrow> is_alnum c \<or> c \<in> set ''-_.!~*'' \<or> c = CHR 0x27 \<or> c = CHR ''('' \<or> c = CHR '')''"

definition hex_digit :: "nat \<Rightarrow> char" where
  "hex_digit k = (if k < 10 then char_of (48 + k) else char_of (55 + k))"

definition percent :: "nat \<Rightarrow> string" where
  "percent b = [CHR ''%'', hex_digit (b div 16), hex_digit (b mod 16)]"

definition encode_char :: "char \<Rightarrow> string" where
  "encode_char c =
     (let n = of_char c
      in if unreserved c then [c]
         else if n < 128 then percent n
         else percent (192 + n div 64) @ percent (128 + n mod 64))"

definition encode_uri_component :: "string \<Rightarrow> string" where
  "encode_uri_component s = concat (map encode_char s)"

definition open_tab_scope_key :: "string option \<Rightarrow> string option \<Rightarrow> string option \<Rightarrow> string option" where
  "open_tab_scope_key workspace_kind workspace_id account_scope =
     (if truthy workspace_kind \<and> truthy workspace_id
      then Some (the workspace_kind @ '':'' @ the workspace_id @ '':account:''
             @ (case account_scope of None \<Rightarrow> ''anonymous'' | Some a \<Rightarrow> a))
      else None)"

definition storage_prefix :: string where
  "storage_prefix = ''dopedb.workbench-open-tabs.v1''"

definition max_stored_tabs :: nat where
  "max_stored_tabs = 128"

definition storage_key :: "string \<Rightarrow> string \<Rightarrow> string" where
  "storage_key scope conn = storage_prefix @ '':'' @ encode_uri_component scope @ '':'' @ encode_uri_component conn"

record open_tabs =
  ot_open :: "string list"
  ot_active :: "string option"

definition open_tabs_of_json :: "json \<Rightarrow> open_tabs option" where
  "open_tabs_of_json v =
     (case json_get v ''open'' of
        Some (JArr xs) \<Rightarrow>
          Some \<lparr>ot_open = List.map_filter json_str xs,
                ot_active = Option.bind (json_get v ''active'') json_str\<rparr>
      | _ \<Rightarrow> None)"

definition read_open_tabs :: "(string \<Rightarrow> json option) \<Rightarrow> storage \<Rightarrow> string option \<Rightarrow> string \<Rightarrow> open_tabs option" where
  "read_open_tabs parse store scope conn =
     (if \<not> truthy scope then None
      else case store (storage_key (the scope) conn) of
             None \<Rightarrow> None
           | Some raw \<Rightarrow> Option.bind (parse raw) open_tabs_of_json)"

definition nullable_str :: "string option \<Rightarrow> json" where
  "nullable_str s = (case s of None \<Rightarrow> JNull | Some t \<Rightarrow> JStr t)"

definition kept_active :: "string list \<Rightarrow> string option \<Rightarrow> string option" where
  "kept_active open active = (if truthy active \<and> the active \<in> set open then active else None)"

definition tabs_json :: "open_tabs \<Rightarrow> json" where
  "tabs_json tabs =
     (let kept = take max_stored_tabs (ot_open tabs)
      in JObj [(''open'', JArr (map JStr kept)), (''active'', nullable_str (kept_active kept (ot_active tabs)))])"

text \<open>\<open>setItem\<close>: the write of a full storage throws, \<open>fits\<close> says whether it does not.\<close>

definition write_open_tabs ::
  "(json \<Rightarrow> string) \<Rightarrow> (storage \<Rightarrow> string \<Rightarrow> string \<Rightarrow> bool) \<Rightarrow> storage \<Rightarrow> string option \<Rightarrow> string \<Rightarrow> open_tabs
     \<Rightarrow> storage option" where
  "write_open_tabs stringify fits store scope conn tabs =
     (if \<not> truthy scope then Some store
      else let key = storage_key (the scope) conn; raw = stringify (tabs_json tabs)
           in if fits store key raw then Some (store(key := Some raw)) else None)"

definition restorable_open_tabs ::
  "open_tabs option \<Rightarrow> saved_document list \<Rightarrow> string set \<Rightarrow> string list \<Rightarrow> open_tabs" where
  "restorable_open_tabs stored saved closed opened =
     (let live = set (map sd_id saved) \<union> set opened;
          requested = (case stored of None \<Rightarrow> map sd_id saved | Some t \<Rightarrow> ot_open t) @ opened;
          open = dedup_seen [] (filter (\<lambda>i. i \<in> live \<and> i \<notin> closed) requested)
      in \<lparr>ot_open = open, ot_active = kept_active open (Option.bind stored ot_active)\<rparr>)"

text \<open>What the persist effect stores for a connection: its persisted documents in strip order.\<close>

definition open_tabs_of :: "workbench \<Rightarrow> string \<Rightarrow> open_tabs" where
  "open_tabs_of st conn =
     (let docs = filter (\<lambda>d. doc_connection d = conn \<and> is_sql d \<and> truthy (persisted_id d)) (documents st)
      in \<lparr>ot_open = map (\<lambda>d. the (persisted_id d)) docs,
          ot_active = Option.bind (last_match (\<lambda>d. Some (doc_id d) = active_id st) docs) persisted_id\<rparr>)"

section \<open>Consistency of the strip\<close>

text \<open>
  The identifiers the code gives: the connection (which has no colon), the kind, and for a saved document its
  own identifier.
\<close>

fun doc_ok :: "document \<Rightarrow> bool" where
  "doc_ok (DataDocument i c t) \<longleftrightarrow> CHR '':'' \<notin> set c \<and> i = c @ '':data:'' @ table_key t"
| "doc_ok (StableDocument i c k) \<longleftrightarrow> CHR '':'' \<notin> set c \<and> i = c @ '':'' @ stable_kind_name k"
| "doc_ok (SqlDocument i c b) \<longleftrightarrow> CHR '':'' \<notin> set c \<and> starts_with (c @ '':sql:'') i
     \<and> (sb_persisted b \<noteq> None \<longrightarrow> i = c @ '':sql:'' @ the (sb_persisted b))"
| "doc_ok (DocumentsDocument i c d) \<longleftrightarrow> CHR '':'' \<notin> set c \<and> starts_with (c @ '':documents:'') i"

definition wb_ok :: "workbench \<Rightarrow> bool" where
  "wb_ok st \<longleftrightarrow> list_all doc_ok (documents st) \<and> distinct (map doc_id (documents st))
     \<and> active_id st \<in> (if documents st = [] then {None} else Some ` doc_id ` set (documents st))"

fun action_ok :: "action \<Rightarrow> bool" where
  "action_ok (Initialize d) = doc_ok d"
| "action_ok (Activate d) = doc_ok d"
| "action_ok (RestoreSql conn saved open active) \<longleftrightarrow>
     CHR '':'' \<notin> set conn \<and> list_all (\<lambda>s. sd_connection s = conn) saved \<and> distinct open"
| "action_ok (Close i conn w) \<longleftrightarrow> CHR '':'' \<notin> set conn"
| "action_ok _ = True"

lemma doc_ok_connection: "doc_ok d \<Longrightarrow> CHR '':'' \<notin> set (doc_connection d) \<and> starts_with (doc_connection d @ '':'') (doc_id d)"
  by (cases d rule: doc_ok.cases) (auto simp: starts_with_iff)

lemma ok_same_connection:
  assumes "doc_ok d" "doc_ok e" "doc_id d = doc_id e"
  shows "doc_connection d = doc_connection e"
proof -
  have "takeWhile (\<lambda>x. x \<noteq> CHR '':'') (doc_id d) = doc_connection d" if "doc_ok d" for d
  proof -
    from doc_ok_connection [OF that] obtain t where "doc_id d = doc_connection d @ CHR '':'' # t" "CHR '':'' \<notin> set (doc_connection d)"
      by (auto simp: starts_with_iff)
    then show ?thesis by (auto simp: takeWhile_append takeWhile_tail)
  qed
  with assms show ?thesis by metis
qed

lemma ok_is_sql: "doc_ok d \<Longrightarrow> is_sql d \<longleftrightarrow> starts_with (doc_connection d @ '':sql:'') (doc_id d)"
proof (cases d)
  case (StableDocument i c k)
  moreover assume "doc_ok d"
  ultimately show ?thesis by (cases k) (auto simp: starts_with_iff)
qed (auto simp: starts_with_iff)

lemma ok_same_kind: "doc_ok d \<Longrightarrow> doc_ok e \<Longrightarrow> doc_id d = doc_id e \<Longrightarrow> is_sql d \<longleftrightarrow> is_sql e"
  using ok_same_connection [of d e] by (simp add: ok_is_sql)

lemma persisted_doc_id: "doc_ok d \<Longrightarrow> persisted_id d = Some p \<Longrightarrow> doc_id d = doc_connection d @ '':sql:'' @ p"
  by (cases d rule: doc_ok.cases) auto

lemma persisted_is_sql: "persisted_id d = Some p \<Longrightarrow> is_sql d"
  by (cases d) auto

lemma persisted_query_document_simps [simp]:
  "doc_id (persisted_query_document parse store s) = sd_connection s @ '':sql:'' @ sd_id s"
  "doc_connection (persisted_query_document parse store s) = sd_connection s"
  "persisted_id (persisted_query_document parse store s) = Some (sd_id s)"
  "is_sql (persisted_query_document parse store s)"
  by (simp_all add: persisted_query_document_def split: option.split)

lemma persisted_query_document_ok: "CHR '':'' \<notin> set (sd_connection s) \<Longrightarrow> doc_ok (persisted_query_document parse store s)"
  by (simp add: persisted_query_document_def starts_with_iff split: option.split)

lemma last_match_Some: "last_match p xs = Some x \<Longrightarrow> p x \<and> x \<in> set xs"
  using find_SomeD [of p "rev xs" x] by (simp add: last_match_def)

lemma last_match_None: "last_match p xs = None \<longleftrightarrow> (\<forall>x\<in>set xs. \<not> p x)"
  using find_None_iff' [of p "rev xs"] by (simp add: last_match_def)

lemma restored_document_ok:
  assumes "list_all doc_ok (documents st)" "CHR '':'' \<notin> set conn" "list_all (\<lambda>s. sd_connection s = conn) saved"
    and "restored_document parse store st conn saved p = Some d"
  shows "doc_ok d \<and> doc_connection d = conn \<and> persisted_id d = Some p \<and> doc_id d = conn @ '':sql:'' @ p"
proof (cases "already_open st conn p")
  case None
  with assms(4) obtain s where "last_match (\<lambda>s. sd_id s = p) saved = Some s" and d: "d = persisted_query_document parse store s"
    by (auto simp: restored_document_def)
  with last_match_Some [OF this(1)] assms(2,3) show ?thesis
    by (auto simp: persisted_query_document_ok list_all_iff)
next
  case (Some e)
  with assms(4) have "e = d" by (simp add: restored_document_def)
  with Some have "last_match (\<lambda>d. doc_connection d = conn \<and> persisted_id d = Some p) (documents st) = Some d"
    by (auto simp: already_open_def split: if_splits)
  from last_match_Some [OF this] assms(1) persisted_doc_id [of d p] show ?thesis by (auto simp: list_all_iff)
qed

lemma map_filter_facts:
  assumes "\<And>x y. f x = Some y \<Longrightarrow> g y = h x \<and> P y" and "inj h"
  shows "list_all P (List.map_filter f xs)" and "distinct xs \<Longrightarrow> distinct (map g (List.map_filter f xs))"
    and "map g (List.map_filter f xs) = map h (filter (\<lambda>x. f x \<noteq> None) xs)"
proof -
  show m: "map g (List.map_filter f xs) = map h (filter (\<lambda>x. f x \<noteq> None) xs)"
    by (induction xs) (auto simp: List.map_filter_simps assms(1) split: option.split)
  show "list_all P (List.map_filter f xs)"
    by (induction xs) (auto simp: List.map_filter_simps assms(1) split: option.split)
  show "distinct (map g (List.map_filter f xs))" if "distinct xs"
    using that inj_on_subset [OF assms(2) subset_UNIV] unfolding m by (simp add: distinct_map)
qed

lemma restored_documents_ok:
  assumes "list_all doc_ok (documents st)" "CHR '':'' \<notin> set conn" "list_all (\<lambda>s. sd_connection s = conn) saved"
  shows "list_all (\<lambda>d. doc_ok d \<and> doc_connection d = conn \<and> is_sql d) (restored_documents parse store st conn saved open)"
    and "distinct open \<Longrightarrow> distinct (map doc_id (restored_documents parse store st conn saved open))"
    and "map persisted_id (restored_documents parse store st conn saved open)
       = map Some (filter (\<lambda>p. restored_document parse store st conn saved p \<noteq> None) open)"
proof -
  let ?P = "\<lambda>d. doc_ok d \<and> doc_connection d = conn \<and> is_sql d"
  have one: "doc_id d = conn @ '':sql:'' @ p \<and> ?P d" "persisted_id d = Some p \<and> ?P d"
    if "restored_document parse store st conn saved p = Some d" for p d
    using restored_document_ok [OF assms that] persisted_is_sql by auto
  show "list_all ?P (restored_documents parse store st conn saved open)"
    unfolding restored_documents_def by (rule map_filter_facts(1) [where P = ?P and h = "\<lambda>p. conn @ '':sql:'' @ p", OF one(1)]) (simp_all add: inj_def)
  show "distinct (map doc_id (restored_documents parse store st conn saved open))" if "distinct open"
    unfolding restored_documents_def
    by (rule map_filter_facts(2) [where P = ?P and h = "\<lambda>p. conn @ '':sql:'' @ p", OF one(1) _ that]) (simp_all add: inj_def)
  show "map persisted_id (restored_documents parse store st conn saved open)
       = map Some (filter (\<lambda>p. restored_document parse store st conn saved p \<noteq> None) open)"
    unfolding restored_documents_def by (rule map_filter_facts(3) [where P = ?P and h = Some, OF one(2)]) simp_all
qed

text \<open>Two consistent lists whose documents differ in connection or kind join consistently.\<close>

lemma ok_join:
  assumes "list_all doc_ok xs" "list_all doc_ok ys" "distinct (map doc_id xs)" "distinct (map doc_id ys)"
    and "\<And>x y. x \<in> set xs \<Longrightarrow> y \<in> set ys \<Longrightarrow> doc_connection x \<noteq> doc_connection y \<or> is_sql x \<noteq> is_sql y"
  shows "list_all doc_ok (xs @ ys) \<and> distinct (map doc_id (xs @ ys))"
proof -
  have "doc_id x \<noteq> doc_id y" if "x \<in> set xs" "y \<in> set ys" for x y
    using ok_same_connection [of x y] ok_same_kind [of x y] assms(1,2) assms(5) [OF that] that
    by (auto simp: list_all_iff)
  with assms(1-4) show ?thesis by auto
qed

lemma wb_ok_filter: "wb_ok st \<Longrightarrow> list_all doc_ok (filter P (documents st)) \<and> distinct (map doc_id (filter P (documents st)))"
  by (auto simp: wb_ok_def list_all_iff distinct_map_filter)

lemma active_choice:
  assumes sub: "set r \<subseteq> set docs"
  shows "(if list_ex (\<lambda>d. Some (doc_id d) = a) r then a
     else case (if t then map_option doc_id (find q r) else None) of
            Some i \<Rightarrow> Some i
          | None \<Rightarrow> if list_ex (\<lambda>d. Some (doc_id d) = a) docs then a else map_option doc_id (first_row docs))
     \<in> (if docs = [] then {None} else Some ` doc_id ` set docs)"
proof (cases docs)
  case Nil
  with sub show ?thesis by (simp add: first_row_def)
next
  case (Cons e es)
  have ex: "list_ex (\<lambda>d. Some (doc_id d) = a) xs \<Longrightarrow> set xs \<subseteq> set docs \<Longrightarrow> a \<in> Some ` doc_id ` set docs" for xs
    by (simp add: list_ex_iff image_iff) blast
  have re: "find q r = Some d \<Longrightarrow> Some (doc_id d) \<in> Some ` doc_id ` set docs" for d
    using find_SomeD [of q r d] sub by auto
  have "map_option doc_id (first_row docs) \<in> Some ` doc_id ` set docs" using Cons by (simp add: first_row_def)
  with ex [of r] ex [of docs] sub re Cons show ?thesis
    by (auto simp del: Some_or_None split: option.split)
qed

lemma restore_sql_ok:
  assumes ok: "wb_ok st" and conn: "CHR '':'' \<notin> set conn" "list_all (\<lambda>s. sd_connection s = conn) saved" "distinct open"
  shows "wb_ok (restore_sql parse store st conn saved open active)"
proof -
  let ?r = "restored_documents parse store st conn saved open"
  let ?o = "filter (\<lambda>d. doc_connection d \<noteq> conn \<or> \<not> is_sql d) (documents st)"
  have all: "list_all doc_ok (documents st)" using ok by (simp add: wb_ok_def)
  note r = restored_documents_ok [OF all conn(1,2)]
  have "list_all doc_ok (?o @ ?r) \<and> distinct (map doc_id (?o @ ?r))"
  proof (rule ok_join)
    show "list_all doc_ok ?r" using r(1) by (simp add: list_all_iff)
  qed (use wb_ok_filter [OF ok] r(2) [OF conn(3)] r(1) in \<open>auto simp: list_all_iff\<close>)
  moreover have "active_id (restore_sql parse store st conn saved open active)
      \<in> (if ?o @ ?r = [] then {None} else Some ` doc_id ` set (?o @ ?r))"
    unfolding restore_sql_def Let_def workbench.select_convs by (rule active_choice) simp
  moreover have "documents (restore_sql parse store st conn saved open active) = ?o @ ?r"
    by (simp only: restore_sql_def Let_def workbench.select_convs)
  ultimately show ?thesis by (simp only: wb_ok_def simp_thms)
qed

lemma query_document_ok:
  "CHR '':'' \<notin> set conn \<Longrightarrow> doc_ok (snd (query_document now n conn k draft db title))
     \<and> doc_connection (snd (query_document now n conn k draft db title)) = conn"
  by (simp add: query_document_def Let_def starts_with_iff)

lemma close_document_ok:
  assumes ok: "wb_ok st" and conn: "CHR '':'' \<notin> set conn"
  shows "wb_ok (snd (close_document now n st i conn w))"
proof (cases "find_index (\<lambda>d. doc_id d = i) (filter (\<lambda>d. doc_connection d = conn) (documents st))")
  case None
  with ok show ?thesis by (simp add: close_document_def Let_def)
next
  case (Some index)
  define rest where "rest = filter (\<lambda>d. doc_id d \<noteq> i) (filter (\<lambda>d. doc_connection d = conn) (documents st))"
  define fresh where "fresh = (if w then stable_document conn Welcome
      else snd (query_document now n conn False None [] ''Untitled query''))"
  define remaining where "remaining = (if rest \<noteq> [] then rest else [fresh])"
  let ?other = "filter (\<lambda>d. doc_connection d \<noteq> conn) (documents st)"
  have eq: "snd (close_document now n st i conn w) =
      \<lparr>documents = ?other @ remaining,
       active_id = (if active_id st = Some i then map_option doc_id (char_at remaining (min index (length remaining - 1)))
                    else active_id st)\<rparr>"
    using Some by (auto simp: close_document_def Let_def remaining_def rest_def fresh_def split: prod.split)
  have fresh: "doc_ok fresh \<and> doc_connection fresh = conn"
    using conn query_document_ok [OF conn] by (simp add: fresh_def stable_document_def)
  have rem: "list_all (\<lambda>d. doc_ok d \<and> doc_connection d = conn) remaining" "distinct (map doc_id remaining)" "remaining \<noteq> []"
    using wb_ok_filter [OF ok, of "\<lambda>d. doc_connection d = conn \<and> doc_id d \<noteq> i"] fresh
    by (auto simp: remaining_def rest_def list_all_iff)
  have "list_all doc_ok (?other @ remaining) \<and> distinct (map doc_id (?other @ remaining))"
    by (rule ok_join) (use wb_ok_filter [OF ok] rem in \<open>auto simp: list_all_iff\<close>)
  moreover have "(if active_id st = Some i then map_option doc_id (char_at remaining (min index (length remaining - 1)))
      else active_id st) \<in> Some ` doc_id ` set (?other @ remaining)"
  proof (cases "active_id st = Some i")
    case True
    from rem(3) have "min index (length remaining - 1) < length remaining" by (cases remaining) auto
    with True show ?thesis by (auto simp: char_at_def)
  next
    case False
    have "documents st \<noteq> []" using Some by auto
    with ok obtain d where d: "d \<in> set (documents st)" "active_id st = Some (doc_id d)"
      by (auto simp: wb_ok_def)
    with False have "d \<in> set ?other \<or> d \<in> set rest" by (auto simp: rest_def)
    then have "d \<in> set (?other @ remaining)" by (auto simp: remaining_def)
    with False d show ?thesis by auto
  qed
  ultimately show ?thesis using rem(3) unfolding eq wb_ok_def by simp
qed

lemma update_sql_facts [simp]: "doc_id (update_sql i f d) = doc_id d" "doc_connection (update_sql i f d) = doc_connection d"
  by (cases d; simp)+

lemma update_documents_ok:
  assumes "wb_ok st" and "\<And>b. sb_persisted (f b) = sb_persisted b"
  shows "wb_ok (update_documents i f st)"
proof -
  have "doc_ok d \<Longrightarrow> doc_ok (update_sql i f d)" for d
    using assms(2) by (cases d) auto
  moreover have "map doc_id (map (update_sql i f) ds) = map doc_id ds" for ds by simp
  ultimately show ?thesis
    using assms(1) by (auto simp: wb_ok_def update_documents_def list_all_iff image_image comp_def split: if_splits)
qed

lemma reducer_ok:
  assumes "wb_ok (snd s)" and "action_ok a"
  shows "wb_ok (snd (workbench_reducer parse store now s a))"
proof -
  obtain n st where s: "s = (n, st)" by (cases s)
  with assms have ok: "wb_ok st" by simp
  show ?thesis
  proof (cases a)
    case (Activate d)
    have "\<forall>e\<in>set (documents st). doc_id e \<noteq> doc_id d \<Longrightarrow> wb_ok \<lparr>documents = documents st @ [d], active_id = Some (doc_id d)\<rparr>"
      using ok assms(2) Activate by (auto simp: wb_ok_def)
    moreover have "e \<in> set (documents st) \<Longrightarrow> doc_id e = doc_id d \<Longrightarrow> wb_ok \<lparr>documents = documents st, active_id = Some (doc_id d)\<rparr>" for e
      using ok by (auto simp: wb_ok_def image_iff split: if_splits) metis
    ultimately show ?thesis using s Activate by (auto simp: list_ex_iff)
  next
    case (ActivateId i)
    then show ?thesis using s ok by (auto simp: wb_ok_def list_ex_iff image_iff split: if_splits)
  qed (use s ok assms(2) restore_sql_ok [OF ok] close_document_ok [OF ok] update_documents_ok [OF ok]
        in \<open>auto simp: wb_ok_def empty_workbench_def simp del: map_map\<close>)
qed

definition guarded_reducer ::
  "(string \<Rightarrow> json option) \<Rightarrow> storage \<Rightarrow> nat \<times> workbench \<Rightarrow> nat \<times> action \<Rightarrow> nat \<times> workbench" where
  "guarded_reducer parse store s e = (if action_ok (snd e) then workbench_reducer parse store (fst e) s (snd e) else s)"

interpretation workbench: invariant_machine "guarded_reducer parse store" "\<lambda>s. wb_ok (snd s)" for parse store
  by unfold_locales (simp add: guarded_reducer_def reducer_ok)

text \<open>
C18. The document strip stays consistent. Whatever well-formed actions are dispatched in whatever order and at
whatever times from the empty strip, document identifiers stay unique, and as long as a document is open
exactly one of them is the active one.
\<close>

theorem workbench_stays_consistent:
  assumes "list_all (\<lambda>(t, a). action_ok a) es"
  shows "let st = snd (foldl (\<lambda>s (t, a). workbench_reducer parse store t s a) (n, empty_workbench) es)
    in distinct (map doc_id (documents st))
       \<and> length (filter (\<lambda>d. active_id st = Some (doc_id d)) (documents st)) = (if documents st = [] then 0 else 1)
       \<and> (documents st = [] \<longleftrightarrow> active_id st = None)"
proof -
  have same: "foldl (\<lambda>s (t, a). workbench_reducer parse store t s a) s0 es = foldl (guarded_reducer parse store) s0 es" for s0
    using assms by (induction es arbitrary: s0) (auto simp: guarded_reducer_def)
  define st where "st = snd (foldl (\<lambda>s (t, a). workbench_reducer parse store t s a) (n, empty_workbench) es)"
  have ok: "wb_ok st"
    unfolding st_def same by (rule workbench.run_inv) (simp add: wb_ok_def empty_workbench_def)
  have one: "length (filter (\<lambda>d. f d = x) ds) = 1" if "distinct (map f ds)" "x \<in> f ` set ds" for f :: "document \<Rightarrow> string" and ds x
  proof -
    from that obtain d where d: "d \<in> set ds" "x = f d" by auto
    with that(1) have "set (filter (\<lambda>e. f e = x) ds) = {d}" by (auto simp: distinct_map inj_on_def)
    moreover have "distinct (filter (\<lambda>e. f e = x) ds)" using that(1) by (simp add: distinct_map)
    ultimately show ?thesis using distinct_card [of "filter (\<lambda>e. f e = x) ds"] by simp
  qed
  have "length (filter (\<lambda>d. active_id st = Some (doc_id d)) (documents st)) = (if documents st = [] then 0 else 1)"
  proof (cases "documents st = []")
    case False
    with ok obtain x where x: "active_id st = Some x" "x \<in> doc_id ` set (documents st)" by (auto simp: wb_ok_def)
    moreover have "(\<lambda>d. Some x = Some (doc_id d)) = (\<lambda>d. doc_id d = x)" by auto
    ultimately show ?thesis using one [of doc_id "documents st" x] ok False by (simp add: wb_ok_def)
  qed simp
  with ok show ?thesis by (auto simp: st_def [symmetric] wb_ok_def split: if_splits)
qed

theorem workbench_stays_consistent_witness:
  "let st = snd (foldl (\<lambda>s (t, a). workbench_reducer (\<lambda>_. None) (\<lambda>_. None) t s a) (0, empty_workbench)
      [(7, Initialize (stable_document ''c'' Welcome)), (8, Close ''c:welcome'' ''c'' False)])
    in distinct (map doc_id (documents st)) \<and> active_id st \<noteq> None"
  using workbench_stays_consistent [of "[(7, Initialize (stable_document ''c'' Welcome)), (8, Close ''c:welcome'' ''c'' False)]"
      "\<lambda>_. None" "\<lambda>_. None" 0]
  by (simp add: stable_document_def close_document_def query_document_def Let_def)

section \<open>Tabs survive a restart\<close>

lemma of_char_hex: "k < 16 \<Longrightarrow> (of_char (hex_digit k) :: nat) = (if k < 10 then 48 + k else 55 + k)"
  by (simp add: hex_digit_def)

lemma hex_digit_inj:
  assumes "j < 16" "k < 16"
  shows "hex_digit j = hex_digit k \<longleftrightarrow> j = k"
proof
  assume "hex_digit j = hex_digit k"
  then have "(if j < 10 then 48 + j else 55 + j) = (if k < 10 then 48 + k else 55 + k)"
    using assms of_char_hex by metis
  then show "j = k" by (auto split: if_splits)
qed simp

lemma div_mod_eqD: "(m::nat) div k = n div k \<Longrightarrow> m mod k = n mod k \<Longrightarrow> m = n"
  by (metis div_mult_mod_eq)

lemma byte_div: "(n::nat) < 256 \<Longrightarrow> n div 16 < 16" "(n::nat) < 256 \<Longrightarrow> n div 64 < 4"
  by (simp_all add: div_less_iff_less_mult)

lemma percent_eq: "m < 256 \<Longrightarrow> n < 256 \<Longrightarrow> percent m @ r = percent n @ s \<longleftrightarrow> m = n \<and> r = s"
  using div_mod_eqD [of m 16 n] by (auto simp: percent_def hex_digit_inj)

lemma percent_not_unreserved: "\<not> unreserved CHR ''%''"
  by (simp add: unreserved_def char_class_defs)

lemma of_char_less: "(of_char c :: nat) < 256"
  by (cases c) (simp add: of_char_def)

lemma encode_char_cancel: "encode_char c @ r = encode_char d @ s \<longleftrightarrow> c = d \<and> r = s"
proof -
  have less: "(of_char c :: nat) < 256" "(of_char d :: nat) < 256" by (rule of_char_less)+
  have head: "\<not> unreserved x \<Longrightarrow> hd (encode_char x @ t) = CHR ''%''" for x t
    by (simp add: encode_char_def percent_def Let_def)
  have plain: "unreserved x \<Longrightarrow> encode_char x = [x]" for x by (simp add: encode_char_def)
  have mixed: "encode_char x @ t \<noteq> encode_char y @ u" if "unreserved x" "\<not> unreserved y" for x y t u
    using head [OF that(2), of u] plain [OF that(1)] that percent_not_unreserved by (metis append_Cons list.sel(1))
  consider "unreserved c" "unreserved d" | "unreserved c \<noteq> unreserved d" | "\<not> unreserved c" "\<not> unreserved d" by blast
  then show ?thesis
  proof cases
    case 1
    then show ?thesis by (simp add: plain)
  next
    case 2
    with mixed [of c d r s] mixed [of d c s r] show ?thesis by metis
  next
    case 3
    let ?n = "of_char c :: nat" and ?m = "of_char d :: nat"
    have split: "192 + ?n div 64 = 192 + ?m div 64 \<and> 128 + ?n mod 64 = 128 + ?m mod 64 \<longleftrightarrow> ?n = ?m"
      using div_mod_eqD [of ?n 64 ?m] by auto
    have small: "192 + ?n div 64 < 256" "192 + ?m div 64 < 256" "128 + ?n mod 64 < 256" "128 + ?m mod 64 < 256"
      using byte_div(2) [OF less(1)] byte_div(2) [OF less(2)] by auto
    show ?thesis
      using 3 less small split
      by (auto simp: encode_char_def Let_def percent_eq of_char_eq_iff)
  qed
qed

lemma encode_inj: "encode_uri_component s = encode_uri_component t \<longleftrightarrow> s = t"
proof (induction s arbitrary: t)
  case Nil
  have "encode_char c \<noteq> []" for c by (simp add: encode_char_def percent_def Let_def)
  then show ?case by (cases t) (auto simp: encode_uri_component_def)
next
  case (Cons c s)
  have "encode_char d \<noteq> []" for d by (simp add: encode_char_def percent_def Let_def)
  then show ?case
    using Cons by (cases t) (auto simp: encode_uri_component_def encode_char_cancel)
qed

lemma hex_digit_colon: "k < 16 \<Longrightarrow> hex_digit k \<noteq> CHR '':''"
  using of_char_hex [of k] by (auto split: if_splits)

lemma percent_colon: "b < 256 \<Longrightarrow> CHR '':'' \<notin> set (percent b)"
  using byte_div(1) [of b] hex_digit_colon [of "b div 16"] hex_digit_colon [of "b mod 16"] by (auto simp: percent_def)

lemma encode_no_colon: "CHR '':'' \<notin> set (encode_uri_component s)"
proof -
  have "CHR '':'' \<notin> set (encode_char c)" for c
  proof (cases "unreserved c")
    case True
    then have "c \<noteq> CHR '':''" by (auto simp: unreserved_def char_class_defs)
    with True show ?thesis by (simp add: encode_char_def)
  next
    case False
    then show ?thesis
      using of_char_less [of c] byte_div(2) [OF of_char_less [of c]] percent_colon [of "of_char c"] percent_colon [of "192 + of_char c div 64"]
        percent_colon [of "128 + of_char c mod 64"]
      by (simp add: encode_char_def Let_def)
  qed
  then show ?thesis by (auto simp: encode_uri_component_def)
qed

lemma storage_key_inj: "storage_key a b = storage_key c d \<longleftrightarrow> a = c \<and> b = d"
  by (simp add: storage_key_def append_Cons_eq_iff encode_no_colon encode_inj)

lemma map_filter_json_str [simp]: "List.map_filter json_str (map JStr xs) = xs"
  by (induction xs) (simp_all add: List.map_filter_simps)

lemma truthy_Some [simp]: "truthy (Some s) \<longleftrightarrow> s \<noteq> []" "\<not> truthy None"
  by (simp_all add: truthy_def)

lemma kept_active_facts:
  "kept_active xs (kept_active xs a) = kept_active xs a"
  "[] \<notin> set xs \<Longrightarrow> p \<in> set xs \<Longrightarrow> kept_active xs (Some p) = Some p"
  by (auto simp: kept_active_def)

lemma dedup_seen_distinct: "distinct xs \<Longrightarrow> set xs \<inter> set seen = {} \<Longrightarrow> dedup_seen seen xs = xs"
  by (induction xs arbitrary: seen) auto

text \<open>Reading back what was written, and that nothing else changes.\<close>

lemma write_then_read:
  assumes "write_open_tabs stringify fits store (Some scope) conn tabs = Some store'" "scope \<noteq> []"
    and "parse (stringify (tabs_json tabs)) = Some (tabs_json tabs)"
  defines "kept \<equiv> take max_stored_tabs (ot_open tabs)"
  shows "read_open_tabs parse store' (Some scope) conn = Some \<lparr>ot_open = kept, ot_active = kept_active kept (ot_active tabs)\<rparr>"
    and "(scope', conn') \<noteq> (scope, conn) \<Longrightarrow> read_open_tabs parse store' (Some scope') conn' = read_open_tabs parse store (Some scope') conn'"
  using assms
  by (auto simp: write_open_tabs_def read_open_tabs_def Let_def open_tabs_of_json_def tabs_json_def nullable_str_def
      storage_key_inj split: if_splits option.splits)

lemma persisted_injective:
  assumes "wb_ok st"
  shows "distinct (ot_open (open_tabs_of st conn))" and "[] \<notin> set (ot_open (open_tabs_of st conn))"
proof -
  let ?docs = "filter (\<lambda>d. doc_connection d = conn \<and> is_sql d \<and> truthy (persisted_id d)) (documents st)"
  have "doc_id d = conn @ '':sql:'' @ the (persisted_id d)" if "d \<in> set ?docs" for d
    using that assms persisted_doc_id [of d "the (persisted_id d)"] by (auto simp: wb_ok_def list_all_iff truthy_def)
  then have "map doc_id ?docs = map ((@) (conn @ '':sql:'')) (map (\<lambda>d. the (persisted_id d)) ?docs)" by simp
  moreover have "distinct (map doc_id ?docs)" using wb_ok_filter [OF assms] by blast
  ultimately have "distinct (map ((@) (conn @ '':sql:'')) (map (\<lambda>d. the (persisted_id d)) ?docs))" by (simp only:)
  then show "distinct (ot_open (open_tabs_of st conn))"
    unfolding open_tabs_of_def Let_def open_tabs.select_convs by (rule distinct_map [THEN iffD1, THEN conjunct1])
  show "[] \<notin> set (ot_open (open_tabs_of st conn))" by (auto simp: open_tabs_of_def Let_def truthy_def)
qed

lemma restorable_same:
  assumes "distinct xs" "set xs \<subseteq> set (map sd_id saved)"
  shows "restorable_open_tabs (Some \<lparr>ot_open = xs, ot_active = kept_active xs a\<rparr>) saved {} []
    = \<lparr>ot_open = xs, ot_active = kept_active xs a\<rparr>"
proof -
  have "filter (\<lambda>i. i \<in> sd_id ` set saved) xs = xs" using assms(2) by (auto simp: filter_id_conv)
  then show ?thesis
    using assms(1) by (simp add: restorable_open_tabs_def Let_def dedup_seen_distinct kept_active_facts)
qed

lemma restore_from_empty:
  fixes parse :: "string \<Rightarrow> json option" and store :: storage
  assumes conn: "CHR '':'' \<notin> set conn" "list_all (\<lambda>s. sd_connection s = conn) saved"
    and xs: "distinct xs" "[] \<notin> set xs" "set xs \<subseteq> set (map sd_id saved)" and a: "a = Some p \<Longrightarrow> p \<in> set xs"
  defines "st' \<equiv> restore_sql parse store empty_workbench conn saved xs a"
  shows "ot_open (open_tabs_of st' conn) = xs"
    and "a = Some p \<Longrightarrow> ot_active (open_tabs_of st' conn) = Some p"
proof -
  let ?r = "restored_documents parse store empty_workbench conn saved xs"
  have e: "list_all doc_ok (documents empty_workbench)" by (simp add: empty_workbench_def)
  note r = restored_documents_ok [where parse = parse and store = store, OF e conn]
  have found: "restored_document parse store empty_workbench conn saved q \<noteq> None" if "q \<in> set xs" for q
  proof -
    have "last_match (\<lambda>s. sd_id s = q) saved \<noteq> None"
      using that xs(3) last_match_None [of "\<lambda>s. sd_id s = q" saved] by auto
    then show ?thesis by (auto simp: restored_document_def split: option.split)
  qed
  have ids: "map persisted_id ?r = map Some xs"
    using r(3) [of xs] found by (simp add: filter_id_conv)
  have docs: "documents st' = ?r" by (simp add: st'_def restore_sql_def Let_def empty_workbench_def)
  have "truthy (persisted_id d)" if "d \<in> set ?r" for d
  proof -
    have "persisted_id d \<in> set (map Some xs)" unfolding ids [symmetric] using that by simp
    then show ?thesis using xs(2) by auto
  qed
  then have f: "filter (\<lambda>d. doc_connection d = conn \<and> is_sql d \<and> truthy (persisted_id d)) ?r = ?r"
    using r(1) [of xs] by (auto simp: filter_id_conv list_all_iff)
  have "map (the \<circ> persisted_id) ?r = map the (map Some xs)" unfolding ids [symmetric] by simp
  then show "ot_open (open_tabs_of st' conn) = xs"
    unfolding open_tabs_of_def Let_def open_tabs.select_convs docs f by (simp add: comp_def)
  assume p: "a = Some p"
  with a xs(2) have "p \<in> set xs" "p \<noteq> []" by auto
  have "Some p \<in> set (map persisted_id ?r)" unfolding ids using \<open>p \<in> set xs\<close> by simp
  then have "find (\<lambda>d. persisted_id d = Some p) ?r \<noteq> None" by (auto simp: find_None_iff')
  then obtain d where d: "find (\<lambda>d. persisted_id d = Some p) ?r = Some d" by auto
  have uid: "doc_id x = conn @ '':sql:'' @ q" if "x \<in> set ?r" "persisted_id x = Some q" for x q
    using r(1) [of xs] that persisted_doc_id by (auto simp: list_all_iff)
  have dp: "persisted_id d = Some p" "d \<in> set ?r" using find_SomeD [OF d] by auto
  have act: "active_id st' = Some (doc_id d)"
    using d p \<open>p \<noteq> []\<close> by (simp add: st'_def restore_sql_def Let_def empty_workbench_def list_ex_iff)
  have same: "persisted_id x = Some p" if x: "x \<in> set ?r" "doc_id x = doc_id d" for x
  proof -
    have "persisted_id x \<in> set (map Some xs)" unfolding ids [symmetric] using x by simp
    then obtain q where "persisted_id x = Some q" by auto
    with uid [OF x(1) this] uid [OF dp(2,1)] x(2) show ?thesis by simp
  qed
  obtain x where x: "last_match (\<lambda>x. Some (doc_id x) = active_id st') ?r = Some x"
    using dp(2) act last_match_None [of "\<lambda>x. Some (doc_id x) = active_id st'" ?r] by fastforce
  with last_match_Some [OF x] act same have "persisted_id x = Some p" by auto
  with x show "ot_active (open_tabs_of st' conn) = Some p"
    unfolding open_tabs_of_def Let_def open_tabs.select_convs docs f by simp
qed

text \<open>
C19. Open tabs survive a restart. When the strip of a connection was stored and its documents are still saved, then
reading the record, keeping what is restorable and restoring it into an empty strip opens the same saved
documents in the same order (the first 128 of them) with the same one active, and the stored tabs of every other scope or
connection are as before. The hypothesis on \<open>JSON\<close> is that parsing the stored object gives it back.
\<close>

theorem tabs_survive_restart:
  assumes "wb_ok st" "CHR '':'' \<notin> set conn" "list_all (\<lambda>s. sd_connection s = conn) saved" "scope \<noteq> []"
    and "set (ot_open (open_tabs_of st conn)) \<subseteq> set (map sd_id saved)"
    and "write_open_tabs stringify fits store (Some scope) conn (open_tabs_of st conn) = Some store'"
    and "parse (stringify (tabs_json (open_tabs_of st conn))) = Some (tabs_json (open_tabs_of st conn))"
  shows "let kept = take 128 (ot_open (open_tabs_of st conn));
      tabs = restorable_open_tabs (read_open_tabs parse store' (Some scope) conn) saved {} [];
      st' = restore_sql parse store' empty_workbench conn saved (ot_open tabs) (ot_active tabs)
    in ot_open (open_tabs_of st' conn) = kept
       \<and> (ot_active (open_tabs_of st conn) \<in> Some ` set kept
            \<longrightarrow> ot_active (open_tabs_of st' conn) = ot_active (open_tabs_of st conn))
       \<and> ((scope', conn') \<noteq> (scope, conn)
            \<longrightarrow> read_open_tabs parse store' (Some scope') conn' = read_open_tabs parse store (Some scope') conn')"
proof -
  define kept where "kept = take 128 (ot_open (open_tabs_of st conn))"
  define act where "act = kept_active kept (ot_active (open_tabs_of st conn))"
  note rd = write_then_read [where parse = parse and stringify = stringify, OF assms(6,4,7), folded kept_def act_def, unfolded max_stored_tabs_def, folded kept_def act_def]
  have k: "distinct kept" "[] \<notin> set kept" "set kept \<subseteq> set (map sd_id saved)"
    using persisted_injective [OF assms(1), of conn] assms(5)
    by (auto simp: kept_def distinct_take dest: in_set_takeD)
  have tabs: "restorable_open_tabs (read_open_tabs parse store' (Some scope) conn) saved {} [] = \<lparr>ot_open = kept, ot_active = act\<rparr>"
    using rd(1) restorable_same [OF k(1,3)] by (simp add: act_def)
  have a: "act = Some p \<Longrightarrow> p \<in> set kept" for p
    by (auto simp: act_def kept_active_def split: if_splits)
  note re = restore_from_empty [OF assms(2,3) k a]
  have "ot_active (open_tabs_of st conn) = Some p \<Longrightarrow> p \<in> set kept \<Longrightarrow> act = Some p" for p
    using k(2) by (auto simp: act_def kept_active_facts)
  with re rd(2) show ?thesis
    unfolding kept_def [symmetric] tabs by (auto simp: Let_def)
qed

definition example_saved :: saved_document where
  "example_saved = \<lparr>sd_id = ''d1'', sd_connection = ''c'', sd_title = ''T'', sd_database = [], sd_schema = None,
     sd_mode = Script, sd_content = ''SELECT 1'', sd_revision = 3\<rparr>"

definition example_strip :: workbench where
  "example_strip = \<lparr>documents = [stable_document ''c'' Welcome, persisted_query_document (\<lambda>_. None) (\<lambda>_. None) example_saved],
     active_id = Some ''c:sql:d1''\<rparr>"

theorem tabs_survive_restart_witness:
  "let t = \<lparr>ot_open = [''d1''], ot_active = Some ''d1''\<rparr>;
       store' = (\<lambda>_. None)(storage_key ''s'' ''c'' := Some ''x'');
       tabs = restorable_open_tabs (read_open_tabs (\<lambda>_. Some (tabs_json t)) store' (Some ''s'') ''c'') [example_saved] {} [];
       st' = restore_sql (\<lambda>_. Some (tabs_json t)) store' empty_workbench ''c'' [example_saved] (ot_open tabs) (ot_active tabs)
   in open_tabs_of st' ''c'' = t"
proof -
  let ?t = "\<lparr>ot_open = [''d1''], ot_active = Some ''d1''\<rparr>"
  have t: "open_tabs_of example_strip ''c'' = ?t"
    by (simp add: open_tabs_of_def example_strip_def example_saved_def stable_document_def persisted_query_document_def
        read_recovery_def last_match_def truthy_def Let_def)
  have ok: "wb_ok example_strip"
    by (simp add: wb_ok_def example_strip_def example_saved_def stable_document_def persisted_query_document_def
        read_recovery_def starts_with_iff)
  have w: "write_open_tabs (\<lambda>_. ''x'') (\<lambda>_ _ _. True) (\<lambda>_. None) (Some ''s'') ''c'' (open_tabs_of example_strip ''c'')
      = Some ((\<lambda>_. None)(storage_key ''s'' ''c'' := Some ''x''))"
    by (simp add: write_open_tabs_def Let_def truthy_def)
  have "list_all (\<lambda>s. sd_connection s = ''c'') [example_saved]" "set (ot_open (open_tabs_of example_strip ''c'')) \<subseteq> set (map sd_id [example_saved])"
    unfolding t by (simp_all add: example_saved_def)
  with tabs_survive_restart [OF ok _ _ _ _ w, of "[example_saved]" "\<lambda>_. Some (tabs_json ?t)" "''s''" "''c''"]
  show ?thesis by (auto simp: t Let_def intro!: open_tabs.equality)
qed

end
