(* ===== verification/Utf16.thy ===== *)
theory Utf16
  imports Prelude
begin

text \<open>
  Strings as lists of UTF-16 code units (natural numbers below 65536), for the code that distinguishes
  code units from code points: \<open>codePointOrder\<close> of \<open>src/lib/schemaDiff.ts\<close>, iteration by code point, the quoting of
  \<open>JSON.stringify\<close>, and the white space of \<open>trim\<close> on the whole code unit range.
\<close>

type_synonym ustr = "nat list"

definition u :: "string \<Rightarrow> ustr" where
  "u s = map of_char s"

definition units_ok :: "ustr \<Rightarrow> bool" where
  "units_ok s = list_all (\<lambda>x. x < 65536) s"

definition high_surrogate :: "nat \<Rightarrow> bool" where
  "high_surrogate x \<longleftrightarrow> 55296 \<le> x \<and> x < 56320"

definition low_surrogate :: "nat \<Rightarrow> bool" where
  "low_surrogate x \<longleftrightarrow> 56320 \<le> x \<and> x < 57344"

section \<open>Code points\<close>

text \<open>\<open>s.codePointAt(0)\<close> of a non-empty string.\<close>

fun first_point :: "ustr \<Rightarrow> nat" where
  "first_point [] = 0"
| "first_point [x] = x"
| "first_point (x # y # s) =
     (if high_surrogate x \<and> low_surrogate y then 65536 + (x - 55296) * 1024 + (y - 56320) else x)"

definition point_units :: "nat \<Rightarrow> nat" where
  "point_units p = (if p > 65535 then 2 else 1)"

lemma point_units_pos [simp]: "0 < point_units p"
  by (simp add: point_units_def)

text \<open>The loop of \<open>codePointOrder\<close>, on the texts behind the two indices.\<close>

function code_point_order :: "ustr \<Rightarrow> ustr \<Rightarrow> int" where
  "code_point_order l r =
     (if l = [] \<or> r = [] then of_bool (l \<noteq> []) - of_bool (r \<noteq> [])
      else let p = first_point l; q = first_point r
           in if p \<noteq> q then (if p < q then - 1 else 1)
              else code_point_order (drop (point_units p) l) (drop (point_units q) r))"
  by pat_completeness auto
termination
  by (relation "measure (\<lambda>(l, r). length l)") auto

declare code_point_order.simps [simp del]

text \<open>Iteration of a string: its code points, and the code units of a code point.\<close>

function code_points :: "ustr \<Rightarrow> nat list" where
  "code_points s = (if s = [] then [] else first_point s # code_points (drop (point_units (first_point s)) s))"
  by pat_completeness auto
termination
  by (relation "measure length") auto

declare code_points.simps [simp del]

lemma code_points_Nil [simp]: "code_points [] = []"
  by (simp add: code_points.simps)

definition point_text :: "nat \<Rightarrow> ustr" where
  "point_text p = (if p > 65535 then [55296 + (p - 65536) div 1024, 56320 + (p - 65536) mod 1024] else [p])"

lemma first_point_text:
  assumes "s \<noteq> []" "units_ok s"
  shows "point_text (first_point s) @ drop (point_units (first_point s)) s = s"
proof -
  obtain x t where s: "s = x # t" using assms(1) by (cases s) auto
  have x: "x < 65536" using assms(2) by (simp add: s units_ok_def)
  show ?thesis
  proof (cases t)
    case Nil
    then show ?thesis using x by (simp add: s point_text_def point_units_def)
  next
    case (Cons y t')
    show ?thesis
    proof (cases "high_surrogate x \<and> low_surrogate y")
      case False
      then show ?thesis using x by (auto simp: s Cons point_text_def point_units_def)
    next
      case True
      define a b where "a = x - 55296" and "b = y - 56320"
      have ab: "x = 55296 + a" "y = 56320 + b" "b < 1024" using True by (auto simp: a_def b_def high_surrogate_def low_surrogate_def)
      have "(a * 1024 + b) div 1024 = a" "(a * 1024 + b) mod 1024 = b" using ab(3) by simp_all
      then show ?thesis using True ab by (simp add: s Cons point_text_def point_units_def add.assoc)
    qed
  qed
qed

lemma code_points_text: "units_ok s \<Longrightarrow> concat (map point_text (code_points s)) = s"
proof (induction s rule: code_points.induct)
  case (1 s)
  show ?case
  proof (cases "s = []")
    case False
    have "units_ok (drop (point_units (first_point s)) s)"
      using 1(2) by (auto simp: units_ok_def list_all_iff dest: in_set_dropD)
    with 1(1) [OF False] first_point_text [OF False 1(2)] False show ?thesis
      by (subst code_points.simps) simp
  qed simp
qed

lemma code_points_inject: "units_ok s \<Longrightarrow> units_ok t \<Longrightarrow> code_points s = code_points t \<longleftrightarrow> s = t"
  using code_points_text by metis

lemma code_point_order_key: "code_point_order l r = cmp_key code_points l r"
proof (induction l r rule: code_point_order.induct)
  case (1 l r)
  show ?case
  proof (cases "l = [] \<or> r = []")
    case True
    then show ?thesis
      by (subst code_point_order.simps) (auto simp: cmp_key_def code_points.simps [of l] code_points.simps [of r])
  next
    case False
    define p q where "p = first_point l" and "q = first_point r"
    have l: "code_points l = p # code_points (drop (point_units p) l)"
      and r: "code_points r = q # code_points (drop (point_units q) r)"
      using False by (simp_all add: p_def q_def code_points.simps [of l] code_points.simps [of r])
    have "p = q \<Longrightarrow> code_point_order (drop (point_units p) l) (drop (point_units q) r)
        = cmp_key code_points (drop (point_units p) l) (drop (point_units q) r)"
      using 1 [OF False p_def q_def] by simp
    then show ?thesis
      using False by (subst code_point_order.simps) (auto simp: p_def [symmetric] q_def [symmetric] cmp_key_def l r Let_def)
  qed
qed

interpretation point_order: js_comparator code_point_order
  unfolding code_point_order_key [abs_def] by unfold_locales auto

text \<open>
Objects sort in Unicode code-point order. \<open>codePointOrder\<close> on UTF-16 code units is the lexicographic order of
the code points the two strings stand for, lone surrogates included, so astral characters come after every
character of the basic plane; two strings compare equal only when they are the same string.
\<close>

theorem code_point_order_is_lexicographic:
  assumes "units_ok l" and "units_ok r"
  shows "(code_point_order l r < 0 \<longleftrightarrow> code_points l < code_points r)
    \<and> (code_point_order l r > 0 \<longleftrightarrow> code_points r < code_points l)
    \<and> (code_point_order l r = 0 \<longleftrightarrow> l = r)
    \<and> concat (map point_text (code_points l)) = l"
  using assms code_points_inject [OF assms] code_points_text [OF assms(1)]
  by (auto simp: code_point_order_key cmp_key_def)

theorem code_point_order_is_lexicographic_witness:
  "code_point_order [55357, 56832] [57344] > 0 \<and> code_points [57344] < code_points [55357, 56832]"
proof -
  have "code_points [57344] = [57344]" "code_points [55357, 56832] = [128512]"
    by (simp_all add: code_points.simps point_units_def high_surrogate_def low_surrogate_def)
  then show ?thesis
    using code_point_order_is_lexicographic [of "[55357, 56832]" "[57344]"] by (simp add: units_ok_def)
qed

section \<open>White space and JSON strings\<close>

definition u_space :: "nat \<Rightarrow> bool" where
  "u_space x \<longleftrightarrow> x \<in> {9, 10, 11, 12, 13, 32, 160, 5760, 8232, 8233, 8239, 8287, 12288, 65279} \<or> (8192 \<le> x \<and> x \<le> 8202)"

definition u_trim :: "ustr \<Rightarrow> ustr" where
  "u_trim s = rev (dropWhile u_space (rev (dropWhile u_space s)))"

definition hex_unit :: "nat \<Rightarrow> nat" where
  "hex_unit k = (if k < 10 then 48 + k else 87 + k)"

definition hex4 :: "nat \<Rightarrow> ustr" where
  "hex4 x = [hex_unit (x div 4096), hex_unit (x div 256 mod 16), hex_unit (x div 16 mod 16), hex_unit (x mod 16)]"

definition short_escapes :: "(nat \<times> nat) list" where
  "short_escapes = [(34, 34), (92, 92), (8, 98), (9, 116), (10, 110), (12, 102), (13, 114)]"

text \<open>\<open>JSON.stringify\<close> of a string: short escapes, \<open>\\u\<close> for controls and lone surrogates, the rest as it is.\<close>

fun json_units :: "ustr \<Rightarrow> ustr" where
  "json_units [] = []"
| "json_units (x # s) =
     (case map_of short_escapes x of
        Some c \<Rightarrow> [92, c] @ json_units s
      | None \<Rightarrow>
          if x < 32 \<or> low_surrogate x then [92, 117] @ hex4 x @ json_units s
          else if high_surrogate x then
            (case s of
               [] \<Rightarrow> [92, 117] @ hex4 x
             | y # t \<Rightarrow> if low_surrogate y then x # y # json_units t else [92, 117] @ hex4 x @ json_units s)
          else x # json_units s)"

definition json_string :: "ustr \<Rightarrow> ustr" where
  "json_string s = 34 # json_units s @ [34]"

text \<open>A reader for these strings, which shows that quoting loses nothing.\<close>

definition unhex :: "nat \<Rightarrow> nat" where
  "unhex d = (if d < 58 then d - 48 else d - 87)"

definition short_unescapes :: "(nat \<times> nat) list" where
  "short_unescapes = map prod.swap short_escapes"

function read_json :: "ustr \<Rightarrow> (ustr \<times> ustr) option" where
  "read_json s =
     (case s of
        [] \<Rightarrow> None
      | x # t \<Rightarrow>
          if x = 34 then Some ([], t)
          else if x = 92 then
            (case t of
               [] \<Rightarrow> None
             | c # v \<Rightarrow>
                 if c = 117 then
                   (if length v < 4 then None
                    else map_option (\<lambda>(r, rest). ((unhex (v ! 0) * 4096 + unhex (v ! 1) * 256 + unhex (v ! 2) * 16 + unhex (v ! 3)) # r, rest))
                           (read_json (drop 4 v)))
                 else (case map_of short_unescapes c of
                         None \<Rightarrow> None
                       | Some y \<Rightarrow> map_option (\<lambda>(r, rest). (y # r, rest)) (read_json v)))
          else map_option (\<lambda>(r, rest). (x # r, rest)) (read_json t))"
  by pat_completeness auto
termination
  by (relation "measure length") auto

declare read_json.simps [simp del]

lemma unhex_hex: "k < 16 \<Longrightarrow> unhex (hex_unit k) = k"
  by (auto simp: unhex_def hex_unit_def)

lemma hex4_value:
  assumes "x < 65536"
  shows "unhex (hex4 x ! 0) * 4096 + unhex (hex4 x ! 1) * 256 + unhex (hex4 x ! 2) * 16 + unhex (hex4 x ! 3) = x"
proof -
  have b: "x div 4096 < 16" using assms by (simp add: div_less_iff_less_mult)
  define q r where "q = x div 16" and "r = x div 256"
  have e: "x = q * 16 + x mod 16" "q = r * 16 + q mod 16" "r = x div 4096 * 16 + r mod 16"
    using div_mult_mod_eq [of x 16] div_mult_mod_eq [of q 16] div_mult_mod_eq [of r 16]
    by (simp_all add: q_def r_def flip: div_mult2_eq)
  have "x div 4096 * 4096 + (r mod 16) * 256 + (q mod 16) * 16 + x mod 16 = x"
    using e by linarith
  then show ?thesis using b by (simp add: hex4_def unhex_hex q_def r_def)
qed

lemma read_short: "map_of short_escapes x = Some c \<Longrightarrow> read_json ([92, c] @ r) = map_option (\<lambda>(v, rest). (x # v, rest)) (read_json r)"
  by (subst read_json.simps) (auto simp: short_escapes_def short_unescapes_def split: if_splits)

lemma read_hex: "x < 65536 \<Longrightarrow> read_json ([92, 117] @ hex4 x @ r) = map_option (\<lambda>(v, rest). (x # v, rest)) (read_json r)"
  using hex4_value [of x] by (subst read_json.simps) (simp add: hex4_def)

lemma read_plain: "x \<noteq> 34 \<Longrightarrow> x \<noteq> 92 \<Longrightarrow> read_json (x # r) = map_option (\<lambda>(v, rest). (x # v, rest)) (read_json r)"
  by (subst read_json.simps) simp

lemma not_short: "map_of short_escapes x = None \<Longrightarrow> x \<noteq> 34 \<and> x \<noteq> 92"
  by (auto simp: short_escapes_def split: if_splits)

lemma read_json_units: "units_ok s \<Longrightarrow> read_json (json_units s @ 34 # r) = Some (s, r)"
proof (induction s rule: json_units.induct)
  case 1
  then show ?case by (subst read_json.simps) simp
next
  case (2 x s)
  have ok: "x < 65536" "units_ok s" using "2.prems" by (simp_all add: units_ok_def)
  show ?case
  proof (cases "map_of short_escapes x")
    case (Some c)
    then show ?thesis using 2(5) [OF Some ok(2)] read_short [OF Some, of "json_units s @ 34 # r"] by simp
  next
    case None
    note plain = not_short [OF None]
    show ?thesis
    proof (cases "x < 32 \<or> low_surrogate x")
      case True
      then show ?thesis using None 2(1) [OF None True ok(2)] read_hex [OF ok(1), of "json_units s @ 34 # r"] by simp
    next
      case n: False
      show ?thesis
      proof (cases "high_surrogate x")
        case False
        then show ?thesis using None n 2(4) [OF None n False ok(2)] read_plain plain by simp
      next
        case h: True
        show ?thesis
        proof (cases s)
          case Nil
          have "read_json (34 # r) = Some ([], r)" by (subst read_json.simps) simp
          then show ?thesis using None n h Nil read_hex [OF ok(1), of "34 # r"] by simp
        next
          case (Cons y t)
          show ?thesis
          proof (cases "low_surrogate y")
            case True
            then have "y \<noteq> 34" "y \<noteq> 92" by (auto simp: low_surrogate_def)
            moreover have "units_ok t" using ok(2) Cons by (simp add: units_ok_def)
            ultimately show ?thesis
              using None n h Cons True 2(2) [OF None n h Cons True] plain by (simp add: read_plain)
          next
            case False
            then show ?thesis
              using None n h Cons 2(3) [OF None n h Cons False] ok(2) read_hex [OF ok(1), of "json_units s @ 34 # r"] by simp
          qed
        qed
      qed
    qed
  qed
qed

lemma json_string_inject:
  assumes "units_ok s" "units_ok t"
  shows "json_string s @ r = json_string t @ r' \<longleftrightarrow> s = t \<and> r = r'"
proof
  assume "json_string s @ r = json_string t @ r'"
  then have "json_units s @ 34 # r = json_units t @ 34 # r'" by (simp add: json_string_def)
  then have "Some (s, r) = Some (t, r')"
    using read_json_units [OF assms(1), of r] read_json_units [OF assms(2), of r'] by metis
  then show "s = t \<and> r = r'" by blast
qed simp

end
