(* ===== verification/SchemaDiff.thy ===== *)
theory SchemaDiff
  imports Utf16
begin

text \<open>
  The catalog comparison of \<open>src/lib/schemaDiff.ts\<close>: relation identities, column signatures, the entries
  for one table, the summary with its object order, and the tone of a table. Texts are lists of UTF-16 code
  units. \<open>String.prototype.toLowerCase\<close> of a single code point is the argument \<open>lower\<close>.
\<close>

section \<open>Catalogs\<close>

record column =
  co_name :: ustr
  co_type :: ustr
  co_nullable :: bool
  co_pk :: bool

record index_def =
  ix_name :: ustr
  ix_columns :: "ustr list"
  ix_unique :: bool

record foreign_key =
  fk_column :: ustr
  fk_schema :: "ustr option"
  fk_table :: ustr
  fk_target :: ustr

record relation =
  rl_database :: "ustr option"
  rl_schema :: "ustr option"
  rl_name :: ustr
  rl_kind :: ustr
  rl_columns :: "column list"
  rl_indexes :: "index_def list"
  rl_foreign_keys :: "foreign_key list"

type_synonym catalog = "relation list"

text \<open>\<open>new Map(entries)\<close>: the last value of a key wins, at the place of the first.\<close>

definition js_map :: "('k \<times> 'v) list \<Rightarrow> ('k \<times> 'v) list" where
  "js_map es = foldl (\<lambda>m (k, v). js_set k v m) [] es"

definition named :: "('a \<Rightarrow> 'k) \<Rightarrow> ('a \<Rightarrow> 'v) \<Rightarrow> 'a list \<Rightarrow> ('k \<times> 'v) list" where
  "named key val xs = js_map (map (\<lambda>x. (key x, val x)) xs)"

section \<open>Identities and values\<close>

definition relation_identity :: "relation \<Rightarrow> ustr" where
  "relation_identity t =
     u ''['' @ (case rl_schema t of None \<Rightarrow> u ''null'' | Some s \<Rightarrow> json_string s) @ u '','' @ json_string (rl_name t) @ u '']''"

definition relation_order :: "relation \<Rightarrow> nat \<times> ustr \<times> ustr" where
  "relation_order t = (if rl_schema t = None then 0 else 1, case rl_schema t of None \<Rightarrow> [] | Some s \<Rightarrow> s, rl_name t)"

definition relation_path :: "relation \<Rightarrow> ustr" where
  "relation_path t =
     (case rl_schema t of None \<Rightarrow> rl_name t | Some s \<Rightarrow> if s = [] then rl_name t else s @ u ''.'' @ rl_name t)"

definition nullable_text :: "ustr option \<Rightarrow> ustr" where
  "nullable_text s = (case s of None \<Rightarrow> [] | Some t \<Rightarrow> t)"

definition relation_table_key :: "relation \<Rightarrow> ustr" where
  "relation_table_key t = nullable_text (rl_database t) @ u ''.'' @ nullable_text (rl_schema t) @ u ''.'' @ rl_name t"

datatype object_type = OTable | OView | OMaterializedView | OColumn | OIndex | OForeignKey

datatype diff_status = Added | Missing | Changed

definition relation_object_type :: "ustr \<Rightarrow> object_type" where
  "relation_object_type kind =
     (if kind = u ''view'' then OView else if kind = u ''materialized_view'' then OMaterializedView else OTable)"

fun object_type_order :: "object_type \<Rightarrow> nat" where
  "object_type_order OTable = 0"
| "object_type_order OView = 0"
| "object_type_order OMaterializedView = 0"
| "object_type_order OColumn = 1"
| "object_type_order OIndex = 2"
| "object_type_order OForeignKey = 3"

fun object_type_name :: "object_type \<Rightarrow> ustr" where
  "object_type_name OTable = u ''table''"
| "object_type_name OView = u ''view''"
| "object_type_name OMaterializedView = u ''materializedView''"
| "object_type_name OColumn = u ''column''"
| "object_type_name OIndex = u ''index''"
| "object_type_name OForeignKey = u ''foreignKey''"

text \<open>The loop of \<open>typeSignature\<close> over the code points of the trimmed type.\<close>

fun signature_from :: "(nat \<Rightarrow> ustr) \<Rightarrow> nat option \<Rightarrow> nat list \<Rightarrow> ustr" where
  "signature_from lower quote [] = []"
| "signature_from lower (Some q) (p # ps) =
     point_text p @ signature_from lower (if p = q then None else Some q) ps"
| "signature_from lower None (p # ps) =
     (if p = 39 \<or> p = 34 then point_text p @ signature_from lower (Some p) ps
      else lower p @ signature_from lower None ps)"

definition type_signature :: "(nat \<Rightarrow> ustr) \<Rightarrow> ustr \<Rightarrow> ustr" where
  "type_signature lower ty = signature_from lower None (code_points (u_trim ty))"

definition column_signature :: "(nat \<Rightarrow> ustr) \<Rightarrow> column \<Rightarrow> ustr" where
  "column_signature lower c =
     js_join (u ''|'') [type_signature lower (co_type c), u (if co_nullable c then ''null'' else ''not-null''),
       u (if co_pk c then ''pk'' else ''no-pk'')]"

text \<open>The middle dot between the parts is the code unit 183, the dash for an absent side 8212, the arrow 8594.\<close>

definition column_value :: "column \<Rightarrow> ustr" where
  "column_value c =
     js_join [32, 183, 32] (filter (\<lambda>t. t \<noteq> [])
       [co_type c, u (if co_nullable c then ''NULL'' else ''NOT NULL''), u (if co_pk c then ''PK'' else [])])"

definition dash :: ustr where
  "dash = [8212]"

definition index_value :: "index_def \<Rightarrow> ustr" where
  "index_value i = (if ix_unique i then u ''UNIQUE '' else []) @ u ''('' @ js_join (u '', '') (ix_columns i) @ u '')''"

definition foreign_key_value :: "foreign_key \<Rightarrow> ustr" where
  "foreign_key_value f =
     fk_column f @ [32, 8594, 32]
       @ (if nullable_text (fk_schema f) = [] then [] else nullable_text (fk_schema f) @ u ''.'')
       @ fk_table f @ u ''.'' @ fk_target f"

section \<open>Entries\<close>

record object_diff =
  od_id :: ustr
  od_table_key :: ustr
  od_type :: object_type
  od_relation_key :: ustr
  od_relation :: ustr
  od_relation_type :: object_type
  od_path :: ustr
  od_label :: ustr
  od_status :: diff_status
  od_baseline :: ustr
  od_target :: ustr

record diff_owner =
  ow_table_key :: ustr
  ow_relation_key :: ustr
  ow_relation :: ustr
  ow_relation_type :: object_type

definition owned_diff :: "diff_owner \<Rightarrow> object_type \<Rightarrow> ustr \<Rightarrow> ustr \<Rightarrow> diff_status \<Rightarrow> ustr \<Rightarrow> ustr \<Rightarrow> object_diff" where
  "owned_diff w ty ident name status base target =
     \<lparr>od_id = ow_relation_key w @ u '':'' @ object_type_name ty @ u '':'' @ ident, od_table_key = ow_table_key w, od_type = ty,
      od_relation_key = ow_relation_key w, od_relation = ow_relation w, od_relation_type = ow_relation_type w,
      od_path = ow_relation w @ u ''.'' @ name, od_label = name, od_status = status,
      od_baseline = base, od_target = target\<rparr>"

definition make_object_diff :: "diff_owner \<Rightarrow> object_type \<Rightarrow> ustr \<Rightarrow> diff_status \<Rightarrow> ustr \<Rightarrow> ustr \<Rightarrow> object_diff" where
  "make_object_diff w ty name status base target = owned_diff w ty name name status base target"

definition foreign_key_object_diff :: "diff_owner \<Rightarrow> ustr \<Rightarrow> diff_status \<Rightarrow> ustr \<Rightarrow> ustr \<Rightarrow> ustr \<Rightarrow> object_diff" where
  "foreign_key_object_diff w col status base target ident =
     owned_diff w OForeignKey (col @ u '':'' @ ident) col status base target"

definition table_object_diff :: "relation \<Rightarrow> diff_status \<Rightarrow> object_diff" where
  "table_object_diff t status =
     \<lparr>od_id = relation_identity t @ u '':'' @ rl_kind t, od_table_key = relation_table_key t,
      od_type = relation_object_type (rl_kind t), od_relation_key = relation_identity t, od_relation = relation_path t,
      od_relation_type = relation_object_type (rl_kind t), od_path = relation_path t, od_label = rl_name t,
      od_status = status, od_baseline = (if status = Missing then rl_kind t else dash),
      od_target = (if status = Added then rl_kind t else dash)\<rparr>"

definition append_named_object_diffs ::
  "diff_owner \<Rightarrow> object_type \<Rightarrow> (ustr \<times> ustr) list \<Rightarrow> (ustr \<times> ustr) list \<Rightarrow> object_diff list" where
  "append_named_object_diffs w ty current baseline =
     List.map_filter (\<lambda>(name, v). case map_of baseline name of
         None \<Rightarrow> Some (make_object_diff w ty name Added dash v)
       | Some base \<Rightarrow> if base \<noteq> v then Some (make_object_diff w ty name Changed base v) else None) current
     @ List.map_filter (\<lambda>(name, v). if map_of current name = None
         then Some (make_object_diff w ty name Missing v dash) else None) baseline"

definition group_foreign_keys_by_column :: "foreign_key list \<Rightarrow> (ustr \<times> ustr list) list" where
  "group_foreign_keys_by_column fks =
     map (\<lambda>(c, vs). (c, js_sort code_point_order vs))
       (foldl (\<lambda>m f. js_set (fk_column f)
                ((case map_of m (fk_column f) of None \<Rightarrow> [] | Some vs \<Rightarrow> vs) @ [foreign_key_value f]) m) [] fks)"

text \<open>\<open>unmatchedValues\<close>: \<open>rest\<close> is the copy of the other side, from which each match is taken once.\<close>

fun unmatched_values :: "ustr list \<Rightarrow> ustr list \<Rightarrow> ustr list" where
  "unmatched_values [] rest = []"
| "unmatched_values (v # vs) rest =
     (if v \<in> set rest then unmatched_values vs (remove1 v rest) else v # unmatched_values vs rest)"

definition numbered :: "string \<Rightarrow> ustr list \<Rightarrow> (ustr \<times> ustr) list" where
  "numbered word vs = map (\<lambda>(i, v). (v, u word @ u '':'' @ u (nat_str i) @ u '':'' @ v)) (enumerate 0 vs)"

definition foreign_key_column_diffs :: "diff_owner \<Rightarrow> ustr \<Rightarrow> ustr list \<Rightarrow> ustr list \<Rightarrow> object_diff list" where
  "foreign_key_column_diffs w col cur base =
     (if length cur = 1 \<and> length base = 1 \<and> hd cur \<noteq> hd base
      then [foreign_key_object_diff w col Changed (hd base) (hd cur) (u ''changed'')]
      else map (\<lambda>(v, i). foreign_key_object_diff w col Added dash v i) (numbered ''added'' (unmatched_values cur base))
         @ map (\<lambda>(v, i). foreign_key_object_diff w col Missing v dash i) (numbered ''missing'' (unmatched_values base cur)))"

definition values_of :: "(ustr \<times> ustr list) list \<Rightarrow> ustr \<Rightarrow> ustr list" where
  "values_of m c = (case map_of m c of None \<Rightarrow> [] | Some vs \<Rightarrow> vs)"

definition append_foreign_key_diffs :: "diff_owner \<Rightarrow> foreign_key list \<Rightarrow> foreign_key list \<Rightarrow> object_diff list" where
  "append_foreign_key_diffs w cur_fks base_fks =
     (let current = group_foreign_keys_by_column cur_fks; baseline = group_foreign_keys_by_column base_fks
      in concat (map (\<lambda>c. foreign_key_column_diffs w c (values_of current c) (values_of baseline c))
           (dedup_seen [] (js_keys current @ js_keys baseline))))"

section \<open>One table\<close>

record table_diff =
  td_key :: ustr
  td_added :: bool
  td_missing :: bool
  td_relation_changed :: bool
  td_added_columns :: "ustr list"
  td_missing_columns :: "ustr list"
  td_changed_columns :: "ustr list"
  td_objects :: "object_diff list"

definition empty_table_diff :: "ustr \<Rightarrow> bool \<Rightarrow> bool \<Rightarrow> table_diff" where
  "empty_table_diff key added missing =
     \<lparr>td_key = key, td_added = added, td_missing = missing, td_relation_changed = False, td_added_columns = [],
      td_missing_columns = [], td_changed_columns = [], td_objects = []\<rparr>"

definition column_diffs :: "(nat \<Rightarrow> ustr) \<Rightarrow> diff_owner \<Rightarrow> (ustr \<times> column) list \<Rightarrow> (ustr \<times> column) list \<Rightarrow> object_diff list" where
  "column_diffs lower w current baseline =
     List.map_filter (\<lambda>(name, c). case map_of baseline name of
         None \<Rightarrow> Some (make_object_diff w OColumn name Added dash (column_value c))
       | Some base \<Rightarrow> if column_signature lower c \<noteq> column_signature lower base
                     then Some (make_object_diff w OColumn name Changed (column_value base) (column_value c)) else None) current
     @ List.map_filter (\<lambda>(name, c). if map_of current name = None
         then Some (make_object_diff w OColumn name Missing (column_value c) dash) else None) baseline"

definition labels_with :: "diff_status \<Rightarrow> object_diff list \<Rightarrow> ustr list" where
  "labels_with status os = map od_label (filter (\<lambda>d. od_status d = status) os)"

definition diff_table :: "(nat \<Rightarrow> ustr) \<Rightarrow> relation \<Rightarrow> relation \<Rightarrow> table_diff" where
  "diff_table lower current baseline =
     (let key = relation_table_key current; rel = relation_path current; rkey = relation_identity current;
          rtype = relation_object_type (rl_kind current);
          kinds = (if rl_kind current \<noteq> rl_kind baseline
                   then [\<lparr>od_id = rkey @ u '':kind'', od_table_key = key, od_type = rtype, od_relation_key = rkey,
                          od_relation = rel, od_relation_type = rtype, od_path = rel, od_label = rl_name current,
                          od_status = Changed, od_baseline = rl_kind baseline, od_target = rl_kind current\<rparr>]
                   else []);
          w = \<lparr>ow_table_key = key, ow_relation_key = rkey, ow_relation = rel, ow_relation_type = rtype\<rparr>;
          cols = column_diffs lower w (named co_name id (rl_columns current)) (named co_name id (rl_columns baseline));
          idx = append_named_object_diffs w OIndex (named ix_name index_value (rl_indexes current))
                  (named ix_name index_value (rl_indexes baseline));
          fks = append_foreign_key_diffs w (rl_foreign_keys current) (rl_foreign_keys baseline);
          objects = kinds @ cols @ idx @ fks
      in (empty_table_diff key False False)\<lparr>
           td_added_columns := labels_with Added cols, td_missing_columns := labels_with Missing cols,
           td_changed_columns := labels_with Changed cols, td_objects := objects,
           td_relation_changed := list_ex (\<lambda>d. od_type d \<noteq> OColumn) objects\<rparr>)"

definition has_table_diff :: "table_diff \<Rightarrow> bool" where
  "has_table_diff d \<longleftrightarrow> td_added d \<or> td_missing d \<or> td_objects d \<noteq> []"

section \<open>Two catalogs\<close>

record diff_summary =
  sm_added :: "relation list"
  sm_missing :: "relation list"
  sm_changed :: "relation list"
  sm_added_columns :: nat
  sm_missing_columns :: nat
  sm_changed_columns :: nat
  sm_relation_changed :: nat
  sm_total :: nat
  sm_table_diffs :: "(ustr \<times> table_diff) list"
  sm_objects :: "object_diff list"

text \<open>One entry per differing relation: the table, its diff, and where the table comes from.\<close>

definition single_table_diff :: "relation \<Rightarrow> diff_status \<Rightarrow> table_diff" where
  "single_table_diff t status =
     (empty_table_diff (relation_table_key t) (status = Added) (status = Missing))\<lparr>td_objects := [table_object_diff t status]\<rparr>"

definition relation_diffs :: "(nat \<Rightarrow> ustr) \<Rightarrow> catalog \<Rightarrow> catalog \<Rightarrow> (relation \<times> table_diff) list" where
  "relation_diffs lower current baseline =
     (let cur = named relation_identity id current; base = named relation_identity id baseline
      in List.map_filter (\<lambda>(k, t). case map_of base k of
             None \<Rightarrow> Some (t, single_table_diff t Added)
           | Some b \<Rightarrow> let d = diff_table lower t b in if has_table_diff d then Some (t, d) else None) cur
         @ List.map_filter (\<lambda>(k, t). if map_of cur k = None then Some (t, single_table_diff t Missing) else None) base)"

definition compare_relations :: "nat \<times> ustr \<times> ustr \<Rightarrow> nat \<times> ustr \<times> ustr \<Rightarrow> int" where
  "compare_relations a b =
     (if fst a \<noteq> fst b then int (fst a) - int (fst b)
      else if code_point_order (fst (snd a)) (fst (snd b)) \<noteq> 0 then code_point_order (fst (snd a)) (fst (snd b))
      else code_point_order (snd (snd a)) (snd (snd b)))"

definition compare_objects :: "object_diff \<Rightarrow> object_diff \<Rightarrow> int" where
  "compare_objects a b =
     (if object_type_order (od_type a) \<noteq> object_type_order (od_type b)
      then int (object_type_order (od_type a)) - int (object_type_order (od_type b))
      else code_point_order (od_label a) (od_label b))"

definition compute_catalog_diff :: "(nat \<Rightarrow> ustr) \<Rightarrow> catalog \<Rightarrow> catalog \<Rightarrow> diff_summary" where
  "compute_catalog_diff lower current baseline =
     (let diffs = relation_diffs lower current baseline;
          changed = filter (\<lambda>(t, d). \<not> td_added d \<and> \<not> td_missing d) diffs;
          sorted = js_sort (\<lambda>a b. compare_relations (relation_order (fst a)) (relation_order (fst b))) diffs;
          objects = concat (map (\<lambda>(t, d). js_sort compare_objects (td_objects d)) sorted)
      in \<lparr>sm_added = map fst (filter (\<lambda>(t, d). td_added d) diffs),
          sm_missing = map fst (filter (\<lambda>(t, d). td_missing d) diffs),
          sm_changed = map fst changed,
          sm_added_columns = sum_list (map (\<lambda>(t, d). length (td_added_columns d)) changed),
          sm_missing_columns = sum_list (map (\<lambda>(t, d). length (td_missing_columns d)) changed),
          sm_changed_columns = sum_list (map (\<lambda>(t, d). length (td_changed_columns d)) changed),
          sm_relation_changed = length (filter (\<lambda>(t, d). td_relation_changed d) changed),
          sm_total = length objects,
          sm_table_diffs = js_map (map (\<lambda>(t, d). (relation_table_key t, d)) diffs),
          sm_objects = objects\<rparr>)"

datatype tone = ToneAdded | ToneMissing | ToneChanged | ToneMixed

definition table_diff_tone :: "table_diff option \<Rightarrow> tone option" where
  "table_diff_tone diff =
     (case diff of
        None \<Rightarrow> None
      | Some d \<Rightarrow>
          if td_added d then Some ToneAdded
          else if td_missing d then Some ToneMissing
          else let has = (\<lambda>s. list_ex (\<lambda>ob. od_status ob = s) (td_objects d));
                   kinds = length (filter id [has Added, has Missing, has Changed])
               in if kinds > 1 then Some ToneMixed
                  else if has Added then Some ToneAdded
                  else if has Missing then Some ToneMissing
                  else if has Changed then Some ToneChanged
                  else None)"

definition count_status :: "diff_status \<Rightarrow> object_diff list \<Rightarrow> nat" where
  "count_status s os = length (filter (\<lambda>ob. od_status ob = s) os)"

definition diff_counts :: "diff_summary \<Rightarrow> nat \<times> nat \<times> nat" where
  "diff_counts d = (count_status Added (sm_objects d), count_status Missing (sm_objects d), count_status Changed (sm_objects d))"

definition order_tables_by_schema_diff :: "relation list \<Rightarrow> diff_summary option \<Rightarrow> relation list" where
  "order_tables_by_schema_diff tables diff =
     (case diff of
        None \<Rightarrow> tables
      | Some d \<Rightarrow>
          map (\<lambda>(i, t, c). t)
            (js_sort (\<lambda>(i, t, c) (j, s, b). if c \<noteq> b then of_bool b - of_bool c else int i - int j)
              (map (\<lambda>(i, t). (i, t, table_diff_tone (map_of (sm_table_diffs d) (relation_table_key t)) \<noteq> None))
                (enumerate 0 tables))))"

section \<open>Lookups in the maps\<close>

lemma map_of_js_map: "map_of (js_map es) k = map_of (rev es) k"
proof -
  have "map_of (foldl (\<lambda>m (k, v). js_set k v m) m es) k = (map_of m ++ map_of (rev es)) k" for m
    by (induction es arbitrary: m) (auto simp: update_conv' map_add_def split: option.splits)
  from this [of "[]"] show ?thesis by (simp add: js_map_def)
qed

lemma distinct_js_map: "distinct (js_keys (js_map es))"
proof -
  have "distinct (js_keys m) \<Longrightarrow> distinct (js_keys (foldl (\<lambda>m (k, v). js_set k v m) m es))" for m :: "('a \<times> 'b) list"
    by (induction es arbitrary: m) (auto simp: distinct_update)
  then show ?thesis by (simp add: js_map_def)
qed

text \<open>The last element with a key, which is what the maps of the comparison find.\<close>

definition last_named :: "('a \<Rightarrow> 'k) \<Rightarrow> 'a list \<Rightarrow> 'k \<Rightarrow> 'a option" where
  "last_named key xs k = find (\<lambda>x. key x = k) (rev xs)"

lemma map_of_named: "map_of (named key val xs) k = map_option val (last_named key xs k)"
proof -
  have "map_of (map (\<lambda>x. (key x, val x)) ys) k = map_option val (find (\<lambda>x. key x = k) ys)" for ys
    by (induction ys) auto
  then show ?thesis by (simp add: named_def map_of_js_map last_named_def rev_map)
qed

lemma map_filter_Nil: "List.map_filter f xs = [] \<longleftrightarrow> (\<forall>x\<in>set xs. f x = None)"
  by (induction xs) (auto simp: List.map_filter_simps split: option.splits)

lemma ball_map_of: "distinct (js_keys m) \<Longrightarrow> (\<forall>(k, v)\<in>set m. P k v) \<longleftrightarrow> (\<forall>k v. map_of m k = Some v \<longrightarrow> P k v)"
  by (auto simp: map_of_eq_Some_iff)

text \<open>Two maps agree when nothing in either is added, missing or changed.\<close>

lemma two_way_Nil:
  assumes "distinct (js_keys cur)" "distinct (js_keys base)"
    and "\<And>k v. f (k, v) = None \<longleftrightarrow> (\<exists>b. map_of base k = Some b \<and> R v b)"
    and "\<And>k v. g (k, v) = None \<longleftrightarrow> map_of cur k \<noteq> None"
  shows "List.map_filter f cur @ List.map_filter g base = [] \<longleftrightarrow> (\<forall>k. rel_option R (map_of cur k) (map_of base k))"
proof -
  have "(\<forall>x\<in>set cur. f x = None) \<longleftrightarrow> (\<forall>k v. map_of cur k = Some v \<longrightarrow> f (k, v) = None)"
    using ball_map_of [OF assms(1), of "\<lambda>k v. f (k, v) = None"] by (simp add: case_prod_beta)
  moreover have "(\<forall>x\<in>set base. g x = None) \<longleftrightarrow> (\<forall>k v. map_of base k = Some v \<longrightarrow> g (k, v) = None)"
    using ball_map_of [OF assms(2), of "\<lambda>k v. g (k, v) = None"] by (simp add: case_prod_beta)
  ultimately have "List.map_filter f cur @ List.map_filter g base = [] \<longleftrightarrow>
      (\<forall>k v. map_of cur k = Some v \<longrightarrow> (\<exists>b. map_of base k = Some b \<and> R v b))
      \<and> (\<forall>k v. map_of base k = Some v \<longrightarrow> map_of cur k \<noteq> None)"
    by (simp add: map_filter_Nil assms(3,4) del: not_None_eq)
  also have "\<dots> \<longleftrightarrow> (\<forall>k. rel_option R (map_of cur k) (map_of base k))"
    by (auto simp: option_rel_Some1 option_rel_Some2 option.rel_sel split: option.splits) (metis option.sel option.distinct(1) option.collapse)+
  finally show ?thesis .
qed

section \<open>When no entry is reported\<close>

definition foreign_key_values :: "relation \<Rightarrow> ustr \<Rightarrow> ustr multiset" where
  "foreign_key_values t c = mset (map foreign_key_value (filter (\<lambda>f. fk_column f = c) (rl_foreign_keys t)))"

text \<open>Two relations agree in everything the comparison covers.\<close>

definition same_relation :: "(nat \<Rightarrow> ustr) \<Rightarrow> relation \<Rightarrow> relation \<Rightarrow> bool" where
  "same_relation lower a b \<longleftrightarrow>
     rl_kind a = rl_kind b
     \<and> (\<forall>n. rel_option (\<lambda>c d. column_signature lower c = column_signature lower d)
              (last_named co_name (rl_columns a) n) (last_named co_name (rl_columns b) n))
     \<and> (\<forall>n. rel_option (\<lambda>i j. index_value i = index_value j)
              (last_named ix_name (rl_indexes a) n) (last_named ix_name (rl_indexes b) n))
     \<and> (\<forall>c. foreign_key_values a c = foreign_key_values b c)"

lemma distinct_named: "distinct (js_keys (named key val xs))"
  by (simp add: named_def distinct_js_map)

lemma column_diffs_Nil:
  "column_diffs lower w (named co_name id xs) (named co_name id ys) = [] \<longleftrightarrow>
     (\<forall>n. rel_option (\<lambda>c d. column_signature lower c = column_signature lower d) (last_named co_name xs n) (last_named co_name ys n))"
  unfolding column_diffs_def
  by (rule two_way_Nil [where R = "\<lambda>c d. column_signature lower c = column_signature lower d", THEN trans])
    (simp_all add: distinct_named map_of_named option.map_id split: option.split)

lemma index_diffs_Nil:
  "append_named_object_diffs w OIndex (named ix_name index_value xs) (named ix_name index_value ys) = [] \<longleftrightarrow>
     (\<forall>n. rel_option (\<lambda>i j. index_value i = index_value j) (last_named ix_name xs n) (last_named ix_name ys n))"
  unfolding append_named_object_diffs_def
  by (rule two_way_Nil [where R = "(=)", THEN trans])
    (simp_all add: distinct_named map_of_named option.rel_map split: option.split)

lemma unmatched_Nil: "unmatched_values vs rest = [] \<longleftrightarrow> mset vs \<subseteq># mset rest"
proof (induction vs arbitrary: rest)
  case (Cons v vs)
  show ?case
  proof (cases "v \<in> set rest")
    case True
    then have "mset rest = add_mset v (mset (remove1 v rest))" by simp
    with Cons True show ?thesis by (metis unmatched_values.simps(2) mset.simps(2) mset_subset_eq_add_mset_cancel)
  next
    case False
    then show ?thesis by (auto dest: mset_subset_eqD)
  qed
qed simp

lemma enumerate_Nil_iff: "enumerate n xs = [] \<longleftrightarrow> xs = []"
  by (cases xs) simp_all

lemma foreign_key_column_diffs_Nil: "foreign_key_column_diffs w c cur base = [] \<longleftrightarrow> mset cur = mset base"
proof (cases "length cur = 1 \<and> length base = 1 \<and> hd cur \<noteq> hd base")
  case True
  then obtain x y where "cur = [x]" "base = [y]" "x \<noteq> y" by (auto simp: length_Suc_conv)
  then show ?thesis by (simp add: foreign_key_column_diffs_def)
next
  case False
  then have "foreign_key_column_diffs w c cur base = [] \<longleftrightarrow> unmatched_values cur base = [] \<and> unmatched_values base cur = []"
    by (auto simp: foreign_key_column_diffs_def numbered_def enumerate_Nil_iff)
  then show ?thesis by (simp add: unmatched_Nil subset_mset.eq_iff)
qed

lemma values_of_group:
  "values_of (group_foreign_keys_by_column fks) c = js_sort code_point_order (map foreign_key_value (filter (\<lambda>f. fk_column f = c) fks))"
proof -
  let ?step = "\<lambda>m f. js_set (fk_column f) ((case map_of m (fk_column f) of None \<Rightarrow> [] | Some vs \<Rightarrow> vs) @ [foreign_key_value f]) m"
  have "(case map_of (foldl ?step m fks) c of None \<Rightarrow> [] | Some vs \<Rightarrow> vs)
      = (case map_of m c of None \<Rightarrow> [] | Some vs \<Rightarrow> vs) @ map foreign_key_value (filter (\<lambda>f. fk_column f = c) fks)" for m
    by (induction fks arbitrary: m) (auto simp: update_conv')
  from this [of "[]"] show ?thesis
    by (auto simp: values_of_def group_foreign_keys_by_column_def map_of_map split: option.splits)
qed

lemma append_foreign_key_diffs_Nil:
  "append_foreign_key_diffs w (rl_foreign_keys a) (rl_foreign_keys b) = [] \<longleftrightarrow> (\<forall>c. foreign_key_values a c = foreign_key_values b c)"
proof -
  let ?cur = "group_foreign_keys_by_column (rl_foreign_keys a)" and ?base = "group_foreign_keys_by_column (rl_foreign_keys b)"
  have eq: "mset (values_of ?cur c) = foreign_key_values a c" "mset (values_of ?base c) = foreign_key_values b c" for c
    by (simp_all add: values_of_group foreign_key_values_def)
  have "append_foreign_key_diffs w (rl_foreign_keys a) (rl_foreign_keys b) = [] \<longleftrightarrow>
      (\<forall>c \<in> set (js_keys ?cur) \<union> set (js_keys ?base). mset (values_of ?cur c) = mset (values_of ?base c))"
    by (simp add: append_foreign_key_diffs_def Let_def set_dedup_seen foreign_key_column_diffs_Nil)
  also have "\<dots> \<longleftrightarrow> (\<forall>c. mset (values_of ?cur c) = mset (values_of ?base c))"
  proof -
    have "mset (values_of ?cur c) = mset (values_of ?base c)" if "c \<notin> set (js_keys ?cur) \<union> set (js_keys ?base)" for c
      using that by (simp add: values_of_def map_of_eq_None_iff [THEN iffD2])
    then show ?thesis by blast
  qed
  finally show ?thesis by (simp add: eq)
qed

lemma diff_table_objects_Nil: "td_objects (diff_table lower a b) = [] \<longleftrightarrow> same_relation lower a b"
  by (simp add: diff_table_def Let_def same_relation_def column_diffs_Nil index_diffs_Nil append_foreign_key_diffs_Nil)

lemma has_table_diff_iff: "has_table_diff (diff_table lower a b) \<longleftrightarrow> \<not> same_relation lower a b"
  by (simp add: has_table_diff_def diff_table_objects_Nil) (simp add: diff_table_def Let_def empty_table_diff_def)

text \<open>Relations are found by the pair of schema and name.\<close>

definition relation_at :: "catalog \<Rightarrow> ustr option \<Rightarrow> ustr \<Rightarrow> relation option" where
  "relation_at cat s n = find (\<lambda>t. rl_schema t = s \<and> rl_name t = n) (rev cat)"

definition names_ok :: "catalog \<Rightarrow> bool" where
  "names_ok cat = list_all (\<lambda>t. units_ok (nullable_text (rl_schema t)) \<and> units_ok (rl_name t)) cat"

lemma relation_identity_inject:
  assumes "names_ok [a]" "names_ok [b]"
  shows "relation_identity a = relation_identity b \<longleftrightarrow> rl_schema a = rl_schema b \<and> rl_name a = rl_name b"
proof -
  have null: "u ''null'' @ x \<noteq> json_string s @ y" "json_string s @ y \<noteq> u ''null'' @ x" for s x y
    by (simp_all add: u_def json_string_def)
  show ?thesis
    using assms json_string_inject [of "rl_name a" "rl_name b" "u '']''" "u '']''"]
      json_string_inject [of "the (rl_schema a)" "the (rl_schema b)"]
    by (cases "rl_schema a"; cases "rl_schema b")
      (auto simp: relation_identity_def names_ok_def nullable_text_def null)
qed

lemma last_named_at:
  assumes "names_ok cat" "names_ok [t]"
  shows "last_named relation_identity cat (relation_identity t) = relation_at cat (rl_schema t) (rl_name t)"
proof -
  have "relation_identity x = relation_identity t \<longleftrightarrow> rl_schema x = rl_schema t \<and> rl_name x = rl_name t" if "x \<in> set (rev cat)" for x
    using that assms by (intro relation_identity_inject) (auto simp: names_ok_def list_all_iff)
  then show ?thesis unfolding last_named_def relation_at_def by (intro find_cong) auto
qed

lemma relation_diffs_Nil:
  assumes ok: "names_ok cur" "names_ok base"
  shows "relation_diffs lower cur base = [] \<longleftrightarrow>
    (\<forall>s n. rel_option (same_relation lower) (relation_at cur s n) (relation_at base s n))"
proof -
  have "relation_diffs lower cur base = [] \<longleftrightarrow>
      (\<forall>k. rel_option (same_relation lower) (last_named relation_identity cur k) (last_named relation_identity base k))"
    unfolding relation_diffs_def Let_def
    by (rule two_way_Nil [where R = "same_relation lower", THEN trans])
      (simp_all add: distinct_named map_of_named option.map_id has_table_diff_iff split: option.split)
  also have "\<dots> \<longleftrightarrow> (\<forall>s n. rel_option (same_relation lower) (relation_at cur s n) (relation_at base s n))"
  proof
    assume keys: "\<forall>k. rel_option (same_relation lower) (last_named relation_identity cur k) (last_named relation_identity base k)"
    show "\<forall>s n. rel_option (same_relation lower) (relation_at cur s n) (relation_at base s n)"
    proof (intro allI)
      fix s n
      show "rel_option (same_relation lower) (relation_at cur s n) (relation_at base s n)"
      proof (cases "\<exists>t \<in> set cur \<union> set base. rl_schema t = s \<and> rl_name t = n")
        case True
        then obtain t where t: "t \<in> set cur \<union> set base" "rl_schema t = s" "rl_name t = n" by blast
        with ok have "names_ok [t]" by (auto simp: names_ok_def list_all_iff)
        with keys last_named_at ok t(2,3) show ?thesis by metis
      next
        case False
        then have "relation_at cur s n = None" "relation_at base s n = None"
          by (auto simp: relation_at_def find_None_iff')
        then show ?thesis by simp
      qed
    qed
  next
    assume at: "\<forall>s n. rel_option (same_relation lower) (relation_at cur s n) (relation_at base s n)"
    show "\<forall>k. rel_option (same_relation lower) (last_named relation_identity cur k) (last_named relation_identity base k)"
    proof
      fix k
      show "rel_option (same_relation lower) (last_named relation_identity cur k) (last_named relation_identity base k)"
      proof (cases "\<exists>t \<in> set cur \<union> set base. relation_identity t = k")
        case True
        then obtain t where t: "t \<in> set cur \<union> set base" "relation_identity t = k" by blast
        with ok have "names_ok [t]" by (auto simp: names_ok_def list_all_iff)
        with at last_named_at ok t(2) show ?thesis by metis
      next
        case False
        then have "last_named relation_identity cur k = None" "last_named relation_identity base k = None"
          by (auto simp: last_named_def find_None_iff')
        then show ?thesis by simp
      qed
    qed
  qed
  finally show ?thesis .
qed

text \<open>A relation in the list of diffs has an entry, so the total is zero only for an empty list.\<close>

lemma relation_diffs_objects: "(t, d) \<in> set (relation_diffs lower cur base) \<Longrightarrow> td_objects d \<noteq> []"
proof -
  assume "(t, d) \<in> set (relation_diffs lower cur base)"
  then consider s where "d = single_table_diff t s" | b where "d = diff_table lower t b" "has_table_diff d"
    by (auto simp: relation_diffs_def Let_def List.map_filter_def split: option.splits if_splits)
  then show ?thesis
    by cases (auto simp: single_table_diff_def has_table_diff_iff diff_table_objects_Nil)
qed

lemma length_sorted_objects:
  "length (concat (map (\<lambda>(t, d). js_sort cmp (td_objects d)) (js_sort rel xs))) = sum_list (map (\<lambda>(t, d). length (td_objects d)) xs)"
proof -
  have "sum_list (map f (js_sort rel xs)) = sum_list (map f xs)" for f :: "_ \<Rightarrow> nat"
    by (metis mset_js_sort mset_map sum_mset_sum_list)
  then show ?thesis by (simp add: length_concat comp_def split_def)
qed


definition example_relation :: "string \<Rightarrow> relation" where
  "example_relation ty = \<lparr>rl_database = Some (u ''app''), rl_schema = Some (u ''public''), rl_name = u ''orders'', rl_kind = u ''table'',
     rl_columns = [\<lparr>co_name = u ''id'', co_type = u ty, co_nullable = False, co_pk = True\<rparr>], rl_indexes = [], rl_foreign_keys = []\<rparr>"


text \<open>
  Two different references with the same rendered value: the compared value of a foreign key is its dotted path, so a
  reference to \<open>b\<close> in schema \<open>a\<close> and one to a table \<open>a.b\<close> without schema count as equal, and so do an
  index on one column whose name has a comma and one on two columns.
\<close>

lemma dotted_reference_gap:
  "foreign_key_value \<lparr>fk_column = c, fk_schema = Some (u ''a''), fk_table = u ''b'', fk_target = t\<rparr>
     = foreign_key_value \<lparr>fk_column = c, fk_schema = None, fk_table = u ''a.b'', fk_target = t\<rparr>
   \<and> index_value \<lparr>ix_name = i, ix_columns = [u ''a, b''], ix_unique = q\<rparr> = index_value \<lparr>ix_name = i, ix_columns = [u ''a'', u ''b''], ix_unique = q\<rparr>"
  by (simp add: foreign_key_value_def nullable_text_def index_value_def u_def)

end
