(* ===== verification/SchemaGroups.thy ===== *)
theory SchemaGroups
  imports SqlText
begin

text \<open>
  Connection groups and environments: \<open>buildConnectionSections\<close> and its companions of
  \<open>src/lib/schemaDiff.ts\<close>, and the environment rule of \<open>src/lib/environmentKind.ts\<close>. \<open>localeCompare\<close> is the
  argument \<open>collate\<close>; \<open>toLocaleLowerCase\<close> is that of a locale without special casing.
\<close>

section \<open>Environments\<close>

datatype environment_kind = Production | Staging | Test | Development

definition environment_kinds :: "environment_kind list" where
  "environment_kinds = [Production, Staging, Test, Development]"

fun environment_name :: "environment_kind \<Rightarrow> string" where
  "environment_name Production = ''production''"
| "environment_name Staging = ''staging''"
| "environment_name Test = ''test''"
| "environment_name Development = ''development''"

definition environment_kind_sensitivity :: "environment_kind \<Rightarrow> int" where
  "environment_kind_sensitivity k =
     int (length environment_kinds) - 1 - (case find_index (\<lambda>e. e = k) environment_kinds of None \<Rightarrow> - 1 | Some i \<Rightarrow> int i)"

definition compare_environment_kinds :: "environment_kind \<Rightarrow> environment_kind \<Rightarrow> int" where
  "compare_environment_kinds l r = environment_kind_sensitivity r - environment_kind_sensitivity l"

definition parse_environment_kind :: "string option \<Rightarrow> environment_kind option" where
  "parse_environment_kind label =
     (case label of
        None \<Rightarrow> None
      | Some l \<Rightarrow>
          let n = js_lower (js_trim l)
          in if n = ''prod'' then Some Production
             else if n = ''dev'' then Some Development
             else find (\<lambda>k. environment_name k = n) environment_kinds)"

definition effective_environment :: "environment_kind option \<Rightarrow> environment_kind list \<Rightarrow> environment_kind option" where
  "effective_environment own bound =
     foldl (\<lambda>strongest kind. case strongest of
                None \<Rightarrow> Some kind
              | Some s \<Rightarrow> if compare_environment_kinds kind s < 0 then Some kind else Some s) own bound"

lemmas environment_eval =
  environment_kind_sensitivity_def compare_environment_kinds_def environment_kinds_def

text \<open>The effective environment is the most sensitive of the connection's own and every bound kind.\<close>

definition stronger :: "environment_kind option \<Rightarrow> environment_kind \<Rightarrow> environment_kind option" where
  "stronger strongest kind = (case strongest of None \<Rightarrow> Some kind
     | Some s \<Rightarrow> if compare_environment_kinds kind s < 0 then Some kind else Some s)"

lemma stronger_step:
  "k \<in> set_option own \<union> {b} \<Longrightarrow> \<exists>s. stronger own b = Some s \<and> environment_kind_sensitivity k \<le> environment_kind_sensitivity s"
  "set_option (stronger own b) \<subseteq> set_option own \<union> {b}"
  by (cases own; auto simp: stronger_def compare_environment_kinds_def)+

lemma stronger_fold:
  "k \<in> set_option own \<union> set bound \<Longrightarrow> \<exists>s. foldl stronger own bound = Some s \<and> environment_kind_sensitivity k \<le> environment_kind_sensitivity s"
proof (induction bound arbitrary: own k)
  case (Cons b bs)
  show ?case
  proof (cases "k \<in> set bs")
    case True
    then show ?thesis using Cons.IH [of k "stronger own b"] by simp
  next
    case False
    with Cons.prems have "k \<in> set_option own \<union> {b}" by auto
    from stronger_step(1) [OF this] obtain s where s: "stronger own b = Some s"
      "environment_kind_sensitivity k \<le> environment_kind_sensitivity s" by blast
    then have "s \<in> set_option (stronger own b) \<union> set bs" by simp
    from Cons.IH [OF this] s(2) show ?thesis by (auto intro: order_trans)
  qed
qed simp

lemma effective_environment_strongest:
  "k \<in> set_option own \<union> set bound \<Longrightarrow>
     \<exists>s. effective_environment own bound = Some s \<and> environment_kind_sensitivity k \<le> environment_kind_sensitivity s"
  "set_option (effective_environment own bound) \<subseteq> set_option own \<union> set bound"
proof -
  have eq: "effective_environment own bound = foldl stronger own bound"
    unfolding effective_environment_def stronger_def [abs_def] ..
  show "k \<in> set_option own \<union> set bound \<Longrightarrow>
     \<exists>s. effective_environment own bound = Some s \<and> environment_kind_sensitivity k \<le> environment_kind_sensitivity s"
    unfolding eq by (rule stronger_fold)
  show "set_option (effective_environment own bound) \<subseteq> set_option own \<union> set bound"
    unfolding eq
  proof (induction bound arbitrary: own)
    case (Cons b bs)
    from Cons.IH [of "stronger own b"] stronger_step(2) [of own b] show ?case by auto
  qed simp
qed

section \<open>Groups\<close>

record group_member =
  gm_id :: string
  gm_name :: string
  gm_database :: string
  gm_engine :: engine
  gm_env :: "environment_kind option"
  gm_effective_env :: "environment_kind option"
  gm_schema_group :: "string option"

record schema_group =
  sg_key :: string
  sg_label :: string
  sg_members :: "group_member list"
  sg_baseline :: "string option"

datatype section_item = GroupSection schema_group | SingleSection group_member

text \<open>\<open>ENV_ORDER\<close> of the source, by the text of the environment.\<close>

definition env_order :: "(string \<times> int) list" where
  "env_order = [(''prod'', 0), (''staging'', 1), (''dev'', 2)]"

definition env_rank :: "environment_kind option \<Rightarrow> int" where
  "env_rank e =
     (case map_of env_order (case e of None \<Rightarrow> [] | Some k \<Rightarrow> environment_name k) of None \<Rightarrow> 9 | Some n \<Rightarrow> n)"

definition display_name :: "group_member \<Rightarrow> string" where
  "display_name c = (if gm_name c \<noteq> [] then gm_name c else gm_database c)"

definition compare_connections_in_group :: "(string \<Rightarrow> string \<Rightarrow> int) \<Rightarrow> group_member \<Rightarrow> group_member \<Rightarrow> int" where
  "compare_connections_in_group collate a b =
     (if env_rank (gm_env a) \<noteq> env_rank (gm_env b) then env_rank (gm_env a) - env_rank (gm_env b)
      else collate (display_name a) (display_name b))"

definition schema_group_label :: "group_member \<Rightarrow> string" where
  "schema_group_label c = (case gm_schema_group c of None \<Rightarrow> [] | Some s \<Rightarrow> js_trim s)"

definition schema_group_key :: "group_member \<Rightarrow> string option" where
  "schema_group_key c = (let label = schema_group_label c in if label = [] then None else Some (js_lower label))"

record group_entry =
  ge_label :: string
  ge_members :: "group_member list"
  ge_first :: nat

definition add_to_group :: "(string \<times> group_entry) list \<Rightarrow> nat \<times> group_member \<Rightarrow> (string \<times> group_entry) list" where
  "add_to_group m ic =
     (case schema_group_key (snd ic) of
        None \<Rightarrow> m
      | Some k \<Rightarrow>
          (case map_of m k of
             Some g \<Rightarrow> js_set k (g\<lparr>ge_members := ge_members g @ [snd ic]\<rparr>) m
           | None \<Rightarrow> js_set k \<lparr>ge_label = schema_group_label (snd ic), ge_members = [snd ic], ge_first = fst ic\<rparr> m))"

fun sections_from ::
  "(string \<Rightarrow> string \<Rightarrow> int) \<Rightarrow> (string \<times> group_entry) list \<Rightarrow> string list \<Rightarrow> (nat \<times> group_member) list
     \<Rightarrow> (nat \<times> section_item) list" where
  "sections_from collate groups seen [] = []"
| "sections_from collate groups seen ((i, c) # cs) =
     (case schema_group_key c of
        None \<Rightarrow> (i, SingleSection c) # sections_from collate groups seen cs
      | Some k \<Rightarrow>
          if k \<in> set seen then sections_from collate groups seen cs
          else
           (case map_of groups k of
              None \<Rightarrow> sections_from collate groups (k # seen) cs
            | Some g \<Rightarrow>
                (ge_first g, GroupSection \<lparr>sg_key = k, sg_label = ge_label g,
                   sg_members = js_sort (compare_connections_in_group collate) (ge_members g), sg_baseline = None\<rparr>)
                # sections_from collate groups (k # seen) cs))"

definition build_connection_sections :: "(string \<Rightarrow> string \<Rightarrow> int) \<Rightarrow> group_member list \<Rightarrow> section_item list" where
  "build_connection_sections collate cs =
     (let indexed = enumerate 0 cs; groups = foldl add_to_group [] indexed
      in map snd (js_sort (\<lambda>a b. int (fst a) - int (fst b)) (sections_from collate groups [] indexed)))"

definition schema_comparable_engine :: "engine option \<Rightarrow> bool" where
  "schema_comparable_engine e \<longleftrightarrow> e \<noteq> None \<and> e \<noteq> Some Bigquery \<and> e \<noteq> Some Mongodb"

definition schema_group_names :: "(string \<Rightarrow> string \<Rightarrow> int) \<Rightarrow> group_member list \<Rightarrow> engine \<Rightarrow> string list" where
  "schema_group_names collate cs e =
     js_sort collate (map snd (foldl (\<lambda>m c.
        let label = schema_group_label c; key = js_lower label
        in if label = [] \<or> gm_engine c \<noteq> e \<or> map_of m key \<noteq> None then m else js_set key label m) [] cs))"

definition schema_group_is_compatible :: "schema_group \<Rightarrow> bool" where
  "schema_group_is_compatible g =
     (case sg_members g of [] \<Rightarrow> False | c # _ \<Rightarrow> list_all (\<lambda>d. gm_engine d = gm_engine c) (sg_members g))"

definition default_schema_baseline :: "schema_group \<Rightarrow> group_member option" where
  "default_schema_baseline g =
     (case find (\<lambda>c. Some (gm_id c) = sg_baseline g) (sg_members g) of
        Some c \<Rightarrow> Some c
      | None \<Rightarrow>
          (case find (\<lambda>c. gm_effective_env c = Some Production) (sg_members g) of
             Some c \<Rightarrow> Some c
           | None \<Rightarrow> first_row (sg_members g)))"

text \<open>
  The table of the source has the short environment names, the profiles have the long ones: production
  and development rank like no environment, and staging sorts before production.
\<close>

lemma production_is_not_first:
  assumes "gm_env a = Some Staging" and "gm_env b = Some Production"
  shows "compare_connections_in_group collate a b < 0" and "env_rank (Some Production) = env_rank None"
  using assms by (simp_all add: compare_connections_in_group_def env_rank_def env_order_def)

section \<open>Sections partition the connections\<close>

fun section_members :: "section_item \<Rightarrow> group_member list" where
  "section_members (GroupSection g) = sg_members g"
| "section_members (SingleSection c) = [c]"

definition members_of :: "(string \<times> group_entry) list \<Rightarrow> string \<Rightarrow> group_member list" where
  "members_of m k = (case map_of m k of None \<Rightarrow> [] | Some g \<Rightarrow> ge_members g)"

lemma members_of_groups:
  "members_of (foldl add_to_group m ics) k = members_of m k @ filter (\<lambda>c. schema_group_key c = Some k) (map snd ics)"
  by (induction ics arbitrary: m) (auto simp: members_of_def add_to_group_def update_conv' split: option.splits)

lemma members_of_None: "members_of m k \<noteq> [] \<Longrightarrow> map_of m k \<noteq> None"
  by (cases "map_of m k") (simp_all add: members_of_def)

definition keys_in :: "group_member list \<Rightarrow> string set" where
  "keys_in cs = {k. \<exists>c\<in>set cs. schema_group_key c = Some k}"

lemma finite_keys_in [simp]: "finite (keys_in cs)"
proof -
  have "keys_in cs \<subseteq> (\<lambda>c. the (schema_group_key c)) ` set cs" by (force simp: keys_in_def)
  then show ?thesis by (rule finite_subset) simp
qed

lemma keys_in_Cons: "keys_in (c # cs) = (case schema_group_key c of None \<Rightarrow> keys_in cs | Some k \<Rightarrow> insert k (keys_in cs))"
  by (auto simp: keys_in_def split: option.split)

lemma sections_from_members:
  assumes "\<And>k. k \<in> keys_in (map snd ics) \<Longrightarrow> map_of groups k \<noteq> None"
  shows "mset (concat (map (\<lambda>x. section_members (snd x)) (sections_from collate groups seen ics)))
    = mset (filter (\<lambda>c. schema_group_key c = None) (map snd ics))
      + (\<Sum>k \<in> keys_in (map snd ics) - set seen. mset (members_of groups k))"
  using assms
proof (induction ics arbitrary: seen)
  case (Cons ic ics)
  obtain i c where ic: "ic = (i, c)" by (cases ic)
  have IH: "mset (concat (map (\<lambda>x. section_members (snd x)) (sections_from collate groups s ics)))
    = mset (filter (\<lambda>c. schema_group_key c = None) (map snd ics))
      + (\<Sum>k \<in> keys_in (map snd ics) - set s. mset (members_of groups k))" for s
    by (rule Cons.IH) (use Cons.prems ic in \<open>auto simp: keys_in_def\<close>)
  show ?case
  proof (cases "schema_group_key c")
    case None
    then show ?thesis by (simp add: ic IH keys_in_Cons)
  next
    case (Some k)
    show ?thesis
    proof (cases "k \<in> set seen")
      case True
      then have "insert k (keys_in (map snd ics)) - set seen = keys_in (map snd ics) - set seen" by auto
      with True Some show ?thesis by (simp add: ic IH keys_in_Cons)
    next
      case False
      then have e: "insert k (keys_in (map snd ics)) - set seen = insert k (keys_in (map snd ics) - set (k # seen))" by auto
      obtain g where g: "map_of groups k = Some g"
        using Cons.prems [of k] Some ic by (auto simp: keys_in_Cons)
      have "(\<Sum>k \<in> insert k (keys_in (map snd ics)) - set seen. mset (members_of groups k))
          = mset (ge_members g) + (\<Sum>k \<in> keys_in (map snd ics) - set (k # seen). mset (members_of groups k))"
        unfolding e by (subst sum.insert) (simp_all add: members_of_def g)
      with False Some show ?thesis by (simp add: ic IH keys_in_Cons g)
    qed
  qed
qed (simp add: keys_in_def)

lemma partition_by_key:
  assumes "finite K" "keys_in cs \<subseteq> K"
  shows "mset (filter (\<lambda>c. schema_group_key c = None) cs) + (\<Sum>k\<in>K. mset (filter (\<lambda>c. schema_group_key c = Some k) cs)) = mset cs"
  using assms(2)
proof (induction cs)
  case (Cons c cs)
  have split: "(\<Sum>k\<in>K. mset (filter (\<lambda>c. schema_group_key c = Some k) (c # cs)))
      = (\<Sum>k\<in>K. if schema_group_key c = Some k then {#c#} else {#}) + (\<Sum>k\<in>K. mset (filter (\<lambda>c. schema_group_key c = Some k) cs))"
    unfolding sum.distrib [symmetric] by (rule sum.cong) auto
  from Cons have IH: "mset (filter (\<lambda>c. schema_group_key c = None) cs) + (\<Sum>k\<in>K. mset (filter (\<lambda>c. schema_group_key c = Some k) cs)) = mset cs"
    by (auto simp: keys_in_Cons split: option.splits)
  show ?case
  proof (cases "schema_group_key c")
    case None
    with IH show ?thesis unfolding split by simp
  next
    case (Some k)
    with Cons.prems have "k \<in> K" by (simp add: keys_in_Cons)
    with IH Some assms(1) show ?thesis unfolding split by (simp add: sum.delta eq_commute [of k])
  qed
qed simp

lemma fst_sections: "x \<in> set (sections_from collate groups seen ics) \<Longrightarrow> snd x = GroupSection g \<Longrightarrow>
  sg_key g \<notin> set seen \<and> mset (sg_members g) = mset (members_of groups (sg_key g)) \<and> map_of groups (sg_key g) \<noteq> None"
  by (induction collate groups seen ics rule: sections_from.induct) (auto simp: members_of_def split: option.splits if_splits)

fun section_key :: "section_item \<Rightarrow> string list" where
  "section_key (GroupSection g) = [sg_key g]"
| "section_key (SingleSection c) = []"

lemma distinct_section_keys: "distinct (concat (map (\<lambda>x. section_key (snd x)) (sections_from collate groups seen ics)))
  \<and> set (concat (map (\<lambda>x. section_key (snd x)) (sections_from collate groups seen ics))) \<inter> set seen = {}"
  by (induction collate groups seen ics rule: sections_from.induct) (auto split: option.splits)

text \<open>
Every connection is shown exactly once. The sections of a list of connections contain each of them with its
multiplicity, whatever the collation; a group has a key of its own, no other section has that key, and its members are
precisely the connections whose trimmed, lower-cased group name is the key.
\<close>

theorem sections_partition_connections:
  "mset (concat (map section_members (build_connection_sections collate cs))) = mset cs
   \<and> distinct (concat (map section_key (build_connection_sections collate cs)))
   \<and> list_all (\<lambda>s. case s of
         SingleSection c \<Rightarrow> schema_group_key c = None
       | GroupSection g \<Rightarrow> mset (sg_members g) = mset (filter (\<lambda>c. schema_group_key c = Some (sg_key g)) cs))
       (build_connection_sections collate cs)"
proof (intro conjI)
  let ?ics = "enumerate 0 cs"
  define groups where "groups = foldl add_to_group [] ?ics"
  let ?secs = "sections_from collate groups [] ?ics"
  have secs: "build_connection_sections collate cs = map snd (js_sort (\<lambda>a b. int (fst a) - int (fst b)) ?secs)"
    by (simp add: build_connection_sections_def groups_def Let_def)
  have snds: "map snd ?ics = cs" by simp
  have mem: "members_of groups k = filter (\<lambda>c. schema_group_key c = Some k) cs" for k
    using members_of_groups [of "[]" ?ics k] by (simp add: groups_def members_of_def [of "[]"])
  have known: "map_of groups k \<noteq> None" if "k \<in> keys_in (map snd ?ics)" for k
    using that by (intro members_of_None) (auto simp: mem keys_in_def filter_empty_conv)
  have sorted: "mset (concat (map (\<lambda>x. f (snd x)) (js_sort cmp xs))) = mset (concat (map (\<lambda>x. f (snd x)) xs))"
    for f :: "section_item \<Rightarrow> 'z list" and cmp xs
    by (simp add: mset_concat flip: sum_mset_sum_list)
  show "mset (concat (map section_members (build_connection_sections collate cs))) = mset cs"
    using sections_from_members [where collate = collate and seen = "[]" and ics = "enumerate 0 cs", OF known] partition_by_key [of "keys_in cs" cs]
    by (simp add: secs comp_def sorted mem)
  have "mset (concat (map section_key (build_connection_sections collate cs))) = mset (concat (map (\<lambda>x. section_key (snd x)) ?secs))"
    by (simp add: secs comp_def sorted)
  then show "distinct (concat (map section_key (build_connection_sections collate cs)))"
    using distinct_section_keys [of collate groups "[]" ?ics] mset_eq_imp_distinct_iff by blast
  have single: "schema_group_key c = None" if "x \<in> set (sections_from collate groups s ics)" "snd x = SingleSection c" for x c s ics
    using that by (induction collate groups s ics rule: sections_from.induct) (auto split: option.splits if_splits)
  show "list_all (\<lambda>s. case s of
         SingleSection c \<Rightarrow> schema_group_key c = None
       | GroupSection g \<Rightarrow> mset (sg_members g) = mset (filter (\<lambda>c. schema_group_key c = Some (sg_key g)) cs))
       (build_connection_sections collate cs)"
    using single fst_sections [of _ collate groups "[]" ?ics]
    by (force simp: secs list_all_iff mem split: section_item.split)
qed

end
