(* ===== verification/Updater.thy ===== *)
theory Updater
  imports Prelude
begin

text \<open>
  The headless app updater (\<open>src/features/updater/controller.ts\<close>). The controller runs between awaits: a step
  is one call of its interface or the settling of one promise it waits for, and \<open>check_task\<close> and \<open>install_task\<close> say
  which continuation is waiting. \<open>check()\<close> gives a new resource object each time, so resources are numbered;
  \<open>up_closed\<close> records the \<open>close()\<close> calls. Error values arrive as the text of \<open>errorMessage\<close>.
\<close>

datatype phase = Idle | CheckingPhase | Available | Current | DownloadingPhase | Installing | Ready | ErrorPhase

record snapshot =
  sn_phase :: phase
  sn_current :: "string option"
  sn_available :: "string option"
  sn_notes :: "string option"
  sn_downloaded :: int
  sn_total :: "int option"
  sn_error :: "string option"

definition initial_snapshot :: snapshot where
  "initial_snapshot = \<lparr>sn_phase = Idle, sn_current = None, sn_available = None, sn_notes = None, sn_downloaded = 0,
     sn_total = None, sn_error = None\<rparr>"

definition positive_finite :: "int option \<Rightarrow> int option" where
  "positive_finite v = (case v of None \<Rightarrow> None | Some n \<Rightarrow> if n > 0 then Some n else None)"

text \<open>\<open>Math.round\<close> of a non-negative quotient rounds a half up.\<close>

definition app_updater_progress :: "snapshot \<Rightarrow> int option" where
  "app_updater_progress s =
     (case sn_total s of
        None \<Rightarrow> None
      | Some n \<Rightarrow> if n \<le> 0 then None
                  else Some (min 100 ((200 * max 0 (sn_downloaded s) + n) div (2 * n))))"

record resource =
  rc_id :: nat
  rc_version :: string
  rc_body :: "string option"

text \<open>What a check does after the last await: nothing, publish a snapshot, or adopt the new resource.\<close>

datatype after_close = JustReturn | PublishOnly snapshot | AdoptResult snapshot

datatype check_task = NoCheck | Checking bool snapshot | ClosingStale after_close

datatype install_task = NoInstall | Downloading resource | Relaunching "resource option" | ClosingInstalled

record updater =
  up_snapshot :: snapshot
  up_resource :: "resource option"
  up_check :: check_task
  up_install :: install_task
  up_active :: "resource option"
  up_installed :: bool
  up_relaunched :: bool
  up_disposed :: bool
  up_last_check :: int
  up_next :: nat
  up_closed :: "nat list"

definition initial_updater :: updater where
  "initial_updater = \<lparr>up_snapshot = initial_snapshot, up_resource = None, up_check = NoCheck, up_install = NoInstall,
     up_active = None, up_installed = False, up_relaunched = False, up_disposed = False, up_last_check = 0,
     up_next = 0, up_closed = []\<rparr>"

definition publish :: "snapshot \<Rightarrow> updater \<Rightarrow> updater" where
  "publish s st = (if up_disposed st then st else st\<lparr>up_snapshot := s\<rparr>)"

definition safe_close :: "resource \<Rightarrow> updater \<Rightarrow> updater" where
  "safe_close r st = st\<lparr>up_closed := up_closed st @ [rc_id r]\<rparr>"

definition refresh :: "bool \<Rightarrow> updater \<Rightarrow> updater" where
  "refresh silent st =
     (if up_disposed st \<or> up_install st \<noteq> NoInstall \<or> up_check st \<noteq> NoCheck then st
      else let prev = up_snapshot st
           in (publish (prev\<lparr>sn_phase := CheckingPhase, sn_downloaded := 0, sn_total := None, sn_error := None\<rparr>) st)
                \<lparr>up_check := Checking silent prev\<rparr>)"

text \<open>The continuation of the version promise alone.\<close>

definition version_known :: "string \<Rightarrow> updater \<Rightarrow> updater" where
  "version_known v st =
     (if \<not> up_disposed st \<and> sn_phase (up_snapshot st) = CheckingPhase
      then publish ((up_snapshot st)\<lparr>sn_current := Some v\<rparr>) st else st)"

definition finish_check :: "int \<Rightarrow> after_close \<Rightarrow> updater \<Rightarrow> updater" where
  "finish_check now act st =
     (let done_st = (case act of
             JustReturn \<Rightarrow> st
           | PublishOnly s \<Rightarrow> publish s st
           | AdoptResult s \<Rightarrow> publish s (st\<lparr>up_installed := False, up_relaunched := False\<rparr>))
      in done_st\<lparr>up_check := NoCheck, up_last_check := now\<rparr>)"

definition failed_check_snapshot :: "bool \<Rightarrow> snapshot \<Rightarrow> string + string \<Rightarrow> string + 'a \<Rightarrow> snapshot" where
  "failed_check_snapshot silent prev version update =
     (let recovered = (case version of Inr v \<Rightarrow> prev\<lparr>sn_current := Some v\<rparr> | Inl _ \<Rightarrow> prev)
      in if silent then recovered
         else recovered\<lparr>sn_phase := ErrorPhase,
                sn_error := Some (case update of Inl e \<Rightarrow> e
                                  | Inr _ \<Rightarrow> (case version of Inl e \<Rightarrow> e | Inr _ \<Rightarrow> ''update check failed''))\<rparr>)"

definition checked_snapshot :: "string \<Rightarrow> resource option \<Rightarrow> snapshot" where
  "checked_snapshot version next =
     \<lparr>sn_phase = (if next = None then Current else Available), sn_current = Some version,
      sn_available = map_option rc_version next,
      sn_notes = (case next of None \<Rightarrow> None
                  | Some r \<Rightarrow> (case rc_body r of None \<Rightarrow> None
                               | Some b \<Rightarrow> if js_trim b = [] then None else Some (js_trim b))),
      sn_downloaded = 0, sn_total = None, sn_error = None\<rparr>"

text \<open>
  Both promises settled: an error text or a value for the version, an error text or the found update. The new resource
  gets the next number. A stale or unwanted resource is closed, and the rest runs after that await.
\<close>

definition refresh_settled ::
  "int \<Rightarrow> string + string \<Rightarrow> string + (string \<times> string option) option \<Rightarrow> updater \<Rightarrow> updater" where
  "refresh_settled now version update st =
     (case up_check st of
        Checking silent prev \<Rightarrow>
          let found = (case update of Inr (Some (v, b)) \<Rightarrow> Some \<lparr>rc_id = up_next st, rc_version = v, rc_body = b\<rparr> | _ \<Rightarrow> None);
              st1 = (if found = None then st else st\<lparr>up_next := up_next st + 1\<rparr>);
              drop_found = (\<lambda>act. case found of
                  None \<Rightarrow> finish_check now act st1
                | Some r \<Rightarrow> safe_close r (st1\<lparr>up_check := ClosingStale act\<rparr>))
          in if up_disposed st then drop_found JustReturn
             else (case (version, update) of
                 (Inr v, Inr _) \<Rightarrow>
                   let st2 = st1\<lparr>up_resource := found, up_check := ClosingStale (AdoptResult (checked_snapshot v found))\<rparr>
                   in (case up_resource st of
                         None \<Rightarrow> st2
                       | Some old \<Rightarrow> if found = Some old then st2 else safe_close old st2)
               | _ \<Rightarrow> drop_found (PublishOnly (failed_check_snapshot silent prev version update)))
      | _ \<Rightarrow> st)"

definition check_continues :: "int \<Rightarrow> updater \<Rightarrow> updater" where
  "check_continues now st = (case up_check st of ClosingStale act \<Rightarrow> finish_check now act st | _ \<Rightarrow> st)"

definition install :: "updater \<Rightarrow> updater" where
  "install st =
     (if up_disposed st \<or> up_install st \<noteq> NoInstall \<or> up_check st \<noteq> NoCheck \<or> up_relaunched st then st
      else if up_installed st
        then (publish ((up_snapshot st)\<lparr>sn_phase := Ready, sn_error := None\<rparr>) st)\<lparr>up_install := Relaunching None\<rparr>
      else case up_resource st of
             None \<Rightarrow> st
           | Some r \<Rightarrow>
               (publish ((up_snapshot st)\<lparr>sn_phase := DownloadingPhase, sn_downloaded := 0, sn_total := None, sn_error := None\<rparr>)
                  (st\<lparr>up_active := Some r\<rparr>))\<lparr>up_install := Downloading r\<rparr>)"

datatype download_notice = Started "int option" | Progress "int option" | Finished

text \<open>The callback given to \<open>downloadAndInstall\<close> of the resource numbered \<open>i\<close>; it may be called at any time.\<close>

definition download_event :: "nat \<Rightarrow> download_notice \<Rightarrow> updater \<Rightarrow> updater" where
  "download_event i ev st =
     (if up_disposed st \<or> map_option rc_id (up_active st) \<noteq> Some i then st
      else case ev of
             Started len \<Rightarrow> publish ((up_snapshot st)\<lparr>sn_phase := DownloadingPhase, sn_downloaded := 0,
                 sn_total := positive_finite len, sn_error := None\<rparr>) st
           | Progress chunk \<Rightarrow> publish ((up_snapshot st)\<lparr>sn_phase := DownloadingPhase,
                 sn_downloaded := sn_downloaded (up_snapshot st) + (case positive_finite chunk of None \<Rightarrow> 0 | Some c \<Rightarrow> c)\<rparr>) st
           | Finished \<Rightarrow> publish ((up_snapshot st)\<lparr>sn_phase := Installing\<rparr>) st)"

text \<open>The \<open>finally\<close> block of \<open>runInstall\<close>.\<close>

definition finish_install :: "resource \<Rightarrow> updater \<Rightarrow> updater" where
  "finish_install r st =
     (let st1 = st\<lparr>up_active := None\<rparr>
      in if up_installed st1 \<or> up_disposed st1 \<or> up_resource st1 \<noteq> Some r
         then safe_close r (st1\<lparr>up_resource := (if up_resource st1 = Some r then None else up_resource st1),
                               up_install := ClosingInstalled\<rparr>)
         else st1\<lparr>up_install := NoInstall\<rparr>)"

definition publish_error :: "string \<Rightarrow> updater \<Rightarrow> updater" where
  "publish_error e st =
     (if up_disposed st then st else publish ((up_snapshot st)\<lparr>sn_phase := ErrorPhase, sn_error := Some e\<rparr>) st)"

definition download_settled :: "string option \<Rightarrow> updater \<Rightarrow> updater" where
  "download_settled err st =
     (case up_install st of
        Downloading r \<Rightarrow>
          (case err of
             Some e \<Rightarrow> finish_install r (publish_error e st)
           | None \<Rightarrow>
               let st1 = publish ((up_snapshot st)\<lparr>sn_phase := Ready, sn_error := None\<rparr>) (st\<lparr>up_installed := True\<rparr>)
               in if up_relaunched st1 then finish_install r st1 else st1\<lparr>up_install := Relaunching (Some r)\<rparr>)
      | _ \<Rightarrow> st)"

definition relaunch_settled :: "string option \<Rightarrow> updater \<Rightarrow> updater" where
  "relaunch_settled err st =
     (case up_install st of
        Relaunching ro \<Rightarrow>
          let st1 = (case err of None \<Rightarrow> st\<lparr>up_relaunched := True\<rparr> | Some e \<Rightarrow> publish_error e st)
          in (case ro of Some r \<Rightarrow> finish_install r st1 | None \<Rightarrow> st1\<lparr>up_install := NoInstall\<rparr>)
      | _ \<Rightarrow> st)"

definition install_continues :: "updater \<Rightarrow> updater" where
  "install_continues st = (if up_install st = ClosingInstalled then st\<lparr>up_install := NoInstall\<rparr> else st)"

definition dispose :: "updater \<Rightarrow> updater" where
  "dispose st =
     (if up_disposed st then st
      else let st1 = st\<lparr>up_disposed := True\<rparr>
           in if up_install st1 \<noteq> NoInstall then st1
              else (case up_resource st1 of None \<Rightarrow> st1 | Some r \<Rightarrow> safe_close r (st1\<lparr>up_resource := None\<rparr>)))"

datatype updater_event =
    Refresh bool
  | VersionKnown string
  | RefreshSettled int "string + string" "string + (string \<times> string option) option"
  | CheckContinues int
  | Install
  | DownloadEvent nat download_notice
  | DownloadSettled "string option"
  | RelaunchSettled "string option"
  | InstallContinues
  | Dispose

fun updater_step :: "updater \<Rightarrow> updater_event \<Rightarrow> updater" where
  "updater_step st (Refresh silent) = refresh silent st"
| "updater_step st (VersionKnown v) = version_known v st"
| "updater_step st (RefreshSettled now v up) = refresh_settled now v up st"
| "updater_step st (CheckContinues now) = check_continues now st"
| "updater_step st Install = install st"
| "updater_step st (DownloadEvent i ev) = download_event i ev st"
| "updater_step st (DownloadSettled err) = download_settled err st"
| "updater_step st (RelaunchSettled err) = relaunch_settled err st"
| "updater_step st InstallContinues = install_continues st"
| "updater_step st Dispose = dispose st"

section \<open>Every resource is closed once\<close>

fun installing_resource :: "install_task \<Rightarrow> resource option" where
  "installing_resource (Downloading r) = Some r"
| "installing_resource (Relaunching ro) = ro"
| "installing_resource _ = None"

fun adopting :: "check_task \<Rightarrow> bool" where
  "adopting (ClosingStale (AdoptResult s)) = True"
| "adopting _ = False"

text \<open>Of the resources \<open>0..<n\<close> each is closed once or is the one held.\<close>

definition accounted :: "resource option \<Rightarrow> nat list \<Rightarrow> nat \<Rightarrow> bool" where
  "accounted res closed n \<longleftrightarrow>
     distinct closed \<and> rc_id ` set_option res \<inter> set closed = {} \<and> rc_id ` set_option res \<union> set closed = {..<n}"

lemma accounted_initial: "accounted None [] 0"
  by (simp add: accounted_def)

lemma accounted_close: "accounted (Some r) cl n \<Longrightarrow> accounted None (cl @ [rc_id r]) n"
  by (auto simp: accounted_def)

lemma accounted_drop: "accounted res cl n \<Longrightarrow> accounted res (cl @ [n]) (Suc n)"
  by (auto simp: accounted_def)

lemma accounted_adopt: "accounted None cl n \<Longrightarrow> rc_id r = n \<Longrightarrow> accounted (Some r) cl (Suc n)"
  by (simp add: accounted_def lessThan_Suc)

lemma accounted_fresh: "accounted (Some r) cl n \<Longrightarrow> rc_id r \<noteq> n"
  by (auto simp: accounted_def)

definition updater_inv :: "updater \<Rightarrow> bool" where
  "updater_inv st \<longleftrightarrow>
     accounted (up_resource st) (up_closed st) (up_next st)
     \<and> (up_install st \<noteq> NoInstall \<longrightarrow> up_check st = NoCheck \<and> up_resource st = installing_resource (up_install st))
     \<and> up_active st = installing_resource (up_install st)
     \<and> (up_disposed st \<and> up_install st = NoInstall \<longrightarrow> up_resource st = None)
     \<and> (up_installed st \<and> up_install st = NoInstall \<and> \<not> adopting (up_check st) \<longrightarrow> up_resource st = None)"

lemma publish_simps [simp]:
  "up_resource (publish s st) = up_resource st" "up_check (publish s st) = up_check st"
  "up_install (publish s st) = up_install st" "up_active (publish s st) = up_active st"
  "up_installed (publish s st) = up_installed st" "up_relaunched (publish s st) = up_relaunched st"
  "up_disposed (publish s st) = up_disposed st" "up_next (publish s st) = up_next st"
  "up_closed (publish s st) = up_closed st" "up_resource (publish_error e st) = up_resource st"
  "up_check (publish_error e st) = up_check st" "up_install (publish_error e st) = up_install st"
  "up_active (publish_error e st) = up_active st" "up_installed (publish_error e st) = up_installed st"
  "up_disposed (publish_error e st) = up_disposed st" "up_next (publish_error e st) = up_next st"
  "up_closed (publish_error e st) = up_closed st"
  by (simp_all add: publish_def publish_error_def)

lemma publish_inv [simp]: "updater_inv (publish s st) \<longleftrightarrow> updater_inv st"
  by (simp add: updater_inv_def)

lemma finish_check_inv:
  assumes "updater_inv st" "up_install st = NoInstall" "adopting (up_check st) \<longrightarrow> (\<exists>s. act = AdoptResult s)"
  shows "updater_inv (finish_check now act st)"
proof (cases act)
  case (AdoptResult s)
  with assms show ?thesis by (simp add: updater_inv_def finish_check_def Let_def)
qed (use assms in \<open>simp_all add: updater_inv_def finish_check_def Let_def\<close>)

text \<open>What holds when the install task for \<open>r\<close> is about to end.\<close>

lemma finish_install_inv:
  assumes "accounted (Some r) (up_closed st) (up_next st)" "up_check st = NoCheck" "up_resource st = Some r"
  shows "updater_inv (finish_install r st)"
  using assms by (simp add: updater_inv_def finish_install_def safe_close_def Let_def accounted_close)

lemma refresh_inv: "updater_inv st \<Longrightarrow> updater_inv (refresh silent st)"
  by (simp add: updater_inv_def refresh_def Let_def)

lemma install_inv: "updater_inv st \<Longrightarrow> updater_inv (install st)"
  by (cases "up_resource st") (auto simp: updater_inv_def install_def Let_def)

lemma dispose_inv: "updater_inv st \<Longrightarrow> updater_inv (dispose st)"
  by (cases "up_resource st"; cases "up_install st = NoInstall")
    (auto simp: updater_inv_def dispose_def safe_close_def Let_def accounted_close)

lemma downloading_facts:
  assumes "updater_inv st" "installing_resource (up_install st) = Some r"
  shows "accounted (Some r) (up_closed st) (up_next st)" "up_check st = NoCheck" "up_resource st = Some r" "up_active st = Some r"
  using assms by (cases "up_install st"; simp add: updater_inv_def)+

lemma download_settled_inv:
  assumes "updater_inv st"
  shows "updater_inv (download_settled err st)"
proof (cases "up_install st")
  case (Downloading r)
  then have "installing_resource (up_install st) = Some r" by simp
  note f = downloading_facts [OF assms this]
  show ?thesis
  proof (cases err)
    case None
    let ?st = "publish ((up_snapshot st)\<lparr>sn_phase := Ready, sn_error := None\<rparr>) (st\<lparr>up_installed := True\<rparr>)"
    have "updater_inv (finish_install r ?st)" by (rule finish_install_inv) (simp_all add: f)
    moreover have "updater_inv (?st\<lparr>up_install := Relaunching (Some r)\<rparr>)" by (simp add: updater_inv_def f)
    ultimately show ?thesis by (simp add: download_settled_def Downloading None Let_def)
  next
    case (Some e)
    have "updater_inv (finish_install r (publish_error e st))" by (rule finish_install_inv) (simp_all add: f)
    then show ?thesis by (simp add: download_settled_def Downloading Some)
  qed
qed (simp_all add: download_settled_def assms)

lemma relaunch_settled_inv:
  assumes "updater_inv st"
  shows "updater_inv (relaunch_settled err st)"
proof (cases "up_install st")
  case (Relaunching ro)
  define st1 where "st1 = (case err of None \<Rightarrow> st\<lparr>up_relaunched := True\<rparr> | Some e \<Rightarrow> publish_error e st)"
  have same: "up_resource st1 = up_resource st" "up_check st1 = up_check st" "up_closed st1 = up_closed st" "up_next st1 = up_next st"
    "up_active st1 = up_active st"
    by (simp_all add: st1_def split: option.split)
  have eq: "relaunch_settled err st = (case ro of Some r \<Rightarrow> finish_install r st1 | None \<Rightarrow> st1\<lparr>up_install := NoInstall\<rparr>)"
    by (simp add: relaunch_settled_def Relaunching st1_def [symmetric] Let_def)
  show ?thesis
  proof (cases ro)
    case None
    with assms Relaunching show ?thesis unfolding eq by (auto simp: updater_inv_def same)
  next
    case (Some r)
    with Relaunching have "installing_resource (up_install st) = Some r" by simp
    note f = downloading_facts [OF assms this]
    have "updater_inv (finish_install r st1)" by (rule finish_install_inv) (simp_all add: f same)
    with Some show ?thesis unfolding eq by simp
  qed
qed (simp_all add: relaunch_settled_def assms)

lemma checking_no_install: "updater_inv st \<Longrightarrow> up_check st \<noteq> NoCheck \<Longrightarrow> up_install st = NoInstall"
  by (auto simp: updater_inv_def)

lemma check_continues_inv:
  assumes "updater_inv st"
  shows "updater_inv (check_continues now st)"
proof (cases "up_check st")
  case (ClosingStale act)
  have "updater_inv (finish_check now act st)"
    by (rule finish_check_inv [OF assms]) (use checking_no_install [OF assms] ClosingStale in \<open>cases act; simp\<close>)+
  with ClosingStale show ?thesis by (simp add: check_continues_def)
qed (simp_all add: check_continues_def assms)

lemma accounted_replace: "accounted (Some old) cl n \<Longrightarrow> rc_id r = n \<Longrightarrow> accounted (Some r) (cl @ [rc_id old]) (Suc n)"
  by (rule accounted_adopt [OF accounted_close])

text \<open>The two ways a settled check goes on: the found resource is dropped, or it replaces the held one.\<close>

lemma drop_found_inv:
  assumes "updater_inv st" "up_check st = Checking silent prev" "\<not> (\<exists>s. act = AdoptResult s)"
  shows "updater_inv (finish_check now act st)"
    and "updater_inv (safe_close \<lparr>rc_id = up_next st, rc_version = v, rc_body = b\<rparr>
           (st\<lparr>up_next := up_next st + 1, up_check := ClosingStale act\<rparr>))"
proof -
  from assms(1,2) have ni: "up_install st = NoInstall" by (simp add: checking_no_install)
  show "updater_inv (finish_check now act st)"
    by (rule finish_check_inv [OF assms(1) ni]) (simp add: assms(2))
  show "updater_inv (safe_close \<lparr>rc_id = up_next st, rc_version = v, rc_body = b\<rparr>
           (st\<lparr>up_next := up_next st + 1, up_check := ClosingStale act\<rparr>))"
    using assms ni by (cases act) (auto simp: updater_inv_def safe_close_def accounted_drop)
qed

lemma adopt_found_inv:
  assumes "updater_inv st" "up_check st = Checking silent prev" "\<not> up_disposed st"
    and "found = None \<and> n = up_next st \<or> (\<exists>r. found = Some r \<and> rc_id r = up_next st \<and> n = Suc (up_next st))"
  shows "updater_inv (let st2 = st\<lparr>up_next := n, up_resource := found, up_check := ClosingStale (AdoptResult s)\<rparr>
     in case up_resource st of None \<Rightarrow> st2 | Some old \<Rightarrow> if found = Some old then st2 else safe_close old st2)"
proof -
  from assms(1,2) have ni: "up_install st = NoInstall" by (simp add: checking_no_install)
  have acc: "accounted (up_resource st) (up_closed st) (up_next st)" "up_active st = None"
    using assms(1) ni by (simp_all add: updater_inv_def)
  have fresh: "found \<noteq> up_resource st" if "found = Some r" "rc_id r = up_next st" for r
    using that acc(1) accounted_fresh by metis
  show ?thesis
    using assms(3,4) ni acc fresh
    by (cases "up_resource st")
      (auto simp: updater_inv_def safe_close_def Let_def accounted_close accounted_adopt accounted_replace)
qed

lemma refresh_settled_inv:
  assumes inv: "updater_inv st"
  shows "updater_inv (refresh_settled now version update st)"
proof (cases "up_check st")
  case (Checking silent prev)
  define found where "found = (case update of
      Inr (Some (v, b)) \<Rightarrow> Some \<lparr>rc_id = up_next st, rc_version = v, rc_body = b\<rparr> | _ \<Rightarrow> None)"
  define st1 where "st1 = (if found = None then st else st\<lparr>up_next := up_next st + 1\<rparr>)"
  have found: "found = None \<or> (\<exists>v b. found = Some \<lparr>rc_id = up_next st, rc_version = v, rc_body = b\<rparr>)"
    by (auto simp: found_def split: sum.split option.split)
  have dropped: "updater_inv (case found of None \<Rightarrow> finish_check now act st1
      | Some r \<Rightarrow> safe_close r (st1\<lparr>up_check := ClosingStale act\<rparr>))" if "\<not> (\<exists>s. act = AdoptResult s)" for act
    using found drop_found_inv [OF inv Checking that] by (auto simp: st1_def)
  have adopted: "updater_inv (let st2 = st1\<lparr>up_resource := found, up_check := ClosingStale (AdoptResult s)\<rparr>
     in case up_resource st of None \<Rightarrow> st2 | Some old \<Rightarrow> if found = Some old then st2 else safe_close old st2)"
    if "\<not> up_disposed st" for s
    using found adopt_found_inv [OF inv Checking that, of found "if found = None then up_next st else Suc (up_next st)" s]
    by (auto simp: st1_def)
  let ?drop = "\<lambda>act. case found of None \<Rightarrow> finish_check now act st1
      | Some r \<Rightarrow> safe_close r (st1\<lparr>up_check := ClosingStale act\<rparr>)"
  have eq: "refresh_settled now version update st =
     (if up_disposed st then ?drop JustReturn
      else (case (version, update) of
          (Inr v, Inr _) \<Rightarrow>
            (let st2 = st1\<lparr>up_resource := found, up_check := ClosingStale (AdoptResult (checked_snapshot v found))\<rparr>
             in case up_resource st of None \<Rightarrow> st2 | Some old \<Rightarrow> if found = Some old then st2 else safe_close old st2)
        | _ \<Rightarrow> ?drop (PublishOnly (failed_check_snapshot silent prev version update))))"
    unfolding refresh_settled_def Checking check_task.case found_def [symmetric] by (simp only: Let_def st1_def)
  show ?thesis
    unfolding eq using dropped adopted by (auto split: sum.split simp del: Let_def)
qed (simp_all add: refresh_settled_def inv)

lemma install_continues_inv: "updater_inv st \<Longrightarrow> updater_inv (install_continues st)"
  by (auto simp: updater_inv_def install_continues_def)

lemma updater_step_inv: "updater_inv st \<Longrightarrow> updater_inv (updater_step st e)"
  by (cases e) (simp_all add: refresh_inv install_inv dispose_inv download_settled_inv relaunch_settled_inv
      check_continues_inv refresh_settled_inv publish_inv install_continues_inv version_known_def download_event_def
      split: download_notice.split)

interpretation updater: invariant_machine updater_step updater_inv
  by unfold_locales (rule updater_step_inv)



end
