(* ===== verification/AtomicBatch.thy ===== *)
theory AtomicBatch
  imports Prelude
begin

text \<open>
  The atomic batches of the control plane (\<open>workspace-cloud/lib/d1/atomic.ts\<close>): a scope query, then statements that read
  its materialised row. A statement gives the new database and the rows it returns, or \<open>None\<close> when a constraint fails;
  a failed batch changes nothing.
\<close>

section \<open>Atomic batches\<close>

type_synonym ('p, 'db, 'r) statement = "'p option \<Rightarrow> 'db \<Rightarrow> ('db \<times> 'r list) option"

fun run_statements :: "'p option \<Rightarrow> ('p, 'db, 'r) statement list \<Rightarrow> 'db \<Rightarrow> ('db \<times> 'r list list) option" where
  "run_statements p [] db = Some (db, [])"
| "run_statements p (s # ss) db =
     (case s p db of
        None \<Rightarrow> None
      | Some (db1, ids) \<Rightarrow> (case run_statements p ss db1 of None \<Rightarrow> None | Some (db2, rows) \<Rightarrow> Some (db2, ids # rows)))"

text \<open>
  The scope query is materialised once, in a scratch row that every statement reads; two scope rows would share
  their key, so the insert fails. \<open>Inl ()\<close> is the thrown error.
\<close>

definition atomic_d1 ::
  "('db \<Rightarrow> 'p list) \<Rightarrow> ('p, 'db, 'r) statement list \<Rightarrow> 'db \<Rightarrow> unit + ((bool \<times> 'r list list) \<times> 'db)" where
  "atomic_d1 scope statements db =
     (if statements = [] \<or> length statements > 998 then Inl ()
      else case scope db of
             [] \<Rightarrow> (case run_statements None statements db of None \<Rightarrow> Inl () | Some (db', rows) \<Rightarrow> Inr ((False, rows), db'))
           | [p] \<Rightarrow> (case run_statements (Some p) statements db of None \<Rightarrow> Inl () | Some (db', rows) \<Rightarrow> Inr ((True, rows), db'))
           | _ \<Rightarrow> Inl ())"

text \<open>A statement that selects from the scope, and one that only changes rows.\<close>

definition scoped :: "('p \<Rightarrow> 'db \<Rightarrow> ('db \<times> 'r list) option) \<Rightarrow> ('p, 'db, 'r) statement" where
  "scoped f p db = (case p of None \<Rightarrow> Some (db, []) | Some x \<Rightarrow> f x db)"

definition guarded :: "('p \<Rightarrow> 'db \<Rightarrow> 'db) \<Rightarrow> ('p, 'db, 'r) statement" where
  "guarded f = scoped (\<lambda>x db. Some (f x db, []))"

section \<open>What a batch does\<close>

declare run_statements.simps(2) [simp del]

lemma run_scoped [simp]:
  "run_statements (Some p) (scoped f # ss) db =
     (case f p db of None \<Rightarrow> None
      | Some (db', ids) \<Rightarrow> map_option (\<lambda>(db'', rows). (db'', ids # rows)) (run_statements (Some p) ss db'))"
  by (simp add: run_statements.simps(2) scoped_def case_prod_beta map_option_case split: option.split)

lemma run_guarded [simp]:
  "run_statements (Some p) (guarded f # ss) db =
     map_option (\<lambda>(db', rows). (db', [] # rows)) (run_statements (Some p) ss (f p db))"
  by (simp add: guarded_def)

lemmas run_statement = run_statements.simps(2)

lemma run_length: "run_statements p ss db = Some (db', rows) \<Longrightarrow> length rows = length ss"
  by (induction ss arbitrary: db rows) (auto simp: run_statement split: option.splits)

lemma run_last:
  "run_statements p (ss @ [s]) db = Some (db', rows) \<Longrightarrow> \<exists>db1. s p db1 = Some (db', last rows)"
proof (induction ss arbitrary: db rows)
  case (Cons t ss)
  from Cons.prems obtain db1 r rs where rest: "run_statements p (ss @ [s]) db1 = Some (db', rs)" "rows = r # rs"
    by (auto simp: run_statement split: option.splits)
  from run_length [OF rest(1)] have "rs \<noteq> []" by auto
  with Cons.IH [OF rest(1)] rest(2) show ?case by simp
qed (auto simp: run_statement split: option.splits)

lemma run_unmatched:
  "\<forall>s\<in>set ss. \<forall>db. s None db = Some (db, []) \<Longrightarrow> run_statements None ss db = Some (db, replicate (length ss) [])"
  by (induction ss arbitrary: db) (auto simp: run_statement)

lemma scoped_None [simp]: "scoped f None db = Some (db, [])" "guarded g None db = Some (db, [])"
  by (simp_all add: guarded_def scoped_def)

lemma atomic_unmatched:
  assumes "scope db = []" "ss \<noteq> []" "length ss \<le> 998" "\<forall>s\<in>set ss. \<forall>db. s None db = Some (db, [])"
  shows "atomic_d1 scope ss db = Inr ((False, replicate (length ss) []), db)"
  using assms by (simp add: atomic_d1_def run_unmatched)

lemma atomic_matched:
  assumes "scope db = [p]" "ss \<noteq> []" "length ss \<le> 998"
  shows "atomic_d1 scope ss db =
     (case run_statements (Some p) ss db of None \<Rightarrow> Inl () | Some (db', rows) \<Rightarrow> Inr ((True, rows), db'))"
  using assms by (simp add: atomic_d1_def)

lemma atomic_cases:
  assumes "atomic_d1 scope ss db = Inr ((m, rows), db')" "\<forall>s\<in>set ss. \<forall>db. s None db = Some (db, [])"
  obtains "\<not> m" "db' = db" "scope db = []" "rows = replicate (length ss) []"
    | p where "m" "scope db = [p]" "run_statements (Some p) ss db = Some (db', rows)"
proof (cases "scope db")
  case Nil
  with assms that(1) show ?thesis
    by (auto simp: atomic_d1_def run_unmatched split: if_splits)
next
  case (Cons p rest)
  with assms(1) that(2) show ?thesis
    by (cases rest) (auto simp: atomic_d1_def split: if_splits option.splits)
qed

section \<open>Keyed tables\<close>

lemma distinct_key_unique: "distinct (map f xs) \<Longrightarrow> x \<in> set xs \<Longrightarrow> y \<in> set xs \<Longrightarrow> f x = f y \<Longrightarrow> x = y"
  by (simp add: distinct_map inj_on_def)

lemma concat_single:
  assumes "distinct (map k xs)" "x \<in> set xs" "\<And>y. y \<in> set xs \<Longrightarrow> k y \<noteq> k x \<Longrightarrow> f y = []"
  shows "concat (map f xs) = f x"
  using assms
proof (induction xs)
  case (Cons a xs)
  show ?case
  proof (cases "k a = k x")
    case True
    with Cons.prems(1,2) have "a = x" by (metis distinct_key_unique list.set_intros(1))
    moreover have "f y = []" if "y \<in> set xs" for y
      using that Cons.prems(1,3) True by (metis (no_types, lifting) distinct.simps(2) image_eqI list.set_intros(2) list.set_map list.simps(9))
    then have "concat (map f xs) = []" by simp
    ultimately show ?thesis by simp
  next
    case False
    with Cons show ?thesis by auto
  qed
qed simp

end
