(* ===== verification/WorkspaceLifecycle.thy ===== *)
theory WorkspaceLifecycle
  imports AtomicBatch
begin

text \<open>
  Deletion of a workspace: scheduling, cancelling and the retention clean-up (\<open>workspace-cloud/lib/workspace-lifecycle.ts\<close>,
  \<open>workspace-retention-purge.ts\<close>) on the batches of \<open>AtomicBatch\<close>. Tables are lists of rows with the
  columns these queries use; timestamps are epoch milliseconds, which the fixed UTC text format orders the same way.
\<close>

section \<open>Tables\<close>

record org_row =
  og_id :: string
  og_name :: string

datatype lifecycle_state = LifecycleActive | DeletionPending

record workspace_profile =
  wp_org :: string
  wp_state :: lifecycle_state
  wp_receipt :: "string option"
  wp_requested :: "int option"
  wp_purge_after :: "int option"
  wp_revision :: nat
  wp_updated :: int

datatype receipt_status = ReceiptPending | ReceiptCancelled | ReceiptPurged

record deletion_receipt =
  dr_id :: string
  dr_org :: string
  dr_user :: string
  dr_requested :: int
  dr_purge_after :: int
  dr_status :: receipt_status
  dr_cancelled :: "int option"
  dr_purged :: "int option"

record lifecycle_member =
  lm_id :: string
  lm_org :: string
  lm_user :: string
  lm_role :: string
  lm_pending :: "int option"
  lm_claim :: "string option"

record lifecycle_session =
  ls_id :: string
  ls_user :: string
  ls_expires :: int
  ls_active_org :: "string option"
  ls_updated :: int

record metadata_backup =
  bk_id :: string
  bk_org :: string
  bk_deleted :: "int option"
  bk_purge_after :: "int option"

record lifecycle_audit =
  au_org :: string
  au_actor :: "string option"
  au_action :: string
  au_resource_type :: string
  au_resource :: string
  au_purge_after :: "int option"
  au_request :: string

text \<open>
  Integrations are rows of workspace, revocation time and status, leases of workspace and revocation time, operations
  and key rotations of workspace and state. \<open>lf_evidence\<close> has one entry (table, workspace) per row of the other tables.
\<close>

record lifecycle_db =
  lf_orgs :: "org_row list"
  lf_profiles :: "workspace_profile list"
  lf_receipts :: "deletion_receipt list"
  lf_members :: "lifecycle_member list"
  lf_sessions :: "lifecycle_session list"
  lf_integrations :: "(string \<times> int option \<times> string) list"
  lf_leases :: "(string \<times> int option) list"
  lf_operations :: "(string \<times> string) list"
  lf_rotations :: "(string \<times> string) list"
  lf_backups :: "metadata_backup list"
  lf_evidence :: "(string \<times> string) list"
  lf_audit :: "lifecycle_audit list"

record lifecycle_authority =
  la_session :: string
  la_user :: string
  la_member :: string

definition retention_days :: int where
  "retention_days = 7"

definition retention_ms :: int where
  "retention_ms = retention_days * 24 * 60 * 60 * 1000"

section \<open>Blockers and status\<close>

definition active_integrations :: "lifecycle_db \<Rightarrow> string \<Rightarrow> (string \<times> int option \<times> string) list" where
  "active_integrations db org = [i \<leftarrow> lf_integrations db. fst i = org \<and> (fst (snd i) = None \<or> snd (snd i) \<noteq> ''revoked'')]"

definition live_leases :: "lifecycle_db \<Rightarrow> string \<Rightarrow> (string \<times> int option) list" where
  "live_leases db org = [l \<leftarrow> lf_leases db. fst l = org \<and> snd l = None]"

definition unresolved_operations :: "lifecycle_db \<Rightarrow> string \<Rightarrow> (string \<times> string) list" where
  "unresolved_operations db org =
     [q \<leftarrow> lf_operations db. fst q = org \<and> snd q \<notin> {''succeeded'', ''failed'', ''cancelled''}]"

definition running_rotations :: "lifecycle_db \<Rightarrow> string \<Rightarrow> (string \<times> string) list" where
  "running_rotations db org = [r \<leftarrow> lf_rotations db. fst r = org \<and> snd r = ''running'']"

definition revoking_members :: "lifecycle_db \<Rightarrow> string \<Rightarrow> lifecycle_member list" where
  "revoking_members db org = [m \<leftarrow> lf_members db. lm_org m = org \<and> (lm_pending m \<noteq> None \<or> lm_claim m \<noteq> None)]"

definition deletion_unblocked :: "lifecycle_db \<Rightarrow> string \<Rightarrow> bool" where
  "deletion_unblocked db org \<longleftrightarrow>
     active_integrations db org = [] \<and> live_leases db org = [] \<and> unresolved_operations db org = []
     \<and> running_rotations db org = [] \<and> [m \<leftarrow> lf_members db. lm_org m = org \<and> lm_claim m \<noteq> None] = []"

record lifecycle_status =
  lx_name :: string
  lx_revision :: nat
  lx_state :: lifecycle_state
  lx_receipt :: "string option"
  lx_requested :: "int option"
  lx_purge_after :: "int option"
  lx_backups :: nat
  lx_tombstoned :: nat
  lx_blockers :: "nat list"
  lx_can_schedule :: bool

text \<open>The blockers in the order of the source: integrations, leases, operations, key rotations, member revocations.\<close>

definition workspace_lifecycle_status :: "string \<Rightarrow> lifecycle_db \<Rightarrow> lifecycle_status option" where
  "workspace_lifecycle_status org db =
     (case first_row [(p, g). p \<leftarrow> lf_profiles db, g \<leftarrow> lf_orgs db, og_id g = wp_org p, wp_org p = org] of
        None \<Rightarrow> None
      | Some (p, g) \<Rightarrow>
          let blockers = [length (active_integrations db org), length (live_leases db org),
                length (unresolved_operations db org), length (running_rotations db org), length (revoking_members db org)]
          in Some \<lparr>lx_name = og_name g, lx_revision = wp_revision p, lx_state = wp_state p, lx_receipt = wp_receipt p,
               lx_requested = wp_requested p, lx_purge_after = wp_purge_after p,
               lx_backups = length [b \<leftarrow> lf_backups db. bk_org b = org \<and> bk_deleted b = None],
               lx_tombstoned = length [b \<leftarrow> lf_backups db. bk_org b = org \<and> bk_deleted b \<noteq> None],
               lx_blockers = blockers,
               lx_can_schedule = (wp_state p = LifecycleActive \<and> (\<forall>n\<in>set blockers. n = 0))\<rparr>)"

section \<open>Scheduling and cancelling\<close>

definition owner_authority :: "int \<Rightarrow> string \<Rightarrow> lifecycle_authority \<Rightarrow> lifecycle_db \<Rightarrow> bool" where
  "owner_authority now org auth db \<longleftrightarrow>
     (\<exists>s\<in>set (lf_sessions db). \<exists>m\<in>set (lf_members db). \<exists>p\<in>set (lf_profiles db).
        lm_user m = ls_user s \<and> wp_org p = lm_org m
        \<and> ls_id s = la_session auth \<and> ls_user s = la_user auth \<and> ls_expires s > now
        \<and> lm_id m = la_member auth \<and> lm_org m = org \<and> lm_role m = ''owner''
        \<and> lm_pending m = None \<and> lm_claim m = None \<and> wp_state p = LifecycleActive)"

definition find_receipt :: "string \<Rightarrow> string \<Rightarrow> lifecycle_db \<Rightarrow> deletion_receipt option" where
  "find_receipt rid org db = first_row [r \<leftarrow> lf_receipts db. dr_id r = rid \<and> dr_org r = org]"

text \<open>The primary key and the partial unique index of pending receipts.\<close>

definition insert_receipt :: "deletion_receipt \<Rightarrow> lifecycle_db \<Rightarrow> lifecycle_db option" where
  "insert_receipt r db =
     (if (\<exists>q\<in>set (lf_receipts db). dr_id q = dr_id r \<or> dr_org q = dr_org r \<and> dr_status q = ReceiptPending \<and> dr_status r = ReceiptPending)
      then None else Some (db\<lparr>lf_receipts := lf_receipts db @ [r]\<rparr>))"

definition map_profile :: "string \<Rightarrow> (workspace_profile \<Rightarrow> workspace_profile) \<Rightarrow> lifecycle_db \<Rightarrow> lifecycle_db" where
  "map_profile org f db = db\<lparr>lf_profiles := map (\<lambda>p. if wp_org p = org then f p else p) (lf_profiles db)\<rparr>"

definition add_audit :: "lifecycle_audit \<Rightarrow> lifecycle_db \<Rightarrow> lifecycle_db" where
  "add_audit a db = db\<lparr>lf_audit := lf_audit db @ [a]\<rparr>"

definition schedule_scope :: "int \<Rightarrow> string \<Rightarrow> lifecycle_authority \<Rightarrow> string \<Rightarrow> string \<Rightarrow> lifecycle_db \<Rightarrow> unit list" where
  "schedule_scope now org auth rid confirmation db =
     [(). g \<leftarrow> lf_orgs db, og_id g = org \<and> og_name g = confirmation \<and> owner_authority now org auth db
        \<and> (\<forall>r\<in>set (lf_receipts db). dr_id r \<noteq> rid) \<and> revoking_members db org = [] \<and> deletion_unblocked db org]"

definition schedule_profile :: "int \<Rightarrow> string \<Rightarrow> int \<Rightarrow> workspace_profile \<Rightarrow> workspace_profile" where
  "schedule_profile now rid requested p =
     p\<lparr>wp_state := DeletionPending, wp_receipt := Some rid, wp_requested := Some requested,
       wp_purge_after := Some (requested + retention_ms), wp_revision := wp_revision p + 1, wp_updated := now\<rparr>"

definition schedule_statements ::
  "int \<Rightarrow> int \<Rightarrow> string \<Rightarrow> lifecycle_authority \<Rightarrow> string \<Rightarrow> (unit, lifecycle_db, string) statement list" where
  "schedule_statements now requested org auth rid =
     [scoped (\<lambda>_ db. map_option (\<lambda>db'. (db', [])) (insert_receipt \<lparr>dr_id = rid, dr_org = org, dr_user = la_user auth,
            dr_requested = requested, dr_purge_after = requested + retention_ms, dr_status = ReceiptPending,
            dr_cancelled = None, dr_purged = None\<rparr> db)),
      guarded (\<lambda>_. map_profile org (schedule_profile now rid requested)),
      guarded (\<lambda>_ db. db\<lparr>lf_members := map (\<lambda>m. if lm_org m = org then m\<lparr>lm_pending := Some requested\<rparr> else m) (lf_members db)\<rparr>),
      guarded (\<lambda>_ db. db\<lparr>lf_sessions := map (\<lambda>s. if ls_active_org s = Some org
            then s\<lparr>ls_active_org := None, ls_updated := now\<rparr> else s) (lf_sessions db)\<rparr>),
      guarded (\<lambda>_. add_audit \<lparr>au_org = org, au_actor = Some (la_user auth), au_action = ''workspace.deletion.schedule'',
            au_resource_type = ''workspace'', au_resource = org, au_purge_after = Some (requested + retention_ms), au_request = rid\<rparr>)]"

datatype lifecycle_result = Scheduled | Replayed | Cancelled

text \<open>\<open>requested\<close> is the clock of the server, \<open>now\<close> the clock of the database. \<open>Inr None\<close> is \<open>null\<close>.\<close>

definition schedule_workspace_deletion ::
  "int \<Rightarrow> int \<Rightarrow> string \<Rightarrow> lifecycle_authority \<Rightarrow> string \<Rightarrow> string \<Rightarrow> lifecycle_db
     \<Rightarrow> (unit + lifecycle_result option) \<times> lifecycle_db" where
  "schedule_workspace_deletion now requested org auth rid confirmation db =
     (case find_receipt rid org db of
        Some r \<Rightarrow> (Inr (if dr_status r = ReceiptPending then Some Replayed else None), db)
      | None \<Rightarrow>
          (case atomic_d1 (schedule_scope now org auth rid confirmation) (schedule_statements now requested org auth rid) db of
             Inl e \<Rightarrow> (Inl e, db)
           | Inr ((matched, _), db') \<Rightarrow> (Inr (if matched then Some Scheduled else None), db')))"

definition may_cancel ::
  "int \<Rightarrow> string \<Rightarrow> lifecycle_authority \<Rightarrow> string \<Rightarrow> workspace_profile \<Rightarrow> deletion_receipt \<Rightarrow> lifecycle_member
     \<Rightarrow> lifecycle_session \<Rightarrow> bool" where
  "may_cancel now org auth rid p r m s \<longleftrightarrow>
     wp_receipt p = Some (dr_id r) \<and> dr_org r = wp_org p
     \<and> lm_org m = wp_org p \<and> lm_id m = la_member auth \<and> ls_user s = lm_user m \<and> ls_id s = la_session auth
     \<and> wp_org p = org \<and> wp_state p = DeletionPending \<and> wp_receipt p = Some rid
     \<and> (case wp_purge_after p of None \<Rightarrow> False | Some t \<Rightarrow> t > now)
     \<and> dr_status r = ReceiptPending \<and> dr_purge_after r > now
     \<and> ls_user s = la_user auth \<and> ls_expires s > now \<and> lm_role m = ''owner'' \<and> lm_claim m = None
     \<and> sql_eq (lm_pending m) (wp_requested p)"

definition cancel_scope :: "int \<Rightarrow> string \<Rightarrow> lifecycle_authority \<Rightarrow> string \<Rightarrow> lifecycle_db \<Rightarrow> int list" where
  "cancel_scope now org auth rid db =
     [the (wp_requested p). p \<leftarrow> lf_profiles db, r \<leftarrow> lf_receipts db, m \<leftarrow> lf_members db, s \<leftarrow> lf_sessions db,
        may_cancel now org auth rid p r m s]"

definition cancel_profile :: "int \<Rightarrow> workspace_profile \<Rightarrow> workspace_profile" where
  "cancel_profile now p = p\<lparr>wp_state := LifecycleActive, wp_receipt := None, wp_requested := None, wp_purge_after := None,
     wp_revision := wp_revision p + 1, wp_updated := now\<rparr>"

definition cancel_statements ::
  "int \<Rightarrow> string \<Rightarrow> lifecycle_authority \<Rightarrow> string \<Rightarrow> string \<Rightarrow> (int, lifecycle_db, string) statement list" where
  "cancel_statements now org auth rid event_id =
     [guarded (\<lambda>_ db. db\<lparr>lf_receipts := map (\<lambda>r. if dr_id r = rid
            then r\<lparr>dr_status := ReceiptCancelled, dr_cancelled := Some now\<rparr> else r) (lf_receipts db)\<rparr>),
      guarded (\<lambda>_. map_profile org (cancel_profile now)),
      guarded (\<lambda>requested db. db\<lparr>lf_members := map (\<lambda>m. if lm_org m = org \<and> lm_claim m = None \<and> lm_pending m = Some requested
            then m\<lparr>lm_pending := None\<rparr> else m) (lf_members db)\<rparr>),
      guarded (\<lambda>_ db. db\<lparr>lf_sessions := map (\<lambda>s. if ls_id s = la_session auth \<and> ls_user s = la_user auth
            then s\<lparr>ls_active_org := Some org, ls_updated := now\<rparr> else s) (lf_sessions db)\<rparr>),
      guarded (\<lambda>_. add_audit \<lparr>au_org = org, au_actor = Some (la_user auth), au_action = ''workspace.deletion.cancel'',
            au_resource_type = ''workspace'', au_resource = org, au_purge_after = None, au_request = event_id\<rparr>)]"

definition cancel_workspace_deletion ::
  "int \<Rightarrow> string \<Rightarrow> lifecycle_authority \<Rightarrow> string \<Rightarrow> string \<Rightarrow> lifecycle_db
     \<Rightarrow> (unit + lifecycle_result option) \<times> lifecycle_db" where
  "cancel_workspace_deletion now org auth rid event_id db =
     (case map_option dr_status (find_receipt rid org db) of
        Some ReceiptCancelled \<Rightarrow> (Inr (Some Replayed), db)
      | Some ReceiptPending \<Rightarrow>
          (case atomic_d1 (cancel_scope now org auth rid) (cancel_statements now org auth rid event_id) db of
             Inl e \<Rightarrow> (Inl e, db)
           | Inr ((matched, _), db') \<Rightarrow> (Inr (if matched then Some Cancelled else None), db'))
      | _ \<Rightarrow> (Inr None, db))"

section \<open>Retention clean-up\<close>

definition evidence_tables :: "string list" where
  "evidence_tables =
     [''workspace_analysis_publication'', ''workspace_analysis_article_query_receipt'', ''workspace_analysis_article_run'',
      ''workspace_analysis_article_revision'', ''workspace_analysis_article'', ''workspace_analysis_runner'',
      ''workspace_metadata_backup'', ''workspace_data_key_rotation'', ''workspace_data_key'',
      ''workspace_resource_conflict_resolution'', ''workspace_resource_conflict'', ''workspace_resource_version'',
      ''workspace_provider_import_request'', ''knowledge_source'', ''workspace_connection'']"

definition delete_evidence :: "string \<Rightarrow> string \<Rightarrow> lifecycle_db \<Rightarrow> lifecycle_db" where
  "delete_evidence org table db =
     db\<lparr>lf_evidence := [e \<leftarrow> lf_evidence db. e \<noteq> (table, org)],
        lf_backups := (if table = ''workspace_metadata_backup'' then [b \<leftarrow> lf_backups db. bk_org b \<noteq> org] else lf_backups db),
        lf_rotations := (if table = ''workspace_data_key_rotation'' then [r \<leftarrow> lf_rotations db. fst r \<noteq> org] else lf_rotations db)\<rparr>"

text \<open>Every table with an \<open>organization_id\<close> cascades; a session loses its active workspace; receipts have no such key.\<close>

definition delete_organization :: "string \<Rightarrow> lifecycle_db \<Rightarrow> lifecycle_db" where
  "delete_organization org db =
     db\<lparr>lf_orgs := [g \<leftarrow> lf_orgs db. og_id g \<noteq> org], lf_profiles := [p \<leftarrow> lf_profiles db. wp_org p \<noteq> org],
        lf_members := [m \<leftarrow> lf_members db. lm_org m \<noteq> org],
        lf_sessions := map (\<lambda>s. if ls_active_org s = Some org then s\<lparr>ls_active_org := None\<rparr> else s) (lf_sessions db),
        lf_integrations := [i \<leftarrow> lf_integrations db. fst i \<noteq> org], lf_leases := [l \<leftarrow> lf_leases db. fst l \<noteq> org],
        lf_operations := [q \<leftarrow> lf_operations db. fst q \<noteq> org], lf_rotations := [r \<leftarrow> lf_rotations db. fst r \<noteq> org],
        lf_backups := [b \<leftarrow> lf_backups db. bk_org b \<noteq> org], lf_evidence := [e \<leftarrow> lf_evidence db. snd e \<noteq> org],
        lf_audit := [a \<leftarrow> lf_audit db. au_org a \<noteq> org]\<rparr>"

definition may_purge :: "int \<Rightarrow> string \<Rightarrow> string \<Rightarrow> workspace_profile \<Rightarrow> deletion_receipt \<Rightarrow> bool" where
  "may_purge now org rid p r \<longleftrightarrow>
     wp_receipt p = Some (dr_id r) \<and> dr_org r = wp_org p \<and> wp_org p = org \<and> wp_receipt p = Some rid
     \<and> wp_state p = DeletionPending \<and> (case wp_purge_after p of None \<Rightarrow> False | Some t \<Rightarrow> t \<le> now)
     \<and> dr_status r = ReceiptPending \<and> dr_purge_after r \<le> now"

definition purge_scope :: "int \<Rightarrow> string \<Rightarrow> string \<Rightarrow> lifecycle_db \<Rightarrow> unit list" where
  "purge_scope now org rid db =
     [(). p \<leftarrow> lf_profiles db, r \<leftarrow> lf_receipts db, may_purge now org rid p r \<and> deletion_unblocked db org]"

text \<open>\<open>refused org db\<close>: a restricting foreign key of a table outside this model keeps the workspace row.\<close>

definition purge_statements ::
  "(string \<Rightarrow> lifecycle_db \<Rightarrow> bool) \<Rightarrow> int \<Rightarrow> string \<Rightarrow> string \<Rightarrow> (unit, lifecycle_db, string) statement list" where
  "purge_statements refused now org rid =
     [guarded (\<lambda>_ db. db),
      guarded (\<lambda>_ db. db\<lparr>lf_receipts := map (\<lambda>r. if dr_id r = rid \<and> dr_org r = org
            then r\<lparr>dr_status := ReceiptPurged, dr_purged := Some now\<rparr> else r) (lf_receipts db)\<rparr>)]
     @ map (\<lambda>table. guarded (\<lambda>_. delete_evidence org table)) evidence_tables
     @ [scoped (\<lambda>_ db. if refused org db then None
          else Some (delete_organization org db, map og_id [g \<leftarrow> lf_orgs db. og_id g = org]))]"

definition purge_due_workspace ::
  "(string \<Rightarrow> lifecycle_db \<Rightarrow> bool) \<Rightarrow> int \<Rightarrow> string \<Rightarrow> string \<Rightarrow> lifecycle_db \<Rightarrow> (unit + bool) \<times> lifecycle_db" where
  "purge_due_workspace refused now org rid db =
     (case atomic_d1 (purge_scope now org rid) (purge_statements refused now org rid) db of
        Inl e \<Rightarrow> (Inl e, db)
      | Inr ((_, rows), db') \<Rightarrow> (Inr (first_row (last rows) = Some org), db'))"

definition due_backups :: "int \<Rightarrow> nat \<Rightarrow> lifecycle_db \<Rightarrow> metadata_backup list" where
  "due_backups now limit db =
     take limit (js_sort (cmp_key (\<lambda>b. (the (bk_purge_after b), bk_id b)))
       [b \<leftarrow> lf_backups db. bk_deleted b \<noteq> None \<and> (case bk_purge_after b of None \<Rightarrow> False | Some t \<Rightarrow> t \<le> now)])"

definition backup_statements :: "(nat \<Rightarrow> string) \<Rightarrow> (metadata_backup list, lifecycle_db, string) statement list" where
  "backup_statements event_ids =
     [guarded (\<lambda>due db. fold add_audit (map (\<lambda>(b, i). \<lparr>au_org = bk_org b, au_actor = None, au_action = ''workspace.backup.purge'',
            au_resource_type = ''workspace_backup'', au_resource = bk_id b, au_purge_after = None, au_request = event_ids i\<rparr>)
            (zip due [0..<length due])) db),
      scoped (\<lambda>due db. Some (db\<lparr>lf_backups := [b \<leftarrow> lf_backups db. bk_id b \<notin> bk_id ` set due]\<rparr>,
            map bk_id [b \<leftarrow> lf_backups db. bk_id b \<in> bk_id ` set due]))]"

definition due_workspaces :: "int \<Rightarrow> nat \<Rightarrow> lifecycle_db \<Rightarrow> (string \<times> string) list" where
  "due_workspaces now limit db =
     take limit (map snd (js_sort (cmp_key (\<lambda>(t, org, rid). (t, org)))
       [(the (wp_purge_after p), wp_org p, dr_id r). p \<leftarrow> lf_profiles db, r \<leftarrow> lf_receipts db,
          wp_receipt p = Some (dr_id r) \<and> dr_org r = wp_org p \<and> wp_state p = DeletionPending
          \<and> (case wp_purge_after p of None \<Rightarrow> False | Some t \<Rightarrow> t \<le> now)
          \<and> dr_status r = ReceiptPending \<and> dr_purge_after r \<le> now]))"

text \<open>
  Each batch reads the clock of the database: \<open>clock\<close> gives the readings in order. A purge that throws ends the loop;
  what was purged before stays purged.
\<close>

fun purge_all ::
  "(string \<Rightarrow> lifecycle_db \<Rightarrow> bool) \<Rightarrow> (nat \<Rightarrow> int) \<Rightarrow> nat \<Rightarrow> (string \<times> string) list \<Rightarrow> lifecycle_db
     \<Rightarrow> (unit + nat) \<times> lifecycle_db" where
  "purge_all refused clock i [] db = (Inr 0, db)"
| "purge_all refused clock i ((org, rid) # due) db =
     (case purge_due_workspace refused (clock i) org rid db of
        (Inl e, db') \<Rightarrow> (Inl e, db')
      | (Inr purged, db') \<Rightarrow>
          (case purge_all refused clock (Suc i) due db' of
             (Inl e, db'') \<Rightarrow> (Inl e, db'')
           | (Inr n, db'') \<Rightarrow> (Inr (if purged then n + 1 else n), db'')))"

record cleanup_report =
  cr_backups :: nat
  cr_workspaces :: nat
  cr_deferred :: nat

definition clamp_limit :: "int \<Rightarrow> int \<Rightarrow> int option \<Rightarrow> nat" where
  "clamp_limit usual most given = nat (max 1 (min (case given of None \<Rightarrow> usual | Some n \<Rightarrow> n) most))"

definition cleanup_workspace_retention ::
  "(string \<Rightarrow> lifecycle_db \<Rightarrow> bool) \<Rightarrow> (nat \<Rightarrow> int) \<Rightarrow> (nat \<Rightarrow> string) \<Rightarrow> int option \<Rightarrow> int option \<Rightarrow> lifecycle_db
     \<Rightarrow> (unit + cleanup_report) \<times> lifecycle_db" where
  "cleanup_workspace_retention refused clock event_ids backup_limit workspace_limit db =
     (case atomic_d1 (\<lambda>db. [due_backups (clock 0) (clamp_limit 25 100 backup_limit) db]) (backup_statements event_ids) db of
        Inl e \<Rightarrow> (Inl e, db)
      | Inr ((_, rows), db1) \<Rightarrow>
          let due = due_workspaces (clock 1) (clamp_limit 1 5 workspace_limit) db1
          in (case purge_all refused clock 2 due db1 of
                (Inl e, db2) \<Rightarrow> (Inl e, db2)
              | (Inr n, db2) \<Rightarrow> (Inr \<lparr>cr_backups = length (rows ! 1), cr_workspaces = n, cr_deferred = length due - n\<rparr>, db2)))"

section \<open>Steps of the lifecycle\<close>

text \<open>
  \<open>OtherWrites d\<close> is anything the rest of the control plane does to the tables it shares with the lifecycle: they become
  those of \<open>d\<close>. Workspace rows, profiles and receipts belong to the lifecycle.
\<close>

datatype lifecycle_event =
    ScheduleDeletion int int string lifecycle_authority string string
  | CancelDeletion int string lifecycle_authority string string
  | CleanUp "string \<Rightarrow> lifecycle_db \<Rightarrow> bool" "nat \<Rightarrow> int" "nat \<Rightarrow> string" "int option" "int option"
  | OtherWrites lifecycle_db

definition other_writes :: "lifecycle_db \<Rightarrow> lifecycle_db \<Rightarrow> lifecycle_db" where
  "other_writes d db = d\<lparr>lf_orgs := lf_orgs db, lf_profiles := lf_profiles db, lf_receipts := lf_receipts db\<rparr>"

fun lifecycle_step :: "lifecycle_db \<Rightarrow> lifecycle_event \<Rightarrow> lifecycle_db" where
  "lifecycle_step db (ScheduleDeletion now requested org auth rid confirmation) =
     snd (schedule_workspace_deletion now requested org auth rid confirmation db)"
| "lifecycle_step db (CancelDeletion now org auth rid event_id) = snd (cancel_workspace_deletion now org auth rid event_id db)"
| "lifecycle_step db (CleanUp refused clock event_ids bl wl) = snd (cleanup_workspace_retention refused clock event_ids bl wl db)"
| "lifecycle_step db (OtherWrites d) = other_writes d db"

section \<open>What the batches do\<close>

definition schedule_effect ::
  "int \<Rightarrow> int \<Rightarrow> string \<Rightarrow> lifecycle_authority \<Rightarrow> string \<Rightarrow> lifecycle_db \<Rightarrow> lifecycle_db" where
  "schedule_effect now requested org auth rid db =
     db\<lparr>lf_receipts := lf_receipts db @ [\<lparr>dr_id = rid, dr_org = org, dr_user = la_user auth, dr_requested = requested,
          dr_purge_after = requested + retention_ms, dr_status = ReceiptPending, dr_cancelled = None, dr_purged = None\<rparr>],
        lf_profiles := map (\<lambda>p. if wp_org p = org then schedule_profile now rid requested p else p) (lf_profiles db),
        lf_members := map (\<lambda>m. if lm_org m = org then m\<lparr>lm_pending := Some requested\<rparr> else m) (lf_members db),
        lf_sessions := map (\<lambda>s. if ls_active_org s = Some org then s\<lparr>ls_active_org := None, ls_updated := now\<rparr> else s)
          (lf_sessions db),
        lf_audit := lf_audit db @ [\<lparr>au_org = org, au_actor = Some (la_user auth), au_action = ''workspace.deletion.schedule'',
            au_resource_type = ''workspace'', au_resource = org, au_purge_after = Some (requested + retention_ms),
            au_request = rid\<rparr>]\<rparr>"

lemma run_schedule:
  "run_statements (Some ()) (schedule_statements now requested org auth rid) db =
     (if (\<exists>q\<in>set (lf_receipts db). dr_id q = rid \<or> dr_org q = org \<and> dr_status q = ReceiptPending) then None
      else Some (schedule_effect now requested org auth rid db, [[], [], [], [], []]))"
  by (simp add: schedule_statements_def insert_receipt_def schedule_effect_def map_profile_def add_audit_def) blast

lemma schedule_unmatched: "\<forall>s\<in>set (schedule_statements now requested org auth rid). \<forall>db. s None db = Some (db, [])"
  by (auto simp: schedule_statements_def)

definition cancel_effect :: "int \<Rightarrow> string \<Rightarrow> lifecycle_authority \<Rightarrow> string \<Rightarrow> string \<Rightarrow> int \<Rightarrow> lifecycle_db \<Rightarrow> lifecycle_db" where
  "cancel_effect now org auth rid event_id requested db =
     db\<lparr>lf_receipts := map (\<lambda>r. if dr_id r = rid then r\<lparr>dr_status := ReceiptCancelled, dr_cancelled := Some now\<rparr> else r)
          (lf_receipts db),
        lf_profiles := map (\<lambda>p. if wp_org p = org then cancel_profile now p else p) (lf_profiles db),
        lf_members := map (\<lambda>m. if lm_org m = org \<and> lm_claim m = None \<and> lm_pending m = Some requested
          then m\<lparr>lm_pending := None\<rparr> else m) (lf_members db),
        lf_sessions := map (\<lambda>s. if ls_id s = la_session auth \<and> ls_user s = la_user auth
          then s\<lparr>ls_active_org := Some org, ls_updated := now\<rparr> else s) (lf_sessions db),
        lf_audit := lf_audit db @ [\<lparr>au_org = org, au_actor = Some (la_user auth), au_action = ''workspace.deletion.cancel'',
            au_resource_type = ''workspace'', au_resource = org, au_purge_after = None, au_request = event_id\<rparr>]\<rparr>"

lemma run_cancel:
  "run_statements (Some requested) (cancel_statements now org auth rid event_id) db =
     Some (cancel_effect now org auth rid event_id requested db, [[], [], [], [], []])"
  by (simp add: cancel_statements_def cancel_effect_def map_profile_def add_audit_def)

lemma cancel_unmatched: "\<forall>s\<in>set (cancel_statements now org auth rid event_id). \<forall>db. s None db = Some (db, [])"
  by (auto simp: cancel_statements_def)

definition purge_effect :: "int \<Rightarrow> string \<Rightarrow> string \<Rightarrow> lifecycle_db \<Rightarrow> lifecycle_db" where
  "purge_effect now org rid db = delete_organization org
     (db\<lparr>lf_receipts := map (\<lambda>r. if dr_id r = rid \<and> dr_org r = org
          then r\<lparr>dr_status := ReceiptPurged, dr_purged := Some now\<rparr> else r) (lf_receipts db)\<rparr>)"

lemma filter_weaker: "(\<And>x. P x \<Longrightarrow> Q x) \<Longrightarrow> filter P (filter Q xs) = filter P xs"
  by (induction xs) auto

lemma delete_organization_evidence [simp]: "delete_organization org (delete_evidence org t db) = delete_organization org db"
proof -
  have "[e \<leftarrow> [e \<leftarrow> lf_evidence db. e \<noteq> (t, org)]. snd e \<noteq> org] = [e \<leftarrow> lf_evidence db. snd e \<noteq> org]"
    by (rule filter_weaker) auto
  then show ?thesis by (simp add: delete_organization_def delete_evidence_def)
qed

lemma delete_evidence_simps [simp]: "lf_orgs (delete_evidence org t db) = lf_orgs db" "lf_receipts (delete_evidence org t db) = lf_receipts db"
  by (simp_all add: delete_evidence_def)

lemma run_evidence:
  "run_statements (Some ()) (map (\<lambda>t. guarded (\<lambda>_. delete_evidence org t)) ts @ ss) db =
     map_option (\<lambda>(db', rows). (db', replicate (length ts) [] @ rows))
       (run_statements (Some ()) ss (fold (delete_evidence org) ts db))"
  by (induction ts arbitrary: db) (auto simp: option.map_comp case_prod_beta' o_def option.map_ident)

lemma fold_evidence [simp]:
  "delete_organization org (fold (delete_evidence org) ts db) = delete_organization org db"
  "lf_orgs (fold (delete_evidence org) ts db) = lf_orgs db"
  by (induction ts arbitrary: db) simp_all

lemma run_purge:
  "\<exists>no. run_statements (Some ()) (purge_statements refused now org rid) db =
     (if no then None
      else Some (purge_effect now org rid db,
             replicate (2 + length evidence_tables) [] @ [map og_id [g \<leftarrow> lf_orgs db. og_id g = org]]))"
  by (rule exI [of _ "refused org (fold (delete_evidence org) evidence_tables (db\<lparr>lf_receipts := map (\<lambda>r. if dr_id r = rid \<and> dr_org r = org
          then r\<lparr>dr_status := ReceiptPurged, dr_purged := Some now\<rparr> else r) (lf_receipts db)\<rparr>))"])
    (simp add: purge_statements_def run_evidence purge_effect_def)

lemma purge_unmatched: "\<forall>s\<in>set (purge_statements refused now org rid). \<forall>db. s None db = Some (db, [])"
  by (auto simp: purge_statements_def)

lemma schedule_cases:
  assumes "schedule_workspace_deletion now requested org auth rid confirmation db = (res, db')"
  obtains "res \<noteq> Inr (Some Scheduled)" "db' = db"
    | "res = Inr (Some Scheduled)" "db' = schedule_effect now requested org auth rid db"
      "schedule_scope now org auth rid confirmation db = [()]"
      "\<forall>q\<in>set (lf_receipts db). dr_id q \<noteq> rid \<and> (dr_org q = org \<longrightarrow> dr_status q \<noteq> ReceiptPending)"
proof (cases "find_receipt rid org db")
  case None
  show ?thesis
  proof (cases "atomic_d1 (schedule_scope now org auth rid confirmation) (schedule_statements now requested org auth rid) db")
    case (Inl e)
    with assms None that(1) show ?thesis by (auto simp: schedule_workspace_deletion_def)
  next
    case (Inr r)
    obtain m rows db1 where r: "r = ((m, rows), db1)" by (metis prod.exhaust)
    from Inr [unfolded r] schedule_unmatched show ?thesis
    proof (cases rule: atomic_cases)
      case 1
      with assms None Inr r that(1) show ?thesis by (auto simp: schedule_workspace_deletion_def)
    next
      case (2 p)
      with assms None Inr r that(2) show ?thesis
        by (auto simp: schedule_workspace_deletion_def run_schedule split: if_splits)
    qed
  qed
qed (use assms that(1) in \<open>auto simp: schedule_workspace_deletion_def\<close>)

lemma cancel_cases:
  assumes "cancel_workspace_deletion now org auth rid event_id db = (res, db')"
  obtains "res \<noteq> Inr (Some Cancelled)" "db' = db"
    | requested where "res = Inr (Some Cancelled)" "db' = cancel_effect now org auth rid event_id requested db"
      "cancel_scope now org auth rid db = [requested]"
proof (cases "map_option dr_status (find_receipt rid org db) = Some ReceiptPending")
  case True
  show ?thesis
  proof (cases "atomic_d1 (cancel_scope now org auth rid) (cancel_statements now org auth rid event_id) db")
    case (Inl e)
    with assms True that(1) show ?thesis by (auto simp: cancel_workspace_deletion_def)
  next
    case (Inr r)
    obtain m rows db1 where r: "r = ((m, rows), db1)" by (metis prod.exhaust)
    from Inr [unfolded r] cancel_unmatched show ?thesis
    proof (cases rule: atomic_cases)
      case 1
      with assms True Inr r that(1) show ?thesis by (auto simp: cancel_workspace_deletion_def)
    next
      case (2 p)
      with assms True Inr r that(2) show ?thesis
        by (auto simp: cancel_workspace_deletion_def run_cancel)
    qed
  qed
qed (use assms that(1) in \<open>auto simp: cancel_workspace_deletion_def split: option.splits receipt_status.splits\<close>)

lemma purge_cases:
  assumes "purge_due_workspace refused now org rid db = (res, db')"
  obtains "res \<noteq> Inr True" "db' = db"
    | "purge_scope now org rid db = [()]" "db' = purge_effect now org rid db"
proof (cases "atomic_d1 (purge_scope now org rid) (purge_statements refused now org rid) db")
  case (Inl e)
  with assms that(1) show ?thesis by (auto simp: purge_due_workspace_def)
next
  case (Inr r)
  obtain m rows db1 where r: "r = ((m, rows), db1)" by (metis prod.exhaust)
  from Inr [unfolded r] purge_unmatched show ?thesis
  proof (cases rule: atomic_cases)
    case 1
    moreover have "last rows = []" using 1(4) by (simp add: purge_statements_def)
    ultimately show ?thesis using assms Inr r that(1) by (auto simp: purge_due_workspace_def first_row_def)
  next
    case (2 p)
    with assms Inr r that(2) run_purge [of refused now org rid db] show ?thesis
      by (auto simp: purge_due_workspace_def split: if_splits)
  qed
qed

section \<open>The lifecycle invariant\<close>

text \<open>A pending profile and its pending receipt carry the same dates, seven days apart.\<close>

definition linked :: "workspace_profile \<Rightarrow> deletion_receipt \<Rightarrow> bool" where
  "linked p r \<longleftrightarrow> wp_receipt p = Some (dr_id r) \<and> dr_org r = wp_org p \<and> dr_status r = ReceiptPending
     \<and> wp_requested p = Some (dr_requested r) \<and> wp_purge_after p = Some (dr_purge_after r)
     \<and> dr_purge_after r = dr_requested r + retention_ms"

definition active_profile :: "workspace_profile \<Rightarrow> bool" where
  "active_profile p \<longleftrightarrow> wp_state p = LifecycleActive \<and> wp_receipt p = None \<and> wp_requested p = None \<and> wp_purge_after p = None"

definition profile_ok :: "deletion_receipt list \<Rightarrow> workspace_profile \<Rightarrow> bool" where
  "profile_ok rs p \<longleftrightarrow> active_profile p \<or> wp_state p = DeletionPending \<and> (\<exists>r\<in>set rs. linked p r)"

definition receipt_ok :: "workspace_profile list \<Rightarrow> deletion_receipt \<Rightarrow> bool" where
  "receipt_ok ps r \<longleftrightarrow> dr_status r = ReceiptPending \<longrightarrow> (\<exists>p\<in>set ps. wp_state p = DeletionPending \<and> linked p r)"

definition lifecycle_inv :: "lifecycle_db \<Rightarrow> bool" where
  "lifecycle_inv db \<longleftrightarrow>
     distinct (map wp_org (lf_profiles db)) \<and> distinct (map dr_id (lf_receipts db)) \<and> distinct (map og_id (lf_orgs db))
     \<and> (\<forall>p\<in>set (lf_profiles db). profile_ok (lf_receipts db) p)
     \<and> (\<forall>r\<in>set (lf_receipts db). receipt_ok (lf_profiles db) r)"

lemma lifecycle_invI:
  assumes "distinct (map wp_org (lf_profiles db))" "distinct (map dr_id (lf_receipts db))" "distinct (map og_id (lf_orgs db))"
    and "\<And>p. p \<in> set (lf_profiles db) \<Longrightarrow> profile_ok (lf_receipts db) p"
    and "\<And>r. r \<in> set (lf_receipts db) \<Longrightarrow> receipt_ok (lf_profiles db) r"
  shows "lifecycle_inv db"
  using assms by (simp add: lifecycle_inv_def)

lemma lifecycle_invD:
  assumes "lifecycle_inv db"
  shows "distinct (map wp_org (lf_profiles db))" "distinct (map dr_id (lf_receipts db))" "distinct (map og_id (lf_orgs db))"
    and "\<And>p. p \<in> set (lf_profiles db) \<Longrightarrow> profile_ok (lf_receipts db) p"
    and "\<And>r. r \<in> set (lf_receipts db) \<Longrightarrow> receipt_ok (lf_profiles db) r"
  using assms by (simp_all add: lifecycle_inv_def)

lemma receipt_okD: "receipt_ok ps r \<Longrightarrow> dr_status r = ReceiptPending \<Longrightarrow> \<exists>p\<in>set ps. wp_state p = DeletionPending \<and> linked p r"
  by (simp add: receipt_ok_def)

lemma schedule_profile_simps [simp]:
  "wp_org (schedule_profile now rid requested p) = wp_org p" "wp_state (schedule_profile now rid requested p) = DeletionPending"
  "wp_receipt (schedule_profile now rid requested p) = Some rid" "wp_requested (schedule_profile now rid requested p) = Some requested"
  "wp_purge_after (schedule_profile now rid requested p) = Some (requested + retention_ms)"
  by (simp_all add: schedule_profile_def)

lemma cancel_profile_simps [simp]: "wp_org (cancel_profile now p) = wp_org p" "active_profile (cancel_profile now p)"
  by (simp_all add: cancel_profile_def active_profile_def)

lemma schedule_scope_facts:
  assumes "schedule_scope now org auth rid confirmation db = [()]"
  shows "owner_authority now org auth db" "revoking_members db org = []" "deletion_unblocked db org"
    and "\<exists>g\<in>set (lf_orgs db). og_id g = org \<and> og_name g = confirmation"
proof -
  from assms have "schedule_scope now org auth rid confirmation db \<noteq> []" by simp
  then show "owner_authority now org auth db" "revoking_members db org = []" "deletion_unblocked db org"
    and "\<exists>g\<in>set (lf_orgs db). og_id g = org \<and> og_name g = confirmation"
    by (auto simp: schedule_scope_def)
qed

lemma active_owner_profile:
  assumes "lifecycle_inv db" "owner_authority now org auth db"
  obtains p where "p \<in> set (lf_profiles db)" "wp_org p = org" "active_profile p"
proof -
  from assms(2) obtain p where p: "p \<in> set (lf_profiles db)" "wp_org p = org" "wp_state p = LifecycleActive"
    by (auto simp: owner_authority_def)
  with lifecycle_invD(4) [OF assms(1) p(1)] that show thesis by (auto simp: profile_ok_def)
qed

text \<open>How a change of the two tables keeps the invariant: what each old row becomes decides.\<close>

lemma profile_ok_kept:
  assumes "profile_ok rs p" "\<And>r. r \<in> set rs \<Longrightarrow> linked p r \<Longrightarrow> r \<in> set rs'"
  shows "profile_ok rs' p"
  using assms by (auto simp: profile_ok_def)

lemma receipt_ok_kept:
  assumes "receipt_ok ps r" "\<And>p. p \<in> set ps \<Longrightarrow> linked p r \<Longrightarrow> p \<in> set ps'"
  shows "receipt_ok ps' r"
  using assms by (auto simp: receipt_ok_def)

lemma schedule_effect_inv:
  assumes inv: "lifecycle_inv db" and auth: "owner_authority now org auth db"
    and new: "\<forall>q\<in>set (lf_receipts db). dr_id q \<noteq> rid \<and> (dr_org q = org \<longrightarrow> dr_status q \<noteq> ReceiptPending)"
  shows "lifecycle_inv (schedule_effect now requested org auth rid db)" (is "lifecycle_inv ?db")
proof (rule lifecycle_invI)
  from inv auth obtain p where p: "p \<in> set (lf_profiles db)" "wp_org p = org" "active_profile p" by (rule active_owner_profile)
  let ?r = "\<lparr>dr_id = rid, dr_org = org, dr_user = la_user auth, dr_requested = requested,
          dr_purge_after = requested + retention_ms, dr_status = ReceiptPending, dr_cancelled = None, dr_purged = None\<rparr>"
  note inv = lifecycle_invD [OF inv]
  show "distinct (map wp_org (lf_profiles ?db))" "distinct (map og_id (lf_orgs ?db))"
    using inv by (simp_all add: schedule_effect_def o_def if_distrib cong: if_cong)
  show "distinct (map dr_id (lf_receipts ?db))" using inv(2) new by (auto simp: schedule_effect_def)
  have rs: "lf_receipts ?db = lf_receipts db @ [?r]" by (simp add: schedule_effect_def)
  show "profile_ok (lf_receipts ?db) q" if "q \<in> set (lf_profiles ?db)" for q
  proof -
    from that obtain q0 where q0: "q0 \<in> set (lf_profiles db)" "q = (if wp_org q0 = org then schedule_profile now rid requested q0 else q0)"
      by (auto simp: schedule_effect_def)
    show ?thesis
    proof (cases "wp_org q0 = org")
      case True
      then have "linked q ?r" using q0 by (simp add: linked_def)
      with True q0 show ?thesis by (simp add: profile_ok_def rs)
    next
      case False
      with inv(4) [OF q0(1)] q0 show ?thesis by (auto intro: profile_ok_kept simp: rs)
    qed
  qed
  show "receipt_ok (lf_profiles ?db) r" if "r \<in> set (lf_receipts ?db)" for r
  proof (cases "r = ?r")
    case True
    have "linked (schedule_profile now rid requested p) ?r" using p by (simp add: linked_def)
    moreover have "schedule_profile now rid requested p \<in> set (lf_profiles ?db)" using p by (auto simp: schedule_effect_def)
    ultimately show ?thesis
      unfolding True receipt_ok_def by (intro impI bexI [of _ "schedule_profile now rid requested p"]) simp_all
  next
    case False
    with that have r: "r \<in> set (lf_receipts db)" by (simp add: rs)
    show ?thesis
    proof (cases "dr_status r = ReceiptPending")
      case True
      with r new have "dr_org r \<noteq> org" by blast
      then have "q \<in> set (lf_profiles ?db)" if "q \<in> set (lf_profiles db)" "linked q r" for q
        using that by (force simp: schedule_effect_def linked_def)
      with inv(5) [OF r] show ?thesis by (rule receipt_ok_kept)
    qed (simp add: receipt_ok_def)
  qed
qed

lemma schedule_inv:
  assumes inv: "lifecycle_inv db"
  shows "lifecycle_inv (snd (schedule_workspace_deletion now requested org auth rid confirmation db))"
proof -
  obtain res db' where eq: "schedule_workspace_deletion now requested org auth rid confirmation db = (res, db')"
    by (metis prod.exhaust)
  from eq have "lifecycle_inv db'"
  proof (cases rule: schedule_cases)
    case 2
    show ?thesis unfolding 2(2) by (rule schedule_effect_inv [OF inv schedule_scope_facts(1) [OF 2(3)] 2(4)])
  qed (simp add: inv)
  with eq show ?thesis by simp
qed

text \<open>Cancelling and purging both close the pending receipt of the workspace and end its pending profile.\<close>

lemma pending_linked:
  assumes "lifecycle_inv db" "p \<in> set (lf_profiles db)" "wp_state p = DeletionPending" "wp_receipt p = Some rid"
  obtains r where "r \<in> set (lf_receipts db)" "linked p r" "dr_id r = rid"
proof -
  from lifecycle_invD(4) [OF assms(1,2)] assms(3) obtain r where "r \<in> set (lf_receipts db)" "linked p r"
    by (auto simp: profile_ok_def active_profile_def)
  with assms(4) that show thesis by (auto simp: linked_def)
qed

lemma receipt_closed_inv:
  assumes inv: "lifecycle_inv db" and p: "p \<in> set (lf_profiles db)" "wp_org p = org"
    and r0: "r0 \<in> set (lf_receipts db)" "linked p r0" "dr_id r0 = rid"
    and keys: "distinct (map wp_org (lf_profiles db'))" "distinct (map og_id (lf_orgs db'))"
    and rs: "lf_receipts db' = map (\<lambda>r. if dr_id r = rid then close r else r) (lf_receipts db)"
    and close: "\<And>r. dr_id (close r) = dr_id r" "\<And>r. dr_status (close r) \<noteq> ReceiptPending"
    and new: "\<And>q. q \<in> set (lf_profiles db') \<Longrightarrow> active_profile q \<or> q \<in> set (lf_profiles db) \<and> wp_org q \<noteq> org"
    and kept: "\<And>q. q \<in> set (lf_profiles db) \<Longrightarrow> wp_org q \<noteq> org \<Longrightarrow> q \<in> set (lf_profiles db')"
  shows "lifecycle_inv db'"
proof (rule lifecycle_invI)
  note inv = lifecycle_invD [OF inv]
  show "distinct (map dr_id (lf_receipts db'))" using inv(2) by (simp add: rs o_def if_distrib close(1) cong: if_cong)
  show "profile_ok (lf_receipts db') q" if "q \<in> set (lf_profiles db')" for q
  proof (cases "active_profile q")
    case False
    with new [OF that] have q: "q \<in> set (lf_profiles db)" "wp_org q \<noteq> org" by blast+
    have "r \<in> set (lf_receipts db')" if r: "r \<in> set (lf_receipts db)" "linked q r" for r
    proof -
      have "r \<noteq> r0" using r r0 q p by (auto simp: linked_def)
      with inv(2) r(1) r0 have "dr_id r \<noteq> rid" by (metis distinct_key_unique)
      with r(1) show ?thesis by (force simp: rs)
    qed
    with inv(4) [OF q(1)] show ?thesis by (rule profile_ok_kept)
  qed (simp add: profile_ok_def)
  show "receipt_ok (lf_profiles db') r" if "r \<in> set (lf_receipts db')" for r
  proof (cases "dr_id r = rid")
    case True
    with that close have "dr_status r \<noteq> ReceiptPending" by (auto simp: rs split: if_splits)
    then show ?thesis by (simp add: receipt_ok_def)
  next
    case False
    with that have r: "r \<in> set (lf_receipts db)" by (auto simp: rs close(1) split: if_splits)
    have "q \<in> set (lf_profiles db')" if q: "q \<in> set (lf_profiles db)" "linked q r" for q
    proof (rule kept [OF q(1)])
      show "wp_org q \<noteq> org"
      proof
        assume "wp_org q = org"
        with q(1) p inv(1) have "q = p" by (metis distinct_key_unique)
        with q(2) r0 False show False by (simp add: linked_def)
      qed
    qed
    with inv(5) [OF r] show ?thesis by (rule receipt_ok_kept)
  qed
qed (use keys in simp_all)

lemma cancel_scope_facts:
  assumes "cancel_scope now org auth rid db = [requested]"
  obtains p r m where "p \<in> set (lf_profiles db)" "wp_org p = org" "wp_state p = DeletionPending" "wp_receipt p = Some rid"
    "wp_requested p = Some requested" "r \<in> set (lf_receipts db)" "dr_id r = rid" "dr_org r = org" "now < dr_purge_after r"
    "m \<in> set (lf_members db)" "lm_org m = org" "lm_role m = ''owner''" "lm_user m = la_user auth" "lm_claim m = None"
    "lm_pending m = Some requested"
proof -
  from assms have "requested \<in> set (cancel_scope now org auth rid db)" by simp
  then obtain p r m s where rows: "p \<in> set (lf_profiles db)" "r \<in> set (lf_receipts db)" "m \<in> set (lf_members db)"
      "s \<in> set (lf_sessions db)" and may: "may_cancel now org auth rid p r m s" and requested: "requested = the (wp_requested p)"
    by (auto simp: cancel_scope_def)
  show thesis
    by (rule that [of p r m]) (use rows may requested in \<open>auto simp: may_cancel_def sql_eq_def split: option.splits\<close>)
qed

lemma cancel_inv:
  assumes inv: "lifecycle_inv db"
  shows "lifecycle_inv (snd (cancel_workspace_deletion now org auth rid event_id db))"
proof -
  obtain res db' where eq: "cancel_workspace_deletion now org auth rid event_id db = (res, db')" by (metis prod.exhaust)
  from eq have "lifecycle_inv db'"
  proof (cases rule: cancel_cases)
    case (2 requested)
    from 2(3) obtain p where p: "p \<in> set (lf_profiles db)" "wp_org p = org" "wp_state p = DeletionPending" "wp_receipt p = Some rid"
      by (rule cancel_scope_facts)
    from pending_linked [OF inv p(1,3,4)] obtain r where r: "r \<in> set (lf_receipts db)" "linked p r" "dr_id r = rid" .
    show ?thesis unfolding 2(2)
      by (rule receipt_closed_inv [OF inv p(1,2) r, where close = "\<lambda>r. r\<lparr>dr_status := ReceiptCancelled, dr_cancelled := Some now\<rparr>"])
        (use lifecycle_invD [OF inv] in \<open>auto simp: cancel_effect_def o_def if_distrib cong: if_cong\<close>)
  qed (simp add: inv)
  with eq show ?thesis by simp
qed

lemma purge_scope_facts:
  assumes "lifecycle_inv db" "purge_scope now org rid db = [()]"
  obtains p r where "p \<in> set (lf_profiles db)" "wp_org p = org" "r \<in> set (lf_receipts db)" "linked p r" "dr_id r = rid"
    "dr_requested r + retention_ms \<le> now" "deletion_unblocked db org"
proof -
  have "purge_scope now org rid db \<noteq> []" using assms(2) by simp
  then obtain p r where p: "p \<in> set (lf_profiles db)" and may: "may_purge now org rid p r" and un: "deletion_unblocked db org"
    by (auto simp: purge_scope_def split: if_splits)
  from may have q: "wp_org p = org" "wp_state p = DeletionPending" "wp_receipt p = Some rid"
      and due: "\<exists>t. wp_purge_after p = Some t \<and> t \<le> now"
    by (auto simp: may_purge_def split: option.splits)
  from pending_linked [OF assms(1) p q(2,3)] obtain r where "r \<in> set (lf_receipts db)" "linked p r" "dr_id r = rid" .
  with p q due un that show thesis by (auto simp: linked_def)
qed

lemma purge_receipts:
  assumes "lifecycle_inv db" "r0 \<in> set (lf_receipts db)" "dr_id r0 = rid" "dr_org r0 = org"
  shows "lf_receipts (purge_effect now org rid db) =
     map (\<lambda>r. if dr_id r = rid then r\<lparr>dr_status := ReceiptPurged, dr_purged := Some now\<rparr> else r) (lf_receipts db)"
  using distinct_key_unique [OF lifecycle_invD(2) [OF assms(1)] _ assms(2)] assms(3,4)
  by (auto simp: purge_effect_def delete_organization_def)

lemma purge_effect_inv:
  assumes inv: "lifecycle_inv db" and due: "purge_scope now org rid db = [()]"
  shows "lifecycle_inv (purge_effect now org rid db)"
proof -
  from inv due obtain p r where p: "p \<in> set (lf_profiles db)" "wp_org p = org"
      and r: "r \<in> set (lf_receipts db)" "linked p r" "dr_id r = rid"
    by (rule purge_scope_facts)
  then have "dr_org r = org" by (simp add: linked_def)
  note rs = purge_receipts [OF inv r(1,3) this]
  show ?thesis
    by (rule receipt_closed_inv [OF inv p r _ _ rs])
      (use lifecycle_invD [OF inv] in \<open>auto simp: purge_effect_def delete_organization_def distinct_map_filter\<close>)
qed

section \<open>A purge comes after the retention period and removes everything\<close>

definition mentions :: "string \<Rightarrow> lifecycle_db \<Rightarrow> bool" where
  "mentions org db \<longleftrightarrow>
     org \<in> og_id ` set (lf_orgs db) \<or> org \<in> wp_org ` set (lf_profiles db) \<or> org \<in> lm_org ` set (lf_members db)
     \<or> Some org \<in> ls_active_org ` set (lf_sessions db) \<or> org \<in> fst ` set (lf_integrations db) \<or> org \<in> fst ` set (lf_leases db)
     \<or> org \<in> fst ` set (lf_operations db) \<or> org \<in> fst ` set (lf_rotations db) \<or> org \<in> bk_org ` set (lf_backups db)
     \<or> org \<in> snd ` set (lf_evidence db) \<or> org \<in> au_org ` set (lf_audit db)"

lemma purge_removes: "\<not> mentions org (purge_effect now org rid db)"
  by (auto simp: mentions_def purge_effect_def delete_organization_def)

lemma purge_adds_nothing: "\<not> mentions other db \<Longrightarrow> \<not> mentions other (purge_effect now org rid db)"
  by (auto simp: mentions_def purge_effect_def delete_organization_def)

lemma purge_other_blockers: "other \<noteq> org \<Longrightarrow> deletion_unblocked (purge_effect now org rid db) other = deletion_unblocked db other"
  by (auto simp: deletion_unblocked_def purge_effect_def delete_organization_def active_integrations_def live_leases_def
      unresolved_operations_def running_rotations_def filter_empty_conv)

text \<open>The workspace \<open>org\<close> of \<open>db\<close> was purged on the way to \<open>db'\<close>: on time, unblocked, without a trace but its receipt.\<close>

definition purged_on_time :: "(nat \<Rightarrow> int) \<Rightarrow> string \<Rightarrow> lifecycle_db \<Rightarrow> lifecycle_db \<Rightarrow> bool" where
  "purged_on_time clock org db db' \<longleftrightarrow>
     deletion_unblocked db org \<and> \<not> mentions org db'
     \<and> (\<exists>i. \<exists>r\<in>set (lf_receipts db). dr_org r = org \<and> dr_status r = ReceiptPending
          \<and> dr_requested r + 7 * 24 * 60 * 60 * 1000 \<le> clock i
          \<and> r\<lparr>dr_status := ReceiptPurged, dr_purged := Some (clock i)\<rparr> \<in> set (lf_receipts db'))"

lemma purge_keeps_purged:
  assumes "lifecycle_inv db" "purge_scope now org rid db = [()]" "r \<in> set (lf_receipts db)" "dr_status r = ReceiptPurged"
  shows "r \<in> set (lf_receipts (purge_effect now org rid db))"
proof -
  from assms(1,2) obtain p r0 where r0: "r0 \<in> set (lf_receipts db)" "linked p r0" "dr_id r0 = rid" "wp_org p = org"
    by (rule purge_scope_facts) blast
  then have "dr_org r0 = org" by (simp add: linked_def)
  note rs = purge_receipts [OF assms(1) r0(1,3) this]
  have "dr_id r \<noteq> rid"
    using distinct_key_unique [OF lifecycle_invD(2) [OF assms(1)] assms(3) r0(1)] r0(2,3) assms(4) by (auto simp: linked_def)
  with assms(3) show ?thesis by (force simp: rs)
qed

lemma purge_one:
  assumes inv: "lifecycle_inv db" and due: "purge_scope (clock i) org rid db = [()]"
  shows "purged_on_time clock org db (purge_effect (clock i) org rid db)"
proof -
  from inv due obtain p r where r: "r \<in> set (lf_receipts db)" "linked p r" "dr_id r = rid" "wp_org p = org"
      and t: "dr_requested r + retention_ms \<le> clock i" "deletion_unblocked db org"
    by (rule purge_scope_facts) blast
  from r have "dr_org r = org" by (simp add: linked_def)
  note rs = purge_receipts [OF inv r(1,3) this]
  have "r\<lparr>dr_status := ReceiptPurged, dr_purged := Some (clock i)\<rparr> \<in> set (lf_receipts (purge_effect (clock i) org rid db))"
    unfolding rs set_map by (rule image_eqI [of _ _ r]) (use r in simp_all)
  with r t show ?thesis
    by (auto simp: purged_on_time_def purge_removes linked_def retention_ms_def retention_days_def intro!: exI [of _ i] bexI [of _ r])
qed

lemma purge_effect_orgs: "set (lf_orgs (purge_effect now org rid db)) = {g \<in> set (lf_orgs db). og_id g \<noteq> org}"
  by (auto simp: purge_effect_def delete_organization_def)

text \<open>Purging another workspace first changes nothing about this one.\<close>

lemma purged_on_time_earlier:
  assumes "purged_on_time clock other (purge_effect now org rid db) db'" "other \<noteq> org"
  shows "purged_on_time clock other db db'"
proof -
  have "r \<in> set (lf_receipts db)" if "r \<in> set (lf_receipts (purge_effect now org rid db))" "dr_status r = ReceiptPending" for r
    using that by (auto simp: purge_effect_def delete_organization_def split: if_splits)
  with assms show ?thesis
    by (auto simp: purged_on_time_def purge_other_blockers)
qed

definition purges_on_time :: "(nat \<Rightarrow> int) \<Rightarrow> lifecycle_db \<Rightarrow> lifecycle_db \<Rightarrow> bool" where
  "purges_on_time clock db db' \<longleftrightarrow>
     (\<forall>g\<in>set (lf_orgs db) - set (lf_orgs db'). purged_on_time clock (og_id g) db db')
     \<and> (\<forall>org. \<not> mentions org db \<longrightarrow> \<not> mentions org db')
     \<and> (\<forall>r\<in>set (lf_receipts db). dr_status r = ReceiptPurged \<longrightarrow> r \<in> set (lf_receipts db'))"

lemma purges_on_time_refl: "purges_on_time clock db db"
  by (simp add: purges_on_time_def)

lemma purges_on_time_later:
  assumes inv: "lifecycle_inv db" and due: "purge_scope (clock i) org rid db = [()]"
    and rest: "purges_on_time clock (purge_effect (clock i) org rid db) db'"
  shows "purges_on_time clock db db'"
proof -
  let ?db = "purge_effect (clock i) org rid db"
  have "purged_on_time clock (og_id g) db db'" if g: "g \<in> set (lf_orgs db)" "g \<notin> set (lf_orgs db')" for g
  proof (cases "og_id g = org")
    case True
    from purge_one [of db clock i org rid, OF inv due] rest show ?thesis
      unfolding purged_on_time_def purges_on_time_def True
      by (elim conjE exE bexE) (intro conjI exI bexI; auto)
  next
    case False
    with g have "g \<in> set (lf_orgs ?db) - set (lf_orgs db')" by (simp add: purge_effect_orgs)
    with rest have "purged_on_time clock (og_id g) ?db db'" by (simp add: purges_on_time_def)
    then show ?thesis using False by (rule purged_on_time_earlier)
  qed
  then show ?thesis
    using rest purge_adds_nothing purge_keeps_purged [OF inv due] by (simp add: purges_on_time_def)
qed

lemma purge_all_on_time:
  "lifecycle_inv db \<Longrightarrow> purge_all refused clock i due db = (res, db') \<Longrightarrow> lifecycle_inv db' \<and> purges_on_time clock db db'"
proof (induction refused clock i due db arbitrary: res db' rule: purge_all.induct)
  case (2 refused clock i org rid due db)
  obtain r1 db1 where one: "purge_due_workspace refused (clock i) org rid db = (r1, db1)" by (metis prod.exhaust)
  have rest: "lifecycle_inv db' \<and> purges_on_time clock db1 db'" if inv1: "lifecycle_inv db1"
  proof (cases r1)
    case (Inr purged)
    obtain r2 db2 where "purge_all refused clock (Suc i) due db1 = (r2, db2)" by (metis prod.exhaust)
    with "2.IH" [OF one [symmetric] Inr inv1] "2.prems"(2) one Inr show ?thesis by (auto split: sum.splits)
  qed (use "2.prems"(2) one inv1 in \<open>simp add: purges_on_time_refl\<close>)
  from one show ?case
  proof (cases rule: purge_cases)
    case 1
    with rest "2.prems"(1) show ?thesis by simp
  next
    case 2
    with rest purge_effect_inv [OF "2.prems"(1)] purges_on_time_later [of db clock i, OF "2.prems"(1) 2(1)] show ?thesis by simp
  qed
qed (simp add: purges_on_time_refl)

lemma fold_add_audit: "fold add_audit new db = db\<lparr>lf_audit := lf_audit db @ new\<rparr>"
  by (induction new arbitrary: db) (simp_all add: add_audit_def)

lemma backup_batch:
  "scope db = [due] \<Longrightarrow> \<exists>A B rows.
     atomic_d1 scope (backup_statements event_ids) db = Inr ((True, rows), db\<lparr>lf_audit := A, lf_backups := B\<rparr>)"
  by (simp add: atomic_d1_def backup_statements_def fold_add_audit) blast

lemma cleanup_split:
  obtains B A due where
    "snd (cleanup_workspace_retention refused clock event_ids bl wl db)
       = snd (purge_all refused clock 2 due (db\<lparr>lf_audit := A, lf_backups := B\<rparr>))"
proof -
  let ?scope = "\<lambda>db. [due_backups (clock 0) (clamp_limit 25 100 bl) db]"
  obtain A B rows where batch: "atomic_d1 ?scope (backup_statements event_ids) db = Inr ((True, rows), db\<lparr>lf_audit := A, lf_backups := B\<rparr>)"
    using backup_batch [of ?scope db] by blast
  let ?db = "db\<lparr>lf_audit := A, lf_backups := B\<rparr>"
  let ?due = "due_workspaces (clock 1) (clamp_limit 1 5 wl) ?db"
  have "snd (cleanup_workspace_retention refused clock event_ids bl wl db) = snd (purge_all refused clock 2 ?due ?db)"
    unfolding cleanup_workspace_retention_def batch sum.case prod.case Let_def
    by (cases "purge_all refused clock 2 ?due ?db"; cases "fst (purge_all refused clock 2 ?due ?db)") simp_all
  with that show thesis .
qed

lemma tables_only_inv: "lifecycle_inv (db\<lparr>lf_audit := A, lf_backups := B\<rparr>) \<longleftrightarrow> lifecycle_inv db"
  by (simp add: lifecycle_inv_def)

lemma cleanup_on_time:
  assumes "lifecycle_inv db" and run: "db' = snd (cleanup_workspace_retention refused clock event_ids bl wl db)"
  shows "lifecycle_inv db'" and "g \<in> set (lf_orgs db) \<Longrightarrow> g \<notin> set (lf_orgs db') \<Longrightarrow> purged_on_time clock (og_id g) db db'"
proof -
  obtain B A due where "db' = snd (purge_all refused clock 2 due (db\<lparr>lf_audit := A, lf_backups := B\<rparr>))"
    unfolding run by (rule cleanup_split)
  then obtain res where "purge_all refused clock 2 due (db\<lparr>lf_audit := A, lf_backups := B\<rparr>) = (res, db')"
    by (metis prod.collapse)
  from purge_all_on_time [OF _ this] assms(1)
  have on_time: "lifecycle_inv db'" "purges_on_time clock (db\<lparr>lf_audit := A, lf_backups := B\<rparr>) db'" by (simp_all add: tables_only_inv)
  show "lifecycle_inv db'" by (rule on_time)
  have "deletion_unblocked (db\<lparr>lf_audit := A, lf_backups := B\<rparr>) org = deletion_unblocked db org" for org
    by (simp add: deletion_unblocked_def active_integrations_def live_leases_def unresolved_operations_def running_rotations_def)
  with on_time(2) show "g \<in> set (lf_orgs db) \<Longrightarrow> g \<notin> set (lf_orgs db') \<Longrightarrow> purged_on_time clock (og_id g) db db'"
    by (auto simp: purges_on_time_def purged_on_time_def)
qed

lemma other_writes_inv: "lifecycle_inv (other_writes d db) \<longleftrightarrow> lifecycle_inv db"
  by (simp add: lifecycle_inv_def other_writes_def)

lemma lifecycle_step_inv: "lifecycle_inv db \<Longrightarrow> lifecycle_inv (lifecycle_step db e)"
  by (cases e) (simp_all add: schedule_inv cancel_inv cleanup_on_time(1) [OF _ refl] other_writes_inv)

interpretation lifecycle: invariant_machine lifecycle_step lifecycle_inv
  by unfold_locales (rule lifecycle_step_inv)

text \<open>
C22. A workspace leaves the database only by the retention clean-up, seven days after its deletion was requested. In
every state reached from a consistent one, through any sequence of schedules, cancellations, clean-ups and writes of
other code, each pending profile has its pending receipt with the same dates and conversely; and when a step removes a
workspace, that step is a clean-up, the receipt was pending and at least seven days old on the database clock, nothing
blocked the deletion, and afterwards no table mentions the workspace but its receipt, now purged.
\<close>

theorem workspace_leaves_only_after_retention:
  assumes "lifecycle_inv db0"
  shows "let db = foldl lifecycle_step db0 es; db' = lifecycle_step db e in
     lifecycle_inv db
     \<and> (\<forall>g\<in>set (lf_orgs db) - set (lf_orgs db'). \<exists>refused clock event_ids bl wl.
          e = CleanUp refused clock event_ids bl wl \<and> purged_on_time clock (og_id g) db db')"
proof -
  define db where "db = foldl lifecycle_step db0 es"
  have inv: "lifecycle_inv db" unfolding db_def using assms by (rule lifecycle.run_inv)
  have "\<exists>refused clock event_ids bl wl. e = CleanUp refused clock event_ids bl wl \<and> purged_on_time clock (og_id g) db (lifecycle_step db e)"
    if g: "g \<in> set (lf_orgs db)" "g \<notin> set (lf_orgs (lifecycle_step db e))" for g
  proof (cases e)
    case (ScheduleDeletion now requested org auth rid confirmation)
    obtain res db' where eq: "schedule_workspace_deletion now requested org auth rid confirmation db = (res, db')" by (metis prod.exhaust)
    from eq have "lf_orgs db' = lf_orgs db" by (cases rule: schedule_cases) (simp_all add: schedule_effect_def)
    with g ScheduleDeletion eq show ?thesis by simp
  next
    case (CancelDeletion now org auth rid event_id)
    obtain res db' where eq: "cancel_workspace_deletion now org auth rid event_id db = (res, db')" by (metis prod.exhaust)
    from eq have "lf_orgs db' = lf_orgs db" by (cases rule: cancel_cases) (simp_all add: cancel_effect_def)
    with g CancelDeletion eq show ?thesis by simp
  qed (use g cleanup_on_time(2) [OF inv refl] in \<open>auto simp: other_writes_def\<close>)
  with inv show ?thesis by (auto simp: Let_def db_def)
qed

definition sample_workspace :: lifecycle_db where
  "sample_workspace = \<lparr>lf_orgs = [\<lparr>og_id = ''w'', og_name = ''Team''\<rparr>],
     lf_profiles = [\<lparr>wp_org = ''w'', wp_state = LifecycleActive, wp_receipt = None, wp_requested = None, wp_purge_after = None,
        wp_revision = 1, wp_updated = 0\<rparr>],
     lf_receipts = [],
     lf_members = [\<lparr>lm_id = ''m'', lm_org = ''w'', lm_user = ''u'', lm_role = ''owner'', lm_pending = None, lm_claim = None\<rparr>],
     lf_sessions = [\<lparr>ls_id = ''s'', ls_user = ''u'', ls_expires = 1000, ls_active_org = Some ''w'', ls_updated = 0\<rparr>],
     lf_integrations = [], lf_leases = [(''w'', Some 3)], lf_operations = [(''w'', ''failed'')], lf_rotations = [], lf_backups = [],
     lf_evidence = [(''workspace_data_key'', ''w'')], lf_audit = []\<rparr>"

lemma sample_workspace_inv: "lifecycle_inv sample_workspace"
  by (simp add: lifecycle_inv_def sample_workspace_def profile_ok_def active_profile_def)

abbreviation sample_owner :: lifecycle_authority where
  "sample_owner \<equiv> \<lparr>la_session = ''s'', la_user = ''u'', la_member = ''m''\<rparr>"

lemmas lifecycle_eval = sample_workspace_def find_receipt_def first_row_def schedule_scope_def owner_authority_def
  revoking_members_def deletion_unblocked_def active_integrations_def live_leases_def unresolved_operations_def running_rotations_def

lemma sample_schedule:
  "schedule_workspace_deletion 5 5 ''w'' sample_owner ''r'' ''Team'' sample_workspace =
     (Inr (Some Scheduled), schedule_effect 5 5 ''w'' sample_owner ''r'' sample_workspace)"
  by (simp add: schedule_workspace_deletion_def atomic_d1_def run_schedule lifecycle_eval)
    (simp add: schedule_statements_def)

lemma sample_purge:
  "lf_orgs (lifecycle_step (schedule_effect 5 5 ''w'' sample_owner ''r'' sample_workspace)
     (CleanUp (\<lambda>_ _. False) (\<lambda>_. 604800005) (\<lambda>_. ''e'') None None)) = []"
  by (simp add: schedule_effect_def cleanup_workspace_retention_def atomic_d1_def backup_statements_def due_backups_def
      fold_add_audit due_workspaces_def clamp_limit_def lifecycle_eval schedule_profile_def retention_ms_def retention_days_def
      purge_due_workspace_def purge_scope_def may_purge_def purge_statements_def run_evidence evidence_tables_def
      delete_evidence_def delete_organization_def Let_def)

theorem workspace_leaves_only_after_retention_witness:
  "purged_on_time (\<lambda>_. 604800005) ''w''
     (foldl lifecycle_step sample_workspace [ScheduleDeletion 5 5 ''w'' sample_owner ''r'' ''Team''])
     (lifecycle_step (foldl lifecycle_step sample_workspace [ScheduleDeletion 5 5 ''w'' sample_owner ''r'' ''Team''])
       (CleanUp (\<lambda>_ _. False) (\<lambda>_. 604800005) (\<lambda>_. ''e'') None None))"
  using workspace_leaves_only_after_retention [OF sample_workspace_inv,
      of "[ScheduleDeletion 5 5 ''w'' sample_owner ''r'' ''Team'']" "CleanUp (\<lambda>_ _. False) (\<lambda>_. 604800005) (\<lambda>_. ''e'') None None"]
  by (simp add: sample_schedule Let_def sample_purge del: lifecycle_step.simps(3))
    (simp add: schedule_effect_def sample_workspace_def)

section \<open>A cancelled deletion leaves no trace on the members\<close>

lemma cancel_scope_single:
  assumes inv: "lifecycle_inv db" and ids: "distinct (map lm_id (lf_members db))" "distinct (map ls_id (lf_sessions db))"
    and rows: "p \<in> set (lf_profiles db)" "r \<in> set (lf_receipts db)" "m \<in> set (lf_members db)" "s \<in> set (lf_sessions db)"
    and may: "may_cancel now org auth rid p r m s"
  shows "cancel_scope now org auth rid db = [the (wp_requested p)]"
proof -
  note keys = lifecycle_invD [OF inv]
  let ?s = "\<lambda>p r m s. if may_cancel now org auth rid p r m s then [the (wp_requested p)] else []"
  let ?m = "\<lambda>p r m. concat (map (?s p r m) (lf_sessions db))"
  let ?r = "\<lambda>p r. concat (map (?m p r) (lf_members db))"
  let ?p = "\<lambda>p. concat (map (?r p) (lf_receipts db))"
  have none: "?s p' r' m' s' = []"
    if "wp_org p' \<noteq> wp_org p \<or> dr_id r' \<noteq> dr_id r \<or> lm_id m' \<noteq> lm_id m \<or> ls_id s' \<noteq> ls_id s" for p' r' m' s'
    using that may by (auto simp: may_cancel_def)
  have "concat (map ?p (lf_profiles db)) = ?p p"
    by (rule concat_single [OF keys(1) rows(1)]) (simp add: none)
  also have "\<dots> = ?r p r" by (rule concat_single [OF keys(2) rows(2)]) (simp add: none)
  also have "\<dots> = ?m p r m" by (rule concat_single [OF ids(1) rows(3)]) (simp add: none)
  also have "\<dots> = ?s p r m s" by (rule concat_single [OF ids(2) rows(4)]) (simp add: none)
  also have "\<dots> = [the (wp_requested p)]" using may by simp
  finally show ?thesis by (simp add: cancel_scope_def)
qed

text \<open>The owner who scheduled the deletion can cancel it, as long as the session lives and the period is not over.\<close>

lemma cancel_after_schedule:
  assumes inv: "lifecycle_inv db" and ids: "distinct (map lm_id (lf_members db))" "distinct (map ls_id (lf_sessions db))"
    and scope: "schedule_scope now requested_org auth rid confirmation db = [()]"
    and new: "\<forall>q\<in>set (lf_receipts db). dr_id q \<noteq> rid \<and> (dr_org q = requested_org \<longrightarrow> dr_status q \<noteq> ReceiptPending)"
    and time: "later < requested + retention_ms" "\<forall>s\<in>set (lf_sessions db). ls_id s = la_session auth \<longrightarrow> later < ls_expires s"
  defines "db1 \<equiv> schedule_effect now requested requested_org auth rid db"
  shows "cancel_workspace_deletion later requested_org auth rid event_id db1
    = (Inr (Some Cancelled), cancel_effect later requested_org auth rid event_id requested db1)"
proof -
  note auth = schedule_scope_facts(1) [OF scope]
  have inv1: "lifecycle_inv db1" unfolding db1_def by (rule schedule_effect_inv [OF inv auth new])
  from auth obtain s m p where rows: "s \<in> set (lf_sessions db)" "m \<in> set (lf_members db)" "p \<in> set (lf_profiles db)"
      "lm_user m = ls_user s" "wp_org p = lm_org m" "ls_id s = la_session auth" "ls_user s = la_user auth"
      "lm_id m = la_member auth" "lm_org m = requested_org" "lm_role m = ''owner''" "lm_claim m = None"
    by (auto simp: owner_authority_def)
  let ?r = "\<lparr>dr_id = rid, dr_org = requested_org, dr_user = la_user auth, dr_requested = requested,
          dr_purge_after = requested + retention_ms, dr_status = ReceiptPending, dr_cancelled = None, dr_purged = None\<rparr>"
  let ?p = "schedule_profile now rid requested p" and ?m = "m\<lparr>lm_pending := Some requested\<rparr>"
  let ?s = "if ls_active_org s = Some requested_org then s\<lparr>ls_active_org := None, ls_updated := now\<rparr> else s"
  have tables: "?p \<in> set (lf_profiles db1)" "?r \<in> set (lf_receipts db1)" "?m \<in> set (lf_members db1)" "?s \<in> set (lf_sessions db1)"
    using rows by (auto simp: db1_def schedule_effect_def)
  have ids1: "distinct (map lm_id (lf_members db1))" "distinct (map ls_id (lf_sessions db1))"
    using ids by (simp_all add: db1_def schedule_effect_def o_def if_distrib cong: if_cong)
  have "may_cancel later requested_org auth rid ?p ?r ?m ?s"
    using rows time by (auto simp: may_cancel_def sql_eq_def)
  from cancel_scope_single [OF inv1 ids1 tables this]
  have "cancel_scope later requested_org auth rid db1 = [requested]" by simp
  moreover have "map_option dr_status (find_receipt rid requested_org db1) = Some ReceiptPending"
    using new by (auto simp: find_receipt_def first_row_def db1_def schedule_effect_def filter_empty_conv)
  ultimately show ?thesis
    unfolding cancel_workspace_deletion_def
    by (simp only: option.case receipt_status.case, simp add: atomic_d1_def run_cancel) (simp add: cancel_statements_def)
qed

lemma cancel_restores_members:
  assumes "revoking_members db org = []"
  shows "lf_members (cancel_effect later org auth rid event_id requested (schedule_effect now requested org auth rid db)) = lf_members db"
proof -
  have "lm_pending m = None \<and> lm_claim m = None" if "m \<in> set (lf_members db)" "lm_org m = org" for m
    using assms that by (auto simp: revoking_members_def filter_empty_conv)
  then show ?thesis by (auto simp: cancel_effect_def schedule_effect_def o_def intro!: map_idI)
qed

text \<open>
Cancelling undoes scheduling. After a deletion was scheduled, the owner who asked can cancel it at any time before
the seven days are over, while the session lives: the answer is \<open>cancelled\<close>, every member row is exactly what it was, the
profile is the old one with its revision two higher, the receipt remains as a cancelled one, and none of the other
tables changed.
\<close>

theorem cancel_undoes_schedule:
  assumes inv: "lifecycle_inv db" and ids: "distinct (map lm_id (lf_members db))" "distinct (map ls_id (lf_sessions db))"
    and sched: "schedule_workspace_deletion now requested org auth rid confirmation db = (Inr (Some Scheduled), db1)"
    and time: "later < requested + 7 * 24 * 60 * 60 * 1000"
    and session: "\<forall>s\<in>set (lf_sessions db). ls_id s = la_session auth \<longrightarrow> later < ls_expires s"
  shows "\<exists>db2. cancel_workspace_deletion later org auth rid event_id db1 = (Inr (Some Cancelled), db2)
    \<and> lf_members db2 = lf_members db
    \<and> lf_profiles db2 =
      map (\<lambda>p. if wp_org p = org then p\<lparr>wp_revision := wp_revision p + 2, wp_updated := later\<rparr> else p) (lf_profiles db)
    \<and> lf_receipts db2 = lf_receipts db @ [\<lparr>dr_id = rid, dr_org = org, dr_user = la_user auth, dr_requested = requested,
      dr_purge_after = requested + 7 * 24 * 60 * 60 * 1000, dr_status = ReceiptCancelled, dr_cancelled = Some later, dr_purged = None\<rparr>]
    \<and> lf_orgs db2 = lf_orgs db \<and> lf_evidence db2 = lf_evidence db \<and> lf_backups db2 = lf_backups db
    \<and> lf_integrations db2 = lf_integrations db \<and> lf_leases db2 = lf_leases db \<and> lf_operations db2 = lf_operations db
    \<and> lf_rotations db2 = lf_rotations db"
proof -
  have ms: "retention_ms = 7 * 24 * 60 * 60 * 1000" by (simp add: retention_ms_def retention_days_def)
  from sched show ?thesis
  proof (cases rule: schedule_cases)
    case 2
    note auth = schedule_scope_facts [OF 2(3)]
    let ?db2 = "cancel_effect later org auth rid event_id requested db1"
    have active: "active_profile p" if "p \<in> set (lf_profiles db)" "wp_org p = org" for p
      using active_owner_profile [OF inv auth(1)] that lifecycle_invD(1) [OF inv] by (metis distinct_key_unique)
    have "lf_profiles ?db2 = map (\<lambda>p. if wp_org p = org then p\<lparr>wp_revision := wp_revision p + 2, wp_updated := later\<rparr> else p) (lf_profiles db)"
      using active by (auto simp: 2(2) cancel_effect_def schedule_effect_def cancel_profile_def schedule_profile_def active_profile_def)
    moreover have "map (\<lambda>r. if dr_id r = rid then r\<lparr>dr_status := ReceiptCancelled, dr_cancelled := Some later\<rparr> else r) (lf_receipts db)
        = lf_receipts db"
      using 2(4) by (auto intro: map_idI)
    ultimately show ?thesis
      using cancel_after_schedule [OF inv ids 2(3,4) _ session, where requested = requested and event_id = event_id] time
        cancel_restores_members [OF auth(2), where requested = requested]
      by (intro exI [of _ ?db2] conjI) (simp_all add: 2(2) ms, simp_all add: cancel_effect_def schedule_effect_def ms)
  qed simp
qed

theorem cancel_undoes_schedule_witness:
  "\<exists>db2. cancel_workspace_deletion 900 ''w'' sample_owner ''r'' ''e'' (schedule_effect 5 5 ''w'' sample_owner ''r'' sample_workspace)
      = (Inr (Some Cancelled), db2) \<and> lf_members db2 = lf_members sample_workspace"
proof -
  have "distinct (map lm_id (lf_members sample_workspace))" "distinct (map ls_id (lf_sessions sample_workspace))"
    "\<forall>s\<in>set (lf_sessions sample_workspace). ls_id s = la_session sample_owner \<longrightarrow> 900 < ls_expires s"
    by (simp_all add: sample_workspace_def)
  from cancel_undoes_schedule [OF sample_workspace_inv this(1,2) sample_schedule _ this(3), of "''e''"]
  show ?thesis by simp blast
qed

section \<open>The status says whether scheduling will work\<close>

lemma schedule_scope_iff:
  assumes "lifecycle_inv db" "g \<in> set (lf_orgs db)"
  shows "schedule_scope now (og_id g) auth rid (og_name g) db =
    (if owner_authority now (og_id g) auth db \<and> (\<forall>r\<in>set (lf_receipts db). dr_id r \<noteq> rid)
        \<and> revoking_members db (og_id g) = [] \<and> deletion_unblocked db (og_id g) then [()] else [])"
  unfolding schedule_scope_def
  using concat_single [OF lifecycle_invD(3) [OF assms(1)] assms(2), where f = "\<lambda>h. if og_id h = og_id g \<and> og_name h = og_name g
      \<and> owner_authority now (og_id g) auth db \<and> (\<forall>r\<in>set (lf_receipts db). dr_id r \<noteq> rid)
        \<and> revoking_members db (og_id g) = [] \<and> deletion_unblocked db (og_id g) then [()] else []"]
  by simp

text \<open>
The lifecycle status predicts the scheduling. For an owner with a live session who confirms the workspace name,
with a request id not used before, scheduling succeeds exactly when the status showed \<open>canScheduleDeletion\<close>: the
counted blockers and the conditions of the batch agree, and the batch never fails on its unique index.
\<close>

theorem status_predicts_schedule:
  assumes inv: "lifecycle_inv db" and org: "g \<in> set (lf_orgs db)" "og_id g = org" "og_name g = confirmation"
    and auth: "owner_authority now org auth db" and new: "\<forall>r\<in>set (lf_receipts db). dr_id r \<noteq> rid"
  shows "\<exists>s. workspace_lifecycle_status org db = Some s
    \<and> fst (schedule_workspace_deletion now requested org auth rid confirmation db)
      = Inr (if lx_can_schedule s then Some Scheduled else None)"
proof -
  from inv auth obtain p where p: "p \<in> set (lf_profiles db)" "wp_org p = org" "active_profile p" by (rule active_owner_profile)
  have rows: "[(p, g). p \<leftarrow> lf_profiles db, g \<leftarrow> lf_orgs db, og_id g = wp_org p, wp_org p = org] = [(p, g)]"
  proof -
    let ?g = "\<lambda>p g. if og_id g = wp_org p then if wp_org p = org then [(p, g)] else [] else []"
    have "concat (map (\<lambda>p. concat (map (?g p) (lf_orgs db))) (lf_profiles db)) = concat (map (?g p) (lf_orgs db))"
      by (rule concat_single [OF lifecycle_invD(1) [OF inv] p(1)]) (simp add: p(2) cong: if_cong)
    also have "\<dots> = ?g p g"
      by (rule concat_single [OF lifecycle_invD(3) [OF inv] org(1)]) (simp add: p(2) org(2))
    finally show ?thesis using p(2) org(2) by simp
  qed
  let ?ok = "revoking_members db org = [] \<and> deletion_unblocked db org"
  have blocked: "?ok \<longleftrightarrow> active_integrations db org = [] \<and> live_leases db org = [] \<and> unresolved_operations db org = []
      \<and> running_rotations db org = [] \<and> revoking_members db org = []"
    by (auto simp: deletion_unblocked_def revoking_members_def filter_empty_conv)
  have active: "wp_state p = LifecycleActive" using p(3) by (simp add: active_profile_def)
  obtain s where s: "workspace_lifecycle_status org db = Some s" "lx_can_schedule s \<longleftrightarrow> ?ok"
    unfolding workspace_lifecycle_status_def rows first_row_def blocked by (simp add: Let_def active)
  have none: "dr_status q \<noteq> ReceiptPending" if "q \<in> set (lf_receipts db)" "dr_org q = org" for q
  proof
    assume "dr_status q = ReceiptPending"
    with lifecycle_invD(5) [OF inv that(1)] obtain p' where "p' \<in> set (lf_profiles db)" "wp_state p' = DeletionPending" "linked p' q"
      by (auto dest: receipt_okD)
    moreover from this that(2) p(2) have "wp_org p' = wp_org p" by (simp add: linked_def)
    ultimately show False using distinct_key_unique [OF lifecycle_invD(1) [OF inv] p(1)] active by fastforce
  qed
  have "find_receipt rid org db = None" using new by (auto simp: find_receipt_def first_row_def filter_empty_conv)
  moreover have "schedule_scope now org auth rid confirmation db = (if ?ok then [()] else [])"
    using schedule_scope_iff [OF inv org(1)] org auth new by simp
  moreover have "schedule_statements now requested org auth rid \<noteq> []" "length (schedule_statements now requested org auth rid) \<le> 998"
    by (simp_all add: schedule_statements_def)
  moreover have "\<not> (\<exists>q\<in>set (lf_receipts db). dr_id q = rid \<or> dr_org q = org \<and> dr_status q = ReceiptPending)"
    using new none by blast
  ultimately have "fst (schedule_workspace_deletion now requested org auth rid confirmation db) = Inr (if ?ok then Some Scheduled else None)"
    by (cases ?ok) (simp_all add: schedule_workspace_deletion_def atomic_matched atomic_unmatched run_schedule schedule_unmatched)
  with s show ?thesis by auto
qed

theorem status_predicts_schedule_witness:
  "\<exists>s. workspace_lifecycle_status ''w'' sample_workspace = Some s
    \<and> fst (schedule_workspace_deletion 5 5 ''w'' sample_owner ''r'' ''Team'' sample_workspace)
      = Inr (if lx_can_schedule s then Some Scheduled else None)"
  by (rule status_predicts_schedule [OF sample_workspace_inv, where g = "\<lparr>og_id = ''w'', og_name = ''Team''\<rparr>"])
    (simp_all add: sample_workspace_def owner_authority_def)

end
