(* ===== verification/OperationRecords.thy ===== *)
theory OperationRecords
  imports AtomicBatch
begin

text \<open>
  Provider operations, the durable mutations of a Neon project: their plans, rows and records
  (\<open>workspace-cloud/lib/provider-operation-records.ts\<close>, \<open>provider-operation-marker.ts\<close>, the tables of
  \<open>d1/schema/operations.ts\<close>) and the validators every read and write goes through. Plans carry the members the control
  plane reads; the others are in \<open>bp_rest\<close>. \<open>crypto\<close> collects what is computed outside: the JSON text of a plan, its
  hash, the keyed digest of a marker payload and the digest of an audit id.
\<close>

section \<open>Identifier patterns\<close>

text \<open>\<open>/^[a-z0-9][a-z0-9-]{0,59}$/\<close>\<close>

definition neon_id :: "string \<Rightarrow> bool" where
  "neon_id s = (case s of [] \<Rightarrow> False
     | c # cs \<Rightarrow> (is_lower c \<or> is_digit c) \<and> length cs \<le> 59 \<and> (\<forall>d\<in>set cs. is_lower d \<or> is_digit d \<or> d = CHR ''-''))"

text \<open>\<open>/^[A-Z][A-Z0-9_]{0,95}$/\<close>\<close>

definition failure_code :: "string \<Rightarrow> bool" where
  "failure_code s = (case s of [] \<Rightarrow> False
     | c # cs \<Rightarrow> is_upper c \<and> length cs \<le> 95 \<and> (\<forall>d\<in>set cs. is_upper d \<or> is_digit d \<or> d = CHR ''_''))"

text \<open>\<open>/^v1\.[A-Za-z0-9_-]{43}$/\<close>\<close>

definition marker_shape :: "string \<Rightarrow> bool" where
  "marker_shape s = matches (lit ''v1.'' @ replicate 43 (\<lambda>c. is_alnum c \<or> c = CHR ''_'' \<or> c = CHR ''-'')) s"

definition control_char :: "char \<Rightarrow> bool" where
  "control_char c \<longleftrightarrow> of_char c \<le> (31::nat) \<or> of_char c = (127::nat)"

definition opt :: "('a \<Rightarrow> bool) \<Rightarrow> 'a option \<Rightarrow> bool" where
  "opt P x = (case x of None \<Rightarrow> True | Some y \<Rightarrow> P y)"

lemma opt_simps [simp]: "opt P None" "opt P (Some y) \<longleftrightarrow> P y"
  by (simp_all add: opt_def)

section \<open>Plans\<close>

datatype branch_environment = Development | Production

datatype operation_kind = BranchCreate | BranchDelete | BranchSwitch

datatype operation_risk = StandardRisk | ProductionData

datatype approval_policy = SingleAdmin | SeparateAdmin

record create_plan =
  cp_project :: string
  cp_branch :: string
  cp_environment :: branch_environment
  cp_point :: string
  cp_name :: string
  cp_init :: string
  cp_read_write :: bool
  cp_copies_data :: bool

record switch_plan =
  sp_project :: string
  sp_branch :: string
  sp_connection :: string
  sp_connection_name :: string
  sp_provider_resource :: string
  sp_database_id :: string
  sp_database :: string
  sp_schemas :: "string list"
  sp_environment :: branch_environment
  sp_readonly_default :: bool
  sp_allow_writes :: bool
  sp_schema_group :: "string option"
  sp_content_revision :: nat
  sp_authority_revision :: nat
  sp_active_leases :: nat
  st_project :: string
  st_branch :: string
  st_name :: string
  st_database_id :: string
  st_database :: string
  st_endpoint :: string
  st_database_fingerprint :: string
  st_resource_fingerprint :: string
  st_environment :: branch_environment
  si_active_leases :: nat
  si_closes_sessions :: bool
  si_creates_revision :: bool
  si_reintrospection :: bool

record delete_plan =
  dp_project :: string
  dp_branch :: string
  dp_name :: string
  dp_mode :: string
  dp_connections :: nat
  dp_active_leases :: nat
  dp_endpoints :: "string list"
  dp_create_operation :: string

datatype plan_body = CreatePlan create_plan | SwitchPlan switch_plan | DeletePlan delete_plan

record branch_plan =
  bp_version :: nat
  bp_operation :: string
  bp_integration :: string
  bp_generation :: string
  bp_expires :: int
  bp_risk :: operation_risk
  bp_policy :: approval_policy
  bp_body :: plan_body
  bp_rest :: json

fun body_kind :: "plan_body \<Rightarrow> operation_kind" where
  "body_kind (CreatePlan _) = BranchCreate"
| "body_kind (SwitchPlan _) = BranchSwitch"
| "body_kind (DeletePlan _) = BranchDelete"

record crypto =
  cx_json :: "branch_plan \<Rightarrow> json"
  cx_bytes :: "branch_plan \<Rightarrow> nat"
  cx_hash :: "branch_plan \<Rightarrow> string"
  cx_hmac :: "string \<Rightarrow> string"
  cx_audit :: "string \<Rightarrow> string"

definition max_redacted_plan_bytes :: nat where
  "max_redacted_plan_bytes = 32 * 1024"

section \<open>Redaction\<close>

definition redacted_string :: "string \<Rightarrow> bool" where
  "redacted_string s \<longleftrightarrow> length s \<le> 2048
     \<and> (\<forall>c\<in>set s. \<not> (control_char c \<and> c \<notin> {CHR 0x09, CHR 0x0A, CHR 0x0D}))"

definition secret_words :: "string list" where
  "secret_words = [''token'', ''secret'', ''password'', ''credential'', ''authorization'', ''connectionuri'',
     ''connectionurl'', ''host'']"

definition redacted_key :: "string \<Rightarrow> bool" where
  "redacted_key k \<longleftrightarrow>
     (case k of [] \<Rightarrow> False | c # cs \<Rightarrow> is_alpha c \<and> length cs \<le> 63 \<and> (\<forall>d\<in>set cs. is_alnum d))
     \<and> (k = ''credentialFenceFingerprint'' \<or> (\<forall>w\<in>set secret_words. \<not> str_includes w (js_lower k)))"

text \<open>Whether \<open>safeRedactedValue\<close> returns; both of its errors are \<open>False\<close>.\<close>

fun safe_redacted_value :: "nat \<Rightarrow> json \<Rightarrow> bool" where
  "safe_redacted_value d JNull = True"
| "safe_redacted_value d (JBool b) = True"
| "safe_redacted_value d (JNum n) = True"
| "safe_redacted_value d (JStr s) = redacted_string s"
| "safe_redacted_value d (JArr vs) = (d < 8 \<and> length vs \<le> 128 \<and> (\<forall>v\<in>set vs. safe_redacted_value (Suc d) v))"
| "safe_redacted_value d (JObj fs) = (d < 8 \<and> (\<forall>f\<in>set fs. redacted_key (fst f) \<and> safe_redacted_value (Suc d) (snd f)))"

section \<open>Ownership markers\<close>

definition marker_payload :: "string \<Rightarrow> string \<Rightarrow> nat \<Rightarrow> string \<Rightarrow> string \<Rightarrow> string" where
  "marker_payload org integration gen operation hash =
     js_join [CHR 0x0A] [''v1'', org, integration, nat_str gen, operation, hash]"

text \<open>\<open>None\<close>: the context is invalid and the function throws.\<close>

definition ownership_marker :: "crypto \<Rightarrow> string \<Rightarrow> string \<Rightarrow> nat \<Rightarrow> string \<Rightarrow> string \<Rightarrow> string option" where
  "ownership_marker cx org integration gen operation hash =
     (if length org < 1 \<or> length org > 512 \<or> (\<exists>c\<in>set org. control_char c) \<or> \<not> uuid integration \<or> gen < 1
        \<or> \<not> hex64 hash \<or> \<not> uuid operation then None
      else Some (''v1.'' @ cx_hmac cx (marker_payload org integration gen operation hash)))"

definition verify_marker :: "crypto \<Rightarrow> string \<Rightarrow> string \<Rightarrow> nat \<Rightarrow> string \<Rightarrow> string \<Rightarrow> string \<Rightarrow> bool option" where
  "verify_marker cx org integration gen operation hash marker =
     (if \<not> marker_shape marker then Some False
      else map_option (\<lambda>expected. marker = expected) (ownership_marker cx org integration gen operation hash))"

definition audit_event_id :: "crypto \<Rightarrow> string \<Rightarrow> string \<Rightarrow> string option" where
  "audit_event_id cx namespace key = (if uuid key then Some (cx_audit cx (''dopedb:'' @ namespace @ '':'' @ key)) else None)"

text \<open>Whether \<open>assertPlan\<close> returns.\<close>

definition assert_plan :: "crypto \<Rightarrow> string \<Rightarrow> string \<Rightarrow> nat \<Rightarrow> string \<Rightarrow> string \<Rightarrow> string \<Rightarrow> branch_plan \<Rightarrow> bool" where
  "assert_plan cx org integration gen operation hash marker plan \<longleftrightarrow>
     safe_redacted_value 0 (cx_json cx plan) \<and> cx_bytes cx plan \<le> max_redacted_plan_bytes \<and> cx_hash cx plan = hash
     \<and> bp_operation plan = operation \<and> bp_integration plan = integration \<and> bp_generation plan = nat_str gen
     \<and> verify_marker cx org integration gen operation hash marker = Some True"

section \<open>Operation rows\<close>

datatype operation_state =
  AwaitingApproval | Approved | Claimed | RemoteStarted | Reconciling | Succeeded | Failed | NeedsRepair | Cancelled

datatype managed_access =
  WaitingForProvider | NotRequested | BootstrapRequired | AccessReady | AccessNeedsRepair | Unavailable

datatype observation = Missing | Pending | ReadyObserved | Conflict | FailedObserved

text \<open>The JSON of \<open>redacted_result\<close>; an absent member reads as \<open>None\<close>.\<close>

record redacted_result =
  rr_status :: observation
  rr_branch :: "string option"
  rr_operation :: "string option"
  rr_operation_status :: "string option"
  rr_endpoint :: "string option"
  rr_database_count :: "int option"
  rr_database_fingerprint :: "string option"
  rr_retired_roles :: "int option"
  rr_fence :: "string option"
  rr_access :: "managed_access option"
  rr_failure :: "string option"
  rr_observed :: int
  rr_resource_fingerprint :: "string option"
  rr_bootstrap :: "(string \<times> string \<times> string \<times> int) option"

record operation_row =
  op_id :: string
  op_org :: string
  op_integration :: string
  op_generation :: nat
  op_kind :: operation_kind
  op_state :: operation_state
  op_key :: string
  op_request_hash :: string
  op_plan_hash :: string
  op_plan_expires :: int
  op_risk :: operation_risk
  op_policy :: approval_policy
  op_member :: string
  op_user :: string
  op_session :: string
  op_role :: string
  op_scope :: string
  op_source :: string
  op_target :: string
  op_marker :: string
  op_plan :: branch_plan
  op_provider_operation :: "string option"
  op_resource :: "string option"
  op_result :: "redacted_result option"
  op_failure :: "string option"
  op_claim :: "string option"
  op_claimed_at :: "int option"
  op_started_at :: "int option"
  op_reconcile_after :: "int option"
  op_completed_at :: "int option"
  op_created_at :: int
  op_updated_at :: int

text \<open>The row checks of the table.\<close>

definition claim_consistent :: "operation_row \<Rightarrow> bool" where
  "claim_consistent q \<longleftrightarrow>
     (case op_state q of
        AwaitingApproval \<Rightarrow> op_claim q = None \<and> op_claimed_at q = None \<and> op_started_at q = None \<and> op_completed_at q = None
      | Approved \<Rightarrow> op_claim q = None \<and> op_claimed_at q = None \<and> op_started_at q = None \<and> op_completed_at q = None
      | Claimed \<Rightarrow> op_claim q \<noteq> None \<and> op_claimed_at q \<noteq> None \<and> op_started_at q = None \<and> op_completed_at q = None
      | RemoteStarted \<Rightarrow> op_claim q \<noteq> None \<and> op_claimed_at q \<noteq> None \<and> op_started_at q \<noteq> None \<and> op_completed_at q = None
      | Reconciling \<Rightarrow> op_claim q \<noteq> None \<and> op_claimed_at q \<noteq> None \<and> op_started_at q \<noteq> None \<and> op_completed_at q = None
      | _ \<Rightarrow> op_completed_at q \<noteq> None)
     \<and> (op_claim q = None \<longleftrightarrow> op_claimed_at q = None)"

definition admin_roles :: "string list" where
  "admin_roles = [''admin'', ''owner'']"

definition operation_check :: "operation_row \<Rightarrow> bool" where
  "operation_check q \<longleftrightarrow>
     op_generation q \<ge> 1 \<and> hex64 (op_request_hash q) \<and> hex64 (op_plan_hash q)
     \<and> (op_risk q = ProductionData \<longrightarrow> op_policy q = SeparateAdmin)
     \<and> op_role q \<in> set admin_roles
     \<and> 1 \<le> length (op_target q) \<and> length (op_target q) \<le> 256
     \<and> 1 \<le> length (op_member q) \<and> length (op_member q) \<le> 512
     \<and> 1 \<le> length (op_user q) \<and> length (op_user q) \<le> 512
     \<and> 1 \<le> length (op_session q) \<and> length (op_session q) \<le> 512
     \<and> neon_id (op_scope q) \<and> neon_id (op_source q) \<and> marker_shape (op_marker q)
     \<and> opt (\<lambda>i. uuid i \<and> js_lower i = i) (op_provider_operation q) \<and> opt neon_id (op_resource q)
     \<and> opt failure_code (op_failure q)
     \<and> op_created_at q < op_plan_expires q \<and> op_plan_expires q \<le> op_created_at q + 15 * 60 * 1000
     \<and> claim_consistent q
     \<and> (op_failure q \<noteq> None \<longrightarrow> op_state q \<in> {Failed, NeedsRepair})
     \<and> (op_state q = Succeeded \<longrightarrow> op_resource q \<noteq> None)"

section \<open>Records read back from rows\<close>

record plan_record =
  pr_id :: string
  pr_state :: operation_state
  pr_plan_hash :: string
  pr_expires :: int
  pr_risk :: operation_risk
  pr_policy :: approval_policy
  pr_plan :: branch_plan
  pr_marker :: string
  pr_replayed :: bool

text \<open>
  \<open>planRecord\<close>: a replay is checked against the persisted operation. \<open>Inl ()\<close> is the error of \<open>safeRedactedValue\<close> or of
  an invalid marker context, \<open>Inr None\<close> is \<open>null\<close>.
\<close>

definition plan_record_of ::
  "crypto \<Rightarrow> string \<Rightarrow> string \<Rightarrow> nat \<Rightarrow> string \<Rightarrow> operation_row option \<Rightarrow> unit + plan_record option" where
  "plan_record_of cx org integration gen operation row =
     (case row of
        None \<Rightarrow> Inr None
      | Some q \<Rightarrow>
          let plan = op_plan q
          in if \<not> hex64 (op_plan_hash q) then Inr None
             else if \<not> safe_redacted_value 0 (cx_json cx plan) then Inl ()
             else if cx_hash cx plan \<noteq> op_plan_hash q \<or> bp_operation plan \<noteq> op_id q \<or> bp_version plan \<noteq> 1
                 \<or> body_kind (bp_body plan) \<noteq> op_kind q \<or> bp_integration plan \<noteq> integration
                 \<or> bp_generation plan \<noteq> nat_str gen \<or> bp_expires plan \<noteq> op_plan_expires q
                 \<or> bp_risk plan \<noteq> op_risk q \<or> bp_policy plan \<noteq> op_policy q then Inr None
             else (case verify_marker cx org integration gen (op_id q) (op_plan_hash q) (op_marker q) of
                 None \<Rightarrow> Inl ()
               | Some ok \<Rightarrow> Inr (if ok then Some \<lparr>pr_id = op_id q, pr_state = op_state q, pr_plan_hash = op_plan_hash q,
                    pr_expires = op_plan_expires q, pr_risk = op_risk q, pr_policy = op_policy q, pr_plan = plan,
                    pr_marker = op_marker q, pr_replayed = (op_id q \<noteq> operation)\<rparr> else None)))"

record execution_result =
  er_endpoint :: "string option"
  er_database_count :: "int option"
  er_database_fingerprint :: "string option"
  er_retired_roles :: "int option"
  er_fence :: "string option"
  er_access :: "managed_access option"

definition small_count :: "int \<Rightarrow> bool" where
  "small_count n \<longleftrightarrow> 0 \<le> n \<and> n \<le> 200"

definition execution_result_projection :: "redacted_result option \<Rightarrow> execution_result option" where
  "execution_result_projection v =
     (case v of
        None \<Rightarrow> Some \<lparr>er_endpoint = None, er_database_count = None, er_database_fingerprint = None, er_retired_roles = None,
                  er_fence = None, er_access = None\<rparr>
      | Some r \<Rightarrow>
          if \<not> opt neon_id (rr_endpoint r) \<or> \<not> opt small_count (rr_database_count r) \<or> \<not> opt hex64 (rr_database_fingerprint r)
             \<or> (rr_database_count r = None) \<noteq> (rr_database_fingerprint r = None)
             \<or> \<not> opt small_count (rr_retired_roles r) \<or> \<not> opt hex64 (rr_fence r)
             \<or> (rr_retired_roles r = None) \<noteq> (rr_fence r = None) then None
          else Some \<lparr>er_endpoint = rr_endpoint r, er_database_count = rr_database_count r,
                 er_database_fingerprint = rr_database_fingerprint r, er_retired_roles = rr_retired_roles r,
                 er_fence = rr_fence r, er_access = rr_access r\<rparr>)"

record execution_record =
  xr_plan :: plan_record
  xr_claim :: "string option"
  xr_started_at :: "int option"
  xr_provider_operation :: "string option"
  xr_resource :: "string option"
  xr_reconcile_after :: "int option"
  xr_result :: execution_result
  xr_failure :: "string option"

definition execution_record_of ::
  "crypto \<Rightarrow> string \<Rightarrow> string \<Rightarrow> nat \<Rightarrow> string \<Rightarrow> operation_row option \<Rightarrow> unit + execution_record option" where
  "execution_record_of cx org integration gen operation row =
     (case plan_record_of cx org integration gen operation row of
        Inl e \<Rightarrow> Inl e
      | Inr plan \<Rightarrow>
          (case (row, plan, Option.bind row (\<lambda>q. execution_result_projection (op_result q))) of
             (Some q, Some p, Some r) \<Rightarrow>
               Inr (if opt uuid (op_claim q) \<and> opt uuid (op_provider_operation q) \<and> opt neon_id (op_resource q)
                       \<and> opt failure_code (op_failure q)
                    then Some \<lparr>xr_plan = p, xr_claim = op_claim q, xr_started_at = op_started_at q,
                        xr_provider_operation = op_provider_operation q, xr_resource = op_resource q,
                        xr_reconcile_after = op_reconcile_after q, xr_result = r, xr_failure = op_failure q\<rparr>
                    else None)
           | _ \<Rightarrow> Inr None))"

end
