(* ===== verification/ProviderOperations.thy ===== *)
theory ProviderOperations
  imports OperationRecords
begin

text \<open>
  The transitions of a provider operation: plan, decide, claim, cancel when expired, start remotely, reconcile, finish the
  bootstrap (\<open>workspace-cloud/lib/provider-operation-plan.ts\<close>, \<open>provider-operation-execution.ts\<close>,
  \<open>provider-operation-reconciliation.ts\<close>, \<open>provider-operation-bootstrap.ts\<close>, \<open>provider-operation-authority.ts\<close>,
  \<open>provider-integrations/authority.ts\<close>). Each is one atomic batch over the tables below. \<open>clk\<close> is the clock of the
  database, \<open>now\<close> the clock of the server; \<open>Inl ()\<close> is a thrown error and \<open>Inr None\<close> is \<open>null\<close>.
\<close>

section \<open>Tables\<close>

record session_entry =
  se_id :: string
  se_user :: string
  se_expires :: int

record member_entry =
  me_id :: string
  me_org :: string
  me_user :: string
  me_role :: string
  me_pending :: "int option"
  me_claim :: "string option"

record integration_entry =
  in_id :: string
  in_org :: string
  in_provider :: string
  in_generation :: nat
  in_status :: string
  in_refresh_phase :: string
  in_revoked :: "int option"
  in_pending :: "int option"
  in_claim :: "string option"

record approval_row =
  ap_id :: string
  ap_org :: string
  ap_operation :: string
  ap_plan_hash :: string
  ap_approved :: bool
  ap_member :: string
  ap_user :: string
  ap_session :: string
  ap_role :: string

record audit_row =
  ad_id :: string
  ad_org :: string
  ad_actor :: string
  ad_action :: string
  ad_resource :: string
  ad_summary :: "(string \<times> json) list"
  ad_request :: string

text \<open>The JSON of a Neon resource; \<open>nr_rest\<close> holds the members no query reads.\<close>

record neon_resource =
  nr_project :: string
  nr_branch :: string
  nr_database_id :: string
  nr_database :: string
  nr_engine :: string
  nr_schemas :: "string list"
  nr_rest :: json

record branch_connection =
  bc_id :: string
  bc_org :: string
  bc_name :: string
  bc_provider :: string
  bc_mode :: string
  bc_host :: string
  bc_port :: nat
  bc_database :: string
  bc_sslmode :: string
  bc_readonly_default :: bool
  bc_allow_writes :: bool
  bc_schema_group :: "string option"
  bc_environment :: "string option"
  bc_integration :: "string option"
  bc_resource_id :: "string option"
  bc_resource :: neon_resource
  bc_content_revision :: nat
  bc_revision :: nat
  bc_deleted :: "int option"
  bc_pending :: "int option"
  bc_claim :: "string option"

record provider_resource_row =
  pv_id :: string
  pv_org :: string
  pv_provider :: string
  pv_fingerprint :: string
  pv_resource :: neon_resource
  pv_metadata :: json
  pv_capabilities :: json

record version_row =
  vr_id :: string
  vr_org :: string
  vr_connection :: string
  vr_revision :: nat
  vr_base :: "nat option"
  vr_parent :: "string option"
  vr_branch :: string
  vr_operation :: string
  vr_payload :: "(string \<times> json) list"
  vr_user :: string

record branch_lease =
  bl_org :: string
  bl_connection :: string
  bl_integration :: string
  bl_expires :: int
  bl_revoked :: "int option"

text \<open>\<open>od_active\<close> holds the workspaces whose profile is active, \<open>od_grants\<close> (workspace, connection, member, capability).\<close>

record operation_db =
  od_sessions :: "session_entry list"
  od_members :: "member_entry list"
  od_active :: "string list"
  od_integrations :: "integration_entry list"
  od_operations :: "operation_row list"
  od_approvals :: "approval_row list"
  od_audit :: "audit_row list"
  od_connections :: "branch_connection list"
  od_grants :: "(string \<times> string \<times> string \<times> string) list"
  od_leases :: "branch_lease list"
  od_resources :: "provider_resource_row list"
  od_versions :: "version_row list"

section \<open>Authority\<close>

record mutation_authority =
  ma_org :: string
  ma_member :: string
  ma_user :: string
  ma_session :: string
  ma_role :: string

definition live_actor :: "int \<Rightarrow> string \<Rightarrow> string \<Rightarrow> string \<Rightarrow> string \<Rightarrow> string \<Rightarrow> operation_db \<Rightarrow> bool" where
  "live_actor clk org member user session role db \<longleftrightarrow>
     (\<exists>s\<in>set (od_sessions db). se_id s = session \<and> se_user s = user \<and> se_expires s > clk)
     \<and> (\<exists>m\<in>set (od_members db). me_id m = member \<and> me_org m = org \<and> me_user m = user \<and> me_role m = role
          \<and> me_role m \<in> set admin_roles \<and> me_pending m = None \<and> me_claim m = None)"

text \<open>\<open>providerMutationAuthoritySql\<close> with \<open>requireManager\<close> and a Neon integration that no claim holds.\<close>

definition mutation_authority_holds ::
  "int \<Rightarrow> mutation_authority \<Rightarrow> string \<Rightarrow> nat \<Rightarrow> operation_db \<Rightarrow> bool" where
  "mutation_authority_holds clk a integration gen db \<longleftrightarrow>
     live_actor clk (ma_org a) (ma_member a) (ma_user a) (ma_session a) (ma_role a) db
     \<and> ma_org a \<in> set (od_active db)
     \<and> (\<exists>i\<in>set (od_integrations db). in_id i = integration \<and> in_org i = ma_org a \<and> in_provider i = ''neon''
          \<and> in_generation i = gen \<and> in_claim i = None)"

record execution_identity =
  xi_authority :: mutation_authority
  xi_integration :: string
  xi_generation :: nat
  xi_operation :: string
  xi_kind :: operation_kind
  xi_plan_hash :: string
  xi_marker :: string

definition assert_execution_identity :: "crypto \<Rightarrow> execution_identity \<Rightarrow> bool" where
  "assert_execution_identity cx x \<longleftrightarrow>
     uuid (xi_integration x) \<and> uuid (xi_operation x) \<and> hex64 (xi_plan_hash x) \<and> xi_generation x \<ge> 1
     \<and> verify_marker cx (ma_org (xi_authority x)) (xi_integration x) (xi_generation x) (xi_operation x) (xi_plan_hash x)
         (xi_marker x) = Some True"

definition identity_authority :: "int \<Rightarrow> execution_identity \<Rightarrow> operation_db \<Rightarrow> bool" where
  "identity_authority clk x db = mutation_authority_holds clk (xi_authority x) (xi_integration x) (xi_generation x) db"

text \<open>The columns every query compares with its identity.\<close>

definition is_operation :: "execution_identity \<Rightarrow> operation_row \<Rightarrow> bool" where
  "is_operation x q \<longleftrightarrow>
     op_id q = xi_operation x \<and> op_org q = ma_org (xi_authority x) \<and> op_integration q = xi_integration x
     \<and> op_kind q = xi_kind x \<and> op_generation q = xi_generation x \<and> op_plan_hash q = xi_plan_hash x \<and> op_marker q = xi_marker x"

definition live_requester :: "int \<Rightarrow> operation_row \<Rightarrow> operation_db \<Rightarrow> bool" where
  "live_requester clk q db = live_actor clk (op_org q) (op_member q) (op_user q) (op_session q) (op_role q) db"

text \<open>\<open>separate_admin\<close>: the approver is another member and another user.\<close>

definition policy_allows :: "operation_row \<Rightarrow> string \<Rightarrow> string \<Rightarrow> bool" where
  "policy_allows q member user \<longleftrightarrow> op_policy q \<noteq> SeparateAdmin \<or> op_member q \<noteq> member \<and> op_user q \<noteq> user"

definition approved_by :: "operation_row \<Rightarrow> approval_row \<Rightarrow> bool" where
  "approved_by q a \<longleftrightarrow>
     ap_org a = op_org q \<and> ap_operation a = op_id q \<and> ap_plan_hash a = op_plan_hash q \<and> ap_approved a
     \<and> policy_allows q (ap_member a) (ap_user a)"

definition approval_live :: "int \<Rightarrow> operation_row \<Rightarrow> operation_db \<Rightarrow> bool" where
  "approval_live clk q db \<longleftrightarrow>
     live_requester clk q db
     \<and> (\<exists>a\<in>set (od_approvals db). approved_by q a
          \<and> live_actor clk (ap_org a) (ap_member a) (ap_user a) (ap_session a) (ap_role a) db)"

definition current_execution_authority :: "int \<Rightarrow> execution_identity \<Rightarrow> operation_row \<Rightarrow> operation_db \<Rightarrow> bool" where
  "current_execution_authority clk x q db \<longleftrightarrow> identity_authority clk x db \<and> approval_live clk q db"

section \<open>Statements\<close>

text \<open>A write of operation rows fails when a row check fails.\<close>

definition set_operations :: "operation_row list \<Rightarrow> operation_db \<Rightarrow> operation_db option" where
  "set_operations qs db = (if \<forall>q\<in>set qs. operation_check q then Some (db\<lparr>od_operations := qs\<rparr>) else None)"

definition update_operation :: "operation_row \<Rightarrow> (operation_row \<Rightarrow> operation_row) \<Rightarrow> operation_db \<Rightarrow> operation_db option" where
  "update_operation c f db =
     set_operations (map (\<lambda>q. if op_id q = op_id c \<and> op_org q = op_org c \<and> op_state q = op_state c then f q else q)
       (od_operations db)) db"

definition insert_audit :: "audit_row \<Rightarrow> operation_db \<Rightarrow> operation_db option" where
  "insert_audit a db = (if \<exists>b\<in>set (od_audit db). ad_id b = ad_id a then None else Some (db\<lparr>od_audit := od_audit db @ [a]\<rparr>))"

text \<open>\<open>ON CONFLICT\<close> keeps an equal row and fails otherwise.\<close>

definition upsert_audit :: "audit_row \<Rightarrow> operation_db \<Rightarrow> operation_db option" where
  "upsert_audit a db =
     (if \<exists>b\<in>set (od_audit db). ad_id b = ad_id a then (if a \<in> set (od_audit db) then Some db else None)
      else Some (db\<lparr>od_audit := od_audit db @ [a]\<rparr>))"

text \<open>The row of the operation after the update, which the later statements read through its key.\<close>

definition updated_row :: "operation_row \<Rightarrow> operation_db \<Rightarrow> operation_row option" where
  "updated_row c db = find (\<lambda>q. op_id q = op_id c) (od_operations db)"

definition risk_text :: "operation_risk \<Rightarrow> string" where
  "risk_text r = (case r of StandardRisk \<Rightarrow> ''standard'' | ProductionData \<Rightarrow> ''production_data'')"

definition policy_text :: "approval_policy \<Rightarrow> string" where
  "policy_text p = (case p of SingleAdmin \<Rightarrow> ''single_admin'' | SeparateAdmin \<Rightarrow> ''separate_admin'')"

definition kind_text :: "operation_kind \<Rightarrow> string" where
  "kind_text k = (case k of BranchCreate \<Rightarrow> ''neon.branch.create'' | BranchDelete \<Rightarrow> ''neon.branch.delete''
     | BranchSwitch \<Rightarrow> ''neon.branch.switch'')"

definition summary_head :: "operation_kind \<Rightarrow> (string \<times> json) list" where
  "summary_head k = [(''provider'', JStr ''neon''), (''kind'', JStr (kind_text k))]"

definition summary_tail :: "operation_row \<Rightarrow> (string \<times> json) list" where
  "summary_tail q = [(''risk'', JStr (risk_text (op_risk q))), (''approvalPolicy'', JStr (policy_text (op_policy q)))]"

definition json_opt :: "string option \<Rightarrow> json" where
  "json_opt v = (case v of None \<Rightarrow> JNull | Some s \<Rightarrow> JStr s)"

definition state_text :: "operation_state \<Rightarrow> string" where
  "state_text s = (case s of AwaitingApproval \<Rightarrow> ''awaiting_approval'' | Approved \<Rightarrow> ''approved'' | Claimed \<Rightarrow> ''claimed''
     | RemoteStarted \<Rightarrow> ''remote_started'' | Reconciling \<Rightarrow> ''reconciling'' | Succeeded \<Rightarrow> ''succeeded'' | Failed \<Rightarrow> ''failed''
     | NeedsRepair \<Rightarrow> ''needs_repair'' | Cancelled \<Rightarrow> ''cancelled'')"

section \<open>Planning\<close>

definition environment_text :: "branch_environment \<Rightarrow> string" where
  "environment_text e = (case e of Development \<Rightarrow> ''development'' | Production \<Rightarrow> ''production'')"

definition json_nat :: "nat \<Rightarrow> json" where
  "json_nat n = JNum (int n)"

text \<open>Scope, source and target names of a plan, and what its audit summary says besides kind, hash, risk and policy.\<close>

definition provider_operation_plan_storage :: "branch_plan \<Rightarrow> string \<times> string \<times> string \<times> (string \<times> json) list" where
  "provider_operation_plan_storage plan =
     (case bp_body plan of
        CreatePlan c \<Rightarrow> (cp_project c, cp_branch c, cp_name c,
          [(''projectId'', JStr (cp_project c)), (''sourceBranchId'', JStr (cp_branch c)), (''targetName'', JStr (cp_name c)),
           (''initSource'', JStr (cp_init c)), (''sourcePoint'', JStr (cp_point c)),
           (''endpoint'', JStr (if cp_read_write c then ''read_write'' else ''none'')),
           (''credentialPolicy'', JStr (if cp_read_write c then ''retire_inherited_dopedb_roles'' else ''no_endpoint''))])
      | SwitchPlan w \<Rightarrow> (sp_project w, sp_branch w, st_name w,
          [(''projectId'', JStr (sp_project w)), (''connectionId'', JStr (sp_connection w)), (''sourceBranchId'', JStr (sp_branch w)),
           (''targetBranchId'', JStr (st_branch w)), (''sourceEnvironment'', JStr (environment_text (sp_environment w))),
           (''targetEnvironment'', JStr (environment_text (st_environment w))),
           (''contentRevision'', json_nat (sp_content_revision w)), (''authorityRevision'', json_nat (sp_authority_revision w)),
           (''activeLeaseCount'', json_nat (si_active_leases w))])
      | DeletePlan d \<Rightarrow> (dp_project d, dp_branch d, dp_name d,
          [(''projectId'', JStr (dp_project d)), (''targetBranchId'', JStr (dp_branch d)), (''targetName'', JStr (dp_name d)),
           (''deletionMode'', JStr (dp_mode d)), (''connectionCount'', json_nat (dp_connections d)),
           (''activeLeaseCount'', json_nat (dp_active_leases d)), (''endpointCount'', json_nat (length (dp_endpoints d))),
           (''createOperationId'', JStr (dp_create_operation d))]))"

definition valid_plan_policy :: "branch_plan \<Rightarrow> bool" where
  "valid_plan_policy plan =
     (case bp_body plan of
        CreatePlan c \<Rightarrow>
          bp_risk plan = (if cp_copies_data c \<and> cp_environment c = Production then ProductionData else StandardRisk)
          \<and> bp_policy plan = (if bp_risk plan = ProductionData then SeparateAdmin else SingleAdmin)
      | SwitchPlan w \<Rightarrow>
          bp_risk plan = (if sp_environment w = Production \<or> st_environment w = Production then ProductionData else StandardRisk)
          \<and> bp_policy plan = (if bp_risk plan = ProductionData then SeparateAdmin else SingleAdmin)
          \<and> sp_active_leases w = si_active_leases w \<and> si_closes_sessions w \<and> si_creates_revision w \<and> si_reintrospection w
      | DeletePlan d \<Rightarrow>
          bp_risk plan = StandardRisk \<and> bp_policy plan = SingleAdmin \<and> dp_mode d = ''provider_default_soft_delete''
          \<and> dp_connections d = 0 \<and> dp_active_leases d = 0)"

record plan_request =
  pq_authority :: mutation_authority
  pq_integration :: string
  pq_generation :: nat
  pq_operation :: string
  pq_key :: string
  pq_request_hash :: string
  pq_plan_hash :: string
  pq_marker :: string
  pq_plan :: branch_plan
  pq_now :: int

definition planned_row :: "plan_request \<Rightarrow> operation_row" where
  "planned_row r =
     (let (project, source, target, _) = provider_operation_plan_storage (pq_plan r); a = pq_authority r
      in \<lparr>op_id = pq_operation r, op_org = ma_org a, op_integration = pq_integration r, op_generation = pq_generation r,
          op_kind = body_kind (bp_body (pq_plan r)), op_state = AwaitingApproval, op_key = pq_key r,
          op_request_hash = pq_request_hash r, op_plan_hash = pq_plan_hash r, op_plan_expires = bp_expires (pq_plan r),
          op_risk = bp_risk (pq_plan r), op_policy = bp_policy (pq_plan r), op_member = ma_member a, op_user = ma_user a,
          op_session = ma_session a, op_role = ma_role a, op_scope = project, op_source = source, op_target = target,
          op_marker = pq_marker r, op_plan = pq_plan r, op_provider_operation = None, op_resource = None, op_result = None,
          op_failure = None, op_claim = None, op_claimed_at = None, op_started_at = None, op_reconcile_after = None,
          op_completed_at = None, op_created_at = pq_now r, op_updated_at = pq_now r\<rparr>)"

definition existing_plan :: "plan_request \<Rightarrow> operation_row \<Rightarrow> bool" where
  "existing_plan r q \<longleftrightarrow> op_org q = ma_org (pq_authority r) \<and> op_key q = pq_key r"

text \<open>The payload is the id of the operation to answer with and whether it is new.\<close>

definition plan_scope :: "int \<Rightarrow> plan_request \<Rightarrow> operation_db \<Rightarrow> (string \<times> bool) list" where
  "plan_scope clk r db =
     (let existing = filter (existing_plan r) (od_operations db)
      in [((case existing of [] \<Rightarrow> pq_operation r | q # _ \<Rightarrow> op_id q), existing = []).
          i \<leftarrow> od_integrations db,
          in_id i = pq_integration r \<and> in_org i = ma_org (pq_authority r) \<and> in_provider i = ''neon''
          \<and> in_generation i = pq_generation r \<and> in_status i = ''active'' \<and> in_refresh_phase i = ''idle'' \<and> in_revoked i = None
          \<and> in_pending i = None \<and> in_claim i = None
          \<and> mutation_authority_holds clk (pq_authority r) (pq_integration r) (pq_generation r) db
          \<and> (existing = [] \<or> (\<exists>q\<in>set existing. op_request_hash q = pq_request_hash r
               \<and> op_kind q = body_kind (bp_body (pq_plan r)) \<and> op_integration q = pq_integration r
               \<and> op_generation q = pq_generation r))])"

definition insert_operation :: "operation_row \<Rightarrow> operation_db \<Rightarrow> operation_db option" where
  "insert_operation q db =
     (if \<exists>p\<in>set (od_operations db). op_id p = op_id q \<or> op_org p = op_org q \<and> op_key p = op_key q then None
      else set_operations (od_operations db @ [q]) db)"

definition plan_audit :: "string \<Rightarrow> plan_request \<Rightarrow> audit_row" where
  "plan_audit aid r =
     (let plan = pq_plan r; (_, _, _, summary) = provider_operation_plan_storage plan
      in \<lparr>ad_id = aid, ad_org = ma_org (pq_authority r), ad_actor = ma_user (pq_authority r), ad_action = ''provider.operation.plan'',
          ad_resource = pq_operation r,
          ad_summary = summary_head (body_kind (bp_body plan)) @ [(''planHash'', JStr (pq_plan_hash r)),
             (''risk'', JStr (risk_text (bp_risk plan))), (''approvalPolicy'', JStr (policy_text (bp_policy plan)))] @ summary,
          ad_request = pq_key r\<rparr>)"

definition plan_statements ::
  "string \<Rightarrow> plan_request \<Rightarrow> (string \<times> bool, operation_db, operation_row) statement list" where
  "plan_statements aid r =
     [scoped (\<lambda>(oid, created) db. if created then map_option (\<lambda>db'. (db', [])) (insert_operation (planned_row r) db) else Some (db, [])),
      scoped (\<lambda>(oid, created) db. if created then map_option (\<lambda>db'. (db', [])) (insert_audit (plan_audit aid r) db) else Some (db, [])),
      scoped (\<lambda>(oid, created) db. Some (db, [q \<leftarrow> od_operations db. op_id q = oid]))]"

definition record_operation_plan ::
  "crypto \<Rightarrow> int \<Rightarrow> plan_request \<Rightarrow> operation_db \<Rightarrow> (unit + plan_record option) \<times> operation_db" where
  "record_operation_plan cx clk r db =
     (if \<not> assert_plan cx (ma_org (pq_authority r)) (pq_integration r) (pq_generation r) (pq_operation r) (pq_plan_hash r)
            (pq_marker r) (pq_plan r)
         \<or> \<not> hex64 (pq_request_hash r) \<or> \<not> valid_plan_policy (pq_plan r)
         \<or> bp_expires (pq_plan r) \<noteq> pq_now r + 10 * 60 * 1000 then (Inl (), db)
      else case audit_event_id cx ''provider-operation:plan'' (pq_key r) of
             None \<Rightarrow> (Inl (), db)
           | Some aid \<Rightarrow>
               (case atomic_d1 (plan_scope clk r) (plan_statements aid r) db of
                  Inl e \<Rightarrow> (Inl e, db)
                | Inr ((_, rows), db') \<Rightarrow>
                    (plan_record_of cx (ma_org (pq_authority r)) (pq_integration r) (pq_generation r) (pq_operation r)
                       (first_row (rows ! 2)), db')))"

section \<open>Deciding\<close>

definition same_decision :: "execution_identity \<Rightarrow> bool \<Rightarrow> approval_row \<Rightarrow> bool" where
  "same_decision x approved a \<longleftrightarrow>
     ap_plan_hash a = xi_plan_hash x \<and> ap_approved a = approved \<and> ap_member a = ma_member (xi_authority x)
     \<and> ap_user a = ma_user (xi_authority x) \<and> ap_session a = ma_session (xi_authority x) \<and> ap_role a = ma_role (xi_authority x)"

definition approvals_of :: "operation_row \<Rightarrow> operation_db \<Rightarrow> approval_row list" where
  "approvals_of q db = [a \<leftarrow> od_approvals db. ap_org a = op_org q \<and> ap_operation a = op_id q]"

definition may_decide :: "int \<Rightarrow> execution_identity \<Rightarrow> bool \<Rightarrow> operation_row \<Rightarrow> operation_db \<Rightarrow> bool" where
  "may_decide clk x approved q db \<longleftrightarrow>
     is_operation x q \<and> live_requester clk q db
     \<and> (op_state q = AwaitingApproval \<or> (\<exists>a\<in>set (approvals_of q db). same_decision x approved a))
     \<and> (approved \<or> op_state q \<in> {AwaitingApproval, Cancelled})
     \<and> (\<not> approved \<or> op_state q \<noteq> AwaitingApproval \<or> op_plan_expires q > clk)
     \<and> (\<not> approved \<or> policy_allows q (ma_member (xi_authority x)) (ma_user (xi_authority x)))
     \<and> identity_authority clk x db
     \<and> (\<forall>a\<in>set (approvals_of q db). same_decision x approved a)"

definition decide_scope :: "int \<Rightarrow> execution_identity \<Rightarrow> bool \<Rightarrow> operation_db \<Rightarrow> (operation_row \<times> bool) list" where
  "decide_scope clk x approved db =
     [(q, approvals_of q db = []). q \<leftarrow> od_operations db, may_decide clk x approved q db]"

definition insert_approval :: "approval_row \<Rightarrow> operation_db \<Rightarrow> operation_db option" where
  "insert_approval a db =
     (if (\<exists>b\<in>set (od_approvals db). ap_id b = ap_id a \<or> ap_org b = ap_org a \<and> ap_operation b = ap_operation a)
         \<or> \<not> hex64 (ap_plan_hash a) \<or> ap_role a \<notin> set admin_roles then None
      else Some (db\<lparr>od_approvals := od_approvals db @ [a]\<rparr>))"

definition decided_row :: "bool \<Rightarrow> int \<Rightarrow> operation_row \<Rightarrow> operation_row" where
  "decided_row approved now q =
     q\<lparr>op_state := (if approved then Approved else Cancelled),
       op_completed_at := (if approved then op_completed_at q else Some now), op_updated_at := now\<rparr>"

definition decision_audit :: "string \<Rightarrow> execution_identity \<Rightarrow> bool \<Rightarrow> operation_row \<Rightarrow> audit_row" where
  "decision_audit aid x approved q =
     \<lparr>ad_id = aid, ad_org = ma_org (xi_authority x), ad_actor = ma_user (xi_authority x), ad_action = ''provider.operation.decision'',
      ad_resource = xi_operation x,
      ad_summary = summary_head (xi_kind x) @ [(''decision'', JStr (if approved then ''approved'' else ''rejected'')),
         (''planHash'', JStr (op_plan_hash q))] @ summary_tail q,
      ad_request = xi_operation x\<rparr>"

definition decide_statements ::
  "string \<Rightarrow> string \<Rightarrow> execution_identity \<Rightarrow> bool \<Rightarrow> int
     \<Rightarrow> (operation_row \<times> bool, operation_db, operation_row \<times> approval_row) statement list" where
  "decide_statements aid approval_id x approved now =
     [scoped (\<lambda>(q, created) db. if created
        then map_option (\<lambda>db'. (db', [])) (insert_approval \<lparr>ap_id = approval_id, ap_org = ma_org (xi_authority x),
          ap_operation = xi_operation x, ap_plan_hash = xi_plan_hash x, ap_approved = approved, ap_member = ma_member (xi_authority x),
          ap_user = ma_user (xi_authority x), ap_session = ma_session (xi_authority x), ap_role = ma_role (xi_authority x)\<rparr> db)
        else Some (db, [])),
      scoped (\<lambda>_ db. map_option (\<lambda>db'. (db', [])) (set_operations
        (map (\<lambda>p. if op_id p = xi_operation x \<and> op_state p = AwaitingApproval then decided_row approved now p else p)
          (od_operations db)) db)),
      scoped (\<lambda>(q, created) db. if created
        then (case find (\<lambda>p. op_id p = xi_operation x) (od_operations db) of
                None \<Rightarrow> Some (db, [])
              | Some p \<Rightarrow> map_option (\<lambda>db'. (db', [])) (insert_audit (decision_audit aid x approved p) db))
        else Some (db, [])),
      scoped (\<lambda>_ db. Some (db, [(p, a). p \<leftarrow> od_operations db, op_id p = xi_operation x, a \<leftarrow> approvals_of p db]))]"

record decision_record =
  de_id :: string
  de_state :: operation_state
  de_approved :: bool
  de_approval :: string
  de_replayed :: bool

definition decide_provider_operation ::
  "crypto \<Rightarrow> int \<Rightarrow> int \<Rightarrow> string \<Rightarrow> execution_identity \<Rightarrow> bool \<Rightarrow> operation_db
     \<Rightarrow> (unit + decision_record option) \<times> operation_db" where
  "decide_provider_operation cx clk now approval_id x approved db =
     (if \<not> assert_execution_identity cx x then (Inl (), db)
      else case audit_event_id cx ''provider-operation:decision'' (xi_operation x) of
             None \<Rightarrow> (Inl (), db)
           | Some aid \<Rightarrow>
               (case atomic_d1 (decide_scope clk x approved) (decide_statements aid approval_id x approved now) db of
                  Inl e \<Rightarrow> (Inl e, db)
                | Inr ((_, rows), db') \<Rightarrow>
                    (Inr (case first_row (rows ! 3) of
                       Some (p, a) \<Rightarrow>
                         if op_id p \<noteq> xi_operation x \<or> ap_approved a \<noteq> approved \<or> \<not> uuid (ap_id a) then None
                         else Some \<lparr>de_id = op_id p, de_state = op_state p, de_approved = ap_approved a, de_approval = ap_id a,
                                de_replayed = (ap_id a \<noteq> approval_id)\<rparr>
                     | None \<Rightarrow> None), db')))"

section \<open>Cancelling an expired plan and claiming\<close>

text \<open>
  The scope of an execution batch is the candidate row; the statements update it, write the audit and read the updated
  row. The result row carries the state before the update.
\<close>

type_synonym candidate_statement = "(operation_row, operation_db, operation_row \<times> operation_state) statement"

definition update_candidate :: "(operation_row \<Rightarrow> operation_row) \<Rightarrow> candidate_statement" where
  "update_candidate f = scoped (\<lambda>c db. map_option (\<lambda>db'. (db', [])) (update_operation c f db))"

definition audit_updated :: "(operation_row \<Rightarrow> operation_row \<Rightarrow> bool) \<Rightarrow> (operation_row \<Rightarrow> operation_row \<Rightarrow> audit_row) \<Rightarrow> candidate_statement" where
  "audit_updated wanted a = scoped (\<lambda>c db. case updated_row c db of
       None \<Rightarrow> Some (db, [])
     | Some q \<Rightarrow> if wanted c q then map_option (\<lambda>db'. (db', [])) (upsert_audit (a c q) db) else Some (db, []))"

definition select_updated :: candidate_statement where
  "select_updated = scoped (\<lambda>c db. Some (db, case updated_row c db of None \<Rightarrow> [] | Some q \<Rightarrow> [(q, op_state c)]))"

definition operation_batch ::
  "(operation_row \<Rightarrow> bool) \<Rightarrow> candidate_statement list \<Rightarrow> operation_db
     \<Rightarrow> (unit + (operation_row \<times> operation_state) option) \<times> operation_db" where
  "operation_batch candidate statements db =
     (case atomic_d1 (\<lambda>db. filter candidate (od_operations db)) statements db of
        Inl e \<Rightarrow> (Inl e, db)
      | Inr ((_, rows), db') \<Rightarrow> (Inr (first_row (last rows)), db'))"

definition may_cancel_expired :: "int \<Rightarrow> execution_identity \<Rightarrow> operation_db \<Rightarrow> operation_row \<Rightarrow> bool" where
  "may_cancel_expired clk x db q \<longleftrightarrow>
     is_operation x q \<and> op_state q \<in> {Approved, Claimed} \<and> op_started_at q = None \<and> op_plan_expires q \<le> clk
     \<and> identity_authority clk x db"

definition cancelled_row :: "int \<Rightarrow> operation_row \<Rightarrow> operation_row" where
  "cancelled_row now q = q\<lparr>op_state := Cancelled, op_reconcile_after := None, op_completed_at := Some now, op_updated_at := now\<rparr>"

definition execution_audit ::
  "string \<Rightarrow> execution_identity \<Rightarrow> string \<Rightarrow> (string \<times> json) list \<Rightarrow> string \<Rightarrow> operation_row \<Rightarrow> operation_row \<Rightarrow> audit_row" where
  "execution_audit aid x action details request c q =
     \<lparr>ad_id = aid, ad_org = op_org q, ad_actor = ma_user (xi_authority x), ad_action = action, ad_resource = op_id q,
      ad_summary = summary_head (xi_kind x) @ details @ summary_tail c, ad_request = request\<rparr>"

definition cancel_expired_statements :: "string \<Rightarrow> execution_identity \<Rightarrow> int \<Rightarrow> candidate_statement list" where
  "cancel_expired_statements aid x now =
     [update_candidate (cancelled_row now),
      audit_updated (\<lambda>c q. True) (execution_audit aid x ''provider.operation.cancelled''
        [(''reason'', JStr ''plan_expired_before_remote_start'')] (xi_operation x)),
      select_updated]"

definition cancel_expired_operation ::
  "crypto \<Rightarrow> int \<Rightarrow> int \<Rightarrow> execution_identity \<Rightarrow> operation_db \<Rightarrow> (unit + string option) \<times> operation_db" where
  "cancel_expired_operation cx clk now x db =
     (if \<not> assert_execution_identity cx x then (Inl (), db)
      else case audit_event_id cx ''provider-operation:cancel-expired'' (xi_operation x) of
             None \<Rightarrow> (Inl (), db)
           | Some aid \<Rightarrow>
               (case operation_batch (may_cancel_expired clk x db) (cancel_expired_statements aid x now) db of
                  (Inl e, db') \<Rightarrow> (Inl e, db')
                | (Inr row, db') \<Rightarrow>
                    (Inr (case row of None \<Rightarrow> None
                       | Some (q, prev) \<Rightarrow>
                           if op_id q \<noteq> xi_operation x \<or> op_state q \<noteq> Cancelled \<or> op_provider_operation q \<noteq> None
                              \<or> op_resource q \<noteq> None \<or> op_reconcile_after q \<noteq> None \<or> op_failure q \<noteq> None then None
                           else Some (op_id q)), db')))"

definition may_claim :: "int \<Rightarrow> execution_identity \<Rightarrow> operation_db \<Rightarrow> operation_row \<Rightarrow> bool" where
  "may_claim clk x db q \<longleftrightarrow>
     is_operation x q \<and> op_state q \<in> {Approved, Claimed, RemoteStarted, Reconciling}
     \<and> (op_state q \<noteq> Approved \<or> op_plan_expires q > clk) \<and> current_execution_authority clk x q db"

definition claimed_row :: "string \<Rightarrow> int \<Rightarrow> operation_row \<Rightarrow> operation_row \<Rightarrow> operation_row" where
  "claimed_row claim now c q =
     (if op_state c = Approved
      then q\<lparr>op_state := Claimed, op_claim := Some claim, op_claimed_at := Some now, op_updated_at := now\<rparr> else q)"

text \<open>Updates whose new values depend on the candidate too.\<close>

definition update_from_candidate :: "(operation_row \<Rightarrow> operation_row \<Rightarrow> operation_row) \<Rightarrow> candidate_statement" where
  "update_from_candidate f = scoped (\<lambda>c db. map_option (\<lambda>db'. (db', [])) (update_operation c (f c) db))"

definition claim_statements :: "string \<Rightarrow> string \<Rightarrow> execution_identity \<Rightarrow> int \<Rightarrow> candidate_statement list" where
  "claim_statements aid claim x now =
     [update_from_candidate (claimed_row claim now),
      audit_updated (\<lambda>c q. op_state c = Approved)
        (\<lambda>c q. execution_audit aid x ''provider.operation.claim'' [] (case op_claim q of None \<Rightarrow> [] | Some i \<Rightarrow> i) c q),
      select_updated]"

record claim_record =
  cl_id :: string
  cl_state :: operation_state
  cl_claim :: string
  cl_now :: bool

text \<open>\<open>claim\<close> is the fresh UUID of the call.\<close>

definition claim_provider_operation ::
  "crypto \<Rightarrow> int \<Rightarrow> int \<Rightarrow> string \<Rightarrow> execution_identity \<Rightarrow> operation_db \<Rightarrow> (unit + claim_record option) \<times> operation_db" where
  "claim_provider_operation cx clk now claim x db =
     (if \<not> assert_execution_identity cx x then (Inl (), db)
      else case audit_event_id cx ''provider-operation:claim'' claim of
             None \<Rightarrow> (Inl (), db)
           | Some aid \<Rightarrow>
               (case operation_batch (may_claim clk x db) (claim_statements aid claim x now) db of
                  (Inl e, db') \<Rightarrow> (Inl e, db')
                | (Inr row, db') \<Rightarrow>
                    (Inr (case row of
                       Some (q, prev) \<Rightarrow>
                         (case op_claim q of
                            Some i \<Rightarrow>
                              if op_id q = xi_operation x \<and> op_state q \<in> {Claimed, RemoteStarted, Reconciling} \<and> uuid i
                              then Some \<lparr>cl_id = op_id q, cl_state = op_state q, cl_claim = i, cl_now = (prev = Approved)\<rparr>
                              else None
                          | None \<Rightarrow> None)
                     | None \<Rightarrow> None), db')))"

section \<open>Starting remotely\<close>

text \<open>A deleted branch must have no managed connection and no live lease; a switched connection must be as planned.\<close>

definition on_branch :: "operation_row \<Rightarrow> branch_connection \<Rightarrow> bool" where
  "on_branch q c \<longleftrightarrow>
     bc_org c = op_org q \<and> bc_integration c = Some (op_integration q) \<and> bc_provider c = ''neon'' \<and> bc_mode c = ''managed''
     \<and> nr_project (bc_resource c) = op_scope q \<and> nr_branch (bc_resource c) = op_source q"

definition branch_unused :: "int \<Rightarrow> operation_row \<Rightarrow> operation_db \<Rightarrow> bool" where
  "branch_unused clk q db \<longleftrightarrow>
     (\<forall>c\<in>set (od_connections db). on_branch q c \<longrightarrow> bc_deleted c \<noteq> None)
     \<and> (\<forall>c\<in>set (od_connections db). \<forall>l\<in>set (od_leases db).
          \<not> (on_branch q c \<and> bl_org l = bc_org c \<and> bl_connection l = bc_id c \<and> bl_integration l = op_integration q
             \<and> bl_revoked l = None \<and> bl_expires l > clk))"

definition switch_ready :: "execution_identity \<Rightarrow> operation_row \<Rightarrow> operation_db \<Rightarrow> bool" where
  "switch_ready x q db \<longleftrightarrow>
     (case bp_body (op_plan q) of
        SwitchPlan w \<Rightarrow>
          (\<exists>c\<in>set (od_connections db).
             bc_org c = op_org q \<and> bc_id c = sp_connection w
             \<and> (bc_org c, bc_id c, ma_member (xi_authority x), ''manage'') \<in> set (od_grants db)
             \<and> bc_provider c = ''neon'' \<and> bc_mode c = ''managed'' \<and> bc_integration c = Some (op_integration q)
             \<and> bc_resource_id c = Some (sp_provider_resource w)
             \<and> nr_project (bc_resource c) = op_scope q \<and> nr_branch (bc_resource c) = op_source q
             \<and> nr_database_id (bc_resource c) = sp_database_id w
             \<and> bc_content_revision c = sp_content_revision w \<and> bc_revision c = sp_authority_revision w
             \<and> bc_deleted c = None \<and> bc_pending c = None \<and> bc_claim c = None
             \<and> (\<forall>t\<in>set (od_connections db). \<not> (bc_org t = bc_org c \<and> bc_id t \<noteq> bc_id c \<and> bc_provider t = ''neon''
                  \<and> bc_mode t = ''managed'' \<and> bc_integration t = Some (op_integration q)
                  \<and> nr_project (bc_resource t) = op_scope q \<and> nr_branch (bc_resource t) = st_branch w
                  \<and> nr_database_id (bc_resource t) = st_database_id w \<and> bc_deleted t = None)))
      | _ \<Rightarrow> False)"

definition may_start :: "int \<Rightarrow> string \<Rightarrow> execution_identity \<Rightarrow> operation_db \<Rightarrow> operation_row \<Rightarrow> bool" where
  "may_start clk claim x db q \<longleftrightarrow>
     is_operation x q \<and> op_claim q = Some claim \<and> op_state q \<in> {Claimed, RemoteStarted, Reconciling}
     \<and> current_execution_authority clk x q db
     \<and> (op_kind q = BranchDelete \<longrightarrow> branch_unused clk q db)
     \<and> (op_kind q = BranchSwitch \<longrightarrow> switch_ready x q db)"

definition started_row :: "int \<Rightarrow> int \<Rightarrow> operation_row \<Rightarrow> operation_row \<Rightarrow> operation_row" where
  "started_row clk now c q =
     (if op_state c \<noteq> Claimed then q
      else if op_plan_expires c \<le> clk then q\<lparr>op_state := Cancelled, op_completed_at := Some now, op_updated_at := now\<rparr>
      else q\<lparr>op_state := RemoteStarted, op_started_at := Some now, op_updated_at := now\<rparr>)"

definition start_statements :: "int \<Rightarrow> string \<Rightarrow> execution_identity \<Rightarrow> int \<Rightarrow> candidate_statement list" where
  "start_statements clk aid x now =
     [update_from_candidate (started_row clk now),
      audit_updated (\<lambda>c q. op_state c = Claimed)
        (\<lambda>c q. execution_audit aid x
           (if op_state q = Cancelled then ''provider.operation.cancelled'' else ''provider.operation.remote_started'')
           [(''reason'', if op_state q = Cancelled then JStr ''plan_expired_before_remote_start'' else JNull)]
           (case op_claim q of None \<Rightarrow> [] | Some i \<Rightarrow> i) c q),
      select_updated]"

record start_record =
  ss_id :: string
  ss_state :: operation_state
  ss_claim :: string
  ss_now :: bool

definition mark_remote_started ::
  "crypto \<Rightarrow> int \<Rightarrow> int \<Rightarrow> string \<Rightarrow> execution_identity \<Rightarrow> operation_db \<Rightarrow> (unit + start_record option) \<times> operation_db" where
  "mark_remote_started cx clk now claim x db =
     (if \<not> assert_execution_identity cx x \<or> \<not> uuid claim then (Inl (), db)
      else case audit_event_id cx ''provider-operation:remote-start'' claim of
             None \<Rightarrow> (Inl (), db)
           | Some aid \<Rightarrow>
               (case operation_batch (may_start clk claim x db) (start_statements clk aid x now) db of
                  (Inl e, db') \<Rightarrow> (Inl e, db')
                | (Inr row, db') \<Rightarrow>
                    (Inr (case row of None \<Rightarrow> None
                       | Some (q, prev) \<Rightarrow>
                           if op_id q = xi_operation x \<and> op_state q \<in> {RemoteStarted, Reconciling, Cancelled}
                              \<and> op_claim q = Some claim
                           then Some \<lparr>ss_id = op_id q, ss_state = op_state q, ss_claim = claim,
                                  ss_now = (prev = Claimed \<and> op_state q = RemoteStarted)\<rparr>
                           else None), db')))"

section \<open>Reconciling\<close>

record reconciliation =
  rc_status :: observation
  rc_branch :: "string option"
  rc_operation :: "string option"
  rc_operation_status :: "string option"
  rc_endpoint :: "string option"
  rc_database_count :: "int option"
  rc_database_fingerprint :: "string option"
  rc_retired_roles :: "int option"
  rc_fence :: "string option"
  rc_access :: managed_access
  rc_failure :: "string option"

definition neon_operation_statuses :: "string list" where
  "neon_operation_statuses = [''scheduling'', ''running'', ''finished'', ''failed'', ''error'', ''cancelling'', ''cancelled'', ''skipped'']"

definition valid_reconciliation :: "reconciliation \<Rightarrow> bool" where
  "valid_reconciliation r \<longleftrightarrow>
     opt neon_id (rc_branch r) \<and> opt neon_id (rc_endpoint r) \<and> opt uuid (rc_operation r)
     \<and> opt (\<lambda>s. s \<in> set neon_operation_statuses) (rc_operation_status r) \<and> opt failure_code (rc_failure r)
     \<and> (rc_database_count r = None \<and> rc_database_fingerprint r = None
        \<or> rc_database_count r \<noteq> None \<and> rc_database_fingerprint r \<noteq> None
          \<and> opt small_count (rc_database_count r) \<and> opt hex64 (rc_database_fingerprint r))
     \<and> (rc_retired_roles r = None \<and> rc_fence r = None
        \<or> rc_retired_roles r \<noteq> None \<and> rc_fence r \<noteq> None \<and> opt small_count (rc_retired_roles r) \<and> opt hex64 (rc_fence r))
     \<and> (rc_status r = Missing \<longrightarrow> rc_branch r = None)
     \<and> (rc_status r = Pending \<longrightarrow> rc_branch r \<noteq> None)
     \<and> (rc_status r = ReadyObserved \<longrightarrow>
          rc_branch r \<noteq> None \<and> rc_failure r = None \<and> rc_database_count r \<noteq> None \<and> opt (\<lambda>n. n > 0) (rc_database_count r)
          \<and> rc_database_fingerprint r \<noteq> None
          \<and> (rc_access r = NotRequested \<and> rc_retired_roles r = None \<and> rc_fence r = None
             \<or> rc_access r = BootstrapRequired \<and> rc_retired_roles r \<noteq> None \<and> rc_fence r \<noteq> None))
     \<and> (rc_status r = Missing \<longrightarrow> rc_access r = WaitingForProvider)
     \<and> (rc_status r = Pending \<longrightarrow> rc_access r = WaitingForProvider \<and> rc_database_count r = None
          \<and> rc_database_fingerprint r = None \<and> rc_retired_roles r = None \<and> rc_fence r = None)
     \<and> (rc_status r = ReadyObserved \<or> rc_retired_roles r = None \<and> rc_fence r = None)
     \<and> (rc_status r = Conflict \<longrightarrow> rc_access r = AccessNeedsRepair)
     \<and> (rc_status r = FailedObserved \<longrightarrow> rc_access r = (if rc_branch r = None then Unavailable else AccessNeedsRepair))
     \<and> (rc_status r \<in> {Conflict, FailedObserved} \<longleftrightarrow> rc_failure r \<noteq> None)"

text \<open>An observation never contradicts what an earlier one fixed.\<close>

definition agrees :: "'a option \<Rightarrow> 'a option \<Rightarrow> bool" where
  "agrees old new \<longleftrightarrow> old = None \<or> new = None \<or> old = new"

definition recorded :: "(redacted_result \<Rightarrow> 'a option) \<Rightarrow> operation_row \<Rightarrow> 'a option" where
  "recorded f q = Option.bind (op_result q) f"

definition plan_opens_endpoint :: "operation_row \<Rightarrow> bool" where
  "plan_opens_endpoint q = (case bp_body (op_plan q) of CreatePlan c \<Rightarrow> cp_read_write c | _ \<Rightarrow> False)"

definition may_reconcile :: "int \<Rightarrow> string \<Rightarrow> execution_identity \<Rightarrow> reconciliation \<Rightarrow> operation_db \<Rightarrow> operation_row \<Rightarrow> bool" where
  "may_reconcile clk claim x r db q \<longleftrightarrow>
     is_operation x q \<and> op_claim q = Some claim
     \<and> (op_state q \<in> {RemoteStarted, Reconciling}
        \<or> op_state q = Succeeded \<and> plan_opens_endpoint q \<and> recorded rr_fence q = None
          \<and> rc_status r = ReadyObserved \<and> rc_access r = BootstrapRequired \<and> rc_fence r \<noteq> None)
     \<and> agrees (op_provider_operation q) (rc_operation r) \<and> agrees (op_resource q) (rc_branch r)
     \<and> agrees (recorded rr_endpoint q) (rc_endpoint r)
     \<and> agrees (recorded rr_database_fingerprint q) (rc_database_fingerprint r)
     \<and> agrees (recorded rr_fence q) (rc_fence r)
     \<and> identity_authority clk x db"

definition missing_too_long :: "int \<Rightarrow> operation_row \<Rightarrow> bool" where
  "missing_too_long now q = (case op_started_at q of None \<Rightarrow> False | Some t \<Rightarrow> t \<le> now - 2 * 60 * 1000)"

definition target_state :: "int \<Rightarrow> reconciliation \<Rightarrow> operation_row \<Rightarrow> operation_state" where
  "target_state now r q =
     (case rc_status r of
        ReadyObserved \<Rightarrow> Succeeded
      | Conflict \<Rightarrow> NeedsRepair
      | FailedObserved \<Rightarrow> if rc_branch r = None then Failed else NeedsRepair
      | Missing \<Rightarrow> if missing_too_long now q then NeedsRepair else Reconciling
      | Pending \<Rightarrow> Reconciling)"

definition target_failure :: "int \<Rightarrow> reconciliation \<Rightarrow> operation_row \<Rightarrow> string option" where
  "target_failure now r q =
     (case rc_status r of
        Conflict \<Rightarrow> rc_failure r
      | FailedObserved \<Rightarrow> rc_failure r
      | Missing \<Rightarrow> if missing_too_long now q then Some ''NEON_CREATE_RESULT_AMBIGUOUS'' else None
      | _ \<Rightarrow> None)"

definition coalesce :: "'a option \<Rightarrow> 'a option \<Rightarrow> 'a option" where
  "coalesce a b = (case a of None \<Rightarrow> b | Some x \<Rightarrow> Some x)"

definition observed_result :: "int \<Rightarrow> reconciliation \<Rightarrow> string option \<Rightarrow> redacted_result" where
  "observed_result now r endpoint =
     \<lparr>rr_status = rc_status r, rr_branch = rc_branch r, rr_operation = rc_operation r, rr_operation_status = rc_operation_status r,
      rr_endpoint = endpoint, rr_database_count = rc_database_count r, rr_database_fingerprint = rc_database_fingerprint r,
      rr_retired_roles = rc_retired_roles r, rr_fence = rc_fence r, rr_access = Some (rc_access r), rr_failure = rc_failure r,
      rr_observed = now, rr_resource_fingerprint = None, rr_bootstrap = None\<rparr>"

definition reconciled_row :: "int \<Rightarrow> reconciliation \<Rightarrow> operation_row \<Rightarrow> operation_row" where
  "reconciled_row now r q =
     q\<lparr>op_state := target_state now r q, op_provider_operation := coalesce (op_provider_operation q) (rc_operation r),
       op_resource := coalesce (op_resource q) (rc_branch r),
       op_result := Some (observed_result now r (coalesce (rc_endpoint r) (recorded rr_endpoint q))),
       op_failure := target_failure now r q,
       op_reconcile_after := (if target_state now r q = Reconciling then Some (now + 3000) else None),
       op_completed_at := (if target_state now r q = Reconciling then None else Some now), op_updated_at := now\<rparr>"

definition json_int :: "int option \<Rightarrow> json" where
  "json_int v = (case v of None \<Rightarrow> JNull | Some n \<Rightarrow> JNum n)"

definition access_text :: "managed_access \<Rightarrow> string" where
  "access_text a = (case a of WaitingForProvider \<Rightarrow> ''waiting_for_provider'' | NotRequested \<Rightarrow> ''not_requested''
     | BootstrapRequired \<Rightarrow> ''bootstrap_required'' | AccessReady \<Rightarrow> ''ready'' | AccessNeedsRepair \<Rightarrow> ''needs_repair''
     | Unavailable \<Rightarrow> ''unavailable'')"

definition observation_text :: "observation \<Rightarrow> string" where
  "observation_text s = (case s of Missing \<Rightarrow> ''missing'' | Pending \<Rightarrow> ''pending'' | ReadyObserved \<Rightarrow> ''ready''
     | Conflict \<Rightarrow> ''conflict'' | FailedObserved \<Rightarrow> ''failed'')"

definition reconcile_statements ::
  "string \<Rightarrow> string \<Rightarrow> string \<Rightarrow> execution_identity \<Rightarrow> reconciliation \<Rightarrow> int \<Rightarrow> candidate_statement list" where
  "reconcile_statements raid caid claim x r now =
     [update_candidate (reconciled_row now r),
      audit_updated (\<lambda>c q. op_state c = RemoteStarted)
        (execution_audit raid x ''provider.operation.reconciling''
           [(''observation'', JStr (observation_text (rc_status r))), (''branchId'', json_opt (rc_branch r)),
            (''providerOperationId'', json_opt (rc_operation r))] claim),
      audit_updated (\<lambda>c q. op_state q \<noteq> Reconciling)
        (\<lambda>c q. execution_audit caid x (''provider.operation.'' @ state_text (op_state q))
           [(''state'', JStr (state_text (op_state q))), (''branchId'', json_opt (op_resource q)),
            (''providerOperationId'', json_opt (op_provider_operation q)), (''endpointId'', json_opt (recorded rr_endpoint q)),
            (''databaseCount'', json_int (recorded rr_database_count q)),
            (''databaseFingerprint'', json_opt (recorded rr_database_fingerprint q)),
            (''retiredInheritedRoleCount'', json_int (recorded rr_retired_roles q)),
            (''credentialFenceFingerprint'', json_opt (recorded rr_fence q)),
            (''managedAccessState'', json_opt (map_option access_text (recorded rr_access q))),
            (''failureCode'', json_opt (op_failure q))] claim c q),
      select_updated]"

record reconciliation_record =
  rn_id :: string
  rn_state :: operation_state
  rn_claim :: string
  rn_provider_operation :: "string option"
  rn_resource :: "string option"
  rn_reconcile_after :: "int option"
  rn_result :: execution_result
  rn_access :: managed_access
  rn_failure :: "string option"

definition reconciliation_record_of ::
  "execution_identity \<Rightarrow> string \<Rightarrow> operation_row \<Rightarrow> reconciliation_record option" where
  "reconciliation_record_of x claim q =
     (case execution_result_projection (op_result q) of
        None \<Rightarrow> None
      | Some e \<Rightarrow>
          if op_id q \<noteq> xi_operation x \<or> op_claim q \<noteq> Some claim \<or> \<not> opt uuid (op_provider_operation q)
             \<or> \<not> opt neon_id (op_resource q) \<or> \<not> opt failure_code (op_failure q) then None
          else Some \<lparr>rn_id = op_id q, rn_state = op_state q, rn_claim = claim, rn_provider_operation = op_provider_operation q,
                 rn_resource = op_resource q, rn_reconcile_after = op_reconcile_after q, rn_result = e,
                 rn_access = (case er_access e of None \<Rightarrow> Unavailable | Some a \<Rightarrow> a), rn_failure = op_failure q\<rparr>)"

text \<open>
  \<open>safeRedactedValue\<close> of the new result always returns: its members have plain names, and their strings passed
  \<open>valid_reconciliation\<close>.
\<close>

definition apply_reconciliation ::
  "crypto \<Rightarrow> int \<Rightarrow> int \<Rightarrow> string \<Rightarrow> execution_identity \<Rightarrow> reconciliation \<Rightarrow> operation_db
     \<Rightarrow> (unit + reconciliation_record option) \<times> operation_db" where
  "apply_reconciliation cx clk now claim x r db =
     (if \<not> assert_execution_identity cx x \<or> \<not> uuid claim \<or> \<not> valid_reconciliation r then (Inl (), db)
      else case (audit_event_id cx (if rc_fence r \<noteq> None then ''provider-operation:reconcile-fenced'' else ''provider-operation:reconcile'') claim,
                 audit_event_id cx (if rc_fence r \<noteq> None then ''provider-operation:complete-fenced'' else ''provider-operation:complete'') claim) of
             (Some raid, Some caid) \<Rightarrow>
               (case operation_batch (may_reconcile clk claim x r db) (reconcile_statements raid caid claim x r now) db of
                  (Inl e, db') \<Rightarrow> (Inl e, db')
                | (Inr row, db') \<Rightarrow>
                    (Inr (case row of None \<Rightarrow> None | Some (q, prev) \<Rightarrow> reconciliation_record_of x claim q), db'))
           | _ \<Rightarrow> (Inl (), db))"

section \<open>Bootstrap\<close>

record bootstrap_request =
  bq_project :: string
  bq_branch :: string
  bq_database_fingerprint :: string
  bq_fence :: string
  bq_provider_audit :: string
  bq_resource_fingerprint :: string
  bq_plan_hash :: string

definition valid_bootstrap :: "execution_identity \<Rightarrow> bootstrap_request \<Rightarrow> bool" where
  "valid_bootstrap x b \<longleftrightarrow>
     xi_kind x = BranchCreate \<and> neon_id (bq_project b) \<and> neon_id (bq_branch b) \<and> hex64 (bq_database_fingerprint b)
     \<and> hex64 (bq_fence b) \<and> starts_with (bq_branch b @ '':'') (bq_provider_audit b) \<and> length (bq_provider_audit b) \<le> 512
     \<and> (\<forall>c\<in>set (bq_provider_audit b). \<not> control_char c) \<and> hex64 (bq_resource_fingerprint b) \<and> hex64 (bq_plan_hash b)"

definition may_bootstrap :: "int \<Rightarrow> execution_identity \<Rightarrow> bootstrap_request \<Rightarrow> operation_db \<Rightarrow> operation_row \<Rightarrow> bool" where
  "may_bootstrap clk x b db q \<longleftrightarrow>
     is_operation x q \<and> op_scope q = bq_project b \<and> op_resource q = Some (bq_branch b) \<and> op_state q = Succeeded
     \<and> recorded rr_database_fingerprint q = Some (bq_database_fingerprint b) \<and> recorded rr_fence q = Some (bq_fence b)
     \<and> (recorded rr_access q = Some BootstrapRequired
        \<or> recorded rr_access q = Some AccessReady
          \<and> (case recorded rr_bootstrap q of
                Some (audit, resource, plan, _) \<Rightarrow>
                  audit = bq_provider_audit b \<and> resource = bq_resource_fingerprint b \<and> plan = bq_plan_hash b
              | None \<Rightarrow> False))
     \<and> identity_authority clk x db"

definition bootstrapped_row :: "int \<Rightarrow> bootstrap_request \<Rightarrow> operation_row \<Rightarrow> operation_row" where
  "bootstrapped_row now b q =
     q\<lparr>op_result := map_option (\<lambda>r. r\<lparr>rr_access := Some AccessReady,
          rr_bootstrap := Some (bq_provider_audit b, bq_resource_fingerprint b, bq_plan_hash b, now)\<rparr>) (op_result q),
       op_updated_at := now\<rparr>"

definition needs_bootstrap :: "operation_row \<Rightarrow> bool" where
  "needs_bootstrap c \<longleftrightarrow> recorded rr_access c = Some BootstrapRequired"

definition bootstrap_statements :: "string \<Rightarrow> execution_identity \<Rightarrow> bootstrap_request \<Rightarrow> int \<Rightarrow> candidate_statement list" where
  "bootstrap_statements aid x b now =
     [scoped (\<lambda>c db. if needs_bootstrap c
        then map_option (\<lambda>db'. (db', [])) (upsert_audit
          \<lparr>ad_id = aid, ad_org = op_org c, ad_actor = ma_user (xi_authority x), ad_action = ''provider.operation.bootstrap_ready'',
            ad_resource = op_id c,
            ad_summary = summary_head (xi_kind x) @ [(''branchId'', JStr (bq_branch b)),
              (''providerAuditId'', JStr (bq_provider_audit b)), (''resourceFingerprint'', JStr (bq_resource_fingerprint b)),
              (''bootstrapPlanHash'', JStr (bq_plan_hash b)), (''databaseFingerprint'', JStr (bq_database_fingerprint b)),
              (''credentialFenceFingerprint'', JStr (bq_fence b)), (''managedAccessState'', JStr ''ready'')],
            ad_request = xi_operation x\<rparr> db)
        else Some (db, [])),
      scoped (\<lambda>c db. if needs_bootstrap c
        then map_option (\<lambda>db'. (db', [])) (set_operations
          (map (\<lambda>q. if op_id q = xi_operation x then bootstrapped_row now b q else q) (od_operations db)) db)
        else Some (db, [])),
      select_updated]"

record bootstrap_record =
  br_operation :: string
  br_transitioned :: bool

text \<open>The previous access state is read from the candidate, so the batch answers with candidate and updated row.\<close>

definition complete_bootstrap ::
  "crypto \<Rightarrow> int \<Rightarrow> int \<Rightarrow> execution_identity \<Rightarrow> bootstrap_request \<Rightarrow> operation_db
     \<Rightarrow> (unit + bootstrap_record option) \<times> operation_db" where
  "complete_bootstrap cx clk now x b db =
     (if \<not> assert_execution_identity cx x \<or> \<not> valid_bootstrap x b then (Inl (), db)
      else case audit_event_id cx ''provider-operation:bootstrap'' (xi_operation x) of
             None \<Rightarrow> (Inl (), db)
           | Some aid \<Rightarrow>
               (case operation_batch (may_bootstrap clk x b db) (bootstrap_statements aid x b now) db of
                  (Inl e, db') \<Rightarrow> (Inl e, db')
                | (Inr row, db') \<Rightarrow>
                    (Inr (case (row, find (may_bootstrap clk x b db) (od_operations db)) of
                       (Some (q, _), Some c) \<Rightarrow>
                         if op_id q \<noteq> xi_operation x \<or> recorded rr_access q \<noteq> Some AccessReady then None
                         else Some \<lparr>br_operation = op_id q, br_transitioned = needs_bootstrap c\<rparr>
                     | _ \<Rightarrow> None), db')))"

section \<open>Completing a branch switch\<close>

record import_projection =
  ij_fingerprint :: string
  ij_resource :: neon_resource
  ij_resource_json :: json
  ij_production :: bool
  ij_metadata :: json
  ij_capabilities :: json
  ij_discover :: bool
  ij_import :: bool
  ij_lease :: bool
  ij_write :: bool
  ij_host :: string
  ij_port :: nat
  ij_database :: string
  ij_engine :: string
  ij_sslmode :: string

definition max_safe_integer :: nat where
  "max_safe_integer = 9007199254740991"

text \<open>\<open>fingerprint\<close> is \<open>providerResourceFingerprint\<close>, a digest of the resource.\<close>

definition valid_switch ::
  "crypto \<Rightarrow> (neon_resource \<Rightarrow> string) \<Rightarrow> execution_identity \<Rightarrow> string \<Rightarrow> string \<Rightarrow> branch_plan \<Rightarrow> switch_plan \<Rightarrow> import_projection \<Rightarrow> bool" where
  "valid_switch cx fingerprint x claim connection_claim plan w j \<longleftrightarrow>
     assert_execution_identity cx x
     \<and> assert_plan cx (ma_org (xi_authority x)) (xi_integration x) (xi_generation x) (xi_operation x) (xi_plan_hash x) (xi_marker x) plan
     \<and> xi_kind x = BranchSwitch \<and> uuid claim \<and> uuid connection_claim \<and> sp_authority_revision w < max_safe_integer
     \<and> ij_fingerprint j = st_resource_fingerprint w \<and> ij_fingerprint j = fingerprint (ij_resource j)
     \<and> nr_project (ij_resource j) = st_project w \<and> nr_branch (ij_resource j) = st_branch w
     \<and> nr_database_id (ij_resource j) = st_database_id w \<and> nr_database (ij_resource j) = st_database w
     \<and> nr_engine (ij_resource j) = ''postgres'' \<and> nr_schemas (ij_resource j) = sp_schemas w
     \<and> ij_production j = (st_environment w = Production)
     \<and> ij_discover j \<and> ij_import j \<and> ij_lease j \<and> ij_write j \<and> ij_host j = ''neon.managed.invalid'' \<and> ij_port j = 5432
     \<and> ij_database j = st_database w \<and> ij_engine j = ''postgres'' \<and> ij_sslmode j = ''verify-full''
     \<and> safe_redacted_value 0 (JObj [(''resource'', ij_resource_json j), (''metadata'', ij_metadata j),
          (''capabilities'', ij_capabilities j)])
     \<and> sp_authority_revision w + 1 \<le> max_safe_integer \<and> sp_content_revision w + 1 \<le> max_safe_integer"

definition connection_environment_label :: "branch_environment \<Rightarrow> string" where
  "connection_environment_label e = (case e of Development \<Rightarrow> ''dev'' | Production \<Rightarrow> ''prod'')"

definition may_complete_switch :: "int \<Rightarrow> string \<Rightarrow> execution_identity \<Rightarrow> branch_plan \<Rightarrow> operation_db \<Rightarrow> operation_row \<Rightarrow> bool" where
  "may_complete_switch clk claim x plan db q \<longleftrightarrow>
     is_operation x q \<and> op_kind q = BranchSwitch \<and> op_state q \<in> {RemoteStarted, Reconciling} \<and> op_claim q = Some claim
     \<and> op_plan q = plan \<and> identity_authority clk x db"

definition switchable_connection ::
  "execution_identity \<Rightarrow> string \<Rightarrow> switch_plan \<Rightarrow> operation_row \<Rightarrow> operation_db \<Rightarrow> branch_connection \<Rightarrow> bool" where
  "switchable_connection x connection_claim w q db c \<longleftrightarrow>
     bc_org c = op_org q \<and> bc_id c = sp_connection w
     \<and> (bc_org c, bc_id c, ma_member (xi_authority x), ''manage'') \<in> set (od_grants db)
     \<and> bc_provider c = ''neon'' \<and> bc_mode c = ''managed'' \<and> bc_integration c = Some (op_integration q)
     \<and> bc_resource_id c = Some (sp_provider_resource w)
     \<and> (\<exists>r\<in>set (od_resources db). pv_org r = bc_org c \<and> bc_resource_id c = Some (pv_id r) \<and> pv_provider r = ''neon''
          \<and> pv_resource r = bc_resource c)
     \<and> nr_project (bc_resource c) = sp_project w \<and> nr_branch (bc_resource c) = sp_branch w
     \<and> nr_database_id (bc_resource c) = sp_database_id w \<and> nr_database (bc_resource c) = sp_database w
     \<and> bc_name c = sp_connection_name w \<and> bc_readonly_default c = sp_readonly_default w \<and> bc_allow_writes c = sp_allow_writes w
     \<and> bc_schema_group c = sp_schema_group w
     \<and> bc_environment c = Some (connection_environment_label (sp_environment w))
     \<and> bc_content_revision c = sp_content_revision w \<and> bc_revision c = sp_authority_revision w + 1
     \<and> bc_pending c \<noteq> None \<and> bc_claim c = Some connection_claim \<and> bc_deleted c = None
     \<and> (\<forall>l\<in>set (od_leases db). \<not> (bl_org l = bc_org c \<and> bl_connection l = bc_id c \<and> bl_revoked l = None))"

definition parent_version :: "branch_connection \<Rightarrow> version_row \<Rightarrow> bool" where
  "parent_version c v \<longleftrightarrow> vr_org v = bc_org c \<and> vr_connection v = bc_id c \<and> vr_branch v = ''main'' \<and> vr_revision v = bc_content_revision c"

definition target_resource :: "string \<Rightarrow> string \<Rightarrow> operation_db \<Rightarrow> provider_resource_row option" where
  "target_resource org fp db =
     find (\<lambda>r. pv_org r = org \<and> pv_provider r = ''neon'' \<and> pv_fingerprint r = fp) (od_resources db)"

text \<open>The payload: the id of the target resource, old or fresh, the parent version, and the operation row.\<close>

definition switch_scope ::
  "int \<Rightarrow> string \<Rightarrow> string \<Rightarrow> string \<Rightarrow> execution_identity \<Rightarrow> branch_plan \<Rightarrow> switch_plan \<Rightarrow> import_projection
     \<Rightarrow> operation_db \<Rightarrow> (string \<times> string \<times> operation_row) list" where
  "switch_scope clk claim connection_claim fresh x plan w j db =
     (let target = target_resource (ma_org (xi_authority x)) (ij_fingerprint j) db
      in [((case target of None \<Rightarrow> fresh | Some r \<Rightarrow> pv_id r), vr_id v, q).
          q \<leftarrow> od_operations db, c \<leftarrow> od_connections db, v \<leftarrow> od_versions db,
          may_complete_switch clk claim x plan db q \<and> switchable_connection x connection_claim w q db c \<and> parent_version c v
          \<and> opt (\<lambda>r. pv_resource r = ij_resource j) target
          \<and> (\<forall>t\<in>set (od_connections db). \<not> (target \<noteq> None \<and> bc_org t = ma_org (xi_authority x)
               \<and> bc_resource_id t = map_option pv_id target \<and> bc_id t \<noteq> sp_connection w \<and> bc_deleted t = None))])"

definition switched_connection :: "string \<Rightarrow> switch_plan \<Rightarrow> import_projection \<Rightarrow> branch_connection \<Rightarrow> branch_connection" where
  "switched_connection target w j c =
     c\<lparr>bc_host := ij_host j, bc_port := ij_port j, bc_database := ij_database j, bc_sslmode := ij_sslmode j,
       bc_environment := Some (connection_environment_label (st_environment w)), bc_resource_id := Some target,
       bc_resource := ij_resource j, bc_content_revision := bc_content_revision c + 1, bc_pending := None, bc_claim := None\<rparr>"

definition switch_result :: "switch_plan \<Rightarrow> int \<Rightarrow> redacted_result" where
  "switch_result w now =
     \<lparr>rr_status = ReadyObserved, rr_branch = Some (st_branch w), rr_operation = None, rr_operation_status = None,
      rr_endpoint = Some (st_endpoint w), rr_database_count = Some 1, rr_database_fingerprint = Some (st_database_fingerprint w),
      rr_retired_roles = None, rr_fence = None, rr_access = Some AccessReady, rr_failure = None, rr_observed = now,
      rr_resource_fingerprint = Some (st_resource_fingerprint w), rr_bootstrap = None\<rparr>"

definition switched_row :: "switch_plan \<Rightarrow> int \<Rightarrow> operation_row \<Rightarrow> operation_row" where
  "switched_row w now q =
     q\<lparr>op_state := Succeeded, op_resource := Some (st_branch w), op_result := Some (switch_result w now), op_failure := None,
       op_reconcile_after := None, op_completed_at := Some now, op_updated_at := now\<rparr>"

definition upsert_resource :: "provider_resource_row \<Rightarrow> operation_db \<Rightarrow> operation_db" where
  "upsert_resource r db =
     (let same = (\<lambda>s. pv_org s = pv_org r \<and> pv_provider s = pv_provider r \<and> pv_fingerprint s = pv_fingerprint r)
      in if \<exists>s\<in>set (od_resources db). same s
         then db\<lparr>od_resources := map (\<lambda>s. if same s then s\<lparr>pv_resource := pv_resource r, pv_metadata := pv_metadata r,
                  pv_capabilities := pv_capabilities r\<rparr> else s) (od_resources db)\<rparr>
         else db\<lparr>od_resources := od_resources db @ [r]\<rparr>)"

definition switch_payload :: "switch_plan \<Rightarrow> import_projection \<Rightarrow> (string \<times> json) list" where
  "switch_payload w j =
     [(''name'', JStr (sp_connection_name w)), (''engine'', JStr ''postgres''), (''provider'', JStr ''neon''), (''driverId'', JNull),
      (''host'', JStr (ij_host j)), (''port'', json_nat (ij_port j)), (''database'', JStr (ij_database j)),
      (''sslmode'', JStr (ij_sslmode j)), (''readonlyDefault'', JBool (sp_readonly_default w)),
      (''allowWrites'', JBool (sp_allow_writes w)), (''env'', JStr (connection_environment_label (st_environment w))),
      (''schemaGroup'', json_opt (sp_schema_group w)), (''deleted'', JBool False)]"

definition insert_version :: "version_row \<Rightarrow> operation_db \<Rightarrow> operation_db option" where
  "insert_version v db =
     (if \<exists>u\<in>set (od_versions db). vr_id u = vr_id v \<or> vr_org u = vr_org v \<and> vr_connection u = vr_connection v
          \<and> vr_branch u = vr_branch v \<and> vr_revision u = vr_revision v then None
      else Some (db\<lparr>od_versions := od_versions db @ [v]\<rparr>))"

definition switch_statements ::
  "string \<Rightarrow> string \<Rightarrow> string \<Rightarrow> string \<Rightarrow> execution_identity \<Rightarrow> switch_plan \<Rightarrow> import_projection \<Rightarrow> int
     \<Rightarrow> (string \<times> string \<times> operation_row, operation_db, branch_connection) statement list" where
  "switch_statements connection_aid operation_aid version claim x w j now =
     [guarded (\<lambda>(target, parent, c). upsert_resource \<lparr>pv_id = target, pv_org = ma_org (xi_authority x), pv_provider = ''neon'',
        pv_fingerprint = ij_fingerprint j, pv_resource = ij_resource j, pv_metadata = ij_metadata j, pv_capabilities = ij_capabilities j\<rparr>),
      guarded (\<lambda>(target, parent, c) db. db\<lparr>od_connections :=
        map (\<lambda>b. if bc_id b = sp_connection w then switched_connection target w j b else b) (od_connections db)\<rparr>),
      scoped (\<lambda>(target, parent, c) db. map_option (\<lambda>db'. (db', [])) (insert_version
        \<lparr>vr_id = version, vr_org = ma_org (xi_authority x), vr_connection = sp_connection w, vr_revision = sp_content_revision w + 1,
         vr_base = Some (sp_content_revision w), vr_parent = Some parent, vr_branch = ''main'', vr_operation = ''update'',
         vr_payload = switch_payload w j, vr_user = ma_user (xi_authority x)\<rparr> db)),
      scoped (\<lambda>(target, parent, c) db. map_option (\<lambda>db'. (db', [])) (set_operations
        (map (\<lambda>q. if op_id q = xi_operation x then switched_row w now q else q) (od_operations db)) db)),
      scoped (\<lambda>(target, parent, c) db. map_option (\<lambda>db'. (db', [])) (insert_audit
        \<lparr>ad_id = connection_aid, ad_org = ma_org (xi_authority x), ad_actor = ma_user (xi_authority x),
         ad_action = ''connection.provider_target.switch'', ad_resource = sp_connection w,
         ad_summary = [(''provider'', JStr ''neon''), (''sourceBranchId'', JStr (sp_branch w)), (''targetBranchId'', JStr (st_branch w)),
           (''contentRevision'', json_nat (sp_content_revision w + 1)), (''authorityRevision'', json_nat (sp_authority_revision w + 1)),
           (''activeLeaseCount'', json_nat (si_active_leases w))],
         ad_request = claim\<rparr> db)),
      scoped (\<lambda>(target, parent, c) db. map_option (\<lambda>db'. (db', [])) (insert_audit
        \<lparr>ad_id = operation_aid, ad_org = ma_org (xi_authority x), ad_actor = ma_user (xi_authority x),
         ad_action = ''provider.operation.succeeded'', ad_resource = xi_operation x,
         ad_summary = summary_head BranchSwitch @ [(''connectionId'', JStr (sp_connection w)), (''sourceBranchId'', JStr (sp_branch w)),
           (''targetBranchId'', JStr (st_branch w)), (''resourceFingerprint'', JStr (st_resource_fingerprint w))] @ summary_tail c,
         ad_request = claim\<rparr> db)),
      scoped (\<lambda>_ db. Some (db, [b \<leftarrow> od_connections db. bc_id b = sp_connection w]))]"

record switch_record =
  sw_operation :: string
  sw_connection :: string
  sw_content_revision :: nat
  sw_authority_revision :: nat
  sw_branch :: string

text \<open>\<open>fresh\<close> and \<open>version\<close> are the fresh ids of the target resource and of the new version.\<close>

definition complete_branch_switch ::
  "crypto \<Rightarrow> (neon_resource \<Rightarrow> string) \<Rightarrow> int \<Rightarrow> int \<Rightarrow> string \<Rightarrow> string \<Rightarrow> string \<Rightarrow> string \<Rightarrow> execution_identity \<Rightarrow> branch_plan
     \<Rightarrow> import_projection \<Rightarrow> operation_db \<Rightarrow> (unit + switch_record option) \<times> operation_db" where
  "complete_branch_switch cx fingerprint clk now claim connection_claim fresh version x plan j db =
     (case bp_body plan of
        SwitchPlan w \<Rightarrow>
          if \<not> valid_switch cx fingerprint x claim connection_claim plan w j then (Inl (), db)
          else (case (audit_event_id cx ''connection:neon-branch-switch'' (xi_operation x),
                      audit_event_id cx ''provider-operation:switch-complete'' claim) of
                  (Some ca, Some oa) \<Rightarrow>
                    (case atomic_d1 (switch_scope clk claim connection_claim fresh x plan w j)
                            (switch_statements ca oa version claim x w j now) db of
                       Inl e \<Rightarrow> (Inl e, db)
                     | Inr ((_, rows), db') \<Rightarrow>
                         (Inr (case first_row (rows ! 6) of
                            None \<Rightarrow> None
                          | Some b \<Rightarrow>
                              if bc_id b \<noteq> sp_connection w \<or> bc_content_revision b \<noteq> sp_content_revision w + 1
                                 \<or> bc_revision b \<noteq> sp_authority_revision w + 1 then None
                              else Some \<lparr>sw_operation = xi_operation x, sw_connection = bc_id b,
                                     sw_content_revision = bc_content_revision b, sw_authority_revision = bc_revision b,
                                     sw_branch = st_branch w\<rparr>), db'))
                | _ \<Rightarrow> (Inl (), db))
      | _ \<Rightarrow> (Inl (), db))"

section \<open>Runs\<close>

datatype operation_event =
    PlanOperation int plan_request
  | DecideOperation int int string execution_identity bool
  | CancelExpired int int execution_identity
  | ClaimOperation int int string execution_identity
  | StartOperation int int string execution_identity
  | ReconcileOperation int int string execution_identity reconciliation
  | BootstrapOperation int int execution_identity bootstrap_request
  | SwitchOperation int int string string string string execution_identity branch_plan import_projection
  | OtherTables operation_db

text \<open>\<open>OtherTables d\<close>: other code changes everything but the operations and their approvals.\<close>

definition other_tables :: "operation_db \<Rightarrow> operation_db \<Rightarrow> operation_db" where
  "other_tables d db = d\<lparr>od_operations := od_operations db, od_approvals := od_approvals db\<rparr>"

fun operation_step :: "crypto \<Rightarrow> (neon_resource \<Rightarrow> string) \<Rightarrow> operation_db \<Rightarrow> operation_event \<Rightarrow> operation_db" where
  "operation_step cx fp db (PlanOperation clk r) = snd (record_operation_plan cx clk r db)"
| "operation_step cx fp db (DecideOperation clk now aid x approved) = snd (decide_provider_operation cx clk now aid x approved db)"
| "operation_step cx fp db (CancelExpired clk now x) = snd (cancel_expired_operation cx clk now x db)"
| "operation_step cx fp db (ClaimOperation clk now claim x) = snd (claim_provider_operation cx clk now claim x db)"
| "operation_step cx fp db (StartOperation clk now claim x) = snd (mark_remote_started cx clk now claim x db)"
| "operation_step cx fp db (ReconcileOperation clk now claim x r) = snd (apply_reconciliation cx clk now claim x r db)"
| "operation_step cx fp db (BootstrapOperation clk now x b) = snd (complete_bootstrap cx clk now x b db)"
| "operation_step cx fp db (SwitchOperation clk now claim cc fresh version x plan j) =
     snd (complete_branch_switch cx fp clk now claim cc fresh version x plan j db)"
| "operation_step cx fp db (OtherTables d) = other_tables d db"

text \<open>The operations whose provider call a run begins: the calls of \<open>mark_remote_started\<close> that answer \<open>startedNow\<close>.\<close>

definition started_by :: "crypto \<Rightarrow> operation_db \<Rightarrow> operation_event \<Rightarrow> string list" where
  "started_by cx db e =
     (case e of
        StartOperation clk now claim x \<Rightarrow>
          (case fst (mark_remote_started cx clk now claim x db) of
             Inr (Some r) \<Rightarrow> if ss_now r then [ss_id r] else []
           | _ \<Rightarrow> [])
      | _ \<Rightarrow> [])"

fun remote_starts :: "crypto \<Rightarrow> (neon_resource \<Rightarrow> string) \<Rightarrow> operation_db \<Rightarrow> operation_event list \<Rightarrow> string list" where
  "remote_starts cx fp db [] = []"
| "remote_starts cx fp db (e # es) = started_by cx db e @ remote_starts cx fp (operation_step cx fp db e) es"

end
