(* ===== verification/OperationSteps.thy ===== *)
theory OperationSteps
  imports ProviderOperations
begin

text \<open>
  Every step of the provider operations is a step of an abstract machine on the operation rows: the states advance, the
  identity of a row, its first claim and its first start stay, and a row past its approval has one its policy allows.
\<close>

section \<open>The abstract machine\<close>

inductive advances :: "operation_state \<Rightarrow> operation_state \<Rightarrow> bool" where
  stay: "advances s s"
| approve: "advances AwaitingApproval Approved"
| reject: "advances AwaitingApproval Cancelled"
| claim: "advances Approved Claimed"
| expire: "s \<in> {Approved, Claimed} \<Longrightarrow> advances s Cancelled"
| start: "advances Claimed RemoteStarted"
| observe: "s \<in> {RemoteStarted, Reconciling} \<Longrightarrow> t \<in> {Reconciling, Succeeded, Failed, NeedsRepair} \<Longrightarrow> advances s t"

code_pred advances .

inductive_simps advances_from:
  "advances AwaitingApproval t" "advances Approved t" "advances Claimed t" "advances RemoteStarted t" "advances Reconciling t"
  "advances Succeeded t" "advances Failed t" "advances NeedsRepair t" "advances Cancelled t"

text \<open>Whether the provider call may already have been made.\<close>

fun launched :: "operation_state \<Rightarrow> bool" where
  "launched RemoteStarted = True" | "launched Reconciling = True" | "launched Succeeded = True" | "launched Failed = True"
| "launched NeedsRepair = True" | "launched _ = False"

lemma launched_final: "advances s t \<Longrightarrow> launched s \<Longrightarrow> launched t"
  by (cases rule: advances.cases) auto

lemma launch_from_claimed: "advances s t \<Longrightarrow> launched t \<Longrightarrow> \<not> launched s \<Longrightarrow> s = Claimed \<and> t = RemoteStarted"
  by (cases rule: advances.cases) auto

text \<open>What a step may do to one row: advance the state, keep the identity and the first claim and start.\<close>

definition same_plan :: "operation_row \<Rightarrow> operation_row \<Rightarrow> bool" where
  "same_plan q p \<longleftrightarrow>
     op_id p = op_id q \<and> op_org p = op_org q \<and> op_integration p = op_integration q \<and> op_generation p = op_generation q
     \<and> op_kind p = op_kind q \<and> op_key p = op_key q \<and> op_plan_hash p = op_plan_hash q \<and> op_plan_expires p = op_plan_expires q
     \<and> op_risk p = op_risk q \<and> op_policy p = op_policy q \<and> op_member p = op_member q \<and> op_user p = op_user q
     \<and> op_plan p = op_plan q \<and> op_marker p = op_marker q"

definition row_step :: "operation_row \<Rightarrow> operation_row \<Rightarrow> bool" where
  "row_step q p \<longleftrightarrow>
     same_plan q p \<and> advances (op_state q) (op_state p)
     \<and> (op_claim q \<noteq> None \<longrightarrow> op_claim p = op_claim q) \<and> (op_started_at q \<noteq> None \<longrightarrow> op_started_at p = op_started_at q)"

lemma row_step_refl: "row_step q q"
  by (simp add: row_step_def same_plan_def stay)

lemma same_plan_approved: "same_plan q p \<Longrightarrow> approved_by p a = approved_by q a"
  by (simp add: same_plan_def approved_by_def policy_allows_def)

section \<open>What a batch does to the rows\<close>

definition no_scope_no_effect :: "('p, 'db, 'r) statement \<Rightarrow> bool" where
  "no_scope_no_effect s \<longleftrightarrow> (\<forall>db. s None db = Some (db, []))"

lemma candidate_statements_guarded [simp]:
  "update_candidate f None db = Some (db, [])" "update_from_candidate g None db = Some (db, [])"
  "audit_updated w a None db = Some (db, [])" "select_updated None db = Some (db, [])"
  by (simp_all add: update_candidate_def update_from_candidate_def audit_updated_def select_updated_def)

definition keeps_rows :: "candidate_statement \<Rightarrow> bool" where
  "keeps_rows s \<longleftrightarrow> (\<forall>c db db' rows. s (Some c) db = Some (db', rows) \<longrightarrow>
     od_operations db' = od_operations db \<and> od_approvals db' = od_approvals db)"

lemma keeps_rows_audit [simp]: "keeps_rows (audit_updated w a)"
  by (auto simp: keeps_rows_def audit_updated_def scoped_def upsert_audit_def split: option.splits if_splits)

lemma keeps_rows_select [simp]: "keeps_rows select_updated"
  by (auto simp: keeps_rows_def select_updated_def scoped_def)

lemma run_keeps_rows:
  "run_statements (Some c) ss db = Some (db', rows) \<Longrightarrow> \<forall>s\<in>set ss. keeps_rows s
    \<Longrightarrow> od_operations db' = od_operations db \<and> od_approvals db' = od_approvals db"
proof (induction ss arbitrary: db rows)
  case (Cons s ss)
  from Cons.prems(1) obtain db1 r1 rs where s: "s (Some c) db = Some (db1, r1)" "run_statements (Some c) ss db1 = Some (db', rs)"
    by (auto simp: run_statement split: option.splits)
  from Cons.prems(2) s(1) have "od_operations db1 = od_operations db \<and> od_approvals db1 = od_approvals db"
    unfolding keeps_rows_def by (metis list.set_intros(1))
  with Cons.IH [OF s(2)] Cons.prems(2) show ?case by simp
qed simp

definition update_rows :: "operation_row \<Rightarrow> (operation_row \<Rightarrow> operation_row) \<Rightarrow> operation_row list \<Rightarrow> operation_row list" where
  "update_rows c f = map (\<lambda>q. if op_id q = op_id c \<and> op_org q = op_org c \<and> op_state q = op_state c then f q else q)"

lemma update_operation_eq:
  "update_operation c f db = (if \<forall>q\<in>set (update_rows c f (od_operations db)). operation_check q
     then Some (db\<lparr>od_operations := update_rows c f (od_operations db)\<rparr>) else None)"
  by (simp add: update_operation_def set_operations_def update_rows_def)

definition execution_batch :: "(operation_row \<Rightarrow> operation_row \<Rightarrow> operation_row) \<Rightarrow> candidate_statement list \<Rightarrow> bool" where
  "execution_batch f ss \<longleftrightarrow> (\<exists>audits. ss = update_from_candidate f # audits @ [select_updated] \<and> length audits < 900
     \<and> (\<forall>s\<in>set audits. keeps_rows s \<and> no_scope_no_effect s))"

lemma no_scope_no_effect_audit [simp]: "no_scope_no_effect (audit_updated w a)"
  by (simp add: no_scope_no_effect_def)

lemma update_candidate_eq: "update_candidate f = update_from_candidate (\<lambda>_. f)"
  by (simp add: update_candidate_def update_from_candidate_def)

lemma execution_batchI:
  "ss = [update_from_candidate f, audit_updated w a, select_updated] \<Longrightarrow> execution_batch f ss"
  "ss = [update_from_candidate f, audit_updated w a, audit_updated v b, select_updated] \<Longrightarrow> execution_batch f ss"
  unfolding execution_batch_def
  by (rule exI [of _ "[audit_updated w a]"]; simp) (rule exI [of _ "[audit_updated w a, audit_updated v b]"]; simp)

lemma execution_batches:
  "execution_batch (\<lambda>_. cancelled_row now) (cancel_expired_statements aid x now)"
  "execution_batch (claimed_row i now) (claim_statements aid i x now)"
  "execution_batch (started_row clk now) (start_statements clk aid x now)"
  "execution_batch (\<lambda>_. reconciled_row now r) (reconcile_statements raid caid i x r now)"
  unfolding cancel_expired_statements_def claim_statements_def start_statements_def reconcile_statements_def update_candidate_eq
  by (rule execution_batchI(1), rule refl)+ (rule execution_batchI(2), rule refl)

text \<open>An execution batch: nothing happens, or the candidate row is rewritten and the batch answers with it.\<close>

lemma operation_batch_cases:
  assumes batch: "operation_batch cand ss db = (res, db')" and ss: "execution_batch f ss"
  obtains "db' = db" "res = Inl () \<or> res = Inr None"
    | c where "filter cand (od_operations db) = [c]" "od_operations db' = update_rows c (f c) (od_operations db)"
      "od_approvals db' = od_approvals db" "\<forall>q\<in>set (od_operations db'). operation_check q"
      "res = Inr (map_option (\<lambda>q. (q, op_state c)) (updated_row c db'))"
proof -
  from ss obtain audits where ss: "ss = update_from_candidate f # audits @ [select_updated]"
      and audits: "\<forall>s\<in>set audits. keeps_rows s \<and> no_scope_no_effect s" "length audits < 900"
    by (auto simp: execution_batch_def)
  note batch = batch [unfolded ss]
  let ?ss = "update_from_candidate f # audits @ [select_updated]"
  have none: "\<forall>s\<in>set ?ss. \<forall>db. s None db = Some (db, [])" using audits by (auto simp: no_scope_no_effect_def)
  show thesis
  proof (cases "atomic_d1 (\<lambda>db. filter cand (od_operations db)) ?ss db")
    case (Inl e)
    with batch that(1) show thesis by (auto simp: operation_batch_def)
  next
    case (Inr r)
    obtain m rows db1 where r: "r = ((m, rows), db1)" by (metis prod.exhaust)
    from Inr [unfolded r] none show thesis
    proof (cases rule: atomic_cases)
      case 1
      moreover have "last rows = []" using 1(4) by simp
      ultimately show thesis using batch Inr r that(1) by (auto simp: operation_batch_def first_row_def)
    next
      case (2 c)
      have res: "res = Inr (first_row (last rows))" "db' = db1" using batch Inr r by (auto simp: operation_batch_def)
      from 2(3) obtain rs where upd: "\<forall>q\<in>set (update_rows c (f c) (od_operations db)). operation_check q"
          and rest: "run_statements (Some c) (audits @ [select_updated]) (db\<lparr>od_operations := update_rows c (f c) (od_operations db)\<rparr>) = Some (db1, rs)"
          and rows: "rows = [] # rs"
        by (auto simp: update_from_candidate_def update_operation_eq split: if_splits option.splits)
      have kept: "od_operations db1 = update_rows c (f c) (od_operations db) \<and> od_approvals db1 = od_approvals db"
        using run_keeps_rows [OF rest] audits(1) by simp
      obtain db2 where "select_updated (Some c) db2 = Some (db1, last rs)" using run_last [OF rest] by blast
      then have "last rs = (case updated_row c db1 of None \<Rightarrow> [] | Some q \<Rightarrow> [(q, op_state c)])"
        by (auto simp: select_updated_def scoped_def)
      moreover have "rs \<noteq> []" using run_length [OF rest] by auto
      ultimately have "first_row (last rows) = map_option (\<lambda>q. (q, op_state c)) (updated_row c db')"
        using rows res(2) by (simp add: first_row_def split: option.split)
      with 2(2) kept upd res show thesis by (intro that(2) [of c]) simp_all
    qed
  qed
qed

section \<open>Every step is a step of the abstract machine\<close>

text \<open>A row past the approval has an approval its policy allows.\<close>

definition authorised :: "approval_row list \<Rightarrow> operation_row \<Rightarrow> bool" where
  "authorised as q \<longleftrightarrow> op_state q \<in> {AwaitingApproval, Cancelled} \<or> (\<exists>a\<in>set as. approved_by q a)"

definition operations_inv :: "operation_db \<Rightarrow> bool" where
  "operations_inv db \<longleftrightarrow> distinct (map op_id (od_operations db))
     \<and> (\<forall>q\<in>set (od_operations db). operation_check q \<and> authorised (od_approvals db) q)"

lemma operations_invD:
  assumes "operations_inv db"
  shows "distinct (map op_id (od_operations db))" "\<And>q. q \<in> set (od_operations db) \<Longrightarrow> operation_check q"
    "\<And>q. q \<in> set (od_operations db) \<Longrightarrow> authorised (od_approvals db) q"
  using assms by (simp_all add: operations_inv_def)

text \<open>Every row takes a step of the machine; a new row waits for its approval, unclaimed.\<close>

definition new_operation :: "operation_row \<Rightarrow> bool" where
  "new_operation q \<longleftrightarrow> op_state q = AwaitingApproval \<and> op_claim q = None \<and> op_started_at q = None"

definition rows_advance :: "operation_db \<Rightarrow> operation_db \<Rightarrow> bool" where
  "rows_advance db db' \<longleftrightarrow> (\<exists>ps new. od_operations db' = ps @ new \<and> list_all2 row_step (od_operations db) ps \<and> list_all new_operation new)"

lemma rows_advanceI: "list_all2 row_step (od_operations db) (od_operations db') \<Longrightarrow> rows_advance db db'"
  unfolding rows_advance_def by (rule exI [of _ "od_operations db'"], rule exI [of _ "[]"]) simp

definition good_step :: "operation_db \<Rightarrow> operation_db \<Rightarrow> bool" where
  "good_step db db' \<longleftrightarrow> operations_inv db' \<and> rows_advance db db'"

lemma good_step_same:
  assumes "operations_inv db" "od_operations db' = od_operations db" "od_approvals db' = od_approvals db"
  shows "good_step db db'"
proof -
  have "list_all2 row_step (od_operations db) (od_operations db)" using row_step_refl by (simp add: list_all2_refl)
  with assms show ?thesis by (simp add: good_step_def operations_inv_def rows_advanceI)
qed

text \<open>One row is rewritten; the approvals grow at most.\<close>

lemma good_step_row:
  assumes inv: "operations_inv db" and c: "c \<in> set (od_operations db)"
    and step: "row_step c (f c)" and auth: "authorised (od_approvals db') (f c)"
    and rows: "od_operations db' = map (\<lambda>q. if q = c then f q else q) (od_operations db)"
    and more: "set (od_approvals db) \<subseteq> set (od_approvals db')"
    and ok: "\<forall>q\<in>set (od_operations db'). operation_check q"
  shows "good_step db db'"
proof -
  note inv = operations_invD [OF inv]
  have "op_id (f c) = op_id c" using step by (simp add: row_step_def same_plan_def)
  then have ids: "map op_id (od_operations db') = map op_id (od_operations db)" by (simp add: rows)
  have "authorised (od_approvals db') q" if "q \<in> set (od_operations db)" for q
    using inv(3) [OF that] more by (auto simp: authorised_def)
  with auth have "\<forall>q\<in>set (od_operations db'). authorised (od_approvals db') q" by (auto simp: rows)
  with inv(1) ok have "operations_inv db'" unfolding operations_inv_def ids by blast
  moreover have "list_all2 row_step (od_operations db) (od_operations db')"
    using step row_step_refl by (simp add: rows list_all2_conv_all_nth)
  then have "rows_advance db db'" by (rule rows_advanceI)
  ultimately show ?thesis by (simp add: good_step_def)
qed

lemma update_rows_single:
  assumes "distinct (map op_id qs)" "c \<in> set qs"
  shows "update_rows c f qs = map (\<lambda>q. if q = c then f q else q) qs"
  using distinct_key_unique [OF assms(1) _ assms(2)] by (auto simp: update_rows_def)

lemma by_id_single:
  assumes "distinct (map op_id qs)" "c \<in> set qs"
  shows "map (\<lambda>q. if op_id q = op_id c then f q else q) qs = map (\<lambda>q. if q = c then f q else q) qs"
  using distinct_key_unique [OF assms(1) _ assms(2)] by auto

text \<open>An execution batch whose row function advances the candidate is a good step.\<close>

lemma operation_batch_step:
  assumes inv: "operations_inv db"
    and batch: "operation_batch cand ss db = (res, db')" and ss: "execution_batch f ss"
    and adv: "\<And>c. c \<in> set (od_operations db) \<Longrightarrow> cand c \<Longrightarrow> row_step c (f c c)
      \<and> (op_state (f c c) \<in> {AwaitingApproval, Cancelled} \<or> op_state c \<notin> {AwaitingApproval, Cancelled})"
  shows "good_step db db'"
  using batch ss
proof (cases rule: operation_batch_cases)
  case 1
  with inv show ?thesis by (simp add: good_step_same)
next
  case (2 c)
  have c: "c \<in> set (od_operations db)" "cand c"
    using arg_cong [OF 2(1), of set] by auto
  note a = adv [OF c]
  have "authorised (od_approvals db) c" by (rule operations_invD(3) [OF inv c(1)])
  with a have "authorised (od_approvals db') (f c c)"
    by (auto simp: authorised_def 2(3) row_step_def same_plan_approved)
  with a show ?thesis
    by (intro good_step_row [OF inv c(1), where f = "f c"])
      (simp_all add: 2 update_rows_single [OF operations_invD(1) [OF inv] c(1)])
qed

lemma cancelled_row_step:
  "op_state q \<in> {Approved, Claimed} \<Longrightarrow> row_step q (cancelled_row now q)"
  by (simp add: row_step_def same_plan_def cancelled_row_def expire)

lemma cancel_expired_step:
  assumes "operations_inv db"
  shows "good_step db (snd (cancel_expired_operation cx clk now x db))"
proof (cases "audit_event_id cx ''provider-operation:cancel-expired'' (xi_operation x)")
  case (Some aid)
  obtain res db' where batch: "operation_batch (may_cancel_expired clk x db) (cancel_expired_statements aid x now) db = (res, db')"
    by (metis prod.exhaust)
  have "good_step db db'"
    by (rule operation_batch_step [OF assms batch execution_batches(1)])
      (simp add: may_cancel_expired_def cancelled_row_step, simp add: cancelled_row_def)
  with Some batch assms show ?thesis
    by (auto simp: cancel_expired_operation_def good_step_same split: sum.split)
qed (simp add: cancel_expired_operation_def good_step_same assms)

lemma claimed_row_step:
  assumes "operation_check c" "op_state c \<in> {Approved, Claimed, RemoteStarted, Reconciling}"
  shows "row_step c (claimed_row i now c c)"
  using assms row_step_refl
  by (auto simp: row_step_def same_plan_def claimed_row_def operation_check_def claim_consistent_def advances.claim)

lemma claim_step:
  assumes "operations_inv db"
  shows "good_step db (snd (claim_provider_operation cx clk now i x db))"
proof (cases "audit_event_id cx ''provider-operation:claim'' i")
  case (Some aid)
  obtain res db' where batch: "operation_batch (may_claim clk x db) (claim_statements aid i x now) db = (res, db')"
    by (metis prod.exhaust)
  have "good_step db db'"
    by (rule operation_batch_step [OF assms batch execution_batches(2)])
      (use claimed_row_step operations_invD(2) [OF assms] in \<open>auto simp: may_claim_def\<close>)
  with Some batch assms show ?thesis
    by (auto simp: claim_provider_operation_def good_step_same split: sum.split)
qed (simp add: claim_provider_operation_def good_step_same assms)

lemma started_row_step:
  assumes "operation_check c" "op_state c \<in> {Claimed, RemoteStarted, Reconciling}"
  shows "row_step c (started_row clk now c c)"
  using assms row_step_refl
  by (auto simp: row_step_def same_plan_def started_row_def operation_check_def claim_consistent_def advances.start expire)

lemma start_step:
  assumes "operations_inv db"
  shows "good_step db (snd (mark_remote_started cx clk now i x db))"
proof (cases "audit_event_id cx ''provider-operation:remote-start'' i")
  case (Some aid)
  obtain res db' where batch: "operation_batch (may_start clk i x db) (start_statements clk aid x now) db = (res, db')"
    by (metis prod.exhaust)
  have "good_step db db'"
    by (rule operation_batch_step [OF assms batch execution_batches(3)])
      (use started_row_step operations_invD(2) [OF assms] in \<open>auto simp: may_start_def\<close>)
  with Some batch assms show ?thesis
    by (auto simp: mark_remote_started_def good_step_same split: sum.split)
qed (simp add: mark_remote_started_def good_step_same assms)

lemma reconciled_row_step:
  assumes "op_state c \<in> {RemoteStarted, Reconciling} \<or> op_state c = Succeeded \<and> rc_status r = ReadyObserved"
  shows "row_step c (reconciled_row now r c)"
  using assms
  by (auto simp: row_step_def same_plan_def reconciled_row_def target_state_def intro: observe stay split: observation.split)

lemma reconcile_step:
  assumes "operations_inv db"
  shows "good_step db (snd (apply_reconciliation cx clk now i x r db))"
proof -
  have "good_step db (snd (operation_batch (may_reconcile clk i x r db) (reconcile_statements raid caid i x r now) db))" for raid caid
  proof -
    obtain res db' where batch: "operation_batch (may_reconcile clk i x r db) (reconcile_statements raid caid i x r now) db = (res, db')"
      by (metis prod.exhaust)
    have "good_step db db'"
      by (rule operation_batch_step [OF assms batch execution_batches(4)])
        (use reconciled_row_step in \<open>auto simp: may_reconcile_def\<close>)
    with batch show ?thesis by simp
  qed
  with assms show ?thesis
    by (auto simp: apply_reconciliation_def good_step_same split: option.split sum.split prod.split)
      (metis snd_conv)+
qed

text \<open>The other batches: their scope row holds an operation row, and one statement writes the rows of its id.\<close>

lemma set_operations_Some:
  "set_operations qs db = Some db' \<Longrightarrow> db' = db\<lparr>od_operations := qs\<rparr> \<and> (\<forall>q\<in>set qs. operation_check q)"
  by (simp add: set_operations_def split: if_splits)

lemma write_row_step:
  assumes inv: "operations_inv db" and c: "c \<in> set (od_operations db)" "op_id c = i"
    and set: "set_operations (map (\<lambda>q. if op_id q = i then f q else q) (od_operations db)) db1 = Some db2"
    and same: "od_operations db1 = od_operations db" "od_approvals db1 = od_approvals db"
    and after: "od_operations db' = od_operations db2" "od_approvals db' = od_approvals db2"
    and step: "row_step c (f c)" "op_state (f c) \<in> {AwaitingApproval, Cancelled} \<or> op_state c \<notin> {AwaitingApproval, Cancelled}"
  shows "good_step db db'"
proof -
  have "authorised (od_approvals db) c" by (rule operations_invD(3) [OF inv c(1)])
  with step have auth: "authorised (od_approvals db) (f c)" by (auto simp: authorised_def row_step_def same_plan_approved)
  note written = set_operations_Some [OF set]
  have rows: "od_operations db' = map (\<lambda>q. if q = c then f q else q) (od_operations db)"
    using written after(1) by_id_single [OF operations_invD(1) [OF inv] c(1), of f] c(2) by simp
  have "\<forall>q\<in>set (od_operations db'). operation_check q" using written after(1) by simp
  with written auth step(1) show ?thesis
    by (intro good_step_row [OF inv c(1) _ _ rows]) (simp_all add: after same)
qed

lemma in_filter: "filter P xs = [x] \<Longrightarrow> x \<in> set xs \<and> P x"
proof -
  assume "filter P xs = [x]"
  then have "x \<in> set (filter P xs)" by simp
  then show ?thesis by simp
qed

lemma bootstrap_step:
  assumes inv: "operations_inv db"
  shows "good_step db (snd (complete_bootstrap cx clk now x b db))"
proof (cases "audit_event_id cx ''provider-operation:bootstrap'' (xi_operation x)")
  case (Some aid)
  let ?scope = "\<lambda>db0. filter (may_bootstrap clk x b db) (od_operations db0)"
  have "good_step db (snd (operation_batch (may_bootstrap clk x b db) (bootstrap_statements aid x b now) db))"
  proof (cases "atomic_d1 ?scope (bootstrap_statements aid x b now) db")
    case (Inr r)
    obtain m rows db' where r: "r = ((m, rows), db')" by (metis prod.exhaust)
    have none: "\<forall>s\<in>set (bootstrap_statements aid x b now). \<forall>db. s None db = Some (db, [])"
      by (auto simp: bootstrap_statements_def)
    from Inr [unfolded r] none have "good_step db db'"
    proof (cases rule: atomic_cases)
      case (2 c)
      from in_filter [OF 2(2)] have c: "c \<in> set (od_operations db)" "op_id c = xi_operation x" "op_state c = Succeeded"
        by (simp_all add: may_bootstrap_def is_operation_def)
      show ?thesis
      proof (cases "needs_bootstrap c")
        case True
        with 2(3) obtain a db1 where audit: "upsert_audit a db = Some db1"
          and set: "set_operations (map (\<lambda>q. if op_id q = xi_operation x then bootstrapped_row now b q else q) (od_operations db1)) db1 = Some db'"
          by (auto simp: bootstrap_statements_def select_updated_def split: option.splits)
        have same: "od_operations db1 = od_operations db" "od_approvals db1 = od_approvals db"
          using audit by (auto simp: upsert_audit_def split: if_splits)
        show ?thesis
          by (rule write_row_step [OF inv c(1,2) set [unfolded same] same])
            (simp_all add: bootstrapped_row_def row_step_def same_plan_def stay c(3))
      next
        case False
        with 2(3) have "db' = db" by (auto simp: bootstrap_statements_def select_updated_def split: option.splits)
        with inv show ?thesis by (simp add: good_step_same)
      qed
    qed (use inv in \<open>simp_all add: good_step_same\<close>)
    with Inr r show ?thesis by (simp add: operation_batch_def)
  qed (use inv in \<open>simp add: operation_batch_def good_step_same\<close>)
  with Some inv show ?thesis
    by (auto simp: complete_bootstrap_def good_step_same split: sum.split prod.split)
qed (simp add: complete_bootstrap_def good_step_same inv)

lemma insert_audit_rows: "insert_audit a db = Some db' \<Longrightarrow> od_operations db' = od_operations db \<and> od_approvals db' = od_approvals db"
  by (auto simp: insert_audit_def split: if_splits)

lemma insert_version_rows:
  "insert_version v db = Some db' \<Longrightarrow> od_operations db' = od_operations db \<and> od_approvals db' = od_approvals db"
  by (auto simp: insert_version_def split: if_splits)

lemma upsert_resource_rows [simp]:
  "od_operations (upsert_resource r db) = od_operations db" "od_approvals (upsert_resource r db) = od_approvals db"
  by (simp_all add: upsert_resource_def Let_def)

lemma switch_row_step: "op_state c \<in> {RemoteStarted, Reconciling} \<Longrightarrow> row_step c (switched_row w now c)"
  by (auto simp: row_step_def same_plan_def switched_row_def intro: observe)

lemma switch_batch_step:
  assumes inv: "operations_inv db"
    and batch: "atomic_d1 (switch_scope clk claim cc fresh x plan w j) (switch_statements ca oa version claim x w j now) db = Inr ((m, rows), db')"
  shows "good_step db db'"
proof -
  have none: "\<forall>s\<in>set (switch_statements ca oa version claim x w j now). \<forall>db. s None db = Some (db, [])"
    by (auto simp: switch_statements_def)
  from batch none show ?thesis
  proof (cases rule: atomic_cases)
    case (2 p)
    obtain target parent c where p: "p = (target, parent, c)" by (metis prod.exhaust)
    have "(target, parent, c) \<in> set (switch_scope clk claim cc fresh x plan w j db)" using 2(2) p by simp
    then have c: "c \<in> set (od_operations db)" "op_id c = xi_operation x" "op_state c \<in> {RemoteStarted, Reconciling}"
      by (auto simp: switch_scope_def may_complete_switch_def is_operation_def Let_def)
    obtain v a1 a2 r db1 db2 db3 where
        steps: "insert_version v ((upsert_resource r db)\<lparr>od_connections := map (\<lambda>b. if bc_id b = sp_connection w
            then switched_connection target w j b else b) (od_connections (upsert_resource r db))\<rparr>) = Some db1"
          "insert_audit a1 db2 = Some db3" "insert_audit a2 db3 = Some db'"
        and set: "set_operations (map (\<lambda>q. if op_id q = xi_operation x then switched_row w now q else q) (od_operations db1)) db1 = Some db2"
      using 2(3) unfolding p switch_statements_def by (auto split: option.splits)
    have same: "od_operations db1 = od_operations db" "od_approvals db1 = od_approvals db"
      using insert_version_rows [OF steps(1)] by simp_all
    show ?thesis
      by (rule write_row_step [OF inv c(1,2) set [unfolded same] same])
        (use insert_audit_rows [OF steps(2)] insert_audit_rows [OF steps(3)] switch_row_step [OF c(3)] c(3) in auto)
  qed (use inv in \<open>simp_all add: good_step_same\<close>)
qed


lemma switch_step:
  assumes inv: "operations_inv db"
  shows "good_step db (snd (complete_branch_switch cx fp clk now claim cc fresh version x plan j db))"
  using inv
  by (auto simp: complete_branch_switch_def good_step_same intro: switch_batch_step [OF inv]
      split: plan_body.split option.split sum.split prod.split)

lemma decided_row_step: "op_state c = AwaitingApproval \<Longrightarrow> row_step c (decided_row approved now c)"
  by (cases approved) (simp_all add: row_step_def same_plan_def decided_row_def approve reject)

lemma decided_approval:
  assumes "may_decide clk x True c db" "ap_org a = op_org c" "ap_operation a = op_id c" "same_decision x True a"
  shows "approved_by c a"
  using assms by (auto simp: may_decide_def is_operation_def same_decision_def approved_by_def)

lemma decide_batch_step:
  assumes inv: "operations_inv db"
    and batch: "atomic_d1 (decide_scope clk x approved) (decide_statements aid approval_id x approved now) db = Inr ((m, rows), db')"
  shows "good_step db db'"
proof -
  have none: "\<forall>s\<in>set (decide_statements aid approval_id x approved now). \<forall>db. s None db = Some (db, [])"
    by (auto simp: decide_statements_def)
  from batch none show ?thesis
  proof (cases rule: atomic_cases)
    case (2 p)
    obtain c created where p: "p = (c, created)" by (metis prod.exhaust)
    have "(c, created) \<in> set (decide_scope clk x approved db)" using 2(2) p by simp
    then have c: "c \<in> set (od_operations db)" "may_decide clk x approved c db" "created = (approvals_of c db = [])"
      by (auto simp: decide_scope_def)
    then have idc: "op_id c = xi_operation x" "op_org c = ma_org (xi_authority x)" "op_plan_hash c = xi_plan_hash x"
      by (auto simp: may_decide_def is_operation_def)
    let ?a = "\<lparr>ap_id = approval_id, ap_org = ma_org (xi_authority x), ap_operation = xi_operation x, ap_plan_hash = xi_plan_hash x,
        ap_approved = approved, ap_member = ma_member (xi_authority x), ap_user = ma_user (xi_authority x),
        ap_session = ma_session (xi_authority x), ap_role = ma_role (xi_authority x)\<rparr>"
    let ?f = "\<lambda>q. if op_state q = AwaitingApproval then decided_row approved now q else q"
    obtain db1 db2 where
        one: "if created then insert_approval ?a db = Some db1 else db1 = db"
        and set: "set_operations (map (\<lambda>q. if op_id q = xi_operation x \<and> op_state q = AwaitingApproval
          then decided_row approved now q else q) (od_operations db1)) db1 = Some db2"
        and after: "od_operations db' = od_operations db2" "od_approvals db' = od_approvals db2"
      using 2(3) unfolding p decide_statements_def
      by (auto split: option.splits if_splits dest!: insert_audit_rows)
    have db1: "od_operations db1 = od_operations db" "set (od_approvals db) \<subseteq> set (od_approvals db1)"
      "created \<longrightarrow> ?a \<in> set (od_approvals db1)"
      using one by (auto simp: insert_approval_def split: if_splits)
    note written = set_operations_Some [OF set]
    have rows: "od_operations db' = map (\<lambda>q. if q = c then ?f q else q) (od_operations db)"
      using written after(1) db1(1) by_id_single [OF operations_invD(1) [OF inv] c(1), of ?f] idc(1)
      by (simp add: if_distrib cong: if_cong) (auto intro: map_cong)
    have step: "row_step c (?f c)" using decided_row_step row_step_refl by simp
    have "authorised (od_approvals db') (?f c)"
    proof (cases "op_state c = AwaitingApproval \<and> approved")
      case True
      have "\<exists>a\<in>set (od_approvals db1). approved_by c a"
      proof (cases created)
        case True
        have "approved_by c ?a"
          by (rule decided_approval [of clk x c db]) (use c(2) idc \<open>op_state c = AwaitingApproval \<and> approved\<close> in \<open>simp_all add: same_decision_def\<close>)
        with db1(3) True show ?thesis by blast
      next
        case False
        then obtain a where a: "a \<in> set (approvals_of c db)" using c(3) by (cases "approvals_of c db") auto
        with c(2) have "same_decision x approved a" by (simp add: may_decide_def)
        with a c(2) True have "approved_by c a" by (intro decided_approval [of clk x c db]) (auto simp: approvals_of_def)
        with a db1(2) show ?thesis by (auto simp: approvals_of_def)
      qed
      with written after step show ?thesis by (auto simp: authorised_def row_step_def same_plan_approved)
    next
      case False
      with operations_invD(3) [OF inv c(1)] written after(2) db1(2) show ?thesis
        by (auto simp: authorised_def decided_row_def)
    qed
    with written after db1 step show ?thesis
      by (intro good_step_row [OF inv c(1) _ _ rows]) simp_all
  qed (use inv in \<open>simp_all add: good_step_same\<close>)
qed

lemma decide_step:
  assumes inv: "operations_inv db"
  shows "good_step db (snd (decide_provider_operation cx clk now aid x approved db))"
  using inv
  by (auto simp: decide_provider_operation_def good_step_same intro: decide_batch_step [OF inv]
      split: option.split sum.split prod.split)

text \<open>A plan adds a row that waits for its approval.\<close>

lemma plan_batch_step:
  assumes inv: "operations_inv db"
    and batch: "atomic_d1 (plan_scope clk r) (plan_statements aid r) db = Inr ((m, rows), db')"
  shows "good_step db db'"
proof -
  have none: "\<forall>s\<in>set (plan_statements aid r). \<forall>db. s None db = Some (db, [])"
    by (auto simp: plan_statements_def)
  from batch none show ?thesis
  proof (cases rule: atomic_cases)
    case (2 p)
    obtain oid created where p: "p = (oid, created)" by (metis prod.exhaust)
    show ?thesis
    proof (cases created)
      case True
      with 2(3) p obtain db1 where "insert_operation (planned_row r) db = Some db1" "insert_audit (plan_audit aid r) db1 = Some db'"
        by (auto simp: plan_statements_def split: option.splits)
      note steps = this(1) insert_audit_rows [OF this(2)]
      have fresh: "op_id (planned_row r) \<notin> op_id ` set (od_operations db)"
        using steps(1) by (auto simp: insert_operation_def split: if_splits)
      have rows: "od_operations db' = od_operations db @ [planned_row r]" "od_approvals db' = od_approvals db"
        and ok: "\<forall>q\<in>set (od_operations db'). operation_check q"
        using steps by (auto simp: insert_operation_def set_operations_def split: if_splits)
      have new: "new_operation (planned_row r)" by (simp add: new_operation_def planned_row_def Let_def case_prod_beta)
      with operations_invD [OF inv] fresh ok have "operations_inv db'"
        by (auto simp: operations_inv_def rows authorised_def new_operation_def)
      moreover have "list_all2 row_step (od_operations db) (od_operations db)" using row_step_refl by (simp add: list_all2_refl)
      then have "rows_advance db db'" 
        unfolding rows_advance_def rows
        by (intro exI [of _ "od_operations db"] exI [of _ "[planned_row r]"]) (simp add: new)
      ultimately show ?thesis by (simp add: good_step_def)
    next
      case False
      with 2(3) p have "db' = db" by (auto simp: plan_statements_def)
      with inv show ?thesis by (simp add: good_step_same)
    qed
  qed (use inv in \<open>simp_all add: good_step_same\<close>)
qed

lemma plan_step:
  assumes inv: "operations_inv db"
  shows "good_step db (snd (record_operation_plan cx clk r db))"
  using inv
  by (auto simp: record_operation_plan_def good_step_same intro: plan_batch_step [OF inv]
      split: option.split sum.split prod.split)

lemma operation_step_good: "operations_inv db \<Longrightarrow> good_step db (operation_step cx fp db e)"
  by (cases e) (simp_all add: plan_step decide_step cancel_expired_step claim_step start_step reconcile_step bootstrap_step
      switch_step good_step_same other_tables_def)

end
