(* ===== verification/OperationRuns.thy ===== *)
theory OperationRuns
  imports OperationSteps
begin

text \<open>
  Runs of the provider operations: the invariant holds in every reachable state, each step refines the abstract machine, a
  provider call begins at most once and only under live authority, and an approved operation can reach its provider.
\<close>

interpretation operations: invariant_machine "operation_step cx fp" operations_inv
  for cx fp
  by unfold_locales (use operation_step_good in \<open>auto simp: good_step_def\<close>)

lemma operations_run: "operations_inv db \<Longrightarrow> operations_inv (foldl (operation_step cx fp) db es)"
  by (rule operations.run_inv)

lemma no_operations: "od_operations db = [] \<Longrightarrow> operations_inv db"
  by (simp add: operations_inv_def)

lemma find_by_key: "distinct (map f xs) \<Longrightarrow> x \<in> set xs \<Longrightarrow> find (\<lambda>y. f y = f x) xs = Some x"
  by (induction xs) (auto simp: rev_image_eqI)

text \<open>What a begun provider call says about its operation.\<close>

lemma started_by_start:
  assumes "i \<in> set (started_by cx db e)" "operations_inv db"
  shows "\<exists>clk now claim x q. e = StartOperation clk now claim x \<and> started_by cx db e = [i] \<and> i = xi_operation x
     \<and> q \<in> set (od_operations db) \<and> op_id q = i \<and> op_state q = Claimed \<and> may_start clk claim x db q \<and> clk < op_plan_expires q
     \<and> started_row clk now q q \<in> set (od_operations (operation_step cx fp db e))"
proof -
  from assms(1) obtain clk now claim x where e: "e = StartOperation clk now claim x"
    by (cases e) (simp_all add: started_by_def)
  from assms(1) obtain r where res: "fst (mark_remote_started cx clk now claim x db) = Inr (Some r)" and r: "ss_now r" "i = ss_id r"
    by (cases "fst (mark_remote_started cx clk now claim x db)") (auto simp: e started_by_def split: option.splits if_splits)
  have ok: "assert_execution_identity cx x" "uuid claim"
    using res by (auto simp: mark_remote_started_def split: if_splits)
  obtain aid where aid: "audit_event_id cx ''provider-operation:remote-start'' claim = Some aid"
    using ok by (simp add: audit_event_id_def)
  obtain b db' where batch: "operation_batch (may_start clk claim x db) (start_statements clk aid x now) db = (b, db')"
    by (metis prod.exhaust)
  have after: "operation_step cx fp db e = db'" using ok aid batch by (simp add: e mark_remote_started_def split: sum.split)
  from batch execution_batches(3) show ?thesis
  proof (cases rule: operation_batch_cases)
    case 1
    with res ok aid batch show ?thesis by (auto simp: mark_remote_started_def)
  next
    case (2 c)
    from in_filter [OF 2(1)] have c: "c \<in> set (od_operations db)" "may_start clk claim x db c" by simp_all
    have rows: "od_operations db' = map (\<lambda>q. if q = c then started_row clk now c q else q) (od_operations db)"
      using 2(2) update_rows_single [OF operations_invD(1) [OF assms(2)] c(1)] by simp
    then have mem: "started_row clk now c c \<in> set (od_operations db')" using c(1) by force
    have idc: "op_id (started_row clk now c c) = op_id c" by (simp add: started_row_def)
    have "distinct (map op_id (od_operations db'))"
      using operation_step_good [OF assms(2), of cx fp e] after operations_invD(1) by (auto simp: good_step_def)
    then have "updated_row c db' = Some (started_row clk now c c)"
      using find_by_key [of op_id "od_operations db'", OF _ mem] idc by (simp add: updated_row_def)
    with 2(5) have res': "b = Inr (Some (started_row clk now c c, op_state c))" by simp
    have st: "op_state c = Claimed" "i = xi_operation x" "op_state (started_row clk now c c) = RemoteStarted"
        "op_id c = i"
      using res r idc unfolding mark_remote_started_def by (auto simp: ok aid batch res' split: if_splits)
    then have "clk < op_plan_expires c" by (simp add: started_row_def split: if_splits)
    moreover have "started_by cx db e = [i]" using res r by (simp add: e started_by_def)
    ultimately show ?thesis using c st mem after e by blast
  qed
qed


text \<open>An operation whose provider call may have been made stays such a one, so no second call begins.\<close>

definition launched_in :: "operation_db \<Rightarrow> string \<Rightarrow> bool" where
  "launched_in db i \<longleftrightarrow> (\<exists>q\<in>set (od_operations db). op_id q = i \<and> launched (op_state q))"

lemma launched_stays:
  assumes "good_step db db'" "launched_in db i"
  shows "launched_in db' i"
proof -
  from assms(1) obtain ps new where rows: "od_operations db' = ps @ new" "list_all2 row_step (od_operations db) ps"
    by (auto simp: good_step_def rows_advance_def)
  from assms(2) obtain k where k: "k < length (od_operations db)" "op_id (od_operations db ! k) = i"
      "launched (op_state (od_operations db ! k))"
    by (auto simp: launched_in_def in_set_conv_nth)
  with rows(2) have "row_step (od_operations db ! k) (ps ! k)" "k < length ps" by (simp_all add: list_all2_conv_all_nth)
  with k rows(1) show ?thesis
    unfolding launched_in_def row_step_def same_plan_def using launched_final nth_mem by fastforce
qed

lemma started_then_launched:
  assumes "i \<in> set (started_by cx db e)" "operations_inv db"
  shows "\<not> launched_in db i \<and> launched_in (operation_step cx fp db e) i \<and> started_by cx db e = [i]"
proof -
  from started_by_start [OF assms, where fp = fp] obtain clk now q where q: "started_by cx db e = [i]"
      "q \<in> set (od_operations db)" "op_id q = i" "op_state q = Claimed" "clk < op_plan_expires q"
      "started_row clk now q q \<in> set (od_operations (operation_step cx fp db e))"
    by blast
  have "\<not> launched_in db i"
  proof
    assume "launched_in db i"
    then obtain p where "p \<in> set (od_operations db)" "op_id p = op_id q" "launched (op_state p)"
      using q(3) by (auto simp: launched_in_def)
    with distinct_key_unique [OF operations_invD(1) [OF assms(2)] _ q(2)] q(4) show False by (metis launched.simps(8))
  qed
  moreover have "op_id (started_row clk now q q) = i" "launched (op_state (started_row clk now q q))"
    using q by (simp_all add: started_row_def)
  ultimately show ?thesis using q(1,6) by (auto simp: launched_in_def)
qed

lemma remote_starts_fresh:
  "operations_inv db \<Longrightarrow> distinct (remote_starts cx fp db es) \<and> (\<forall>i\<in>set (remote_starts cx fp db es). \<not> launched_in db i)"
proof (induction es arbitrary: db)
  case (Cons e es)
  let ?db = "operation_step cx fp db e"
  have good: "good_step db ?db" by (rule operation_step_good [OF Cons.prems])
  then have IH: "distinct (remote_starts cx fp ?db es)" "\<forall>i\<in>set (remote_starts cx fp ?db es). \<not> launched_in ?db i"
    using Cons.IH by (simp_all add: good_step_def)
  have later: "\<forall>i\<in>set (remote_starts cx fp ?db es). \<not> launched_in db i" using IH(2) launched_stays [OF good] by blast
  show ?case
  proof (cases "started_by cx db e")
    case (Cons i rest)
    with started_then_launched [of i cx db e fp] \<open>operations_inv db\<close> IH later show ?thesis by auto
  qed (use IH later in simp)
qed simp


section \<open>Progress\<close>

lemma filter_by_key:
  "distinct (map f xs) \<Longrightarrow> x \<in> set xs \<Longrightarrow> P x \<Longrightarrow> (\<And>y. y \<in> set xs \<Longrightarrow> P y \<Longrightarrow> f y = f x) \<Longrightarrow> filter P xs = [x]"
proof -
  assume a: "distinct (map f xs)" "x \<in> set xs" "P x" "\<And>y. y \<in> set xs \<Longrightarrow> P y \<Longrightarrow> f y = f x"
  have "filter P xs = filter (\<lambda>y. y = x) xs"
    using a(3,4) distinct_key_unique [OF a(1) _ a(2)] by (intro filter_cong) auto
  moreover have "distinct xs" using a(1) by (simp add: distinct_map)
  with a(2) have "filter (\<lambda>y. y = x) xs = [x]" by (induction xs) (auto intro!: filter_False)
  ultimately show ?thesis by simp
qed

lemma audited_batch:
  assumes inv: "operations_inv db" and c: "c \<in> set (od_operations db)" "cand c"
    and cand: "\<And>y. cand y \<Longrightarrow> op_id y = op_id c"
    and f: "op_id (f c c) = op_id c" "operation_check (f c c)" and w: "w c (f c c)"
    and fresh: "\<forall>b\<in>set (od_audit db). ad_id b \<noteq> ad_id (a c (f c c))"
  shows "operation_batch cand [update_from_candidate f, audit_updated w a, select_updated] db =
    (Inr (Some (f c c, op_state c)), db\<lparr>od_operations := map (\<lambda>q. if q = c then f c q else q) (od_operations db),
       od_audit := od_audit db @ [a c (f c c)]\<rparr>)"
proof -
  note ids = operations_invD(1) [OF inv]
  let ?rows = "map (\<lambda>q. if q = c then f c q else q) (od_operations db)"
  have scope: "filter cand (od_operations db) = [c]" by (rule filter_by_key [OF ids c(1), where P = cand, OF c(2)]) (rule cand)
  have rows: "update_rows c (f c) (od_operations db) = ?rows" by (rule update_rows_single [OF ids c(1)])
  have check: "\<forall>q\<in>set ?rows. operation_check q" using operations_invD(2) [OF inv] f(2) by auto
  have ids': "map op_id ?rows = map op_id (od_operations db)" using f(1) by auto
  have mem: "f c c \<in> set ?rows" using c(1) by force
  have found: "find (\<lambda>q. op_id q = op_id c) ?rows = Some (f c c)"
    using find_by_key [of op_id ?rows, OF _ mem] ids f(1) unfolding ids' by simp
  show ?thesis
    using check found w fresh
    by (simp add: operation_batch_def atomic_matched [where scope = "\<lambda>db. filter cand (od_operations db)", OF scope] update_from_candidate_def update_operation_eq rows
        audit_updated_def updated_row_def upsert_audit_def select_updated_def first_row_def)
qed

lemma authority_of_tables:
  assumes "od_sessions d = od_sessions db" "od_members d = od_members db" "od_active d = od_active db"
    "od_integrations d = od_integrations db" "od_approvals d = od_approvals db" "same_plan q p"
    "op_session p = op_session q" "op_role p = op_role q"
  shows "current_execution_authority clk x p d = current_execution_authority clk x q db"
  using assms same_plan_approved [OF assms(6)]
  by (simp add: current_execution_authority_def identity_authority_def mutation_authority_holds_def live_actor_def
      approval_live_def live_requester_def same_plan_def)


lemma claimed_row_check:
  "operation_check c \<Longrightarrow> op_state c = Approved \<Longrightarrow> operation_check (claimed_row claim now c c)"
  by (auto simp: operation_check_def claim_consistent_def claimed_row_def)

lemma started_row_check:
  "operation_check c \<Longrightarrow> op_state c = Claimed \<Longrightarrow> clk < op_plan_expires c \<Longrightarrow> operation_check (started_row clk now c c)"
  by (auto simp: operation_check_def claim_consistent_def started_row_def)

definition claimed_db :: "crypto \<Rightarrow> int \<Rightarrow> string \<Rightarrow> execution_identity \<Rightarrow> operation_row \<Rightarrow> operation_db \<Rightarrow> operation_db" where
  "claimed_db cx now claim x q db =
     db\<lparr>od_operations := map (\<lambda>p. if p = q then claimed_row claim now q p else p) (od_operations db),
       od_audit := od_audit db @ [execution_audit (cx_audit cx (''dopedb:provider-operation:claim:'' @ claim)) x
         ''provider.operation.claim'' [] claim q (claimed_row claim now q q)]\<rparr>"

lemma claim_succeeds:
  assumes inv: "operations_inv db" and q: "q \<in> set (od_operations db)" "is_operation x q" "op_state q = Approved"
    and live: "clk < op_plan_expires q" "current_execution_authority clk x q db"
    and ids: "assert_execution_identity cx x" "uuid claim"
    and fresh: "\<forall>b\<in>set (od_audit db). ad_id b \<noteq> cx_audit cx (''dopedb:provider-operation:claim:'' @ claim)"
  shows "claim_provider_operation cx clk now claim x db =
    (Inr (Some \<lparr>cl_id = op_id q, cl_state = Claimed, cl_claim = claim, cl_now = True\<rparr>), claimed_db cx now claim x q db)"
proof -
  let ?aid = "cx_audit cx (''dopedb:provider-operation:claim:'' @ claim)"
  have aid: "audit_event_id cx ''provider-operation:claim'' claim = Some ?aid" using ids(2) by (simp add: audit_event_id_def)
  have row: "op_id (claimed_row claim now q q) = op_id q" "op_claim (claimed_row claim now q q) = Some claim"
    "op_state (claimed_row claim now q q) = Claimed"
    using q(3) by (simp_all add: claimed_row_def)
  have "operation_batch (may_claim clk x db) (claim_statements ?aid claim x now) db =
      (Inr (Some (claimed_row claim now q q, Approved)), claimed_db cx now claim x q db)"
    unfolding claim_statements_def claimed_db_def
    by (subst audited_batch [OF inv q(1)])
      (use q live row fresh claimed_row_check operations_invD(2) [OF inv q(1)] in
        \<open>auto simp: may_claim_def is_operation_def execution_audit_def\<close>)
  with ids aid row q(2) show ?thesis by (simp add: claim_provider_operation_def is_operation_def)
qed

lemma claimed_same_plan: "same_plan q (claimed_row claim now q q)"
  by (simp add: same_plan_def claimed_row_def)

lemma start_succeeds:
  assumes inv: "operations_inv db" and q: "q \<in> set (od_operations db)" "may_start clk claim x db q" "op_state q = Claimed"
    and live: "clk < op_plan_expires q" and ids: "assert_execution_identity cx x" "uuid claim"
    and fresh: "\<forall>b\<in>set (od_audit db). ad_id b \<noteq> cx_audit cx (''dopedb:provider-operation:remote-start:'' @ claim)"
  shows "fst (mark_remote_started cx clk now claim x db) =
    Inr (Some \<lparr>ss_id = op_id q, ss_state = RemoteStarted, ss_claim = claim, ss_now = True\<rparr>)"
proof -
  let ?aid = "cx_audit cx (''dopedb:provider-operation:remote-start:'' @ claim)"
  have aid: "audit_event_id cx ''provider-operation:remote-start'' claim = Some ?aid" using ids(2) by (simp add: audit_event_id_def)
  have row: "op_id (started_row clk now q q) = op_id q" "op_claim (started_row clk now q q) = Some claim"
    "op_state (started_row clk now q q) = RemoteStarted"
    using q live by (simp_all add: started_row_def may_start_def)
  have "fst (operation_batch (may_start clk claim x db) (start_statements clk ?aid x now) db) =
      Inr (Some (started_row clk now q q, Claimed))"
    unfolding start_statements_def
    by (subst audited_batch [OF inv q(1)])
      (use q live row fresh started_row_check operations_invD(2) [OF inv q(1)] in
        \<open>auto simp: may_start_def is_operation_def execution_audit_def\<close>)
  with ids aid row q(2) show ?thesis
    by (auto simp: mark_remote_started_def is_operation_def may_start_def split: prod.split)
qed


section \<open>A concrete database\<close>

definition sample_crypto :: crypto where
  "sample_crypto = \<lparr>cx_json = \<lambda>_. JNull, cx_bytes = \<lambda>_. 4, cx_hash = \<lambda>_. replicate 64 CHR ''a'', cx_hmac = \<lambda>_. replicate 43 CHR ''B'',
     cx_audit = \<lambda>s. s\<rparr>"

definition sample_fingerprint :: "neon_resource \<Rightarrow> string" where
  "sample_fingerprint r = replicate 64 CHR ''f''"

definition sample_authority :: "string \<Rightarrow> mutation_authority" where
  "sample_authority who = \<lparr>ma_org = ''acme'', ma_member = ''m-'' @ who, ma_user = ''u-'' @ who, ma_session = ''s-'' @ who, ma_role = ''owner''\<rparr>"

definition sample_plan :: branch_plan where
  "sample_plan = \<lparr>bp_version = 1, bp_operation = ''11111111-1111-4111-8111-111111111111'',
     bp_integration = ''22222222-2222-4222-8222-222222222222'', bp_generation = ''1'', bp_expires = 600000,
     bp_risk = ProductionData, bp_policy = SeparateAdmin,
     bp_body = CreatePlan \<lparr>cp_project = ''proj'', cp_branch = ''br-main'', cp_environment = Production, cp_point = ''head'',
       cp_name = ''copy'', cp_init = ''parent-data'', cp_read_write = True, cp_copies_data = True\<rparr>, bp_rest = JNull\<rparr>"

definition sample_request :: plan_request where
  "sample_request = \<lparr>pq_authority = sample_authority ''ann'', pq_integration = ''22222222-2222-4222-8222-222222222222'',
     pq_generation = 1, pq_operation = ''11111111-1111-4111-8111-111111111111'', pq_key = ''44444444-4444-4444-8444-444444444444'',
     pq_request_hash = replicate 64 CHR ''b'', pq_plan_hash = replicate 64 CHR ''a'', pq_marker = ''v1.'' @ replicate 43 CHR ''B'',
     pq_plan = sample_plan, pq_now = 0\<rparr>"

definition sample_identity :: "string \<Rightarrow> execution_identity" where
  "sample_identity who = \<lparr>xi_authority = sample_authority who, xi_integration = ''22222222-2222-4222-8222-222222222222'',
     xi_generation = 1, xi_operation = ''11111111-1111-4111-8111-111111111111'',
     xi_kind = BranchCreate, xi_plan_hash = replicate 64 CHR ''a'', xi_marker = ''v1.'' @ replicate 43 CHR ''B''\<rparr>"

definition sample_row :: operation_row where
  "sample_row = (planned_row sample_request)\<lparr>op_state := Approved\<rparr>"

definition sample_claim :: string where
  "sample_claim = ''33333333-3333-4333-8333-333333333333''"

text \<open>Ann planned, Bob approved.\<close>

definition sample_operations :: "operation_row list \<Rightarrow> operation_db" where
  "sample_operations qs = \<lparr>od_sessions = [\<lparr>se_id = ''s-ann'', se_user = ''u-ann'', se_expires = 9000000\<rparr>,
       \<lparr>se_id = ''s-bob'', se_user = ''u-bob'', se_expires = 9000000\<rparr>],
     od_members = [\<lparr>me_id = ''m-ann'', me_org = ''acme'', me_user = ''u-ann'', me_role = ''owner'', me_pending = None, me_claim = None\<rparr>,
       \<lparr>me_id = ''m-bob'', me_org = ''acme'', me_user = ''u-bob'', me_role = ''owner'', me_pending = None, me_claim = None\<rparr>],
     od_active = [''acme''],
     od_integrations = [\<lparr>in_id = ''22222222-2222-4222-8222-222222222222'', in_org = ''acme'', in_provider = ''neon'', in_generation = 1,
       in_status = ''active'', in_refresh_phase = ''idle'', in_revoked = None, in_pending = None, in_claim = None\<rparr>],
     od_operations = qs,
     od_approvals = [\<lparr>ap_id = ''a1'', ap_org = ''acme'', ap_operation = ''11111111-1111-4111-8111-111111111111'',
       ap_plan_hash = replicate 64 CHR ''a'', ap_approved = True, ap_member = ''m-bob'', ap_user = ''u-bob'', ap_session = ''s-bob'',
       ap_role = ''owner''\<rparr>],
     od_audit = [], od_connections = [], od_grants = [], od_leases = [], od_resources = [], od_versions = []\<rparr>"

definition sample_start :: operation_event where
  "sample_start = StartOperation 4 4 sample_claim (sample_identity ''ann'')"

lemma sample_identity_ok: "assert_execution_identity sample_crypto (sample_identity ''ann'')" "uuid sample_claim"
  by code_simp code_simp

lemma sample_approved_ok:
  "operation_check sample_row" "authorised (od_approvals (sample_operations [sample_row])) sample_row"
  "is_operation (sample_identity ''ann'') sample_row"
  "current_execution_authority 4 (sample_identity ''ann'') sample_row (sample_operations [sample_row])"
  "op_state sample_row = Approved" "4 < op_plan_expires sample_row" "op_kind sample_row = BranchCreate"
  by code_simp+

lemma sample_operations_inv: "operations_inv (sample_operations [sample_row])"
  using sample_approved_ok(1,2) by (simp add: operations_inv_def sample_operations_def)

lemma sample_db_simps:
  "od_operations (sample_operations qs) = qs" "od_audit (sample_operations qs) = []"
  by (simp_all add: sample_operations_def)

lemma claim_enables_start:
  assumes "operations_inv db" "q \<in> set (od_operations db)" "is_operation x q" "op_state q = Approved" "op_kind q = BranchCreate"
    and "clk < op_plan_expires q" "current_execution_authority clk x q db"
    and "assert_execution_identity cx x" "uuid claim"
    and "\<forall>b\<in>set (od_audit db). ad_id b \<noteq> cx_audit cx (''dopedb:provider-operation:claim:'' @ claim)
           \<and> ad_id b \<noteq> cx_audit cx (''dopedb:provider-operation:remote-start:'' @ claim)"
    and "cx_audit cx (''dopedb:provider-operation:claim:'' @ claim) \<noteq> cx_audit cx (''dopedb:provider-operation:remote-start:'' @ claim)"
  shows "claim_provider_operation cx clk now claim x db =
      (Inr (Some \<lparr>cl_id = op_id q, cl_state = Claimed, cl_claim = claim, cl_now = True\<rparr>), claimed_db cx now claim x q db)"
    and "fst (mark_remote_started cx clk now' claim x (claimed_db cx now claim x q db)) =
      Inr (Some \<lparr>ss_id = op_id q, ss_state = RemoteStarted, ss_claim = claim, ss_now = True\<rparr>)"
proof -
  let ?db = "claimed_db cx now claim x q db" and ?q = "claimed_row claim now q q"
  show claim: "claim_provider_operation cx clk now claim x db =
      (Inr (Some \<lparr>cl_id = op_id q, cl_state = Claimed, cl_claim = claim, cl_now = True\<rparr>), ?db)"
    by (rule claim_succeeds) (use assms in auto)
  have inv: "operations_inv ?db"
    using claim_step [OF assms(1), of cx clk now claim x] by (simp add: claim good_step_def)
  have tables: "od_sessions ?db = od_sessions db" "od_members ?db = od_members db" "od_active ?db = od_active db"
    "od_integrations ?db = od_integrations db" "od_approvals ?db = od_approvals db"
    by (simp_all add: claimed_db_def)
  have mem: "?q \<in> set (od_operations ?db)" using assms(2) by (force simp: claimed_db_def)
  have row: "op_id ?q = op_id q" "op_state ?q = Claimed" "op_claim ?q = Some claim" "op_kind ?q = BranchCreate"
      "is_operation x ?q" "op_plan_expires ?q = op_plan_expires q" "op_session ?q = op_session q" "op_role ?q = op_role q"
    using assms(3-5) by (simp_all add: claimed_row_def is_operation_def)
  have "may_start clk claim x ?db ?q"
    using authority_of_tables [OF tables claimed_same_plan row(7,8)] assms(7) row by (simp add: may_start_def)
  from start_succeeds [OF inv mem this row(2) _ assms(8,9), where now = now'] assms(6,10,11)
  show "fst (mark_remote_started cx clk now' claim x ?db) =
      Inr (Some \<lparr>ss_id = op_id q, ss_state = RemoteStarted, ss_claim = claim, ss_now = True\<rparr>)"
    by (auto simp: row(1,6)) (auto simp: claimed_db_def execution_audit_def)
qed

section \<open>Properties of runs\<close>



text \<open>
  C24. At most one provider call per operation: over any run, with retries, concurrent workers and clean-ups in any order,
  \<open>mark_remote_started\<close> answers \<open>startedNow\<close> at most once for an operation, and never for one whose call had begun before.
\<close>

theorem provider_call_begins_once:
  assumes "operations_inv db"
  shows "distinct (remote_starts cx fp db es)
     \<and> (\<forall>i\<in>set (remote_starts cx fp db es). \<not> (\<exists>q\<in>set (od_operations db). op_id q = i \<and> launched (op_state q)))"
  using remote_starts_fresh [OF assms] by (simp add: launched_in_def)

text \<open>
  C25. A provider call begins only under authority that holds at that moment: in any reachable state the started operation was
  claimed with that claim, its plan has not expired, the requester is still an administrator with a live session, and so is
  an approver of exactly this plan; for production data the approver is another member and another user.
\<close>

theorem provider_call_is_authorised:
  assumes "operations_inv db" "i \<in> set (started_by cx (foldl (operation_step cx fp) db es) e)"
  shows "\<exists>clk now claim x. \<exists>q\<in>set (od_operations (foldl (operation_step cx fp) db es)).
     \<exists>a\<in>set (od_approvals (foldl (operation_step cx fp) db es)).
       e = StartOperation clk now claim x \<and> op_id q = i \<and> op_state q = Claimed \<and> op_claim q = Some claim \<and> clk < op_plan_expires q
       \<and> is_operation x q \<and> identity_authority clk x (foldl (operation_step cx fp) db es)
       \<and> live_requester clk q (foldl (operation_step cx fp) db es)
       \<and> ap_operation a = i \<and> ap_plan_hash a = op_plan_hash q \<and> ap_approved a
       \<and> live_actor clk (ap_org a) (ap_member a) (ap_user a) (ap_session a) (ap_role a) (foldl (operation_step cx fp) db es)
       \<and> (op_risk q = ProductionData \<longrightarrow> ap_member a \<noteq> op_member q \<and> ap_user a \<noteq> op_user q)"
proof -
  let ?db = "foldl (operation_step cx fp) db es"
  have inv: "operations_inv ?db" by (rule operations_run [OF assms(1)])
  from started_by_start [OF assms(2) inv, where fp = fp] obtain clk now claim x q where
      q: "e = StartOperation clk now claim x" "q \<in> set (od_operations ?db)" "op_id q = i" "op_state q = Claimed"
        "may_start clk claim x ?db q" "clk < op_plan_expires q"
    by blast
  from q(5) have auth: "is_operation x q" "op_claim q = Some claim" "identity_authority clk x ?db" "approval_live clk q ?db"
    by (simp_all add: may_start_def current_execution_authority_def)
  from auth(4) obtain a where a: "a \<in> set (od_approvals ?db)" "approved_by q a"
      "live_actor clk (ap_org a) (ap_member a) (ap_user a) (ap_session a) (ap_role a) ?db"
    by (auto simp: approval_live_def)
  have "op_risk q = ProductionData \<longrightarrow> op_policy q = SeparateAdmin"
    using operations_invD(2) [OF inv q(2)] by (simp add: operation_check_def)
  with a(2) q(3) have "ap_operation a = i \<and> ap_plan_hash a = op_plan_hash q \<and> ap_approved a
      \<and> (op_risk q = ProductionData \<longrightarrow> ap_member a \<noteq> op_member q \<and> ap_user a \<noteq> op_user q)"
    by (auto simp: approved_by_def policy_allows_def)
  moreover have "live_requester clk q ?db" using auth(4) by (simp add: approval_live_def)
  ultimately show ?thesis using q a(1,3) auth by blast
qed


theorem provider_call_begins_once_witness:
  "distinct (remote_starts sample_crypto sample_fingerprint (sample_operations [sample_row])
     [ClaimOperation 4 3 sample_claim (sample_identity ''ann''), sample_start, sample_start])"
  using provider_call_begins_once [OF sample_operations_inv] by blast


theorem provider_call_is_authorised_witness:
  "\<exists>(q :: operation_row) (a :: approval_row). op_id q = op_id sample_row \<and> op_claim q = Some sample_claim \<and> 4 < op_plan_expires q \<and> ap_approved a
     \<and> (op_risk q = ProductionData \<longrightarrow> ap_member a \<noteq> op_member q \<and> ap_user a \<noteq> op_user q)"
proof -
  let ?claim = "ClaimOperation 4 3 sample_claim (sample_identity ''ann'')" and ?db = "sample_operations [sample_row]"
  have row: "sample_row \<in> set (od_operations ?db)" by (simp add: sample_db_simps)
  note run = claim_enables_start(1) [OF sample_operations_inv row sample_approved_ok(3,5,7,6,4) sample_identity_ok, where now = 3]
    claim_enables_start(2) [OF sample_operations_inv row sample_approved_ok(3,5,7,6,4) sample_identity_ok, where now = 3 and now' = 4]
  have "op_id sample_row \<in> set (started_by sample_crypto (foldl (operation_step sample_crypto sample_fingerprint) ?db [?claim]) sample_start)"
    using run by (simp add: sample_start_def started_by_def sample_db_simps sample_crypto_def)
  from provider_call_is_authorised [OF sample_operations_inv this] show ?thesis
    unfolding sample_start_def operation_event.inject by blast
qed


text \<open>
  The validator of an observation takes an upper-case operation id, which the row check of the table refuses: the batch
  fails and nothing is recorded.
\<close>

lemma upper_case_operation_id_is_lost:
  assumes inv: "operations_inv db" and i: "rc_operation r = Some i" "js_lower i \<noteq> i"
  shows "od_operations (snd (apply_reconciliation cx clk now claim x r db)) = od_operations db"
proof -
  have "snd (operation_batch (may_reconcile clk claim x r db) (reconcile_statements raid caid claim x r now) db) = db" for raid caid
  proof -
    obtain res db' where batch: "operation_batch (may_reconcile clk claim x r db) (reconcile_statements raid caid claim x r now) db = (res, db')"
      by (metis prod.exhaust)
    from batch execution_batches(4) have "db' = db"
    proof (cases rule: operation_batch_cases)
      case (2 c)
      from in_filter [OF 2(1)] have c: "c \<in> set (od_operations db)" "agrees (op_provider_operation c) (Some i)"
        using i by (simp_all add: may_reconcile_def)
      have "op_provider_operation c = None"
        using c operations_invD(2) [OF inv c(1)] i by (auto simp: agrees_def operation_check_def)
      with i have "\<not> operation_check (reconciled_row now r c)" by (simp add: operation_check_def reconciled_row_def coalesce_def)
      moreover have "reconciled_row now r c \<in> set (od_operations db')"
        using c(1) 2(2) update_rows_single [OF operations_invD(1) [OF inv] c(1)] by force
      ultimately show ?thesis using 2(4) by blast
    qed
    with batch show ?thesis by simp
  qed
  then show ?thesis
    by (simp add: apply_reconciliation_def case_prod_beta split: option.split sum.split)
qed

section \<open>Lifecycles end\<close>

text \<open>How far a state is along the machine; every change of state goes up.\<close>

fun progress_rank :: "operation_state \<Rightarrow> nat" where
  "progress_rank AwaitingApproval = 0"
| "progress_rank Approved = 1"
| "progress_rank Claimed = 2"
| "progress_rank RemoteStarted = 3"
| "progress_rank Reconciling = 4"
| "progress_rank _ = 5"

lemma progress_rank_bound: "progress_rank s \<le> 5"
  by (cases s) simp_all

lemma advances_rank: "advances s t \<Longrightarrow> s = t \<or> progress_rank s < progress_rank t"
  by (cases rule: advances.cases) auto

definition state_of :: "operation_db \<Rightarrow> string \<Rightarrow> operation_state option" where
  "state_of db i = map_option op_state (find (\<lambda>q. op_id q = i) (od_operations db))"

fun state_changes :: "crypto \<Rightarrow> (neon_resource \<Rightarrow> string) \<Rightarrow> operation_db \<Rightarrow> operation_event list \<Rightarrow> string \<Rightarrow> nat" where
  "state_changes cx fp db [] i = 0"
| "state_changes cx fp db (e # es) i =
     of_bool (state_of (operation_step cx fp db e) i \<noteq> state_of db i) + state_changes cx fp (operation_step cx fp db e) es i"

lemma state_of_row: "operations_inv db \<Longrightarrow> q \<in> set (od_operations db) \<Longrightarrow> state_of db (op_id q) = Some (op_state q)"
  using find_by_key [of op_id "od_operations db" q] by (simp add: state_of_def operations_invD)

lemma good_step_of_row:
  assumes "good_step db db'" "q \<in> set (od_operations db)"
  shows "\<exists>p\<in>set (od_operations db'). row_step q p"
proof -
  from assms(1) obtain ps new where rows: "od_operations db' = ps @ new" "list_all2 row_step (od_operations db) ps"
    by (auto simp: good_step_def rows_advance_def)
  from assms(2) obtain k where "k < length (od_operations db)" "od_operations db ! k = q" by (auto simp: in_set_conv_nth)
  with rows show ?thesis by (auto simp: list_all2_conv_all_nth intro!: bexI [of _ "ps ! k"])
qed

lemma changes_bounded:
  "operations_inv db \<Longrightarrow> q \<in> set (od_operations db)
    \<Longrightarrow> state_changes cx fp db es (op_id q) + progress_rank (op_state q) \<le> 5"
proof (induction es arbitrary: db q)
  case (Cons e es)
  let ?db = "operation_step cx fp db e"
  have good: "good_step db ?db" by (rule operation_step_good [OF Cons.prems(1)])
  from good_step_of_row [OF good Cons.prems(2)] obtain p where p: "p \<in> set (od_operations ?db)" "row_step q p" by blast
  have id: "op_id p = op_id q" and adv: "advances (op_state q) (op_state p)"
    using p(2) by (simp_all add: row_step_def same_plan_def)
  have inv: "operations_inv ?db" using good by (simp add: good_step_def)
  have rest: "state_changes cx fp ?db es (op_id q) + progress_rank (op_state p) \<le> 5" using Cons.IH [OF inv p(1)] id by simp
  have st: "state_of ?db (op_id q) = Some (op_state p)" "state_of db (op_id q) = Some (op_state q)"
    using state_of_row [OF inv p(1)] state_of_row [OF Cons.prems] id by simp_all
  have "of_bool (state_of ?db (op_id q) \<noteq> state_of db (op_id q)) + progress_rank (op_state q) \<le> progress_rank (op_state p)"
    using advances_rank [OF adv] unfolding st by (cases "op_state q = op_state p") simp_all
  then show ?case using rest unfolding state_changes.simps by linarith
qed (simp add: progress_rank_bound)

text \<open>
  C29. The lifecycle of an operation ends: over any run, however long, the state of an operation changes at most five times, and
  once it is succeeded, failed, needs repair or is cancelled it never changes again.
\<close>

theorem operation_lifecycle_ends:
  assumes "operations_inv db" "q \<in> set (od_operations db)"
  shows "state_changes cx fp db es (op_id q) \<le> 5
    \<and> (op_state q \<in> {Succeeded, Failed, NeedsRepair, Cancelled} \<longrightarrow> state_changes cx fp db es (op_id q) = 0)"
  using changes_bounded [OF assms, of cx fp es] by auto

theorem operation_lifecycle_ends_witness:
  "state_changes sample_crypto sample_fingerprint (sample_operations [sample_row]) [sample_start, sample_start] (op_id sample_row) \<le> 5"
  using operation_lifecycle_ends [OF sample_operations_inv, of sample_row] by (simp add: sample_db_simps)

end
