(* ===== verification/ManagedAccess.thy ===== *)
theory ManagedAccess
  imports ProviderOperations
begin

text \<open>
  Reading provider operations back: the loads of one plan or execution, the list of the approval surface
  (\<open>workspace-cloud/lib/provider-operation-records.ts\<close>) and the branches managed access may use
  (\<open>provider-operation-managed-access.ts\<close>). \<open>Inl ()\<close> is a thrown error.
\<close>

section \<open>Loads\<close>

definition loaded_row :: "string \<Rightarrow> string \<Rightarrow> nat \<Rightarrow> string \<Rightarrow> operation_kind \<Rightarrow> operation_db \<Rightarrow> operation_row option" where
  "loaded_row org integration gen operation kind db =
     find (\<lambda>q. op_id q = operation \<and> op_org q = org \<and> op_integration q = integration \<and> op_kind q = kind \<and> op_generation q = gen)
       (od_operations db)"

definition load_provider_operation_plan ::
  "crypto \<Rightarrow> string \<Rightarrow> string \<Rightarrow> nat \<Rightarrow> string \<Rightarrow> operation_kind \<Rightarrow> operation_db \<Rightarrow> unit + plan_record option" where
  "load_provider_operation_plan cx org integration gen operation kind db =
     plan_record_of cx org integration gen operation (loaded_row org integration gen operation kind db)"

definition load_provider_operation_execution ::
  "crypto \<Rightarrow> string \<Rightarrow> string \<Rightarrow> nat \<Rightarrow> string \<Rightarrow> operation_kind \<Rightarrow> operation_db \<Rightarrow> unit + execution_record option" where
  "load_provider_operation_execution cx org integration gen operation kind db =
     execution_record_of cx org integration gen operation (loaded_row org integration gen operation kind db)"

definition max_provider_results :: nat where
  "max_provider_results = 200"

record listed_operation =
  lo_record :: execution_record
  lo_mine :: bool
  lo_live :: bool

definition listed_rows :: "string \<Rightarrow> string \<Rightarrow> nat \<Rightarrow> operation_db \<Rightarrow> operation_row list" where
  "listed_rows org integration gen db =
     take (max_provider_results + 1) (rev (sort_key (\<lambda>q. (op_updated_at q, op_id q))
       (filter (\<lambda>q. op_org q = org \<and> op_integration q = integration \<and> op_generation q = gen) (od_operations db))))"

text \<open>A loop whose first failing row throws.\<close>

fun all_or_error :: "('a \<Rightarrow> 'b option) \<Rightarrow> 'a list \<Rightarrow> unit + 'b list" where
  "all_or_error f [] = Inr []"
| "all_or_error f (x # xs) =
     (case f x of None \<Rightarrow> Inl () | Some y \<Rightarrow> (case all_or_error f xs of Inl e \<Rightarrow> Inl e | Inr ys \<Rightarrow> Inr (y # ys)))"

definition listed_record ::
  "crypto \<Rightarrow> int \<Rightarrow> string \<Rightarrow> string \<Rightarrow> nat \<Rightarrow> string \<Rightarrow> string \<Rightarrow> operation_db \<Rightarrow> operation_row \<Rightarrow> listed_operation option" where
  "listed_record cx clk org integration gen member user db q =
     (case execution_record_of cx org integration gen (op_id q) (Some q) of
        Inr (Some r) \<Rightarrow>
          if op_member q = [] \<or> op_user q = [] then None
          else Some \<lparr>lo_record = r, lo_mine = (op_member q = member \<and> op_user q = user), lo_live = approval_live clk q db\<rparr>
      | _ \<Rightarrow> None)"

definition list_provider_operation_executions ::
  "crypto \<Rightarrow> int \<Rightarrow> string \<Rightarrow> string \<Rightarrow> nat \<Rightarrow> string \<Rightarrow> string \<Rightarrow> operation_db \<Rightarrow> unit + listed_operation list" where
  "list_provider_operation_executions cx clk org integration gen member user db =
     (let rows = listed_rows org integration gen db
      in if length rows > max_provider_results then Inl ()
         else all_or_error (listed_record cx clk org integration gen member user db) rows)"

section \<open>Managed access\<close>

record access_boundary =
  ab_operation :: string
  ab_state :: operation_state
  ab_plan_hash :: string
  ab_marker :: string
  ab_branch :: string
  ab_endpoint :: "string option"
  ab_database_fingerprint :: "string option"
  ab_fence :: "string option"
  ab_access :: managed_access
  ab_bootstrap :: "(string \<times> string \<times> string \<times> int) option"

text \<open>\<open>bootstrapResultProjection\<close>: the evidence, absent or complete; the outer \<open>None\<close> is an invalid one.\<close>

definition bootstrap_result_projection ::
  "redacted_result option \<Rightarrow> string \<Rightarrow> (string \<times> string \<times> string \<times> int) option option" where
  "bootstrap_result_projection v branch =
     (case v of
        None \<Rightarrow> None
      | Some r \<Rightarrow>
          (case rr_bootstrap r of
             None \<Rightarrow> Some None
           | Some (audit, resource, plan, ready) \<Rightarrow>
               if \<not> starts_with (branch @ '':'') audit \<or> length audit > 512 \<or> (\<exists>c\<in>set audit. control_char c)
                  \<or> \<not> hex64 resource \<or> \<not> hex64 plan then None
               else Some (Some (audit, resource, plan, ready))))"

definition neon_branch_managed_access_boundary :: "operation_row \<Rightarrow> access_boundary option" where
  "neon_branch_managed_access_boundary q =
     (case (op_resource q, execution_result_projection (op_result q),
            Option.bind (op_resource q) (bootstrap_result_projection (op_result q))) of
        (Some branch, Some e, Some b) \<Rightarrow>
          (case er_access e of
             None \<Rightarrow> None
           | Some access \<Rightarrow>
               if \<not> uuid (op_id q) \<or> \<not> hex64 (op_plan_hash q) \<or> \<not> marker_shape (op_marker q) \<or> \<not> neon_id branch
                  \<or> access \<in> {BootstrapRequired, AccessReady}
                      \<and> (er_endpoint e = None \<or> er_database_fingerprint e = None \<or> er_fence e = None)
                  \<or> access = AccessReady \<and> b = None \<or> access \<noteq> AccessReady \<and> b \<noteq> None then None
               else Some \<lparr>ab_operation = op_id q, ab_state = op_state q, ab_plan_hash = op_plan_hash q, ab_marker = op_marker q,
                      ab_branch = branch, ab_endpoint = er_endpoint e, ab_database_fingerprint = er_database_fingerprint e,
                      ab_fence = er_fence e, ab_access = access, ab_bootstrap = b\<rparr>)
      | _ \<Rightarrow> None)"

definition branch_deleted :: "operation_db \<Rightarrow> operation_row \<Rightarrow> bool" where
  "branch_deleted db q \<longleftrightarrow>
     (\<exists>d\<in>set (od_operations db). op_org d = op_org q \<and> op_integration d = op_integration q \<and> op_generation d = op_generation q
        \<and> op_kind d = BranchDelete \<and> op_scope d = op_scope q \<and> Some (op_source d) = op_resource q \<and> op_state d = Succeeded)"

definition boundary_rows :: "string \<Rightarrow> string \<Rightarrow> nat \<Rightarrow> string \<Rightarrow> operation_db \<Rightarrow> operation_row list" where
  "boundary_rows org integration gen project db =
     take (max_provider_results + 1) (rev (sort_key (\<lambda>q. (op_created_at q, op_id q))
       (filter (\<lambda>q. op_org q = org \<and> op_integration q = integration \<and> op_kind q = BranchCreate \<and> op_generation q = gen
          \<and> op_scope q = project \<and> op_resource q \<noteq> None \<and> op_state q \<noteq> Cancelled \<and> \<not> branch_deleted db q) (od_operations db))))"

fun collect_boundaries :: "string option list \<Rightarrow> operation_row list \<Rightarrow> unit + access_boundary list" where
  "collect_boundaries seen [] = Inr []"
| "collect_boundaries seen (q # qs) =
     (case neon_branch_managed_access_boundary q of
        None \<Rightarrow> Inl ()
      | Some b \<Rightarrow>
          if op_resource q \<in> set seen then Inl ()
          else (case collect_boundaries (op_resource q # seen) qs of Inl e \<Rightarrow> Inl e | Inr bs \<Rightarrow> Inr (b # bs)))"

definition list_neon_branch_managed_access_boundaries ::
  "string \<Rightarrow> string \<Rightarrow> nat \<Rightarrow> string \<Rightarrow> operation_db \<Rightarrow> unit + access_boundary list" where
  "list_neon_branch_managed_access_boundaries org integration gen project db =
     (if \<not> uuid integration \<or> gen < 1 \<or> \<not> neon_id project then Inl ()
      else let rows = boundary_rows org integration gen project db
           in if length rows > max_provider_results then Inl () else collect_boundaries [] rows)"

definition neon_branch_managed_access_boundary_for ::
  "string \<Rightarrow> string \<Rightarrow> nat \<Rightarrow> string \<Rightarrow> string \<Rightarrow> operation_db \<Rightarrow> unit + access_boundary option" where
  "neon_branch_managed_access_boundary_for org integration gen project branch db =
     (case list_neon_branch_managed_access_boundaries org integration gen project db of
        Inl e \<Rightarrow> Inl e | Inr bs \<Rightarrow> Inr (find (\<lambda>b. ab_branch b = branch) bs))"

definition require_neon_branch_managed_access_ready ::
  "string \<Rightarrow> string \<Rightarrow> nat \<Rightarrow> string \<Rightarrow> string \<Rightarrow> operation_db \<Rightarrow> unit + access_boundary option" where
  "require_neon_branch_managed_access_ready org integration gen project branch db =
     (case neon_branch_managed_access_boundary_for org integration gen project branch db of
        Inr (Some b) \<Rightarrow> if ab_state b \<noteq> Succeeded \<or> ab_access b \<noteq> AccessReady then Inl () else Inr (Some b)
      | r \<Rightarrow> r)"


section \<open>What a usable branch has\<close>

lemma collected:
  "collect_boundaries seen qs = Inr bs \<Longrightarrow> b \<in> set bs \<Longrightarrow> \<exists>q\<in>set qs. neon_branch_managed_access_boundary q = Some b"
  by (induction qs arbitrary: seen bs) (fastforce split: option.splits if_splits sum.splits)+

lemma collected_distinct:
  "collect_boundaries seen qs = Inr bs \<Longrightarrow> distinct (map op_resource qs) \<and> set (map op_resource qs) \<inter> set seen = {}"
  by (induction seen qs arbitrary: bs rule: collect_boundaries.induct) (auto split: option.splits if_splits sum.splits)

lemma boundary_row:
  "q \<in> set (boundary_rows org integration gen project db) \<Longrightarrow>
     q \<in> set (od_operations db) \<and> op_org q = org \<and> op_integration q = integration \<and> op_kind q = BranchCreate \<and> op_generation q = gen
     \<and> op_scope q = project \<and> op_state q \<noteq> Cancelled \<and> \<not> branch_deleted db q"
  by (auto simp: boundary_rows_def dest!: in_set_takeD)

lemma ready_boundary:
  "neon_branch_managed_access_boundary q = Some b \<Longrightarrow> ab_access b = AccessReady \<Longrightarrow>
     op_resource q = Some (ab_branch b) \<and> op_state q = ab_state b \<and> recorded rr_access q = Some AccessReady
     \<and> recorded rr_endpoint q \<noteq> None \<and> recorded rr_database_fingerprint q \<noteq> None \<and> recorded rr_fence q \<noteq> None
     \<and> recorded rr_bootstrap q \<noteq> None"
  by (auto simp: neon_branch_managed_access_boundary_def execution_result_projection_def bootstrap_result_projection_def
      recorded_def split: option.splits if_splits prod.splits)

lemma managed_access_needs_bootstrap:
  assumes "require_neon_branch_managed_access_ready org integration gen project branch db = Inr (Some b)"
  shows "\<exists>q\<in>set (od_operations db). op_org q = org \<and> op_integration q = integration \<and> op_generation q = gen \<and> op_kind q = BranchCreate
     \<and> op_scope q = project \<and> op_resource q = Some branch \<and> op_state q = Succeeded \<and> \<not> branch_deleted db q
     \<and> recorded rr_access q = Some AccessReady \<and> recorded rr_endpoint q \<noteq> None \<and> recorded rr_fence q \<noteq> None
     \<and> recorded rr_bootstrap q \<noteq> None"
proof -
  from assms obtain bs where bs: "collect_boundaries [] (boundary_rows org integration gen project db) = Inr bs"
      "find (\<lambda>b. ab_branch b = branch) bs = Some b" "ab_state b = Succeeded" "ab_access b = AccessReady"
    by (auto simp: require_neon_branch_managed_access_ready_def neon_branch_managed_access_boundary_for_def
        list_neon_branch_managed_access_boundaries_def Let_def split: sum.splits option.splits if_splits)
  from bs(2) have b: "b \<in> set bs" "ab_branch b = branch" by (auto simp: find_Some_iff)
  from collected [OF bs(1) b(1)] obtain q where q: "q \<in> set (boundary_rows org integration gen project db)"
      "neon_branch_managed_access_boundary q = Some b" by blast
  with boundary_row [OF q(1)] ready_boundary [OF q(2) bs(4)] bs(3) b(2) show ?thesis by auto
qed

end
