(* ===== verification/SharedConnections.thy ===== *)
theory SharedConnections
  imports Permissions DirectAccess
begin

text \<open>
  Shared connection templates (\<open>workspace-cloud/lib/workspace-connections.ts\<close>) and the environment labels they carry
  (\<open>knowledge/environment-kind.ts\<close>). Input is parsed JSON, whose numbers are integers here; \<open>None\<close> is a thrown error. The
  provider target of a public record is an argument: its parts come from the provider's metadata.
\<close>

section \<open>Environment kinds\<close>

datatype environment_kind = EnvDevelopment | EnvStaging | EnvProduction | EnvTest

fun kind_text :: "environment_kind \<Rightarrow> string" where
  "kind_text EnvDevelopment = ''development''"
| "kind_text EnvStaging = ''staging''"
| "kind_text EnvProduction = ''production''"
| "kind_text EnvTest = ''test''"

definition environment_kinds :: "environment_kind list" where
  "environment_kinds = [EnvDevelopment, EnvStaging, EnvProduction, EnvTest]"

fun legacy_environment_name :: "environment_kind \<Rightarrow> string" where
  "legacy_environment_name EnvDevelopment = ''Development''"
| "legacy_environment_name EnvStaging = ''Staging''"
| "legacy_environment_name EnvProduction = ''Production''"
| "legacy_environment_name EnvTest = ''Test''"

definition is_environment_kind :: "string \<Rightarrow> environment_kind option" where
  "is_environment_kind s = find (\<lambda>k. kind_text k = s) environment_kinds"

definition legacy_environment_fields :: "environment_kind \<Rightarrow> string \<times> string" where
  "legacy_environment_fields k = (legacy_environment_name k, kind_text k)"

definition kind_of_json :: "Prelude.json option \<Rightarrow> environment_kind option" where
  "kind_of_json v = (case v of Some (JStr s) \<Rightarrow> is_environment_kind s | _ \<Rightarrow> None)"

definition parse_environment_kind :: "Prelude.json \<Rightarrow> string list \<Rightarrow> environment_kind option" where
  "parse_environment_kind value extra =
     (case value of
        JObj fs \<Rightarrow>
          let keys = js_join '','' (sort (filter (\<lambda>k. k \<notin> set extra) (map fst fs)))
          in if keys = ''kind'' then kind_of_json (json_get value ''kind'')
             else if keys = ''name,riskClass'' then
               (case json_get value ''name'' of
                  Some (JStr _) \<Rightarrow>
                    if json_get value ''riskClass'' = Some (JStr ''custom'') then Some EnvDevelopment
                    else kind_of_json (json_get value ''riskClass'')
                | _ \<Rightarrow> None)
             else None
      | _ \<Rightarrow> None)"

fun connection_label_token :: "environment_kind \<Rightarrow> string" where
  "connection_label_token EnvProduction = ''prod''"
| "connection_label_token EnvDevelopment = ''dev''"
| "connection_label_token EnvStaging = ''staging''"
| "connection_label_token EnvTest = ''test''"

definition connection_environment_label :: "string option \<Rightarrow> string option" where
  "connection_environment_label label =
     (case Option.bind label is_environment_kind of Some k \<Rightarrow> Some (connection_label_token k) | None \<Rightarrow> label)"

definition connection_environment_kind :: "string option \<Rightarrow> environment_kind option" where
  "connection_environment_kind label =
     (if label = Some ''prod'' then Some EnvProduction
      else if label = Some ''dev'' then Some EnvDevelopment
      else Option.bind label is_environment_kind)"

section \<open>Templates\<close>

datatype shared_engine = SharedPostgres | SharedMysql | SharedMongodb | SharedBigquery | SharedSqlite

datatype shared_provider = ProviderAuto | ProviderGeneric | ProviderNeon | ProviderPlanetScale | ProviderGcpCloudSql | ProviderCloudflareD1

datatype credential_mode = MemberLocal | Managed

record mongo_options =
  mo_srv :: bool
  mo_auth :: "string option"
  mo_replica :: "string option"

record shared_connection =
  sc_name :: string
  sc_engine :: shared_engine
  sc_provider :: shared_provider
  sc_driver :: "string option"
  sc_host :: string
  sc_port :: nat
  sc_database :: string
  sc_sslmode :: string
  sc_readonly_default :: bool
  sc_allow_writes :: bool
  sc_env :: "string option"
  sc_schema_group :: "string option"
  sc_mongo :: "mongo_options option"

fun engine_text :: "shared_engine \<Rightarrow> string" where
  "engine_text SharedPostgres = ''postgres''"
| "engine_text SharedMysql = ''mysql''"
| "engine_text SharedMongodb = ''mongodb''"
| "engine_text SharedBigquery = ''bigquery''"
| "engine_text SharedSqlite = ''sqlite''"

definition shared_engines :: "shared_engine list" where
  "shared_engines = [SharedPostgres, SharedMysql, SharedMongodb, SharedBigquery, SharedSqlite]"

fun provider_text :: "shared_provider \<Rightarrow> string" where
  "provider_text ProviderAuto = ''auto''"
| "provider_text ProviderGeneric = ''generic''"
| "provider_text ProviderNeon = ''neon''"
| "provider_text ProviderPlanetScale = ''planetScale''"
| "provider_text ProviderGcpCloudSql = ''gcpCloudSql''"
| "provider_text ProviderCloudflareD1 = ''cloudflareD1''"

definition shared_providers :: "shared_provider list" where
  "shared_providers = [ProviderAuto, ProviderGeneric, ProviderNeon, ProviderPlanetScale, ProviderGcpCloudSql, ProviderCloudflareD1]"

definition allowed_keys :: "string list" where
  "allowed_keys = [''name'', ''engine'', ''provider'', ''driverId'', ''host'', ''port'', ''database'', ''sslmode'',
     ''readonlyDefault'', ''allowWrites'', ''env'', ''schemaGroup'', ''mongoOptions'']"

definition forbidden_keys :: "string list" where
  "forbidden_keys = [''password'', ''secret'', ''secretRef'', ''token'', ''connectionString'', ''connectionUrl'', ''url'',
     ''username'', ''extraParams'', ''certificate'', ''privateKey'']"

definition mongo_srv_port :: nat where
  "mongo_srv_port = 27017"

definition control_unit :: "char \<Rightarrow> bool" where
  "control_unit c \<longleftrightarrow> of_char c \<le> (31::nat) \<or> of_char c = (127::nat)"

text \<open>\<open>text(value, max, required)\<close>.\<close>

definition text_field :: "Prelude.json option \<Rightarrow> nat \<Rightarrow> bool \<Rightarrow> string option option" where
  "text_field value limit required =
     (if (value = None \<or> value = Some JNull) \<and> \<not> required then Some None
      else case value of
        Some (JStr s) \<Rightarrow>
          let t = js_trim s
          in if required \<and> t = [] \<or> length t > limit \<or> (\<exists>c\<in>set t. control_unit c) then None
             else Some (if t = [] then None else Some t)
      | _ \<Rightarrow> None)"

definition required_text :: "Prelude.json option \<Rightarrow> nat \<Rightarrow> string option" where
  "required_text value limit = Option.bind (text_field value limit True) (\<lambda>t. t)"

text \<open>\<open>mongoName\<close>; the outer \<open>None\<close> is the error.\<close>

definition mongo_name :: "Prelude.json option \<Rightarrow> (string \<Rightarrow> bool) \<Rightarrow> string option option" where
  "mongo_name value ok =
     (case value of
        None \<Rightarrow> Some None
      | Some JNull \<Rightarrow> Some None
      | Some (JStr s) \<Rightarrow> if ok s then Some (Some s) else None
      | _ \<Rightarrow> None)"

definition mongo_auth_source :: "string \<Rightarrow> bool" where
  "mongo_auth_source s \<longleftrightarrow> 1 \<le> length s \<and> length s \<le> 64 \<and> (\<forall>c\<in>set s. is_alnum c \<or> c \<in> set ''_.$-'')"

definition mongo_replica_set :: "string \<Rightarrow> bool" where
  "mongo_replica_set s \<longleftrightarrow> 1 \<le> length s \<and> length s \<le> 128 \<and> (\<forall>c\<in>set s. is_alnum c \<or> c \<in> set ''_.-'')"

definition mongo_option_keys :: "string list" where
  "mongo_option_keys = [''srv'', ''authSource'', ''replicaSet'']"

definition parse_mongo_options :: "Prelude.json option \<Rightarrow> mongo_options option option" where
  "parse_mongo_options value =
     (case value of
        None \<Rightarrow> Some None
      | Some JNull \<Rightarrow> Some None
      | Some (JObj fs) \<Rightarrow>
          if \<not> (\<forall>k\<in>set (map fst fs). k \<in> set mongo_option_keys) then None
          else (case json_get (JObj fs) ''srv'' of
              Some (JBool srv) \<Rightarrow>
                (case (mongo_name (json_get (JObj fs) ''authSource'') mongo_auth_source,
                       mongo_name (json_get (JObj fs) ''replicaSet'') mongo_replica_set) of
                   (Some auth, Some replica) \<Rightarrow> Some (Some \<lparr>mo_srv = srv, mo_auth = auth, mo_replica = replica\<rparr>)
                 | _ \<Rightarrow> None)
            | _ \<Rightarrow> None)
      | _ \<Rightarrow> None)"

definition present_str :: "string \<Rightarrow> string option \<Rightarrow> (string \<times> Prelude.json) list" where
  "present_str k v = (case v of None \<Rightarrow> [] | Some s \<Rightarrow> [(k, JStr s)])"

definition mongo_json :: "mongo_options \<Rightarrow> Prelude.json" where
  "mongo_json m = JObj ([(''srv'', JBool (mo_srv m))] @ present_str ''authSource'' (mo_auth m) @ present_str ''replicaSet'' (mo_replica m))"

text \<open>
  The \<open>mongo_options\<close> column holds the JSON of the options; \<open>stored_mongo_options\<close> reads it back, and a corrupt value as
  absent.
\<close>

definition serialize_mongo_options :: "mongo_options option \<Rightarrow> Prelude.json option" where
  "serialize_mongo_options m = map_option mongo_json m"

definition stored_mongo_options :: "Prelude.json option \<Rightarrow> mongo_options option" where
  "stored_mongo_options v = (case parse_mongo_options v of None \<Rightarrow> None | Some m \<Rightarrow> m)"

section \<open>Parsing a template\<close>

definition is_hex_digit :: "char \<Rightarrow> bool" where
  "is_hex_digit c \<longleftrightarrow> is_digit c \<or> (97::nat) \<le> of_char c \<and> of_char c \<le> (102::nat) \<or> (65::nat) \<le> of_char c \<and> of_char c \<le> (70::nat)"

definition d1_account_id :: "string \<Rightarrow> bool" where
  "d1_account_id s = matches (replicate 32 is_hex_digit) s"

definition d1_database_id :: "string \<Rightarrow> bool" where
  "d1_database_id s = matches (replicate 8 is_hex_digit @ lit ''-'' @ replicate 4 is_hex_digit @ lit ''-'' @ replicate 4 is_hex_digit
     @ lit ''-'' @ replicate 4 is_hex_digit @ lit ''-'' @ replicate 12 is_hex_digit) s"

definition absent :: "Prelude.json option \<Rightarrow> bool" where
  "absent v \<longleftrightarrow> v = None \<or> v = Some JNull"

definition valid_cloudflare_d1_identity :: "Prelude.json \<Rightarrow> string \<Rightarrow> string \<Rightarrow> bool \<Rightarrow> bool" where
  "valid_cloudflare_d1_identity body host database writes \<longleftrightarrow>
     json_get body ''engine'' = Some (JStr ''sqlite'') \<and> json_get body ''provider'' = Some (JStr ''cloudflareD1'')
     \<and> json_get body ''port'' = Some (JNum 443) \<and> json_get body ''sslmode'' = Some (JStr ''require'') \<and> \<not> writes
     \<and> d1_account_id host \<and> d1_database_id database
     \<and> (absent (json_get body ''driverId'') \<or> json_get body ''driverId'' = Some (JStr ''cloudflare-d1-wrangler''))
     \<and> absent (json_get body ''schemaGroup'')"

definition valid_host :: "Prelude.json option \<Rightarrow> string option" where
  "valid_host value =
     (case required_text value 512 of
        None \<Rightarrow> None
      | Some host \<Rightarrow>
          if (\<exists>c\<in>set host. c \<in> set ''@/?#'' \<or> js_space c) \<or> str_includes ''://'' host then None else Some host)"

text \<open>\<open>/^[a-z][a-z0-9-]{4,28}[a-z0-9]$/\<close>\<close>

definition bigquery_project :: "string \<Rightarrow> bool" where
  "bigquery_project s \<longleftrightarrow>
     6 \<le> length s \<and> length s \<le> 30 \<and> is_lower (hd s) \<and> (is_lower (last s) \<or> is_digit (last s))
     \<and> (\<forall>c\<in>set s. is_lower c \<or> is_digit c \<or> c = CHR ''-'')"

definition bigquery_dataset :: "string \<Rightarrow> bool" where
  "bigquery_dataset s \<longleftrightarrow> 1 \<le> length s \<and> length s \<le> 1024 \<and> (\<forall>c\<in>set s. is_word c)"

definition valid_bigquery_boundary :: "Prelude.json \<Rightarrow> string \<Rightarrow> string \<Rightarrow> bool \<Rightarrow> bool" where
  "valid_bigquery_boundary body host database writes \<longleftrightarrow>
     json_get body ''provider'' = Some (JStr ''generic'') \<and> json_get body ''port'' = Some (JNum 443)
     \<and> json_get body ''sslmode'' = Some (JStr ''require'') \<and> \<not> writes \<and> bigquery_project host \<and> bigquery_dataset database
     \<and> json_get body ''driverId'' \<in> {Some JNull, Some (JStr ''google-bq-cli'')} \<and> absent (json_get body ''schemaGroup'')"

definition engine_of_json :: "Prelude.json option \<Rightarrow> shared_engine option" where
  "engine_of_json v = (case v of Some (JStr s) \<Rightarrow> find (\<lambda>e. engine_text e = s) shared_engines | _ \<Rightarrow> None)"

definition provider_of_json :: "Prelude.json option \<Rightarrow> shared_provider option" where
  "provider_of_json v = (case v of Some (JStr s) \<Rightarrow> find (\<lambda>e. provider_text e = s) shared_providers | _ \<Rightarrow> None)"

definition port_of_json :: "Prelude.json option \<Rightarrow> nat option" where
  "port_of_json v = (case v of Some (JNum n) \<Rightarrow> if n < 1 \<or> n > 65535 then None else Some (nat n) | _ \<Rightarrow> None)"

definition database_field :: "Prelude.json option \<Rightarrow> string option" where
  "database_field v =
     (case text_field v 1024 False of
        None \<Rightarrow> None
      | Some t \<Rightarrow> let d = (case t of None \<Rightarrow> [] | Some s \<Rightarrow> s)
          in if \<exists>c\<in>set d. c \<in> {CHR ''?'', CHR 0x23, CHR 0x0D, CHR 0x0A} then None else Some d)"

text \<open>The guards between the fields, in the order of the code.\<close>

definition boundaries_ok ::
  "Prelude.json \<Rightarrow> credential_mode \<Rightarrow> shared_engine \<Rightarrow> shared_provider \<Rightarrow> string \<Rightarrow> nat \<Rightarrow> string \<Rightarrow> bool \<Rightarrow> mongo_options option \<Rightarrow> bool" where
  "boundaries_ok body mode engine provider host port database writes mongo \<longleftrightarrow>
     \<not> (engine = SharedBigquery \<and> mode \<noteq> MemberLocal) \<and> \<not> (mode = MemberLocal \<and> writes)
     \<and> (engine = SharedBigquery \<longrightarrow> valid_bigquery_boundary body host database writes)
     \<and> (engine = SharedSqlite \<longrightarrow> mode = MemberLocal \<and> valid_cloudflare_d1_identity body host database writes)
     \<and> \<not> (provider = ProviderCloudflareD1 \<and> engine \<noteq> SharedSqlite)
     \<and> \<not> (mongo \<noteq> None \<and> engine \<noteq> SharedMongodb)
     \<and> (case mongo of None \<Rightarrow> True | Some m \<Rightarrow>
          \<not> (mo_srv m \<and> (port \<noteq> mongo_srv_port \<or> (\<exists>c\<in>set host. c = CHR '','' \<or> c = CHR '':''))))"

definition parse_shared_connection :: "credential_mode \<Rightarrow> Prelude.json \<Rightarrow> shared_connection option" where
  "parse_shared_connection mode body =
     (case body of
        JObj fs \<Rightarrow>
          if \<not> (\<forall>k\<in>set (map fst fs). k \<notin> set forbidden_keys \<and> k \<in> set allowed_keys)
             \<or> json_get body ''readonlyDefault'' \<notin> {None, Some (JBool True)}
             \<or> json_get body ''allowWrites'' \<notin> {None, Some (JBool True), Some (JBool False)} then None
          else let writes = (json_get body ''allowWrites'' = Some (JBool True))
            in (case (engine_of_json (json_get body ''engine''), provider_of_json (json_get body ''provider''),
                      port_of_json (json_get body ''port''), valid_host (json_get body ''host''),
                      database_field (json_get body ''database''), parse_mongo_options (json_get body ''mongoOptions'')) of
                 (Some engine, Some provider, Some port, Some host, Some database, Some mongo) \<Rightarrow>
                   if \<not> boundaries_ok body mode engine provider host port database writes mongo then None
                   else (case (required_text (json_get body ''name'') 120, text_field (json_get body ''driverId'') 160 False,
                               required_text (json_get body ''sslmode'') 64, text_field (json_get body ''env'') 32 False,
                               text_field (json_get body ''schemaGroup'') 120 False) of
                      (Some name, Some driver, Some sslmode, Some env, Some grp) \<Rightarrow>
                        Some \<lparr>sc_name = name, sc_engine = engine, sc_provider = provider, sc_driver = driver, sc_host = host,
                          sc_port = port, sc_database = database, sc_sslmode = sslmode, sc_readonly_default = True,
                          sc_allow_writes = writes, sc_env = connection_environment_label env, sc_schema_group = grp,
                          sc_mongo = mongo\<rparr>
                    | _ \<Rightarrow> None)
               | _ \<Rightarrow> None)
      | _ \<Rightarrow> None)"


section \<open>Versions of a template\<close>

text \<open>The JSON of a template and of a stored version, members in the order the code writes them.\<close>

definition json_text :: "string option \<Rightarrow> Prelude.json" where
  "json_text v = (case v of None \<Rightarrow> JNull | Some s \<Rightarrow> JStr s)"

definition template_fields :: "shared_connection \<Rightarrow> (string \<times> Prelude.json) list" where
  "template_fields c =
     [(''name'', JStr (sc_name c)), (''engine'', JStr (engine_text (sc_engine c))), (''provider'', JStr (provider_text (sc_provider c))),
      (''driverId'', json_text (sc_driver c)), (''host'', JStr (sc_host c)), (''port'', JNum (int (sc_port c))),
      (''database'', JStr (sc_database c)), (''sslmode'', JStr (sc_sslmode c)), (''readonlyDefault'', JBool (sc_readonly_default c)),
      (''allowWrites'', JBool (sc_allow_writes c)), (''env'', json_text (sc_env c)), (''schemaGroup'', json_text (sc_schema_group c))]
     @ (case sc_mongo c of None \<Rightarrow> [] | Some m \<Rightarrow> [(''mongoOptions'', mongo_json m)])"

record version_payload =
  vp_connection :: shared_connection
  vp_deleted :: bool

definition connection_version_payload :: "shared_connection \<Rightarrow> bool \<Rightarrow> version_payload" where
  "connection_version_payload c deleted = \<lparr>vp_connection = c, vp_deleted = deleted\<rparr>"

definition payload_json :: "version_payload \<Rightarrow> Prelude.json" where
  "payload_json p = JObj (template_fields (vp_connection p) @ [(''deleted'', JBool (vp_deleted p))])"

definition parse_connection_version_payload :: "credential_mode \<Rightarrow> Prelude.json \<Rightarrow> version_payload option" where
  "parse_connection_version_payload mode value =
     (case value of
        JObj fs \<Rightarrow>
          (case json_get value ''deleted'' of
             Some (JBool deleted) \<Rightarrow>
               map_option (\<lambda>c. connection_version_payload c deleted)
                 (parse_shared_connection mode (JObj (filter (\<lambda>(k, _). k \<noteq> ''deleted'') fs)))
           | _ \<Rightarrow> None)
      | _ \<Rightarrow> None)"

section \<open>Valid templates\<close>

text \<open>What a parsed template promises, without the parser.\<close>

definition clean_text :: "nat \<Rightarrow> string \<Rightarrow> bool" where
  "clean_text limit s \<longleftrightarrow> s \<noteq> [] \<and> length s \<le> limit \<and> js_trim s = s \<and> (\<forall>c\<in>set s. \<not> control_unit c)"

definition holds_if_some :: "('a \<Rightarrow> bool) \<Rightarrow> 'a option \<Rightarrow> bool" where
  "holds_if_some P v = (case v of None \<Rightarrow> True | Some x \<Rightarrow> P x)"

lemma holds_if_some_simps [simp]: "holds_if_some P None" "holds_if_some P (Some x) = P x"
  by (simp_all add: holds_if_some_def)

definition host_shape :: "string \<Rightarrow> bool" where
  "host_shape s \<longleftrightarrow> clean_text 512 s \<and> (\<forall>c\<in>set s. c \<notin> set ''@/?#'' \<and> \<not> js_space c) \<and> \<not> str_includes ''://'' s"

definition database_shape :: "string \<Rightarrow> bool" where
  "database_shape s \<longleftrightarrow> (s = [] \<or> clean_text 1024 s) \<and> (\<forall>c\<in>set s. c \<notin> {CHR ''?'', CHR 0x23, CHR 0x0D, CHR 0x0A})"

definition label_shape :: "string \<Rightarrow> bool" where
  "label_shape s \<longleftrightarrow> clean_text 32 s \<and> s \<noteq> ''production'' \<and> s \<noteq> ''development''"

definition mongo_shape :: "shared_connection \<Rightarrow> mongo_options \<Rightarrow> bool" where
  "mongo_shape c m \<longleftrightarrow> sc_engine c = SharedMongodb \<and> holds_if_some mongo_auth_source (mo_auth m)
     \<and> holds_if_some mongo_replica_set (mo_replica m)
     \<and> (mo_srv m \<longrightarrow> sc_port c = mongo_srv_port \<and> (\<forall>x\<in>set (sc_host c). x \<noteq> CHR '','' \<and> x \<noteq> CHR '':''))"

definition bigquery_shape :: "shared_connection \<Rightarrow> bool" where
  "bigquery_shape c \<longleftrightarrow> sc_provider c = ProviderGeneric \<and> sc_port c = 443 \<and> sc_sslmode c = ''require'' \<and> \<not> sc_allow_writes c
     \<and> bigquery_project (sc_host c) \<and> bigquery_dataset (sc_database c) \<and> sc_driver c \<in> {None, Some ''google-bq-cli''}
     \<and> sc_schema_group c = None"

definition d1_shape :: "shared_connection \<Rightarrow> bool" where
  "d1_shape c \<longleftrightarrow> sc_provider c = ProviderCloudflareD1 \<and> sc_port c = 443 \<and> sc_sslmode c = ''require'' \<and> \<not> sc_allow_writes c
     \<and> d1_account_id (sc_host c) \<and> d1_database_id (sc_database c) \<and> sc_driver c \<in> {None, Some ''cloudflare-d1-wrangler''}
     \<and> sc_schema_group c = None"

definition valid_template :: "credential_mode \<Rightarrow> shared_connection \<Rightarrow> bool" where
  "valid_template mode c \<longleftrightarrow>
     clean_text 120 (sc_name c) \<and> holds_if_some (clean_text 160) (sc_driver c) \<and> host_shape (sc_host c)
     \<and> 1 \<le> sc_port c \<and> sc_port c \<le> 65535 \<and> database_shape (sc_database c) \<and> clean_text 64 (sc_sslmode c)
     \<and> sc_readonly_default c \<and> (sc_allow_writes c \<longrightarrow> mode = Managed)
     \<and> holds_if_some label_shape (sc_env c) \<and> holds_if_some (clean_text 120) (sc_schema_group c)
     \<and> holds_if_some (mongo_shape c) (sc_mongo c)
     \<and> (sc_engine c = SharedBigquery \<longrightarrow> mode = MemberLocal \<and> bigquery_shape c)
     \<and> (sc_engine c = SharedSqlite \<longrightarrow> mode = MemberLocal \<and> d1_shape c)
     \<and> (sc_provider c = ProviderCloudflareD1 \<longrightarrow> sc_engine c = SharedSqlite)"

lemma text_field_clean: "text_field v limit r = Some t \<Longrightarrow> holds_if_some (clean_text limit) t"
  by (auto simp: text_field_def clean_text_def Let_def split: option.splits Prelude.json.splits if_splits)

lemma required_text_clean: "required_text v limit = Some s \<Longrightarrow> clean_text limit s"
  using text_field_clean [of v limit True "Some s"] by (auto simp: required_text_def bind_eq_Some_conv)

lemma clean_text_field:
  "holds_if_some (clean_text limit) t \<Longrightarrow> text_field (Some (json_text t)) limit False = Some t"
  "clean_text limit s \<Longrightarrow> text_field (Some (JStr s)) limit r = Some (Some s)"
  "clean_text limit s \<Longrightarrow> required_text (Some (JStr s)) limit = Some s"
  by (auto simp: text_field_def required_text_def clean_text_def json_text_def Let_def holds_if_some_def split: option.splits)

lemma engine_round: "engine_of_json (Some (JStr (engine_text e))) = Some e"
  by (cases e) (simp_all add: engine_of_json_def shared_engines_def)

lemma provider_round: "provider_of_json (Some (JStr (provider_text p))) = Some p"
  by (cases p) (simp_all add: provider_of_json_def shared_providers_def)

lemma engine_read: "engine_of_json v = Some e \<Longrightarrow> v = Some (JStr (engine_text e))"
  by (auto simp: engine_of_json_def find_Some_iff split: option.splits Prelude.json.splits)

lemma provider_read: "provider_of_json v = Some p \<Longrightarrow> v = Some (JStr (provider_text p))"
  by (auto simp: provider_of_json_def find_Some_iff split: option.splits Prelude.json.splits)

lemma port_read: "port_of_json v = Some n \<Longrightarrow> v = Some (JNum (int n)) \<and> 1 \<le> n \<and> n \<le> 65535"
  by (auto simp: port_of_json_def split: option.splits Prelude.json.splits if_splits)

lemma port_round: "1 \<le> n \<Longrightarrow> n \<le> 65535 \<Longrightarrow> port_of_json (Some (JNum (int n))) = Some n"
  by (simp add: port_of_json_def)

lemma host_read: "valid_host v = Some h \<Longrightarrow> host_shape h"
  by (auto simp: valid_host_def host_shape_def dest!: required_text_clean split: option.splits if_splits)

lemma host_round: "host_shape h \<Longrightarrow> valid_host (Some (JStr h)) = Some h"
  by (auto simp: valid_host_def host_shape_def clean_text_field)

lemma database_read: "database_field v = Some d \<Longrightarrow> database_shape d"
  by (auto simp: database_field_def database_shape_def Let_def dest!: text_field_clean split: option.splits if_splits)

lemma database_round: "database_shape d \<Longrightarrow> database_field (Some (JStr d)) = Some d"
proof (cases "d = []")
  case True
  then show ?thesis by (simp add: database_field_def text_field_def js_trim_def)
next
  case False
  moreover assume "database_shape d"
  ultimately show ?thesis by (auto simp: database_field_def database_shape_def clean_text_field)
qed


lemma mongo_name_read: "mongo_name v ok = Some t \<Longrightarrow> holds_if_some ok t"
  by (auto simp: mongo_name_def split: option.splits Prelude.json.splits if_splits)

definition mongo_valid :: "mongo_options \<Rightarrow> bool" where
  "mongo_valid m \<longleftrightarrow> holds_if_some mongo_auth_source (mo_auth m) \<and> holds_if_some mongo_replica_set (mo_replica m)"

lemma mongo_read: "parse_mongo_options v = Some m \<Longrightarrow> holds_if_some mongo_valid m"
  by (auto simp: parse_mongo_options_def mongo_valid_def dest!: mongo_name_read split: option.splits Prelude.json.splits if_splits bool.splits)

lemma mongo_round: "mongo_valid m \<Longrightarrow> parse_mongo_options (Some (mongo_json m)) = Some (Some m)"
  by (cases "mo_auth m"; cases "mo_replica m")
    (auto simp: parse_mongo_options_def mongo_json_def present_str_def mongo_option_keys_def mongo_name_def mongo_valid_def)

lemma label_read: "text_field v 32 False = Some t \<Longrightarrow> holds_if_some label_shape (connection_environment_label t)"
proof -
  assume "text_field v 32 False = Some t"
  then have clean: "holds_if_some (clean_text 32) t" by (rule text_field_clean)
  show ?thesis
  proof (cases "Option.bind t is_environment_kind")
    case None
    with clean show ?thesis
      by (cases t) (auto simp: connection_environment_label_def label_shape_def is_environment_kind_def environment_kinds_def)
  next
    case (Some k)
    have "label_shape ''dev''" "label_shape ''prod''" "label_shape ''staging''" "label_shape ''test''" by code_simp+
    then have "label_shape (connection_label_token k)" by (cases k) simp_all
    with Some show ?thesis by (simp add: connection_environment_label_def)
  qed
qed

lemma label_round: "holds_if_some label_shape e \<Longrightarrow> connection_environment_label e = e"
  by (cases e)
    (auto simp: connection_environment_label_def label_shape_def is_environment_kind_def environment_kinds_def split: if_splits)

lemma label_clean: "holds_if_some label_shape e \<Longrightarrow> holds_if_some (clean_text 32) e"
  by (cases e) (simp_all add: label_shape_def)

lemma text_json: "text_field v limit False = Some t \<Longrightarrow> v \<in> {None, Some JNull} \<Longrightarrow> t = None"
  by (auto simp: text_field_def)

lemma text_exact: "text_field (Some (JStr s)) limit False = Some t \<Longrightarrow> js_trim s = s \<Longrightarrow> s \<noteq> [] \<Longrightarrow> t = Some s"
  by (auto simp: text_field_def Let_def split: if_splits)

lemma boundary_texts: "js_trim ''require'' = ''require''" "js_trim ''google-bq-cli'' = ''google-bq-cli''"
  "js_trim ''cloudflare-d1-wrangler'' = ''cloudflare-d1-wrangler''"
  by code_simp+

text \<open>Success of the parser gives its parts.\<close>

lemma parse_shared_parts:
  assumes "parse_shared_connection mode v = Some c"
  shows "\<exists>fs env. v = JObj fs \<and> (\<forall>k\<in>set (map fst fs). k \<notin> set forbidden_keys \<and> k \<in> set allowed_keys)
     \<and> boundaries_ok v mode (sc_engine c) (sc_provider c) (sc_host c) (sc_port c) (sc_database c) (sc_allow_writes c) (sc_mongo c)
     \<and> engine_of_json (json_get v ''engine'') = Some (sc_engine c) \<and> provider_of_json (json_get v ''provider'') = Some (sc_provider c)
     \<and> port_of_json (json_get v ''port'') = Some (sc_port c) \<and> valid_host (json_get v ''host'') = Some (sc_host c)
     \<and> database_field (json_get v ''database'') = Some (sc_database c) \<and> parse_mongo_options (json_get v ''mongoOptions'') = Some (sc_mongo c)
     \<and> required_text (json_get v ''name'') 120 = Some (sc_name c) \<and> text_field (json_get v ''driverId'') 160 False = Some (sc_driver c)
     \<and> required_text (json_get v ''sslmode'') 64 = Some (sc_sslmode c) \<and> text_field (json_get v ''env'') 32 False = Some env
     \<and> sc_env c = connection_environment_label env \<and> text_field (json_get v ''schemaGroup'') 120 False = Some (sc_schema_group c)
     \<and> sc_readonly_default c"
  using assms unfolding parse_shared_connection_def Let_def
  by (auto simp del: json_get.simps split: Prelude.json.splits option.splits if_splits)

lemma require_text: "required_text (Some (JStr ''require'')) 64 = Some s \<Longrightarrow> s = ''require''"
  using text_exact [of "''require''" 64] by (auto simp: required_text_def text_field_def boundary_texts Let_def split: if_splits)

lemma provider_names: "provider_text p = ''generic'' \<longleftrightarrow> p = ProviderGeneric" "provider_text p = ''cloudflareD1'' \<longleftrightarrow> p = ProviderCloudflareD1"
  by (cases p; simp)+

lemma driver_exact:
  assumes "text_field v 160 False = Some t" "v \<in> {None, Some JNull, Some (JStr s)}" "js_trim s = s" "s \<noteq> []"
  shows "t \<in> {None, Some s}"
  using assms text_json text_exact by fastforce

lemma absent_text: "text_field v limit False = Some t \<Longrightarrow> absent v \<Longrightarrow> t = None"
  using text_json by (auto simp: absent_def)

text \<open>
  C27. Whatever JSON \<open>parseSharedConnection\<close> accepts, the template it returns is well formed: trimmed, bounded texts without
  control characters, a host without credentials or a URL, a real port, read-only by default, writes only for managed
  credentials, and for BigQuery and Cloudflare D1 exactly the shape their boundary allows.
\<close>

theorem parsed_template_is_valid:
  assumes "parse_shared_connection mode v = Some c"
  shows "valid_template mode c"
proof -
  from parse_shared_parts [OF assms] obtain fs env where p: "v = JObj fs"
      "boundaries_ok v mode (sc_engine c) (sc_provider c) (sc_host c) (sc_port c) (sc_database c) (sc_allow_writes c) (sc_mongo c)"
      "port_of_json (json_get v ''port'') = Some (sc_port c)" "valid_host (json_get v ''host'') = Some (sc_host c)"
      "database_field (json_get v ''database'') = Some (sc_database c)" "parse_mongo_options (json_get v ''mongoOptions'') = Some (sc_mongo c)"
      "required_text (json_get v ''name'') 120 = Some (sc_name c)" "text_field (json_get v ''driverId'') 160 False = Some (sc_driver c)"
      "required_text (json_get v ''sslmode'') 64 = Some (sc_sslmode c)" "text_field (json_get v ''env'') 32 False = Some env"
      "sc_env c = connection_environment_label env" "text_field (json_get v ''schemaGroup'') 120 False = Some (sc_schema_group c)"
      "sc_readonly_default c" "provider_of_json (json_get v ''provider'') = Some (sc_provider c)"
    by (elim exE conjE) (rule that)
  note port = port_read [OF p(3)] and provider = provider_read [OF p(14)]
  have mongo: "holds_if_some (mongo_shape c) (sc_mongo c)"
    using mongo_read [OF p(6)] p(2) by (cases "sc_mongo c") (auto simp: boundaries_ok_def mongo_shape_def mongo_valid_def)
  have bigquery: "bigquery_shape c" if "valid_bigquery_boundary v (sc_host c) (sc_database c) (sc_allow_writes c)"
    using that port provider driver_exact [OF p(8), of "''google-bq-cli''"] absent_text [OF p(12)] p(9) require_text
    by (auto simp: valid_bigquery_boundary_def bigquery_shape_def boundary_texts provider_names)
  have d1: "d1_shape c" if "valid_cloudflare_d1_identity v (sc_host c) (sc_database c) (sc_allow_writes c)"
    using that port provider driver_exact [OF p(8), of "''cloudflare-d1-wrangler''"] absent_text [OF p(12)] p(9) require_text
    by (auto simp: valid_cloudflare_d1_identity_def d1_shape_def boundary_texts provider_names absent_def)
  show ?thesis
    unfolding valid_template_def
    using p(2,13) port mongo host_read [OF p(4)] database_read [OF p(5)] required_text_clean [OF p(7)]
      text_field_clean [OF p(8)] required_text_clean [OF p(9)] label_read [OF p(10)] text_field_clean [OF p(12)] p(11)
    by (cases mode) (auto simp: boundaries_ok_def intro: bigquery d1)
qed


definition sample_template :: shared_connection where
  "sample_template = \<lparr>sc_name = ''Orders'', sc_engine = SharedMongodb, sc_provider = ProviderGeneric, sc_driver = None,
     sc_host = ''db.example.com'', sc_port = 27017, sc_database = ''orders'', sc_sslmode = ''require'', sc_readonly_default = True,
     sc_allow_writes = False, sc_env = Some ''prod'', sc_schema_group = None,
     sc_mongo = Some \<lparr>mo_srv = True, mo_auth = Some ''admin'', mo_replica = None\<rparr>\<rparr>"

text \<open>What a desktop may send for it: spaces around the name and the environment as a kind.\<close>

definition sample_body :: Prelude.json where
  "sample_body = JObj [(''name'', JStr '' Orders ''), (''engine'', JStr ''mongodb''), (''provider'', JStr ''generic''),
     (''host'', JStr ''db.example.com''), (''port'', JNum 27017), (''database'', JStr ''orders''), (''sslmode'', JStr ''require''),
     (''env'', JStr ''production''), (''mongoOptions'', JObj [(''srv'', JBool True), (''authSource'', JStr ''admin'')])]"

lemma sample_parses: "parse_shared_connection MemberLocal sample_body = Some sample_template"
  by code_simp

theorem parsed_template_is_valid_witness: "valid_template MemberLocal sample_template"
  by (rule parsed_template_is_valid [OF sample_parses])

text \<open>Conversely the JSON of a valid template parses back to it, in a version payload too.\<close>

lemma template_get:
  "json_get (JObj (template_fields c)) ''name'' = Some (JStr (sc_name c))"
  "json_get (JObj (template_fields c)) ''engine'' = Some (JStr (engine_text (sc_engine c)))"
  "json_get (JObj (template_fields c)) ''provider'' = Some (JStr (provider_text (sc_provider c)))"
  "json_get (JObj (template_fields c)) ''driverId'' = Some (json_text (sc_driver c))"
  "json_get (JObj (template_fields c)) ''host'' = Some (JStr (sc_host c))"
  "json_get (JObj (template_fields c)) ''port'' = Some (JNum (int (sc_port c)))"
  "json_get (JObj (template_fields c)) ''database'' = Some (JStr (sc_database c))"
  "json_get (JObj (template_fields c)) ''sslmode'' = Some (JStr (sc_sslmode c))"
  "json_get (JObj (template_fields c)) ''readonlyDefault'' = Some (JBool (sc_readonly_default c))"
  "json_get (JObj (template_fields c)) ''allowWrites'' = Some (JBool (sc_allow_writes c))"
  "json_get (JObj (template_fields c)) ''env'' = Some (json_text (sc_env c))"
  "json_get (JObj (template_fields c)) ''schemaGroup'' = Some (json_text (sc_schema_group c))"
  "json_get (JObj (template_fields c)) ''mongoOptions'' = map_option mongo_json (sc_mongo c)"
  by (simp_all add: template_fields_def split: option.split)

lemma template_keys:
  "\<forall>k\<in>set (map fst (template_fields c)). k \<notin> set forbidden_keys \<and> k \<in> set allowed_keys"
  "''deleted'' \<notin> set (map fst (template_fields c))"
  by (cases "sc_mongo c"; simp add: template_fields_def forbidden_keys_def allowed_keys_def)+

text \<open>An object whose members hold the fields of a template, in any order.\<close>

definition represents :: "Prelude.json \<Rightarrow> shared_connection \<Rightarrow> bool" where
  "represents v c \<longleftrightarrow>
     (\<exists>fs. v = JObj fs \<and> (\<forall>k\<in>set (map fst fs). k \<notin> set forbidden_keys \<and> k \<in> set allowed_keys))
     \<and> json_get v ''name'' = Some (JStr (sc_name c)) \<and> json_get v ''engine'' = Some (JStr (engine_text (sc_engine c)))
     \<and> json_get v ''provider'' = Some (JStr (provider_text (sc_provider c))) \<and> json_get v ''driverId'' = Some (json_text (sc_driver c))
     \<and> json_get v ''host'' = Some (JStr (sc_host c)) \<and> json_get v ''port'' = Some (JNum (int (sc_port c)))
     \<and> json_get v ''database'' = Some (JStr (sc_database c)) \<and> json_get v ''sslmode'' = Some (JStr (sc_sslmode c))
     \<and> json_get v ''readonlyDefault'' = Some (JBool (sc_readonly_default c)) \<and> json_get v ''allowWrites'' = Some (JBool (sc_allow_writes c))
     \<and> json_get v ''env'' = Some (json_text (sc_env c)) \<and> json_get v ''schemaGroup'' = Some (json_text (sc_schema_group c))
     \<and> parse_mongo_options (json_get v ''mongoOptions'') = Some (sc_mongo c)"

lemma represented_boundaries:
  assumes "valid_template mode c" "represents v c"
  shows "boundaries_ok v mode (sc_engine c) (sc_provider c) (sc_host c) (sc_port c) (sc_database c) (sc_allow_writes c) (sc_mongo c)"
proof -
  have "valid_bigquery_boundary v (sc_host c) (sc_database c) (sc_allow_writes c)" if "bigquery_shape c"
    using that assms(2) unfolding bigquery_shape_def valid_bigquery_boundary_def represents_def absent_def
    by (auto simp: json_text_def simp del: json_get.simps)
  moreover have "valid_cloudflare_d1_identity v (sc_host c) (sc_database c) (sc_allow_writes c)"
    if "d1_shape c" "sc_engine c = SharedSqlite"
    using that assms(2) unfolding d1_shape_def valid_cloudflare_d1_identity_def represents_def absent_def
    by (auto simp: json_text_def simp del: json_get.simps)
  moreover have "case sc_mongo c of None \<Rightarrow> True
      | Some m \<Rightarrow> \<not> (mo_srv m \<and> (sc_port c \<noteq> mongo_srv_port \<or> (\<exists>x\<in>set (sc_host c). x = CHR '','' \<or> x = CHR '':'')))"
    "sc_mongo c \<noteq> None \<longrightarrow> sc_engine c = SharedMongodb"
    using assms(1) by (auto simp: valid_template_def mongo_shape_def split: option.split)
  ultimately show ?thesis using assms(1) unfolding boundaries_ok_def valid_template_def by auto
qed

lemma valid_template_fields:
  assumes "valid_template mode c"
  shows "required_text (Some (JStr (sc_name c))) 120 = Some (sc_name c)" "required_text (Some (JStr (sc_sslmode c))) 64 = Some (sc_sslmode c)"
    "text_field (Some (json_text (sc_driver c))) 160 False = Some (sc_driver c)" "text_field (Some (json_text (sc_env c))) 32 False = Some (sc_env c)"
    "text_field (Some (json_text (sc_schema_group c))) 120 False = Some (sc_schema_group c)" "connection_environment_label (sc_env c) = sc_env c"
    "valid_host (Some (JStr (sc_host c))) = Some (sc_host c)" "database_field (Some (JStr (sc_database c))) = Some (sc_database c)"
    "port_of_json (Some (JNum (int (sc_port c)))) = Some (sc_port c)" "sc_readonly_default c"
  using assms label_clean [of "sc_env c"]
  by (simp_all add: valid_template_def clean_text_field label_round host_round database_round port_round)

lemma parse_represented:
  assumes "valid_template mode c" "represents v c"
  shows "parse_shared_connection mode v = Some c"
proof -
  from assms(2) obtain fs where fs: "v = JObj fs" "\<forall>k\<in>set (map fst fs). k \<notin> set forbidden_keys \<and> k \<in> set allowed_keys"
    unfolding represents_def by blast
  note gets = assms(2) [unfolded represents_def fs(1), THEN conjunct2] and boundaries = represented_boundaries [OF assms, unfolded fs(1)]
  show ?thesis
    unfolding fs(1) parse_shared_connection_def using gets boundaries fs(2)
    by (simp add: engine_round provider_round valid_template_fields [OF assms(1)] Let_def del: json_get.simps list.set_map)
qed

lemma mongo_template: "valid_template mode c \<Longrightarrow> sc_mongo c = Some m \<Longrightarrow> mongo_valid m"
  by (simp add: valid_template_def mongo_shape_def mongo_valid_def)

lemma template_represents: "valid_template mode c \<Longrightarrow> represents (JObj (template_fields c)) c"
proof -
  assume "valid_template mode c"
  then have "parse_mongo_options (map_option mongo_json (sc_mongo c)) = Some (sc_mongo c)"
    using mongo_template [of mode c] by (cases "sc_mongo c") (simp_all add: mongo_round, simp add: parse_mongo_options_def)
  then show ?thesis using template_keys(1) [of c] unfolding represents_def template_get by blast
qed

theorem template_round_trip:
  assumes "valid_template mode c"
  shows "parse_shared_connection mode (JObj (template_fields c)) = Some c"
  by (rule parse_represented [OF assms template_represents [OF assms]])

text \<open>A template without writes is a member-local template.\<close>

lemma valid_member_local: "valid_template mode c \<Longrightarrow> \<not> sc_allow_writes c \<Longrightarrow> valid_template MemberLocal c"
  by (auto simp: valid_template_def)

lemma writes_need_managed:
  assumes "json_get v ''allowWrites'' = Some (JBool True)"
  shows "parse_shared_connection MemberLocal v = None"
  using assms unfolding parse_shared_connection_def boundaries_ok_def
  by (auto simp del: json_get.simps split: Prelude.json.splits option.splits)


lemma payload_deleted: "json_get (payload_json p) ''deleted'' = Some (JBool (vp_deleted p))"
proof -
  have "map_of (template_fields (vp_connection p)) ''deleted'' = None"
    using template_keys(2) [of "vp_connection p"] by (simp add: map_of_eq_None_iff)
  then show ?thesis by (simp add: payload_json_def map_add_def)
qed

text \<open>
  C28. The stored JSON of a connection version whose template is well formed parses back, under the same credential mode, to
  exactly the payload it was written from.
\<close>

theorem version_payload_round_trip:
  assumes "valid_template mode (vp_connection p)"
  shows "parse_connection_version_payload mode (payload_json p) = Some p"
proof -
  have rest: "filter (\<lambda>(k, _). k \<noteq> ''deleted'') (template_fields (vp_connection p)) = template_fields (vp_connection p)"
    using template_keys(2) by (force simp: filter_id_conv)
  have "parse_connection_version_payload mode (payload_json p) = map_option (\<lambda>c. connection_version_payload c (vp_deleted p))
      (parse_shared_connection mode (JObj (template_fields (vp_connection p))))"
    using payload_deleted [of p] unfolding parse_connection_version_payload_def payload_json_def by (simp add: rest del: json_get.simps)
  then show ?thesis by (simp add: template_round_trip [OF assms] connection_version_payload_def)
qed

lemma sample_valid: "valid_template MemberLocal sample_template"
proof -
  have "clean_text 120 ''Orders''" "clean_text 64 ''require''" "host_shape ''db.example.com''" "database_shape ''orders''"
    "label_shape ''prod''" "mongo_auth_source ''admin''" "\<forall>x\<in>set ''db.example.com''. x \<noteq> CHR '','' \<and> x \<noteq> CHR '':''"
    by code_simp+
  then show ?thesis
    by (simp add: valid_template_def sample_template_def mongo_shape_def mongo_srv_port_def del: list.set)
qed

theorem version_payload_round_trip_witness:
  "parse_connection_version_payload MemberLocal (payload_json \<lparr>vp_connection = sample_template, vp_deleted = True\<rparr>)
    = Some \<lparr>vp_connection = sample_template, vp_deleted = True\<rparr>"
  by (rule version_payload_round_trip) (simp add: sample_valid)

section \<open>Direct databases\<close>

definition direct_keys :: "string list" where
  "direct_keys = [''name'', ''engine'', ''host'', ''port'', ''database'', ''sslmode'', ''env'', ''schemaGroup'', ''scope'', ''writeCeiling'']"

fun direct_ssl_modes :: "direct_engine \<Rightarrow> string list" where
  "direct_ssl_modes DirectPostgres = [''verify-full'', ''require'']"
| "direct_ssl_modes DirectMysql = [''VERIFY_IDENTITY'', ''REQUIRED'']"

record direct_endpoint_input =
  dn_connection :: shared_connection
  dn_scope :: "string list"
  dn_write_ceiling :: bool

text \<open>The JSON value as far as the guards of \<open>DirectAccess\<close> look into it.\<close>

fun direct_json :: "Prelude.json \<Rightarrow> DirectAccess.json" where
  "direct_json (JStr s) = JString s"
| "direct_json (JArr vs) = JArray (map direct_json vs)"
| "direct_json _ = JOther"

definition direct_value :: "Prelude.json option \<Rightarrow> DirectAccess.json" where
  "direct_value v = (case v of None \<Rightarrow> JOther | Some j \<Rightarrow> direct_json j)"

definition direct_sslmode :: "direct_engine \<Rightarrow> Prelude.json option \<Rightarrow> string option" where
  "direct_sslmode engine v =
     (case v of
        None \<Rightarrow> Some (hd (direct_ssl_modes engine))
      | Some (JStr s) \<Rightarrow> if s \<in> set (direct_ssl_modes engine) then Some s else None
      | _ \<Rightarrow> None)"

definition direct_database :: "Prelude.json option \<Rightarrow> string option" where
  "direct_database v =
     (case required_text v 1024 of
        None \<Rightarrow> None
      | Some d \<Rightarrow> if \<exists>c\<in>set d. c \<in> {CHR ''?'', CHR 0x23, CHR 0x0D, CHR 0x0A} then None else Some d)"

definition parse_direct_endpoint :: "Prelude.json \<Rightarrow> direct_endpoint_input option" where
  "parse_direct_endpoint body =
     (case body of
        JObj fs \<Rightarrow>
          if \<not> (\<forall>k\<in>set (map fst fs). k \<notin> set forbidden_keys \<and> k \<in> set direct_keys)
             \<or> json_get body ''writeCeiling'' \<notin> {None, Some (JBool True), Some (JBool False)} then None
          else (case is_direct_engine (direct_value (json_get body ''engine'')) of
              None \<Rightarrow> None
            | Some engine \<Rightarrow>
                (case (port_of_json (json_get body ''port''), direct_sslmode engine (json_get body ''sslmode''),
                       valid_host (json_get body ''host''), direct_database (json_get body ''database''),
                       required_text (json_get body ''name'') 120, text_field (json_get body ''env'') 32 False,
                       text_field (json_get body ''schemaGroup'') 120 False, parse_direct_scope engine (direct_value (json_get body ''scope''))) of
                   (Some port, Some sslmode, Some host, Some database, Some name, Some env, Some grp, Some scope) \<Rightarrow>
                     Some \<lparr>dn_connection = \<lparr>sc_name = name,
                             sc_engine = (case engine of DirectPostgres \<Rightarrow> SharedPostgres | DirectMysql \<Rightarrow> SharedMysql),
                             sc_provider = ProviderGeneric, sc_driver = None, sc_host = host, sc_port = port, sc_database = database,
                             sc_sslmode = sslmode, sc_readonly_default = True, sc_allow_writes = False,
                             sc_env = connection_environment_label env, sc_schema_group = grp, sc_mongo = None\<rparr>,
                           dn_scope = scope, dn_write_ceiling = (json_get body ''writeCeiling'' = Some (JBool True))\<rparr>
                 | _ \<Rightarrow> None))
      | _ \<Rightarrow> None)"

lemma direct_sslmode_clean: "direct_sslmode e v = Some s \<Longrightarrow> clean_text 64 s"
proof -
  assume "direct_sslmode e v = Some s"
  then have "s \<in> {''verify-full'', ''require'', ''VERIFY_IDENTITY'', ''REQUIRED''}"
    by (cases e) (auto simp: direct_sslmode_def split: option.splits Prelude.json.splits if_splits)
  moreover have "clean_text 64 ''verify-full''" "clean_text 64 ''require''" "clean_text 64 ''VERIFY_IDENTITY''" "clean_text 64 ''REQUIRED''"
    by code_simp+
  ultimately show ?thesis by auto
qed

lemma direct_database_shape: "direct_database v = Some d \<Longrightarrow> database_shape d"
  by (auto simp: direct_database_def database_shape_def dest!: required_text_clean split: option.splits if_splits)

text \<open>A direct endpoint carries an ordinary valid template that delegates no writes.\<close>

theorem direct_endpoint_is_valid:
  assumes "parse_direct_endpoint v = Some d"
  shows "valid_template MemberLocal (dn_connection d) \<and> sc_engine (dn_connection d) \<in> {SharedPostgres, SharedMysql}
     \<and> dn_scope d \<noteq> []"
proof -
  from assms obtain engine env ceiling where p: "port_of_json (json_get v ''port'') = Some (sc_port (dn_connection d))"
      "direct_sslmode engine (json_get v ''sslmode'') = Some (sc_sslmode (dn_connection d))"
      "valid_host (json_get v ''host'') = Some (sc_host (dn_connection d))"
      "direct_database (json_get v ''database'') = Some (sc_database (dn_connection d))"
      "required_text (json_get v ''name'') 120 = Some (sc_name (dn_connection d))" "text_field (json_get v ''env'') 32 False = Some env"
      "sc_env (dn_connection d) = connection_environment_label env"
      "text_field (json_get v ''schemaGroup'') 120 False = Some (sc_schema_group (dn_connection d))"
      "parse_direct_scope engine (direct_value (json_get v ''scope'')) = Some (dn_scope d)"
      "sc_engine (dn_connection d) \<in> {SharedPostgres, SharedMysql}" "sc_provider (dn_connection d) = ProviderGeneric"
      "sc_driver (dn_connection d) = None" "sc_mongo (dn_connection d) = None" "sc_readonly_default (dn_connection d)"
      "\<not> sc_allow_writes (dn_connection d)"
    unfolding parse_direct_endpoint_def
    by (auto simp del: json_get.simps split: Prelude.json.splits option.splits if_splits direct_engine.splits)
  have "dn_scope d \<noteq> []" using p(9) by (auto simp: scope_parser_exact)
  then show ?thesis
    using p port_read [OF p(1)] direct_sslmode_clean [OF p(2)] host_read [OF p(3)] direct_database_shape [OF p(4)]
      required_text_clean [OF p(5)] label_read [OF p(6)] text_field_clean [OF p(8)]
    by (auto simp: valid_template_def)
qed


section \<open>Provider capabilities\<close>

definition provider_resource_supports_write :: "Prelude.json option \<Rightarrow> bool" where
  "provider_resource_supports_write value =
     (case value of
        Some (JObj fs) \<Rightarrow>
          json_get (JObj fs) ''importReadOnly'' = Some (JBool True) \<and> json_get (JObj fs) ''managedLease'' = Some (JBool True)
          \<and> json_get (JObj fs) ''write'' = Some (JBool True)
      | _ \<Rightarrow> False)"

text \<open>\<open>s.split(/\s+/)\<close>; the empty parts at the ends match no scope. \<open>encode\<close> is \<open>encodeURIComponent\<close>.\<close>

function split_spaces :: "string \<Rightarrow> string list" where
  "split_spaces s =
     (if takeWhile (\<lambda>c. \<not> js_space c) s = s then [s]
      else takeWhile (\<lambda>c. \<not> js_space c) s # split_spaces (dropWhile js_space (dropWhile (\<lambda>c. \<not> js_space c) s)))"
  by pat_completeness auto
termination
proof (relation "measure length")
  fix s :: string assume a: "takeWhile (\<lambda>c. \<not> js_space c) s \<noteq> s"
  let ?d = "dropWhile (\<lambda>c. \<not> js_space c) s"
  have "?d \<noteq> []" using a by (metis append_Nil2 takeWhile_dropWhile_id)
  then have "js_space (hd ?d)" using hd_dropWhile by blast
  with \<open>?d \<noteq> []\<close> have "length (dropWhile js_space ?d) < length ?d"
    by (cases ?d) (simp_all add: le_imp_less_Suc length_dropWhile_le)
  also have "length ?d \<le> length s" by (rule length_dropWhile_le)
  finally show "(dropWhile js_space ?d, s) \<in> measure length" by simp
qed simp

declare split_spaces.simps [simp del]

definition provider_schema_setup_required :: "(string \<Rightarrow> string) \<Rightarrow> string \<Rightarrow> string option \<Rightarrow> string option \<Rightarrow> bool" where
  "provider_schema_setup_required encode provider granted database \<longleftrightarrow>
     provider = ''gcpCloudSql''
     \<and> \<not> (case granted of None \<Rightarrow> False | Some scopes \<Rightarrow>
          \<exists>s\<in>set (split_spaces scopes). s = ''cloudsql.schema''
             \<or> (case database of None \<Rightarrow> False | Some d \<Rightarrow> s = ''cloudsql.schema:'' @ encode d))"

definition provider_resource_supports_schema ::
  "(string \<Rightarrow> string) \<Rightarrow> string \<Rightarrow> string \<Rightarrow> Prelude.json option \<Rightarrow> string option \<Rightarrow> string option \<Rightarrow> bool" where
  "provider_resource_supports_schema encode provider engine manifest granted database \<longleftrightarrow>
     provider \<in> {''neon'', ''gcpCloudSql''} \<and> engine = ''postgres'' \<and> provider_resource_supports_write manifest
     \<and> \<not> provider_schema_setup_required encode provider granted database"

section \<open>Public records\<close>

record connection_entry =
  ce_id :: string
  ce_org :: string
  ce_name :: string
  ce_engine :: shared_engine
  ce_provider :: shared_provider
  ce_driver :: "string option"
  ce_host :: string
  ce_port :: nat
  ce_database :: string
  ce_sslmode :: string
  ce_readonly_default :: bool
  ce_allow_writes :: bool
  ce_env :: "string option"
  ce_schema_group :: "string option"
  ce_mongo :: "Prelude.json option"
  ce_mode :: credential_mode
  ce_provisioned :: bool
  ce_team_read :: bool
  ce_integration :: "string option"
  ce_resource_id :: "string option"
  ce_content_revision :: nat
  ce_revision :: nat
  ce_updated :: int
  ce_deleted :: "int option"
  ce_pending :: "int option"
  ce_claim :: "string option"
  ce_created_by :: string

record direct_principal =
  dp_state :: principal_state
  dp_level :: direct_level
  dp_name :: string
  dp_synced :: "int option"
  dp_failure :: "string option"

record direct_view =
  dv_write_ceiling :: bool
  dv_principal :: "direct_principal option"

text \<open>\<open>pd_state\<close> is \<open>None\<close> for \<open>not_requested\<close>.\<close>

record public_direct =
  pd_state :: "principal_state option"
  pd_level :: direct_level
  pd_name :: "string option"
  pd_synced :: "int option"
  pd_failure :: "string option"

definition public_direct_provisioning :: "direct_view \<Rightarrow> public_direct" where
  "public_direct_provisioning d =
     (case dv_principal d of
        None \<Rightarrow> \<lparr>pd_state = None, pd_level = LevelNone, pd_name = None, pd_synced = None, pd_failure = None\<rparr>
      | Some p \<Rightarrow> \<lparr>pd_state = Some (dp_state p), pd_level = dp_level p, pd_name = Some (dp_name p), pd_synced = dp_synced p,
          pd_failure = dp_failure p\<rparr>)"

definition member_credential_write :: "connection_entry \<Rightarrow> access_mode \<Rightarrow> direct_view option \<Rightarrow> bool" where
  "member_credential_write row mode direct =
     (if ce_mode row = Managed \<or> ce_engine row = SharedBigquery \<or> ce_engine row = SharedMongodb \<or> ce_provider row = ProviderCloudflareD1
      then False
      else access_mode_allows_write mode \<and> (case direct of None \<Rightarrow> True | Some d \<Rightarrow> dv_write_ceiling d))"

record 't public_connection =
  pc_id :: string
  pc_name :: string
  pc_engine :: shared_engine
  pc_provider :: shared_provider
  pc_driver :: "string option"
  pc_host :: string
  pc_port :: nat
  pc_database :: string
  pc_sslmode :: string
  pc_readonly_default :: bool
  pc_allow_writes :: bool
  pc_member_write :: bool
  pc_write_available :: bool
  pc_schema_access :: bool
  pc_env :: "string option"
  pc_schema_group :: "string option"
  pc_revision :: nat
  pc_updated :: int
  pc_role :: workspace_role
  pc_access_mode :: access_mode
  pc_credential_mode :: credential_mode
  pc_credentials_required :: bool
  pc_mongo :: "mongo_options option"
  pc_provisioning :: "public_direct option"
  pc_target :: "'t option"

definition public_connection ::
  "connection_entry \<Rightarrow> workspace_role \<Rightarrow> access_mode \<Rightarrow> bool \<Rightarrow> bool \<Rightarrow> direct_view option \<Rightarrow> 't option \<Rightarrow> 't public_connection" where
  "public_connection row role mode write_available schema_available direct target =
     (let managed = (ce_mode row = Managed);
          effective = (case direct of
             Some d \<Rightarrow> dv_write_ceiling d \<and> access_mode_allows_write mode
           | None \<Rightarrow> managed \<and> write_available \<and> ce_allow_writes row \<and> access_mode_allows_write mode)
      in \<lparr>pc_id = ce_id row, pc_name = ce_name row, pc_engine = ce_engine row, pc_provider = ce_provider row, pc_driver = ce_driver row,
          pc_host = ce_host row, pc_port = ce_port row, pc_database = ce_database row, pc_sslmode = ce_sslmode row,
          pc_readonly_default = True, pc_allow_writes = effective, pc_member_write = member_credential_write row mode direct,
          pc_write_available = (managed \<and> write_available), pc_schema_access = (managed \<and> write_available \<and> schema_available),
          pc_env = ce_env row, pc_schema_group = ce_schema_group row, pc_revision = ce_content_revision row, pc_updated = ce_updated row,
          pc_role = role, pc_access_mode = mode, pc_credential_mode = (if managed then Managed else MemberLocal),
          pc_credentials_required = (\<not> managed \<and> direct = None \<and> ce_engine row \<noteq> SharedBigquery \<and> ce_engine row \<noteq> SharedSqlite),
          pc_mongo = (if ce_engine row = SharedMongodb then stored_mongo_options (ce_mongo row) else None),
          pc_provisioning = map_option public_direct_provisioning direct, pc_target = target\<rparr>)"

text \<open>
  No public record offers more than the member's access mode: every write flag needs a writing mode; the flags of the two
  credential modes exclude each other except on a direct database, whose ceiling bounds both.
\<close>

theorem public_record_never_exceeds_access:
  "(pc_allow_writes (public_connection row role mode wa sa direct target) \<or> pc_member_write (public_connection row role mode wa sa direct target)
      \<longrightarrow> access_mode_allows_write mode \<and> (\<forall>d. direct = Some d \<longrightarrow> dv_write_ceiling d))
   \<and> (direct = None \<longrightarrow> \<not> (pc_allow_writes (public_connection row role mode wa sa direct target)
        \<and> pc_member_write (public_connection row role mode wa sa direct target)))
   \<and> (pc_schema_access (public_connection row role mode wa sa direct target)
        \<longrightarrow> pc_write_available (public_connection row role mode wa sa direct target) \<and> ce_mode row = Managed)"
  by (auto simp: public_connection_def member_credential_write_def Let_def split: option.splits)

end
