(* ===== verification/WorkspaceTables.thy ===== *)
theory WorkspaceTables
  imports Authorization SharedConnections AtomicBatch
begin

text \<open>
  The tables of shared connections, their versions, backups and data keys (\<open>workspace-cloud/lib/d1/schema/\<close>): rows, the checks
  and unique indexes a write must keep, and the authority a batch proves inside its scope (\<open>workspace-versioning-store.ts\<close>,
  \<open>d1/member-authority.ts\<close>). A write is \<open>None\<close> when a constraint fails. Times are numbers; \<open>clk\<close> is the clock of the database.
\<close>

definition max_safe :: nat where
  "max_safe = 9007199254740991"

section \<open>Tables\<close>

record live_session =
  ls_id :: string
  ls_user :: string
  ls_expires :: int

record grant_entry =
  gn_org :: string
  gn_connection :: string
  gn_member :: string
  gn_capability :: connection_capability
  gn_team :: bool

record endpoint_entry =
  ee_org :: string
  ee_connection :: string
  ee_engine :: shared_engine
  ee_scope :: "string list"
  ee_write_ceiling :: bool

record principal_entry =
  pe_org :: string
  pe_connection :: string
  pe_member :: string
  pe_state :: principal_state
  pe_level :: direct_level
  pe_claim_expires :: "int option"

datatype revocation_state = RevocationPending | RevocationApplied | RevocationCancelled

record direct_revocation =
  dr_org :: string
  dr_connection :: string
  dr_member :: string
  dr_state :: revocation_state

datatype version_operation = VersionCreate | VersionUpdate | VersionDelete | VersionRestore

text \<open>\<open>rv_main\<close> says whether the branch is \<open>main\<close>; the other branch is \<open>conflict\<close>.\<close>

record revision_row =
  rv_id :: string
  rv_org :: string
  rv_resource :: string
  rv_revision :: nat
  rv_base :: "nat option"
  rv_parent :: "string option"
  rv_main :: bool
  rv_operation :: version_operation
  rv_payload :: Prelude.json
  rv_hash :: string
  rv_user :: string

record conflict_entry =
  cf_id :: string
  cf_org :: string
  cf_resource :: string
  cf_expected :: nat
  cf_server :: string
  cf_candidate :: string
  cf_user :: string
  cf_created :: int

datatype conflict_resolution = KeepServer | KeepCandidate | Dismissed

record decision_entry =
  dc_id :: string
  dc_org :: string
  dc_conflict :: string
  dc_resolution :: conflict_resolution
  dc_resulting :: string
  dc_user :: string

record audit_entry =
  ae_org :: string
  ae_actor :: string
  ae_action :: string
  ae_type :: string
  ae_resource :: string
  ae_summary :: "(string \<times> Prelude.json) list"

record workspace_entry =
  we_id :: string
  we_lifecycle :: string
  we_region :: "string option"
  we_revision :: nat
  we_key_ref :: "string option"

record backup_entry =
  bk_id :: string
  bk_org :: string
  bk_source_revision :: nat
  bk_key_reference :: string
  bk_key_version :: string
  bk_data_key :: "string option"
  bk_ciphertext :: string
  bk_hash :: string
  bk_user :: string
  bk_created :: int
  bk_reencrypted :: "(int \<times> string) option"
  bk_deleted :: "int option"
  bk_purge :: "int option"

record chunk_entry =
  ck_org :: string
  ck_backup :: string
  ck_manifest :: string
  ck_part :: nat
  ck_text :: string

record data_key =
  dk_id :: string
  dk_org :: string
  dk_version :: nat
  dk_reference :: string
  dk_kms_version :: string
  dk_wrapped :: "string option"
  dk_user :: string
  dk_retired :: "int option"
  dk_destroyed :: "int option"

record rotation_entry =
  ro_id :: string
  ro_org :: string
  ro_from :: string
  ro_to :: string
  ro_key :: string
  ro_running :: bool
  ro_processed :: nat
  ro_claim :: "(string \<times> int) option"
  ro_user :: string
  ro_created :: int
  ro_completed :: "int option"

text \<open>\<open>vd_exclusions\<close> holds (workspace, connection, user).\<close>

record versions_db =
  vd_sessions :: "live_session list"
  vd_members :: "member_row list"
  vd_workspaces :: "workspace_entry list"
  vd_connections :: "connection_entry list"
  vd_grants :: "grant_entry list"
  vd_exclusions :: "(string \<times> string \<times> string) list"
  vd_endpoints :: "endpoint_entry list"
  vd_principals :: "principal_entry list"
  vd_revocations :: "direct_revocation list"
  vd_versions :: "revision_row list"
  vd_conflicts :: "conflict_entry list"
  vd_decisions :: "decision_entry list"
  vd_audit :: "audit_entry list"
  vd_backups :: "backup_entry list"
  vd_chunks :: "chunk_entry list"
  vd_keys :: "data_key list"
  vd_rotations :: "rotation_entry list"

section \<open>Row checks and writes\<close>

definition connection_check :: "connection_entry \<Rightarrow> bool" where
  "connection_check c \<longleftrightarrow>
     (ce_claim c \<noteq> None \<longrightarrow> ce_pending c \<noteq> None)
     \<and> (ce_provisioned c \<longrightarrow> ce_mode c = MemberLocal)
     \<and> 1 \<le> ce_content_revision c \<and> ce_content_revision c \<le> max_safe \<and> 1 \<le> ce_revision c \<and> ce_revision c \<le> max_safe
     \<and> (ce_mode c = MemberLocal \<longrightarrow> ce_readonly_default c \<and> \<not> ce_allow_writes c)"

definition revision_check :: "revision_row \<Rightarrow> bool" where
  "revision_check v \<longleftrightarrow>
     (rv_main v \<longrightarrow> 1 \<le> rv_revision v) \<and> rv_revision v \<le> max_safe
     \<and> (case rv_base v of None \<Rightarrow> True | Some b \<Rightarrow> b \<le> max_safe) \<and> hex64 (rv_hash v)"

definition has_version :: "string \<Rightarrow> string \<Rightarrow> versions_db \<Rightarrow> bool" where
  "has_version org i db \<longleftrightarrow> (\<exists>v\<in>set (vd_versions db). rv_org v = org \<and> rv_id v = i)"

definition has_connection :: "string \<Rightarrow> string \<Rightarrow> versions_db \<Rightarrow> bool" where
  "has_connection org i db \<longleftrightarrow> (\<exists>c\<in>set (vd_connections db). ce_org c = org \<and> ce_id c = i)"

definition same_main_revision :: "revision_row \<Rightarrow> revision_row \<Rightarrow> bool" where
  "same_main_revision v w \<longleftrightarrow>
     rv_main v \<and> rv_main w \<and> rv_org v = rv_org w \<and> rv_resource v = rv_resource w \<and> rv_revision v = rv_revision w"

definition insert_version :: "revision_row \<Rightarrow> versions_db \<Rightarrow> versions_db option" where
  "insert_version v db =
     (if revision_check v \<and> (\<forall>w\<in>set (vd_versions db). rv_id w \<noteq> rv_id v \<and> \<not> same_main_revision v w)
         \<and> has_connection (rv_org v) (rv_resource v) db
         \<and> (case rv_parent v of None \<Rightarrow> True | Some p \<Rightarrow> has_version (rv_org v) p db)
      then Some (db\<lparr>vd_versions := vd_versions db @ [v]\<rparr>) else None)"

definition insert_conflict :: "conflict_entry \<Rightarrow> versions_db \<Rightarrow> versions_db option" where
  "insert_conflict cf db =
     (if (\<forall>d\<in>set (vd_conflicts db). cf_id d \<noteq> cf_id cf) \<and> cf_expected cf \<le> max_safe
         \<and> has_connection (cf_org cf) (cf_resource cf) db
         \<and> has_version (cf_org cf) (cf_server cf) db \<and> has_version (cf_org cf) (cf_candidate cf) db
      then Some (db\<lparr>vd_conflicts := vd_conflicts db @ [cf]\<rparr>) else None)"

definition insert_decision :: "decision_entry \<Rightarrow> versions_db \<Rightarrow> versions_db option" where
  "insert_decision d db =
     (if (\<forall>e\<in>set (vd_decisions db). dc_id e \<noteq> dc_id d \<and> \<not> (dc_org e = dc_org d \<and> dc_conflict e = dc_conflict d))
         \<and> (\<exists>cf\<in>set (vd_conflicts db). cf_org cf = dc_org d \<and> cf_id cf = dc_conflict d)
         \<and> has_version (dc_org d) (dc_resulting d) db
      then Some (db\<lparr>vd_decisions := vd_decisions db @ [d]\<rparr>) else None)"

definition insert_connection :: "connection_entry \<Rightarrow> versions_db \<Rightarrow> versions_db option" where
  "insert_connection c db =
     (if connection_check c \<and> (\<forall>d\<in>set (vd_connections db). ce_id d \<noteq> ce_id c)
      then Some (db\<lparr>vd_connections := vd_connections db @ [c]\<rparr>) else None)"

definition same_grant :: "grant_entry \<Rightarrow> grant_entry \<Rightarrow> bool" where
  "same_grant g e \<longleftrightarrow> gn_org g = gn_org e \<and> gn_connection g = gn_connection e \<and> gn_member g = gn_member e"

definition insert_grant :: "grant_entry \<Rightarrow> versions_db \<Rightarrow> versions_db option" where
  "insert_grant g db =
     (if \<forall>e\<in>set (vd_grants db). \<not> same_grant g e then Some (db\<lparr>vd_grants := vd_grants db @ [g]\<rparr>) else None)"

text \<open>\<open>INSERT OR IGNORE\<close>\<close>

definition offer_grant :: "grant_entry \<Rightarrow> versions_db \<Rightarrow> versions_db" where
  "offer_grant g db = (case insert_grant g db of None \<Rightarrow> db | Some db' \<Rightarrow> db')"

definition insert_endpoint :: "endpoint_entry \<Rightarrow> versions_db \<Rightarrow> versions_db option" where
  "insert_endpoint e db =
     (if ee_engine e \<in> {SharedPostgres, SharedMysql} \<and> 1 \<le> length (ee_scope e) \<and> length (ee_scope e) \<le> 64
         \<and> (\<forall>f\<in>set (vd_endpoints db). \<not> (ee_org f = ee_org e \<and> ee_connection f = ee_connection e))
      then Some (db\<lparr>vd_endpoints := vd_endpoints db @ [e]\<rparr>) else None)"

text \<open>An update of connection rows fails when a changed row fails its checks.\<close>

definition update_connections :: "(connection_entry \<Rightarrow> bool) \<Rightarrow> (connection_entry \<Rightarrow> connection_entry) \<Rightarrow> versions_db \<Rightarrow> versions_db option" where
  "update_connections P f db =
     (if \<forall>c\<in>set (vd_connections db). P c \<longrightarrow> connection_check (f c)
      then Some (db\<lparr>vd_connections := map (\<lambda>c. if P c then f c else c) (vd_connections db)\<rparr>) else None)"

definition add_audit :: "audit_entry \<Rightarrow> versions_db \<Rightarrow> versions_db" where
  "add_audit a db = db\<lparr>vd_audit := vd_audit db @ [a]\<rparr>"

section \<open>Authority\<close>

record mutation_actor =
  mu_session :: string
  mu_user :: string
  mu_member :: string
  mu_role :: string

datatype required_level = AnyRole | WriterRole | ManagerRole | OwnerRole

definition role_reaches :: "required_level \<Rightarrow> string \<Rightarrow> bool" where
  "role_reaches required role =
     (case required of AnyRole \<Rightarrow> True | WriterRole \<Rightarrow> role \<in> {''editor'', ''admin'', ''owner''} | ManagerRole \<Rightarrow> role \<in> {''admin'', ''owner''}
      | OwnerRole \<Rightarrow> role = ''owner'')"

definition manages :: "string \<Rightarrow> string \<Rightarrow> string \<Rightarrow> versions_db \<Rightarrow> bool" where
  "manages org conn m db \<longleftrightarrow>
     (\<exists>g\<in>set (vd_grants db). gn_org g = org \<and> gn_connection g = conn \<and> gn_member g = m \<and> gn_capability g = GrantManage)"

definition connection_authority ::
  "int \<Rightarrow> string \<Rightarrow> mutation_actor \<Rightarrow> string option \<Rightarrow> required_level \<Rightarrow> versions_db \<Rightarrow> bool" where
  "connection_authority clk org a on required db \<longleftrightarrow>
     (\<exists>s\<in>set (vd_sessions db). ls_id s = mu_session a \<and> ls_user s = mu_user a \<and> ls_expires s > clk
        \<and> (\<exists>m\<in>set (vd_members db). m_user m = ls_user s \<and> m_id m = mu_member a \<and> m_org m = org \<and> m_role m = mu_role a
             \<and> m_pending_at m = None \<and> m_claim_id m = None \<and> role_reaches required (m_role m)
             \<and> (\<exists>w\<in>set (vd_workspaces db). we_id w = m_org m \<and> we_lifecycle w = ''active'')))
     \<and> (case on of None \<Rightarrow> True | Some conn \<Rightarrow> manages org conn (mu_member a) db)"

end
