(* ===== verification/ConnectionVersions.thy ===== *)
theory ConnectionVersions
  imports WorkspaceTables
begin

text \<open>
  Versions of shared connections and their conflicts: the payload rules of \<open>workspace-cloud/lib/workspace-versioning.ts\<close>, the
  batches of \<open>workspace-versioning-store.ts\<close>, and the decision of
  \<open>connection-conflict-decision.ts\<close>. The digest of a JSON text and the order of member names are arguments, as are fresh identifiers.
  \<open>clk\<close> is the clock of the database. \<open>Inl ()\<close> is a thrown error, \<open>None\<close> is \<open>null\<close>.
\<close>

section \<open>Canonical JSON\<close>

function canonicalize :: "(string \<Rightarrow> string \<Rightarrow> int) \<Rightarrow> Prelude.json \<Rightarrow> Prelude.json" where
  "canonicalize cmp (JArr vs) = JArr (map (canonicalize cmp) vs)"
| "canonicalize cmp (JObj fs) = JObj (map (\<lambda>(k, v). (k, canonicalize cmp v)) (js_sort (\<lambda>l r. cmp (fst l) (fst r)) fs))"
| "canonicalize cmp JNull = JNull"
| "canonicalize cmp (JBool b) = JBool b"
| "canonicalize cmp (JNum n) = JNum n"
| "canonicalize cmp (JStr s) = JStr s"
  by pat_completeness auto
termination
proof (relation "measure (\<lambda>(_, v). size v)")
  fix cmp :: "string \<Rightarrow> string \<Rightarrow> int" and vs :: "Prelude.json list" and v assume "v \<in> set vs"
  then show "((cmp, v), cmp, JArr vs) \<in> measure (\<lambda>(_, v). size v)"
    by (simp add: less_Suc_eq_le size_list_estimation')
next
  fix cmp :: "string \<Rightarrow> string \<Rightarrow> int" and fs :: "(string \<times> Prelude.json) list" and e k v
  assume e: "e \<in> set (js_sort (\<lambda>l r. cmp (fst l) (fst r)) fs)" "(k, v) = e"
  then have "(k, v) \<in> set fs" by simp
  then have "size v \<le> size_list (size_prod (\<lambda>_. 0) size) fs"
    by (induction fs) auto
  then show "((cmp, v), cmp, JObj fs) \<in> measure (\<lambda>(_, v). size v)" by simp
qed simp

record hasher =
  hs_order :: "string \<Rightarrow> string \<Rightarrow> int"
  hs_digest :: "Prelude.json \<Rightarrow> string"

text \<open>\<open>hs_digest\<close> is the digest of the text \<open>JSON.stringify\<close> writes.\<close>

definition canonical_hash :: "hasher \<Rightarrow> Prelude.json \<Rightarrow> string" where
  "canonical_hash h v = hs_digest h (canonicalize (hs_order h) v)"

definition payload_hash :: "hasher \<Rightarrow> version_payload \<Rightarrow> string" where
  "payload_hash h p = canonical_hash h (payload_json p)"

datatype lease_scope = ScopeNone | ScopeWrite | ScopeAll

definition with_write_policy :: "bool \<Rightarrow> version_payload \<Rightarrow> version_payload" where
  "with_write_policy writes p = p\<lparr>vp_connection := (vp_connection p)\<lparr>sc_allow_writes := writes\<rparr>\<rparr>"

definition connection_lease_revocation_scope :: "hasher \<Rightarrow> version_payload \<Rightarrow> version_payload \<Rightarrow> lease_scope" where
  "connection_lease_revocation_scope h current new =
     (if payload_hash h (with_write_policy (sc_allow_writes (vp_connection new)) current) \<noteq> payload_hash h new then ScopeAll
      else if sc_allow_writes (vp_connection current) = sc_allow_writes (vp_connection new) \<or> sc_allow_writes (vp_connection new)
      then ScopeNone
      else ScopeWrite)"

definition persisted_connection_version_payload :: "connection_entry \<Rightarrow> bool \<Rightarrow> version_payload" where
  "persisted_connection_version_payload row deleted =
     \<lparr>vp_connection =
        \<lparr>sc_name = ce_name row, sc_engine = ce_engine row, sc_provider = ce_provider row, sc_driver = ce_driver row,
         sc_host = ce_host row, sc_port = ce_port row, sc_database = ce_database row, sc_sslmode = ce_sslmode row,
         sc_readonly_default = ce_readonly_default row, sc_allow_writes = ce_allow_writes row, sc_env = ce_env row,
         sc_schema_group = ce_schema_group row,
         sc_mongo = (if ce_engine row = SharedMongodb then stored_mongo_options (ce_mongo row) else None)\<rparr>,
      vp_deleted = deleted\<rparr>"

text \<open>The header \<open>x-dopedb-expected-revision\<close>; the outer \<open>None\<close> is the error.\<close>

definition parse_expected_revision :: "string option \<Rightarrow> nat option option" where
  "parse_expected_revision header =
     (case header of
        None \<Rightarrow> Some None
      | Some dedicated \<Rightarrow>
          let d = js_trim dedicated
          in if d = [] \<or> \<not> (\<forall>c\<in>set d. is_digit c) \<or> nat_val d > max_safe then None else Some (Some (nat_val d)))"

section \<open>Recording a conflict\<close>

datatype returned = ReturnedRow connection_entry | ReturnedDecision conflict_resolution bool

text \<open>The main version of a connection at its content revision.\<close>

definition current_version_of :: "connection_entry \<Rightarrow> revision_row \<Rightarrow> bool" where
  "current_version_of c v \<longleftrightarrow>
     rv_org v = ce_org c \<and> rv_resource v = ce_id c \<and> rv_main v \<and> rv_revision v = ce_content_revision c"

record conflict_scope =
  xs_server :: string
  xs_server_revision :: nat
  xs_parent :: string

definition base_version :: "string \<Rightarrow> string \<Rightarrow> nat \<Rightarrow> versions_db \<Rightarrow> revision_row option" where
  "base_version org conn expected db =
     find (\<lambda>v. rv_org v = org \<and> rv_resource v = conn \<and> rv_main v \<and> rv_revision v = expected) (vd_versions db)"

definition conflict_scope_rows ::
  "int \<Rightarrow> string \<Rightarrow> string \<Rightarrow> nat \<Rightarrow> mutation_actor \<Rightarrow> versions_db \<Rightarrow> conflict_scope list" where
  "conflict_scope_rows clk org conn expected a db =
     [\<lparr>xs_server = rv_id v, xs_server_revision = rv_revision v,
       xs_parent = (case base_version org conn expected db of None \<Rightarrow> rv_id v | Some b \<Rightarrow> rv_id b)\<rparr>.
        c \<leftarrow> vd_connections db, v \<leftarrow> vd_versions db,
        current_version_of c v \<and> ce_org c = org \<and> ce_id c = conn \<and> connection_authority clk org a (Some conn) AnyRole db]"

record conflict_request =
  cq_org :: string
  cq_connection :: string
  cq_expected :: nat
  cq_payload :: version_payload
  cq_actor :: mutation_actor
  cq_operation :: version_operation
  cq_candidate_id :: string
  cq_conflict_id :: string
  cq_now :: int

definition candidate_row :: "hasher \<Rightarrow> conflict_request \<Rightarrow> conflict_scope \<Rightarrow> revision_row" where
  "candidate_row h q p =
     \<lparr>rv_id = cq_candidate_id q, rv_org = cq_org q, rv_resource = cq_connection q, rv_revision = cq_expected q,
      rv_base = Some (cq_expected q), rv_parent = Some (xs_parent p), rv_main = False, rv_operation = cq_operation q,
      rv_payload = payload_json (cq_payload q), rv_hash = payload_hash h (cq_payload q), rv_user = mu_user (cq_actor q)\<rparr>"

definition conflict_row_of :: "conflict_request \<Rightarrow> conflict_scope \<Rightarrow> conflict_entry" where
  "conflict_row_of q p =
     \<lparr>cf_id = cq_conflict_id q, cf_org = cq_org q, cf_resource = cq_connection q, cf_expected = cq_expected q,
      cf_server = xs_server p, cf_candidate = cq_candidate_id q, cf_user = mu_user (cq_actor q), cf_created = cq_now q\<rparr>"

definition conflict_statements :: "hasher \<Rightarrow> conflict_request \<Rightarrow> (conflict_scope, versions_db, returned) statement list" where
  "conflict_statements h q =
     [scoped (\<lambda>p db. map_option (\<lambda>d. (d, [])) (insert_version (candidate_row h q p) db)),
      scoped (\<lambda>p db. map_option (\<lambda>d. (d, [])) (insert_conflict (conflict_row_of q p) db)),
      guarded (\<lambda>p. add_audit \<lparr>ae_org = cq_org q, ae_actor = mu_user (cq_actor q), ae_action = ''connection.conflict.recorded'',
        ae_type = ''connection_conflict'', ae_resource = cq_conflict_id q,
        ae_summary = [(''expectedRevision'', JNum (int (cq_expected q))), (''serverRevision'', JNum (int (xs_server_revision p)))]\<rparr>)]"

definition conflict_connection_candidate :: "hasher \<Rightarrow> conflict_request \<Rightarrow> versions_db \<Rightarrow> (unit + string) \<times> versions_db" where
  "conflict_connection_candidate h q db =
     (case atomic_d1 (conflict_scope_rows (cq_now q) (cq_org q) (cq_connection q) (cq_expected q) (cq_actor q))
             (conflict_statements h q) db of
        Inl _ \<Rightarrow> (Inl (), db)
      | Inr ((matched, _), db') \<Rightarrow> (if matched then Inr (cq_conflict_id q) else Inl (), db'))"

section \<open>Reviewing conflicts\<close>

record conflict_version =
  kv_id :: string
  kv_revision :: nat
  kv_operation :: version_operation
  kv_payload :: version_payload

record conflict_review =
  cr_id :: string
  cr_connection :: string
  cr_name :: string
  cr_expected :: nat
  cr_created :: int
  cr_current :: conflict_version
  cr_server :: conflict_version
  cr_candidate :: conflict_version
  cr_matches_server :: bool
  cr_matches_candidate :: bool

text \<open>\<open>conflictVersion\<close>; \<open>None\<close> is the error.\<close>

definition conflict_version_of :: "hasher \<Rightarrow> credential_mode \<Rightarrow> revision_row \<Rightarrow> conflict_version option" where
  "conflict_version_of h mode v =
     (case parse_connection_version_payload mode (rv_payload v) of
        None \<Rightarrow> None
      | Some p \<Rightarrow> if payload_hash h p \<noteq> rv_hash v then None
          else Some \<lparr>kv_id = rv_id v, kv_revision = rv_revision v, kv_operation = rv_operation v, kv_payload = p\<rparr>)"

definition review_rows ::
  "string \<Rightarrow> string \<Rightarrow> versions_db \<Rightarrow> (conflict_entry \<times> connection_entry \<times> revision_row \<times> revision_row \<times> revision_row) list" where
  "review_rows org member db =
     [(cf, c, cur, srv, cand).
        cf \<leftarrow> vd_conflicts db, c \<leftarrow> vd_connections db, g \<leftarrow> vd_grants db, cur \<leftarrow> vd_versions db, srv \<leftarrow> vd_versions db,
        cand \<leftarrow> vd_versions db,
        cf_org cf = org \<and> ce_org c = cf_org cf \<and> ce_id c = cf_resource cf
        \<and> gn_org g = cf_org cf \<and> gn_connection g = cf_resource cf \<and> gn_member g = member \<and> gn_capability g = GrantManage
        \<and> current_version_of c cur \<and> rv_org srv = cf_org cf \<and> rv_id srv = cf_server cf
        \<and> rv_org cand = cf_org cf \<and> rv_id cand = cf_candidate cf
        \<and> \<not> (\<exists>d\<in>set (vd_decisions db). dc_org d = cf_org cf \<and> dc_conflict d = cf_id cf)]"

definition conflict_review_of ::
  "hasher \<Rightarrow> conflict_entry \<times> connection_entry \<times> revision_row \<times> revision_row \<times> revision_row \<Rightarrow> conflict_review option" where
  "conflict_review_of h row =
     (case row of (cf, c, cur, srv, cand) \<Rightarrow>
        (case (conflict_version_of h (ce_mode c) cur, conflict_version_of h (ce_mode c) srv, conflict_version_of h (ce_mode c) cand) of
           (Some current, Some server, Some candidate) \<Rightarrow>
             Some \<lparr>cr_id = cf_id cf, cr_connection = cf_resource cf, cr_name = ce_name c, cr_expected = cf_expected cf,
               cr_created = cf_created cf, cr_current = current, cr_server = server, cr_candidate = candidate,
               cr_matches_server = (kv_id current = kv_id server),
               cr_matches_candidate = (kv_operation current = VersionDelete \<and> kv_operation candidate = VersionDelete
                 \<or> payload_hash h (kv_payload current) = payload_hash h (kv_payload candidate))\<rparr>
         | _ \<Rightarrow> None))"

definition list_connection_conflicts :: "hasher \<Rightarrow> string \<Rightarrow> string \<Rightarrow> versions_db \<Rightarrow> conflict_review list option" where
  "list_connection_conflicts h org member db =
     those (map (conflict_review_of h)
       (take 100 (rev (sort_key (\<lambda>(cf, _). (cf_created cf, cf_id cf)) (review_rows org member db)))))"

text \<open>\<open>connection-conflict-decision.ts\<close>\<close>

definition candidate_conflict_resolution :: "bool \<Rightarrow> bool \<Rightarrow> conflict_resolution" where
  "candidate_conflict_resolution matches_server matches_candidate =
     (if matches_server \<and> matches_candidate then KeepServer else KeepCandidate)"

section \<open>Deciding a conflict\<close>

definition eligible :: "conflict_resolution \<Rightarrow> revision_row \<Rightarrow> revision_row \<Rightarrow> revision_row \<Rightarrow> bool" where
  "eligible r cur srv cand =
     (case r of
        KeepServer \<Rightarrow> rv_id cur = rv_id srv
      | KeepCandidate \<Rightarrow> rv_id cur \<noteq> rv_id srv
          \<and> (rv_operation cand = VersionDelete \<and> rv_operation cur = VersionDelete \<or> rv_hash cur = rv_hash cand)
      | Dismissed \<Rightarrow> rv_id cur \<noteq> rv_id srv \<and> rv_hash cur \<noteq> rv_hash cand)"

record decision_scope =
  ds_resolution :: conflict_resolution
  ds_created :: bool
  ds_current :: "(string \<times> nat) option"

definition conflict_rows :: "int \<Rightarrow> string \<Rightarrow> string \<Rightarrow> mutation_actor \<Rightarrow> versions_db \<Rightarrow> conflict_entry list" where
  "conflict_rows clk org conflict a db =
     [cf. cf \<leftarrow> vd_conflicts db, g \<leftarrow> vd_grants db,
        cf_org cf = org \<and> cf_id cf = conflict \<and> gn_org g = cf_org cf \<and> gn_connection g = cf_resource cf
        \<and> gn_member g = mu_member a \<and> gn_capability g = GrantManage \<and> connection_authority clk org a None AnyRole db]"

definition eligible_rows :: "conflict_resolution \<Rightarrow> string \<Rightarrow> conflict_entry \<Rightarrow> versions_db \<Rightarrow> (string \<times> nat) list" where
  "eligible_rows r org cf db =
     [(rv_id cur, rv_revision cur).
        c \<leftarrow> vd_connections db, cur \<leftarrow> vd_versions db, srv \<leftarrow> vd_versions db, cand \<leftarrow> vd_versions db,
        ce_org c = org \<and> ce_id c = cf_resource cf \<and> current_version_of c cur
        \<and> rv_org srv = org \<and> rv_id srv = cf_server cf \<and> rv_org cand = org \<and> rv_id cand = cf_candidate cf
        \<and> eligible r cur srv cand]"

definition outer_rows :: "'a list \<Rightarrow> 'a option list" where
  "outer_rows xs = (if xs = [] then [None] else map Some xs)"

definition decision_scope_rows ::
  "int \<Rightarrow> string \<Rightarrow> string \<Rightarrow> conflict_resolution \<Rightarrow> mutation_actor \<Rightarrow> versions_db \<Rightarrow> decision_scope list" where
  "decision_scope_rows clk org conflict r a db =
     [\<lparr>ds_resolution = (case stored of None \<Rightarrow> r | Some d \<Rightarrow> dc_resolution d),
       ds_created = (stored = None \<and> el \<noteq> None), ds_current = el\<rparr>.
        cf \<leftarrow> conflict_rows clk org conflict a db, el \<leftarrow> outer_rows (eligible_rows r org cf db),
        stored \<leftarrow> outer_rows [d. d \<leftarrow> vd_decisions db, cf' \<leftarrow> conflict_rows clk org conflict a db,
          cf_id cf' = dc_conflict d \<and> dc_org d = org],
        stored \<noteq> None \<or> el \<noteq> None]"

definition decision_statements ::
  "string \<Rightarrow> string \<Rightarrow> string \<Rightarrow> mutation_actor \<Rightarrow> (decision_scope, versions_db, returned) statement list" where
  "decision_statements fresh org conflict a =
     [scoped (\<lambda>p db. case ds_current p of
          Some (current, _) \<Rightarrow>
            if ds_created p then map_option (\<lambda>d. (d, [])) (insert_decision \<lparr>dc_id = fresh, dc_org = org, dc_conflict = conflict,
              dc_resolution = ds_resolution p, dc_resulting = current, dc_user = mu_user a\<rparr> db)
            else Some (db, [])
        | None \<Rightarrow> Some (db, [])),
      guarded (\<lambda>p db. case ds_current p of
          Some (_, current_revision) \<Rightarrow>
            if ds_created p then add_audit \<lparr>ae_org = org, ae_actor = mu_user a, ae_action = ''connection.conflict.resolved'',
              ae_type = ''connection_conflict'', ae_resource = conflict,
              ae_summary = [(''resolution'', JStr (case ds_resolution p of KeepServer \<Rightarrow> ''server'' | KeepCandidate \<Rightarrow> ''candidate''
                  | Dismissed \<Rightarrow> ''dismissed'')), (''resultingRevision'', JNum (int current_revision))]\<rparr> db
            else db
        | None \<Rightarrow> db),
      scoped (\<lambda>p db. Some (db, [ReturnedDecision (ds_resolution p) (ds_created p)]))]"

definition resolve_connection_conflict ::
  "int \<Rightarrow> string \<Rightarrow> string \<Rightarrow> string \<Rightarrow> conflict_resolution \<Rightarrow> mutation_actor \<Rightarrow> versions_db
     \<Rightarrow> (unit + (conflict_resolution \<times> bool) option) \<times> versions_db" where
  "resolve_connection_conflict clk fresh org conflict r a db =
     (case atomic_d1 (decision_scope_rows clk org conflict r a) (decision_statements fresh org conflict a) db of
        Inl _ \<Rightarrow> (Inl (), db)
      | Inr ((_, rows), db') \<Rightarrow>
          (Inr (case rows ! 2 of ReturnedDecision x created # _ \<Rightarrow> Some (x, created) | _ \<Rightarrow> None), db'))"

section \<open>Creating a connection\<close>

text \<open>\<open>returnedConnection\<close>; the columns have the types it asks for, so only its number checks can fail.\<close>

definition returned_connection :: "returned list \<Rightarrow> connection_entry option" where
  "returned_connection rows =
     (case rows of
        ReturnedRow c # _ \<Rightarrow>
          if ce_port c \<le> max_safe \<and> 1 \<le> ce_content_revision c \<and> ce_content_revision c \<le> max_safe then Some c else None
      | _ \<Rightarrow> None)"

record create_request =
  ct_org :: string
  ct_connection :: string
  ct_actor :: mutation_actor
  ct_input :: version_payload
  ct_direct :: "(string list \<times> bool) option"
  ct_version_id :: string
  ct_now :: int

definition created_row :: "create_request \<Rightarrow> connection_entry" where
  "created_row q =
     (let c = vp_connection (ct_input q)
      in \<lparr>ce_id = ct_connection q, ce_org = ct_org q, ce_name = sc_name c, ce_engine = sc_engine c, ce_provider = sc_provider c,
          ce_driver = sc_driver c, ce_host = sc_host c, ce_port = sc_port c, ce_database = sc_database c, ce_sslmode = sc_sslmode c,
          ce_readonly_default = sc_readonly_default c, ce_allow_writes = sc_allow_writes c, ce_env = sc_env c,
          ce_schema_group = sc_schema_group c, ce_mongo = serialize_mongo_options (sc_mongo c), ce_mode = MemberLocal,
          ce_provisioned = (ct_direct q \<noteq> None), ce_team_read = False, ce_integration = None, ce_resource_id = None,
          ce_content_revision = 1, ce_revision = 1, ce_updated = ct_now q, ce_deleted = None, ce_pending = None, ce_claim = None,
          ce_created_by = mu_user (ct_actor q)\<rparr>)"

definition unrevoked :: "member_row \<Rightarrow> bool" where
  "unrevoked m \<longleftrightarrow> m_pending_at m = None \<and> m_claim_id m = None"

definition offer_grants :: "grant_entry list \<Rightarrow> versions_db \<Rightarrow> versions_db" where
  "offer_grants gs db = fold offer_grant gs db"

definition manager_grants :: "string \<Rightarrow> string \<Rightarrow> versions_db \<Rightarrow> grant_entry list" where
  "manager_grants org conn db =
     [\<lparr>gn_org = org, gn_connection = conn, gn_member = m_id m, gn_capability = GrantManage, gn_team = False\<rparr>.
        m \<leftarrow> vd_members db, m_org m = org \<and> m_role m \<in> {''admin'', ''owner''} \<and> unrevoked m]"

text \<open>The trigger \<open>workspace_connection_team_read_enable\<close> of the migrations.\<close>

definition team_grants :: "connection_entry \<Rightarrow> versions_db \<Rightarrow> grant_entry list" where
  "team_grants c db =
     [\<lparr>gn_org = ce_org c, gn_connection = ce_id c, gn_member = m_id m,
       gn_capability = (if m_role m = ''viewer'' then GrantView else GrantRead), gn_team = True\<rparr>.
        m \<leftarrow> vd_members db, w \<leftarrow> vd_workspaces db,
        we_id w = m_org m \<and> m_org m = ce_org c \<and> is_workspace_role (m_role m) \<noteq> None \<and> unrevoked m \<and> we_lifecycle w = ''active''
        \<and> (ce_org c, ce_id c, m_user m) \<notin> set (vd_exclusions db)]"

definition enable_team_read :: "string \<Rightarrow> string \<Rightarrow> versions_db \<Rightarrow> versions_db option" where
  "enable_team_read org conn db =
     (case update_connections (\<lambda>c. ce_id c = conn \<and> ce_org c = org) (\<lambda>c. c\<lparr>ce_team_read := True\<rparr>) db of
        None \<Rightarrow> None
      | Some db' \<Rightarrow> Some (fold (\<lambda>c. offer_grants (team_grants c db'))
          (filter (\<lambda>c. ce_id c = conn \<and> ce_org c = org \<and> ce_deleted c = None) (vd_connections db')) db'))"

definition create_version_row :: "hasher \<Rightarrow> create_request \<Rightarrow> revision_row" where
  "create_version_row h q =
     \<lparr>rv_id = ct_version_id q, rv_org = ct_org q, rv_resource = ct_connection q, rv_revision = 1, rv_base = Some 0,
      rv_parent = None, rv_main = True, rv_operation = VersionCreate, rv_payload = payload_json (ct_input q),
      rv_hash = payload_hash h (ct_input q), rv_user = mu_user (ct_actor q)\<rparr>"

definition create_statements :: "hasher \<Rightarrow> create_request \<Rightarrow> (unit, versions_db, returned) statement list" where
  "create_statements h q =
     [scoped (\<lambda>_ db. map_option (\<lambda>d. (d, [ReturnedRow (created_row q)])) (insert_connection (created_row q) db))]
     @ (case ct_direct q of None \<Rightarrow> []
        | Some (scope, ceiling) \<Rightarrow>
            [scoped (\<lambda>_ db. map_option (\<lambda>d. (d, [])) (insert_endpoint \<lparr>ee_org = ct_org q, ee_connection = ct_connection q,
               ee_engine = sc_engine (vp_connection (ct_input q)), ee_scope = scope, ee_write_ceiling = ceiling\<rparr> db))])
     @ [scoped (\<lambda>_ db. map_option (\<lambda>d. (d, [])) (insert_grant \<lparr>gn_org = ct_org q, gn_connection = ct_connection q,
          gn_member = mu_member (ct_actor q), gn_capability = GrantManage, gn_team = False\<rparr> db))]
     @ (if ct_direct q \<noteq> None then [] else
         [guarded (\<lambda>_ db. offer_grants (manager_grants (ct_org q) (ct_connection q) db) db),
          scoped (\<lambda>_ db. map_option (\<lambda>d. (d, [])) (enable_team_read (ct_org q) (ct_connection q) db))])
     @ [scoped (\<lambda>_ db. map_option (\<lambda>d. (d, [])) (insert_version (create_version_row h q) db)),
        guarded (\<lambda>_. add_audit \<lparr>ae_org = ct_org q, ae_actor = mu_user (ct_actor q),
          ae_action = (if ct_direct q \<noteq> None then ''direct.endpoint.register'' else ''connection.share''),
          ae_type = ''connection'', ae_resource = ct_connection q,
          ae_summary = [(''name'', JStr (sc_name (vp_connection (ct_input q)))),
            (''engine'', JStr (engine_text (sc_engine (vp_connection (ct_input q)))))]\<rparr>)]"

definition create_scope :: "create_request \<Rightarrow> versions_db \<Rightarrow> unit list" where
  "create_scope q db =
     (if connection_authority (ct_now q) (ct_org q) (ct_actor q) None (if ct_direct q \<noteq> None then ManagerRole else WriterRole) db
      then [()] else [])"

definition commit_connection_create :: "hasher \<Rightarrow> create_request \<Rightarrow> versions_db \<Rightarrow> (unit + connection_entry option) \<times> versions_db" where
  "commit_connection_create h q db =
     (case atomic_d1 (create_scope q) (create_statements h q) db of
        Inl _ \<Rightarrow> (Inl (), db)
      | Inr ((_, rows), db') \<Rightarrow> (Inr (returned_connection (rows ! 0)), db'))"

section \<open>Changing or deleting a connection\<close>

datatype connection_mutation = UpdateConnection version_payload shared_connection | DeleteConnection version_payload

fun mutation_payload :: "connection_mutation \<Rightarrow> version_payload" where
  "mutation_payload (UpdateConnection p _) = p"
| "mutation_payload (DeleteConnection p) = p"

fun mutation_operation :: "connection_mutation \<Rightarrow> version_operation" where
  "mutation_operation (UpdateConnection _ _) = VersionUpdate"
| "mutation_operation (DeleteConnection _) = VersionDelete"

fun apply_mutation :: "int \<Rightarrow> connection_mutation \<Rightarrow> connection_entry \<Rightarrow> connection_entry" where
  "apply_mutation now (UpdateConnection _ t) c =
     c\<lparr>ce_name := sc_name t, ce_engine := sc_engine t, ce_provider := sc_provider t, ce_driver := sc_driver t, ce_host := sc_host t,
       ce_port := sc_port t, ce_database := sc_database t, ce_sslmode := sc_sslmode t, ce_readonly_default := sc_readonly_default t,
       ce_allow_writes := sc_allow_writes t, ce_env := sc_env t, ce_schema_group := sc_schema_group t,
       ce_mongo := serialize_mongo_options (sc_mongo t), ce_pending := None, ce_claim := None,
       ce_content_revision := ce_content_revision c + 1, ce_updated := now\<rparr>"
| "apply_mutation now (DeleteConnection _) c =
     c\<lparr>ce_deleted := Some now, ce_integration := None, ce_resource_id := None, ce_pending := None, ce_claim := None,
       ce_content_revision := ce_content_revision c + 1, ce_updated := now\<rparr>"

record mutation_request =
  mq_org :: string
  mq_connection :: string
  mq_content_revision :: nat
  mq_authority_revision :: nat
  mq_claim :: string
  mq_actor :: mutation_actor
  mq_manager :: bool
  mq_mutation :: connection_mutation
  mq_version_id :: string
  mq_now :: int

text \<open>
  \<open>directLoweringBlockers\<close> for the targets of a deleted connection (\<open>workspace-direct-access-store.ts\<close>): a principal that still
  has access on its database, or an application of one that is still claimed.
\<close>

definition live_principal :: "string \<Rightarrow> string \<Rightarrow> principal_entry \<Rightarrow> bool" where
  "live_principal org conn p \<longleftrightarrow> pe_org p = org \<and> pe_connection p = conn \<and> pe_state p \<noteq> Dropped"

definition lowering_blockers :: "int \<Rightarrow> string \<Rightarrow> string \<Rightarrow> versions_db \<Rightarrow> (string \<times> string) list" where
  "lowering_blockers clk org conn db =
     [(pe_connection p, pe_member p).
        t \<leftarrow> vd_principals db, p \<leftarrow> vd_principals db,
        live_principal org conn t \<and> live_principal org (pe_connection t) p \<and> pe_member p = pe_member t
        \<and> (direct_level_rank (pe_level p) > 0
           \<or> pe_state p = Applying \<and> (case pe_claim_expires p of None \<Rightarrow> False | Some e \<Rightarrow> e > clk))]"

definition mutation_scope :: "mutation_request \<Rightarrow> versions_db \<Rightarrow> string list" where
  "mutation_scope q db =
     [rv_id v. c \<leftarrow> vd_connections db, v \<leftarrow> vd_versions db,
        current_version_of c v \<and> ce_id c = mq_connection q \<and> ce_org c = mq_org q
        \<and> ce_content_revision c = mq_content_revision q \<and> ce_revision c = mq_authority_revision q
        \<and> ce_claim c = Some (mq_claim q) \<and> ce_deleted c = None
        \<and> connection_authority (mq_now q) (mq_org q) (mq_actor q) (Some (mq_connection q))
            (if mq_manager q then ManagerRole else AnyRole) db
        \<and> (case mq_mutation q of UpdateConnection _ _ \<Rightarrow> True
             | DeleteConnection _ \<Rightarrow> lowering_blockers (mq_now q) (mq_org q) (mq_connection q) db = [])]"

definition settle_revocations :: "string \<Rightarrow> string \<Rightarrow> versions_db \<Rightarrow> versions_db" where
  "settle_revocations org conn db =
     db\<lparr>vd_revocations := map (\<lambda>r. if dr_org r = org \<and> dr_connection r = conn \<and> dr_state r = RevocationPending
          then r\<lparr>dr_state := RevocationApplied\<rparr> else r) (vd_revocations db)\<rparr>"

definition mutation_version_row :: "hasher \<Rightarrow> mutation_request \<Rightarrow> string \<Rightarrow> revision_row" where
  "mutation_version_row h q parent =
     \<lparr>rv_id = mq_version_id q, rv_org = mq_org q, rv_resource = mq_connection q, rv_revision = mq_content_revision q + 1,
      rv_base = Some (mq_content_revision q), rv_parent = Some parent, rv_main = True,
      rv_operation = mutation_operation (mq_mutation q), rv_payload = payload_json (mutation_payload (mq_mutation q)),
      rv_hash = payload_hash h (mutation_payload (mq_mutation q)), rv_user = mu_user (mq_actor q)\<rparr>"

definition mutation_action :: "mutation_request \<Rightarrow> string" where
  "mutation_action q =
     (case mq_mutation q of
        UpdateConnection _ _ \<Rightarrow> if mq_manager q then ''connection.write_policy.update'' else ''connection.update''
      | DeleteConnection _ \<Rightarrow> ''connection.delete'')"

definition mutation_audits :: "mutation_request \<Rightarrow> versions_db \<Rightarrow> versions_db" where
  "mutation_audits q db =
     fold (\<lambda>c. add_audit \<lparr>ae_org = mq_org q, ae_actor = mu_user (mq_actor q), ae_action = mutation_action q, ae_type = ''connection'',
         ae_resource = mq_connection q,
         ae_summary = [(''name'', JStr (ce_name c)), (''revision'', JNum (int (ce_content_revision c))),
           (''allowWrites'', JBool (ce_allow_writes c))]\<rparr>)
       (filter (\<lambda>c. ce_id c = mq_connection q) (vd_connections db)) db"

definition mutation_statements :: "hasher \<Rightarrow> mutation_request \<Rightarrow> (string, versions_db, returned) statement list" where
  "mutation_statements h q =
     [scoped (\<lambda>_ db. map_option
        (\<lambda>d. (d, map ReturnedRow (filter (\<lambda>c. ce_id c = mq_connection q) (vd_connections d))))
        (update_connections (\<lambda>c. ce_id c = mq_connection q) (apply_mutation (mq_now q) (mq_mutation q)) db))]
     @ (case mq_mutation q of UpdateConnection _ _ \<Rightarrow> []
        | DeleteConnection _ \<Rightarrow> [guarded (\<lambda>_. settle_revocations (mq_org q) (mq_connection q))])
     @ [scoped (\<lambda>parent db. map_option (\<lambda>d. (d, [])) (insert_version (mutation_version_row h q parent) db)),
        guarded (\<lambda>_. mutation_audits q)]"

definition commit_connection_mutation ::
  "hasher \<Rightarrow> mutation_request \<Rightarrow> versions_db \<Rightarrow> (unit + connection_entry option) \<times> versions_db" where
  "commit_connection_mutation h q db =
     (case atomic_d1 (mutation_scope q) (mutation_statements h q) db of
        Inl _ \<Rightarrow> (Inl (), db)
      | Inr ((_, rows), db') \<Rightarrow> (Inr (returned_connection (rows ! 0)), db'))"

end
