(* ===== verification/BackupSnapshots.thy ===== *)
theory BackupSnapshots
  imports ConnectionVersions
begin

text \<open>
  Metadata backups: the canonical snapshot and its strict reader (\<open>workspace-cloud/lib/workspace-backup-core.ts\<close>), envelopes in
  chunks (\<open>d1/backup-chunks.ts\<close>), the batches that store and tombstone a backup (\<open>workspace-backup-store.ts\<close>) and the restore
  (\<open>workspace-snapshot-restore.ts\<close>). The cipher and the digest are arguments; a sealed text is opened with the same key and context.
\<close>

section \<open>Snapshots\<close>

definition workspace_data_key_reference :: string where
  "workspace_data_key_reference = ''dopedb-workspace-data-key''"

text \<open>\<open>None\<close> is the error.\<close>

definition workspace_data_key_version :: "nat \<Rightarrow> string option" where
  "workspace_data_key_version v = (if v < 1 \<or> v > 2147483647 then None else Some (''v'' @ nat_str v))"

record snapshot_connection =
  sn_id :: string
  sn_revision :: nat
  sn_template :: shared_connection

record workspace_snapshot =
  ss_org :: string
  ss_lifecycle :: string
  ss_region :: "string option"
  ss_revision :: nat
  ss_connections :: "snapshot_connection list"

definition workspace_backup_aad :: "string \<Rightarrow> string \<Rightarrow> string" where
  "workspace_backup_aad org backup = ''dopedb:workspace-backup:'' @ org @ '':'' @ backup"

definition canonical_workspace_snapshot :: "(string \<Rightarrow> string \<Rightarrow> int) \<Rightarrow> workspace_snapshot \<Rightarrow> workspace_snapshot" where
  "canonical_workspace_snapshot cmp s = s\<lparr>ss_connections := js_sort (\<lambda>l r. cmp (sn_id l) (sn_id r)) (ss_connections s)\<rparr>"

definition snapshot_connection_json :: "snapshot_connection \<Rightarrow> Prelude.json" where
  "snapshot_connection_json c =
     JObj ([(''id'', JStr (sn_id c)), (''contentRevision'', JNum (int (sn_revision c)))] @ template_fields (sn_template c))"

definition snapshot_json :: "workspace_snapshot \<Rightarrow> Prelude.json" where
  "snapshot_json s =
     JObj [(''version'', JNum 1),
       (''workspace'', JObj [(''organizationId'', JStr (ss_org s)), (''lifecycleState'', JStr (ss_lifecycle s)),
          (''residencyRegion'', json_text (ss_region s)), (''revision'', JNum (int (ss_revision s)))]),
       (''connections'', JArr (map snapshot_connection_json (ss_connections s)))]"

definition snapshot_hash :: "hasher \<Rightarrow> workspace_snapshot \<Rightarrow> string" where
  "snapshot_hash h s = canonical_hash h (snapshot_json (canonical_workspace_snapshot (hs_order h) s))"

text \<open>\<open>ci_seal\<close> and \<open>ci_open\<close> are \<open>sealEnvelope\<close> and \<open>openEnvelope\<close> around the text of a JSON value.\<close>

record 'k cipher =
  ci_seal :: "'k \<Rightarrow> Prelude.json \<Rightarrow> string \<Rightarrow> string"
  ci_open :: "'k \<Rightarrow> string \<Rightarrow> string \<Rightarrow> Prelude.json option"

definition seal_workspace_snapshot :: "'k cipher \<Rightarrow> hasher \<Rightarrow> 'k \<Rightarrow> string \<Rightarrow> string \<Rightarrow> workspace_snapshot \<Rightarrow> string" where
  "seal_workspace_snapshot ci h key org backup s =
     ci_seal ci key (canonicalize (hs_order h) (snapshot_json (canonical_workspace_snapshot (hs_order h) s))) (workspace_backup_aad org backup)"

text \<open>\<open>parseWorkspaceMetadataSnapshot\<close>; the identifier may use upper case, as its pattern ignores case.\<close>

definition is_uuid_char :: "char \<Rightarrow> bool" where
  "is_uuid_char c \<longleftrightarrow> is_hex_digit c"

definition snapshot_uuid :: "string \<Rightarrow> bool" where
  "snapshot_uuid s = matches (replicate 8 is_uuid_char @ lit ''-'' @ replicate 4 is_uuid_char @ lit ''-''
     @ (\<lambda>c. c \<in> set ''12345678'') # replicate 3 is_uuid_char @ lit ''-'' @ (\<lambda>c. c \<in> set ''89abAB'') # replicate 3 is_uuid_char
     @ lit ''-'' @ replicate 12 is_uuid_char) s"

definition safe_revision :: "Prelude.json option \<Rightarrow> nat option" where
  "safe_revision v = (case v of Some (JNum n) \<Rightarrow> if 1 \<le> n \<and> n \<le> int max_safe then Some (nat n) else None | _ \<Rightarrow> None)"

definition parse_snapshot_connection :: "Prelude.json \<Rightarrow> snapshot_connection option" where
  "parse_snapshot_connection v =
     (case v of
        JObj fs \<Rightarrow>
          (case (json_get v ''id'', safe_revision (json_get v ''contentRevision'')) of
             (Some (JStr i), Some revision) \<Rightarrow>
               if \<not> snapshot_uuid i then None
               else map_option (\<lambda>t. \<lparr>sn_id = i, sn_revision = revision, sn_template = t\<rparr>)
                 (parse_shared_connection MemberLocal (JObj (filter (\<lambda>(k, _). k \<noteq> ''id'' \<and> k \<noteq> ''contentRevision'') fs)))
           | _ \<Rightarrow> None)
      | _ \<Rightarrow> None)"

text \<open>The identifiers the duplicate check sees: the text ones of object members.\<close>

definition snapshot_ids :: "Prelude.json list \<Rightarrow> string list" where
  "snapshot_ids vs = List.map_filter (\<lambda>v. case v of JObj fs \<Rightarrow> Option.bind (json_get v ''id'') json_str | _ \<Rightarrow> None) vs"

definition region_of_json :: "Prelude.json option \<Rightarrow> string option option" where
  "region_of_json v = (case v of Some JNull \<Rightarrow> Some None | Some (JStr s) \<Rightarrow> Some (Some s) | _ \<Rightarrow> None)"

definition parse_workspace_metadata_snapshot :: "Prelude.json \<Rightarrow> string \<Rightarrow> workspace_snapshot option" where
  "parse_workspace_metadata_snapshot v org =
     (case (json_get v ''version'', json_get v ''workspace'', json_get v ''connections'') of
        (Some (JNum version), Some (JObj ws), Some (JArr vs)) \<Rightarrow>
          if version \<noteq> 1 \<or> length vs > 1000 then None
          else (case (json_get (JObj ws) ''organizationId'', json_get (JObj ws) ''lifecycleState'',
                      region_of_json (json_get (JObj ws) ''residencyRegion''), safe_revision (json_get (JObj ws) ''revision'')) of
             (Some (JStr owner), Some (JStr lifecycle), Some region, Some revision) \<Rightarrow>
               if owner \<noteq> org \<or> \<not> distinct (snapshot_ids vs) then None
               else map_option (\<lambda>cs. \<lparr>ss_org = org, ss_lifecycle = lifecycle, ss_region = region, ss_revision = revision,
                   ss_connections = cs\<rparr>) (those (map parse_snapshot_connection vs))
           | _ \<Rightarrow> None)
      | _ \<Rightarrow> None)"

definition open_workspace_snapshot :: "'k cipher \<Rightarrow> 'k \<Rightarrow> string \<Rightarrow> string \<Rightarrow> string \<Rightarrow> workspace_snapshot option" where
  "open_workspace_snapshot ci key org backup envelope =
     (case ci_open ci key envelope (workspace_backup_aad org backup) of
        None \<Rightarrow> None | Some v \<Rightarrow> parse_workspace_metadata_snapshot v org)"

section \<open>Envelopes in chunks\<close>

definition chunk_bytes :: nat where
  "chunk_bytes = 524288"

definition chunk_prefix :: string where
  "chunk_prefix = ''d1-chunks:v1:''"

text \<open>Consecutive slices of at most \<open>n\<close> items.\<close>

function chunks_of :: "nat \<Rightarrow> 'a list \<Rightarrow> 'a list list" where
  "chunks_of n xs = (if n = 0 \<or> xs = [] then [] else take n xs # chunks_of n (drop n xs))"
  by pat_completeness auto
termination by (relation "measure (\<lambda>(_, xs). length xs)") auto

declare chunks_of.simps [simp del]

definition printable :: "char \<Rightarrow> bool" where
  "printable c \<longleftrightarrow> (0x20::nat) \<le> of_char c \<and> of_char c \<le> (0x7e::nat)"

text \<open>The stored value and its chunks; \<open>dg\<close> is the digest of the text.\<close>

definition backup_envelope_storage :: "(string \<Rightarrow> string) \<Rightarrow> string \<Rightarrow> (string \<times> string list) option" where
  "backup_envelope_storage dg ciphertext =
     (if ciphertext = [] \<or> \<not> (\<forall>c\<in>set ciphertext. printable c) \<or> length ciphertext > chunk_bytes * 128 then None
      else let chunks = (if length ciphertext > chunk_bytes then chunks_of chunk_bytes ciphertext else [])
        in Some (if chunks = [] then ciphertext
             else chunk_prefix @ nat_str (length ciphertext) @ '':'' @ nat_str (length chunks) @ '':'' @ dg ciphertext, chunks))"

text \<open>The write fails on a chunk that exists and on one whose backup has another value, as the table and its trigger ask.\<close>

definition insert_chunk :: "chunk_entry \<Rightarrow> versions_db \<Rightarrow> versions_db option" where
  "insert_chunk c db =
     (if ck_part c < 128 \<and> ck_text c \<noteq> [] \<and> length (ck_text c) \<le> chunk_bytes
         \<and> (\<forall>d\<in>set (vd_chunks db). \<not> (ck_backup d = ck_backup c \<and> ck_manifest d = ck_manifest c \<and> ck_part d = ck_part c))
         \<and> (\<exists>b\<in>set (vd_backups db). bk_id b = ck_backup c \<and> bk_org b = ck_org c \<and> bk_ciphertext b = ck_manifest c)
      then Some (db\<lparr>vd_chunks := vd_chunks db @ [c]\<rparr>) else None)"

text \<open>The trigger \<open>workspace_backup_chunk_delete_guard\<close> keeps the chunks of the stored value.\<close>

definition delete_stale_chunks :: "string \<Rightarrow> string \<Rightarrow> string \<Rightarrow> versions_db \<Rightarrow> versions_db option" where
  "delete_stale_chunks org backup value db =
     (if \<exists>c\<in>set (vd_chunks db). ck_org c = org \<and> ck_backup c = backup \<and> ck_manifest c \<noteq> value
         \<and> (\<exists>b\<in>set (vd_backups db). bk_id b = ck_backup c \<and> bk_org b = ck_org c \<and> bk_ciphertext b = ck_manifest c)
      then None
      else Some (db\<lparr>vd_chunks := filter (\<lambda>c. \<not> (ck_org c = org \<and> ck_backup c = backup \<and> ck_manifest c \<noteq> value)) (vd_chunks db)\<rparr>))"

definition chunk_statements :: "string \<Rightarrow> string \<Rightarrow> string \<times> string list \<Rightarrow> ('p, versions_db, 'r) statement list" where
  "chunk_statements org backup storage =
     scoped (\<lambda>_ db. map_option (\<lambda>d. (d, [])) (delete_stale_chunks org backup (fst storage) db))
     # map (\<lambda>(part, text). scoped (\<lambda>_ db. map_option (\<lambda>d. (d, []))
         (insert_chunk \<lparr>ck_org = org, ck_backup = backup, ck_manifest = fst storage, ck_part = part, ck_text = text\<rparr> db)))
       (enumerate 0 (snd storage))"

text \<open>The three groups of \<open>/^d1-chunks:v1:([1-9][0-9]*):([1-9][0-9]*):([a-f0-9]{64})$/\<close>.\<close>

definition counted :: "string \<Rightarrow> (nat \<times> string) option" where
  "counted s =
     (let d = takeWhile is_digit s; rest = dropWhile is_digit s
      in if d = [] \<or> hd d = CHR ''0'' \<or> rest = [] \<or> hd rest \<noteq> CHR '':'' then None else Some (nat_val d, tl rest))"

definition manifest_parts :: "string \<Rightarrow> (nat \<times> nat \<times> string) option" where
  "manifest_parts value =
     (if \<not> starts_with chunk_prefix value then None
      else case counted (drop (length chunk_prefix) value) of
        None \<Rightarrow> None
      | Some (bytes, rest) \<Rightarrow>
          (case counted rest of None \<Rightarrow> None | Some (n, hash) \<Rightarrow> if hex64 hash then Some (bytes, n, hash) else None))"

definition read_backup_envelope :: "(string \<Rightarrow> string) \<Rightarrow> string \<Rightarrow> string \<Rightarrow> string \<Rightarrow> versions_db \<Rightarrow> string option" where
  "read_backup_envelope dg org backup value db =
     (if \<not> starts_with chunk_prefix value then Some value
      else case manifest_parts value of
        None \<Rightarrow> None
      | Some (bytes, n, hash) \<Rightarrow>
          if bytes > chunk_bytes * 128 \<or> n > 128 then None
          else let chunks = take 128 (sort_key ck_part
                 (filter (\<lambda>c. ck_org c = org \<and> ck_backup c = backup \<and> ck_manifest c = value) (vd_chunks db)));
               ciphertext = concat (map ck_text chunks)
            in if length chunks \<noteq> n \<or> map ck_part chunks \<noteq> [0..<n] \<or> length ciphertext \<noteq> bytes \<or> dg ciphertext \<noteq> hash then None
               else Some ciphertext)"

section \<open>Storing a backup\<close>

text \<open>\<open>jsonEqual\<close> compares the nodes of two values by path, kind and scalar.\<close>

function json_nodes :: "string list \<Rightarrow> Prelude.json \<Rightarrow> (string list \<times> Prelude.json) list" where
  "json_nodes path (JArr vs) = (path, JArr []) # concat (map (\<lambda>(i, v). json_nodes (path @ [nat_str i]) v) (enumerate 0 vs))"
| "json_nodes path (JObj fs) = (path, JObj []) # concat (map (\<lambda>(k, v). json_nodes (path @ [k]) v) fs)"
| "json_nodes path JNull = [(path, JNull)]"
| "json_nodes path (JBool b) = [(path, JBool b)]"
| "json_nodes path (JNum n) = [(path, JNum n)]"
| "json_nodes path (JStr s) = [(path, JStr s)]"
  by pat_completeness auto
termination
proof (relation "measure (\<lambda>(_, v). size v)")
  fix path :: "string list" and vs :: "Prelude.json list" and e and i :: nat and v assume "e \<in> set (enumerate 0 vs)" "(i, v) = e"
  then have "v \<in> set vs" by (auto simp: in_set_enumerate_eq)
  then show "((path @ [nat_str i], v), path, JArr vs) \<in> measure (\<lambda>(_, v). size v)"
    by (simp add: less_Suc_eq_le size_list_estimation')
next
  fix path :: "string list" and fs :: "(string \<times> Prelude.json) list" and e k v
  assume e: "e \<in> set fs" "(k, v) = e"
  then have "size v \<le> size_list (size_prod (\<lambda>_. 0) size) fs"
    by (induction fs) auto
  then show "((path @ [k], v), path, JObj fs) \<in> measure (\<lambda>(_, v). size v)" by simp
qed simp

definition json_equal :: "Prelude.json option \<Rightarrow> Prelude.json option \<Rightarrow> bool" where
  "json_equal a b =
     (case (a, b) of (Some v, Some w) \<Rightarrow> set (json_nodes [] v) = set (json_nodes [] w) | _ \<Rightarrow> False)"

text \<open>The columns a supplied row must share with a live connection.\<close>

definition snapshot_columns_match :: "connection_entry \<Rightarrow> connection_entry \<Rightarrow> bool" where
  "snapshot_columns_match s c \<longleftrightarrow>
     ce_id c = ce_id s \<and> ce_content_revision c = ce_content_revision s \<and> ce_name c = ce_name s \<and> ce_engine c = ce_engine s
     \<and> ce_provider c = ce_provider s \<and> ce_driver c = ce_driver s \<and> ce_host c = ce_host s \<and> ce_port c = ce_port s
     \<and> ce_database c = ce_database s \<and> ce_sslmode c = ce_sslmode s \<and> ce_readonly_default c = ce_readonly_default s
     \<and> ce_allow_writes c = ce_allow_writes s \<and> ce_env c = ce_env s \<and> ce_schema_group c = ce_schema_group s
     \<and> ce_mode c = ce_mode s \<and> ce_integration c = ce_integration s
     \<and> (ce_mongo c = ce_mongo s \<or> json_equal (ce_mongo c) (ce_mongo s))"

definition live_connections :: "string \<Rightarrow> versions_db \<Rightarrow> connection_entry list" where
  "live_connections org db = filter (\<lambda>c. ce_org c = org \<and> ce_deleted c = None) (vd_connections db)"

record backup_request =
  bq_org :: string
  bq_backup :: string
  bq_actor :: mutation_actor
  bq_revision :: nat
  bq_lifecycle :: string
  bq_region :: "string option"
  bq_connections :: "connection_entry list"
  bq_data_key :: string
  bq_key_reference :: string
  bq_key_version :: string
  bq_ciphertext :: string
  bq_hash :: string
  bq_now :: int

definition key_version_shape :: "string \<Rightarrow> bool" where
  "key_version_shape s \<longleftrightarrow> length s \<ge> 2 \<and> hd s = CHR ''v'' \<and> s ! 1 \<noteq> CHR ''0'' \<and> (\<forall>c\<in>set (tl s). is_digit c)"

definition backup_check :: "backup_entry \<Rightarrow> bool" where
  "backup_check b \<longleftrightarrow>
     hex64 (bk_hash b) \<and> 1 \<le> bk_source_revision b \<and> bk_source_revision b \<le> max_safe
     \<and> (case bk_data_key b of
          None \<Rightarrow> bk_key_reference b = ''dopedb-workspace-backup-hkdf-sha256'' \<and> bk_key_version b = ''v1''
        | Some _ \<Rightarrow> bk_key_reference b = workspace_data_key_reference \<and> key_version_shape (bk_key_version b))
     \<and> (case (bk_deleted b, bk_purge b) of (None, None) \<Rightarrow> True | (Some d, Some p) \<Rightarrow> d \<le> p | _ \<Rightarrow> False)"

definition has_key :: "string \<Rightarrow> string option \<Rightarrow> versions_db \<Rightarrow> bool" where
  "has_key org k db = (case k of None \<Rightarrow> True | Some i \<Rightarrow> \<exists>d\<in>set (vd_keys db). dk_org d = org \<and> dk_id d = i)"

definition insert_backup :: "backup_entry \<Rightarrow> versions_db \<Rightarrow> versions_db option" where
  "insert_backup b db =
     (if backup_check b \<and> (\<forall>c\<in>set (vd_backups db). bk_id c \<noteq> bk_id b) \<and> has_key (bk_org b) (bk_data_key b) db
      then Some (db\<lparr>vd_backups := vd_backups db @ [b]\<rparr>) else None)"

definition backup_row_of :: "backup_request \<Rightarrow> string \<Rightarrow> backup_entry" where
  "backup_row_of q value =
     \<lparr>bk_id = bq_backup q, bk_org = bq_org q, bk_source_revision = bq_revision q, bk_key_reference = bq_key_reference q,
      bk_key_version = bq_key_version q, bk_data_key = Some (bq_data_key q), bk_ciphertext = value, bk_hash = bq_hash q,
      bk_user = mu_user (bq_actor q), bk_created = bq_now q, bk_reencrypted = None, bk_deleted = None, bk_purge = None\<rparr>"

definition key_active :: "string \<Rightarrow> string \<Rightarrow> versions_db \<Rightarrow> bool" where
  "key_active org k db \<longleftrightarrow>
     (\<exists>d\<in>set (vd_keys db). dk_id d = k \<and> dk_org d = org \<and> dk_retired d = None \<and> dk_destroyed d = None)"

definition backup_scope :: "backup_request \<Rightarrow> versions_db \<Rightarrow> unit list" where
  "backup_scope q db =
     [(). w \<leftarrow> vd_workspaces db,
        we_id w = bq_org q \<and> we_revision w = bq_revision q \<and> we_lifecycle w = bq_lifecycle q \<and> we_region w = bq_region q
        \<and> connection_authority (bq_now q) (bq_org q) (bq_actor q) None ManagerRole db
        \<and> key_active (bq_org q) (bq_data_key q) db
        \<and> length (live_connections (bq_org q) db) = length (bq_connections q)
        \<and> (\<forall>s\<in>set (bq_connections q). \<exists>c\<in>set (live_connections (bq_org q) db). snapshot_columns_match s c)]"

definition backup_statements :: "backup_request \<Rightarrow> string \<times> string list \<Rightarrow> (unit, versions_db, backup_entry) statement list" where
  "backup_statements q storage =
     [scoped (\<lambda>_ db. map_option (\<lambda>d. (d, [backup_row_of q (fst storage)])) (insert_backup (backup_row_of q (fst storage)) db))]
     @ chunk_statements (bq_org q) (bq_backup q) storage
     @ [guarded (\<lambda>_. add_audit \<lparr>ae_org = bq_org q, ae_actor = mu_user (bq_actor q), ae_action = ''workspace.backup.create'',
          ae_type = ''workspace_backup'', ae_resource = bq_backup q,
          ae_summary = [(''connectionCount'', JNum (int (length (bq_connections q)))), (''sourceRevision'', JNum (int (bq_revision q)))]\<rparr>)]"

definition insert_workspace_backup ::
  "(string \<Rightarrow> string) \<Rightarrow> backup_request \<Rightarrow> versions_db \<Rightarrow> (unit + backup_entry option) \<times> versions_db" where
  "insert_workspace_backup dg q db =
     (if length (bq_connections q) > 1000 then (Inl (), db)
      else case backup_envelope_storage dg (bq_ciphertext q) of
        None \<Rightarrow> (Inl (), db)
      | Some storage \<Rightarrow>
          (case atomic_d1 (backup_scope q) (backup_statements q storage) db of
             Inl _ \<Rightarrow> (Inl (), db)
           | Inr ((_, rows), db') \<Rightarrow> (Inr (first_row (rows ! 0)), db')))"

section \<open>Deleting a backup\<close>

definition tombstone_scope :: "int \<Rightarrow> string \<Rightarrow> string \<Rightarrow> mutation_actor \<Rightarrow> versions_db \<Rightarrow> bool list" where
  "tombstone_scope clk org backup a db =
     [bk_deleted b \<noteq> None. b \<leftarrow> vd_backups db,
        bk_id b = backup \<and> bk_org b = org \<and> connection_authority clk org a None ManagerRole db]"

definition tombstone_statements ::
  "int \<Rightarrow> int \<Rightarrow> string \<Rightarrow> string \<Rightarrow> mutation_actor \<Rightarrow> (bool, versions_db, backup_entry) statement list" where
  "tombstone_statements clk days org backup a =
     [scoped (\<lambda>_ db. let bs = map (\<lambda>b. if bk_id b = backup \<and> bk_deleted b = None
            then b\<lparr>bk_deleted := Some clk, bk_purge := Some (clk + days * 86400000)\<rparr> else b) (vd_backups db)
          in if \<forall>b\<in>set bs. bk_id b = backup \<longrightarrow> backup_check b then Some (db\<lparr>vd_backups := bs\<rparr>, []) else None),
      guarded (\<lambda>already db. if already then db else add_audit \<lparr>ae_org = org, ae_actor = mu_user a,
          ae_action = ''workspace.backup.delete'', ae_type = ''workspace_backup'', ae_resource = backup, ae_summary = []\<rparr> db),
      scoped (\<lambda>_ db. Some (db, filter (\<lambda>b. bk_id b = backup) (vd_backups db)))]"

definition tombstone_workspace_backup ::
  "int \<Rightarrow> int \<Rightarrow> string \<Rightarrow> string \<Rightarrow> mutation_actor \<Rightarrow> versions_db \<Rightarrow> (unit + (string \<times> int option) option) \<times> versions_db" where
  "tombstone_workspace_backup clk days org backup a db =
     (case atomic_d1 (tombstone_scope clk org backup a) (tombstone_statements clk days org backup a) db of
        Inl _ \<Rightarrow> (Inl (), db)
      | Inr ((_, rows), db') \<Rightarrow> (Inr (map_option (\<lambda>b. (bk_id b, bk_purge b)) (first_row (rows ! 2))), db'))"

section \<open>Restoring a snapshot\<close>

record restore_item =
  ri_id :: string
  ri_revision :: nat
  ri_payload :: version_payload
  ri_version :: string
  ri_conflict :: string

text \<open>\<open>fresh i\<close> gives the identifiers of the version and of the conflict of the \<open>i\<close>-th template. No template restores writes.\<close>

definition restored_template :: "shared_connection \<Rightarrow> shared_connection" where
  "restored_template t = t\<lparr>sc_readonly_default := True, sc_allow_writes := False\<rparr>"

definition restore_items :: "(nat \<Rightarrow> string \<times> string) \<Rightarrow> workspace_snapshot \<Rightarrow> restore_item list" where
  "restore_items fresh s =
     map (\<lambda>(i, c). \<lparr>ri_id = sn_id c, ri_revision = sn_revision c,
         ri_payload = connection_version_payload (restored_template (sn_template c)) False,
         ri_version = fst (fresh i), ri_conflict = snd (fresh i)\<rparr>)
       (enumerate 0 (ss_connections s))"

text \<open>\<open>rc_server\<close> is the current version of an existing connection, \<open>rc_parent\<close> its version at the revision of the snapshot.\<close>

record restore_candidate =
  rc_id :: string
  rc_revision :: nat
  rc_conflict :: string
  rc_existed :: bool
  rc_server :: "string option"
  rc_parent :: "string option"

definition restore_candidates :: "string \<Rightarrow> restore_item list \<Rightarrow> versions_db \<Rightarrow> restore_candidate list" where
  "restore_candidates org items db =
     [\<lparr>rc_id = ri_id it, rc_revision = ri_revision it, rc_conflict = ri_conflict it, rc_existed = (c \<noteq> None),
       rc_server = map_option rv_id v, rc_parent = (case b of Some x \<Rightarrow> Some (rv_id x) | None \<Rightarrow> map_option rv_id v)\<rparr>.
        it \<leftarrow> items,
        c \<leftarrow> outer_rows (filter (\<lambda>c. ce_org c = org \<and> ce_id c = ri_id it) (vd_connections db)),
        v \<leftarrow> outer_rows (filter (\<lambda>v. case c of None \<Rightarrow> False | Some x \<Rightarrow> current_version_of x v) (vd_versions db)),
        b \<leftarrow> outer_rows (filter (\<lambda>v. case c of None \<Rightarrow> False
          | Some x \<Rightarrow> rv_org v = org \<and> rv_resource v = ce_id x \<and> rv_main v \<and> rv_revision v = ri_revision it) (vd_versions db))]"

record restore_request =
  rq_org :: string
  rq_backup :: string
  rq_expected :: nat
  rq_source_revision :: nat
  rq_actor :: mutation_actor
  rq_snapshot :: workspace_snapshot
  rq_fresh :: "nat \<Rightarrow> string \<times> string"
  rq_now :: int

definition request_items :: "restore_request \<Rightarrow> restore_item list" where
  "request_items q = restore_items (rq_fresh q) (rq_snapshot q)"

definition restore_scope :: "restore_request \<Rightarrow> versions_db \<Rightarrow> (restore_candidate list \<times> nat) list" where
  "restore_scope q db =
     [(restore_candidates (rq_org q) (request_items q) db, we_revision w + 1).
        w \<leftarrow> vd_workspaces db,
        we_id w = rq_org q \<and> we_revision w = rq_expected q \<and> connection_authority (rq_now q) (rq_org q) (rq_actor q) None ManagerRole db
        \<and> (\<exists>b\<in>set (vd_backups db). bk_id b = rq_backup q \<and> bk_org b = rq_org q \<and> bk_deleted b = None
             \<and> bk_source_revision b = rq_source_revision q)
        \<and> \<not> (\<exists>c\<in>set (restore_candidates (rq_org q) (request_items q) db). rc_existed c \<and> rc_server c = None)]"

definition matched_rows :: "bool \<Rightarrow> restore_item list \<Rightarrow> restore_candidate list \<Rightarrow> (restore_item \<times> restore_candidate) list" where
  "matched_rows existed items entries =
     [(it, en). it \<leftarrow> items, en \<leftarrow> entries, rc_id en = ri_id it \<and> rc_existed en = existed]"

text \<open>An \<open>INSERT \<dots> SELECT\<close> of several rows.\<close>

definition insert_all :: "('x \<Rightarrow> versions_db \<Rightarrow> versions_db option) \<Rightarrow> 'x list \<Rightarrow> versions_db \<Rightarrow> versions_db option" where
  "insert_all ins xs db = fold (\<lambda>x acc. Option.bind acc (ins x)) xs (Some db)"

definition restore_version_row ::
  "hasher \<Rightarrow> restore_request \<Rightarrow> bool \<Rightarrow> restore_item \<times> restore_candidate \<Rightarrow> revision_row" where
  "restore_version_row h q main row =
     (case row of (it, en) \<Rightarrow>
        \<lparr>rv_id = ri_version it, rv_org = rq_org q, rv_resource = ri_id it, rv_revision = ri_revision it,
         rv_base = Some (if main then ri_revision it - 1 else ri_revision it), rv_parent = (if main then None else rc_parent en),
         rv_main = main, rv_operation = VersionRestore, rv_payload = payload_json (ri_payload it),
         rv_hash = payload_hash h (ri_payload it), rv_user = mu_user (rq_actor q)\<rparr>)"

definition restore_conflict_row :: "restore_request \<Rightarrow> restore_item \<times> restore_candidate \<Rightarrow> versions_db \<Rightarrow> versions_db option" where
  "restore_conflict_row q row db =
     (case row of (it, en) \<Rightarrow>
        (case rc_server en of
           None \<Rightarrow> None
         | Some server \<Rightarrow> insert_conflict \<lparr>cf_id = ri_conflict it, cf_org = rq_org q, cf_resource = ri_id it, cf_expected = ri_revision it,
             cf_server = server, cf_candidate = ri_version it, cf_user = mu_user (rq_actor q), cf_created = rq_now q\<rparr> db))"

definition restored_connection :: "restore_request \<Rightarrow> restore_item \<Rightarrow> connection_entry" where
  "restored_connection q it =
     (let c = vp_connection (ri_payload it)
      in \<lparr>ce_id = ri_id it, ce_org = rq_org q, ce_name = sc_name c, ce_engine = sc_engine c, ce_provider = sc_provider c,
          ce_driver = sc_driver c, ce_host = sc_host c, ce_port = sc_port c, ce_database = sc_database c, ce_sslmode = sc_sslmode c,
          ce_readonly_default = True, ce_allow_writes = False, ce_env = sc_env c, ce_schema_group = sc_schema_group c,
          ce_mongo = serialize_mongo_options (sc_mongo c), ce_mode = MemberLocal, ce_provisioned = False, ce_team_read = False,
          ce_integration = None, ce_resource_id = None, ce_content_revision = ri_revision it, ce_revision = 1,
          ce_updated = rq_now q, ce_deleted = None, ce_pending = None, ce_claim = None, ce_created_by = mu_user (rq_actor q)\<rparr>)"

record restore_result =
  rr_revision :: nat
  rr_restored :: nat
  rr_conflicts :: "string list"

definition restore_chunk_statements ::
  "hasher \<Rightarrow> restore_request \<Rightarrow> restore_item list \<Rightarrow> (restore_candidate list \<times> nat, versions_db, restore_result) statement list" where
  "restore_chunk_statements h q items =
     [scoped (\<lambda>p db. map_option (\<lambda>d. (d, [])) (insert_all (insert_version \<circ> restore_version_row h q False) (matched_rows True items (fst p)) db)),
      scoped (\<lambda>p db. map_option (\<lambda>d. (d, [])) (insert_all (restore_conflict_row q) (matched_rows True items (fst p)) db)),
      scoped (\<lambda>p db. map_option (\<lambda>d. (d, []))
        (insert_all (\<lambda>(it, _). insert_connection (restored_connection q it)) (matched_rows False items (fst p)) db)),
      scoped (\<lambda>p db. map_option (\<lambda>d. (d, []))
        (insert_all (\<lambda>(it, _). insert_grant \<lparr>gn_org = rq_org q, gn_connection = ri_id it, gn_member = mu_member (rq_actor q),
           gn_capability = GrantManage, gn_team = False\<rparr>) (matched_rows False items (fst p)) db)),
      scoped (\<lambda>p db. map_option (\<lambda>d. (d, [])) (insert_all (insert_version \<circ> restore_version_row h q True) (matched_rows False items (fst p)) db))]"

definition restore_statements ::
  "hasher \<Rightarrow> restore_request \<Rightarrow> (restore_candidate list \<times> nat, versions_db, restore_result) statement list" where
  "restore_statements h q =
     [guarded (\<lambda>_ db. db\<lparr>vd_workspaces := map (\<lambda>w. if we_id w = rq_org q then w\<lparr>we_revision := we_revision w + 1\<rparr> else w) (vd_workspaces db)\<rparr>)]
     @ concat (map (restore_chunk_statements h q) (chunks_of 64 (request_items q)))
     @ [guarded (\<lambda>p. add_audit \<lparr>ae_org = rq_org q, ae_actor = mu_user (rq_actor q), ae_action = ''workspace.backup.restore'',
          ae_type = ''workspace_backup'', ae_resource = rq_backup q,
          ae_summary = [(''created'', JNum (int (length (filter (Not \<circ> rc_existed) (fst p))))),
            (''conflictCount'', JNum (int (length (filter rc_existed (fst p))))), (''sourceRevision'', JNum (int (rq_source_revision q)))]\<rparr>),
        scoped (\<lambda>p db. Some (db, [\<lparr>rr_revision = snd p, rr_restored = length (filter (Not \<circ> rc_existed) (fst p)),
          rr_conflicts = map rc_conflict (filter rc_existed (fst p))\<rparr>]))]"

definition restore_workspace_snapshot :: "hasher \<Rightarrow> restore_request \<Rightarrow> versions_db \<Rightarrow> (unit + restore_result option) \<times> versions_db" where
  "restore_workspace_snapshot h q db =
     (case atomic_d1 (restore_scope q) (restore_statements h q) db of
        Inl _ \<Rightarrow> (Inl (), db)
      | Inr ((_, rows), db') \<Rightarrow> (Inr (first_row (last rows)), db'))"

end
