(* ===== verification/BackupRoundTrip.thy ===== *)
theory BackupRoundTrip
  imports BackupSnapshots
begin

text \<open>
  What a backup keeps: a sealed snapshot opens to itself unless a template carries writes, an envelope cut into chunks reads back,
  and a stored backup names every live connection at its revision.
\<close>

section \<open>Canonical objects\<close>

lemma map_of_js_sort:
  assumes "distinct (map fst fs)"
  shows "map_of (js_sort cmp fs) = map_of fs"
proof -
  have "mset (map fst (js_sort cmp fs)) = mset (map fst fs)" by simp
  then have "distinct (map fst (js_sort cmp fs))"
    using assms by (metis mset_eq_imp_distinct_iff)
  then show ?thesis using assms by (intro ext) (metis map_of_eq_Some_iff not_None_eq set_js_sort)
qed

lemma map_of_canonical:
  "distinct (map fst fs) \<Longrightarrow> map_of (map (\<lambda>(k, v). (k, f v)) (js_sort cmp fs)) k = map_option f (map_of fs k)"
  by (simp add: map_of_map map_of_js_sort)

lemma canonical_get:
  "distinct (map fst fs) \<Longrightarrow> json_get (canonicalize cmp (JObj fs)) k = map_option (canonicalize cmp) (map_of fs k)"
  by (simp add: map_of_canonical)

lemma canonical_keys: "set (map fst (map (\<lambda>(k, v). (k, f v)) (js_sort cmp fs))) = fst ` set fs"
  by force

lemma canonical_text [simp]: "canonicalize cmp (json_text t) = json_text t"
  by (cases t) (simp_all add: json_text_def)

lemma canonical_mongo: "mongo_valid m \<Longrightarrow> parse_mongo_options (Some (canonicalize cmp (mongo_json m))) = Some (Some m)"
proof -
  assume m: "mongo_valid m"
  let ?fs = "[(''srv'', JBool (mo_srv m))] @ present_str ''authSource'' (mo_auth m) @ present_str ''replicaSet'' (mo_replica m)"
  have d: "distinct (map fst ?fs)" "fst ` set ?fs \<subseteq> set mongo_option_keys"
    by (auto simp: present_str_def mongo_option_keys_def split: option.splits)
  have gets: "json_get (canonicalize cmp (JObj ?fs)) ''srv'' = Some (JBool (mo_srv m))"
    "json_get (canonicalize cmp (JObj ?fs)) ''authSource'' = map_option JStr (mo_auth m)"
    "json_get (canonicalize cmp (JObj ?fs)) ''replicaSet'' = map_option JStr (mo_replica m)"
    unfolding canonical_get [OF d(1)] by (auto simp: present_str_def split: option.splits)
  define gs where "gs = map (\<lambda>(k, v). (k, canonicalize cmp v)) (js_sort (\<lambda>l r. cmp (fst l) (fst r)) ?fs)"
  have gs: "canonicalize cmp (JObj ?fs) = JObj gs" "set (map fst gs) = fst ` set ?fs"
    unfolding gs_def by (rule canonicalize.simps(2), rule canonical_keys)
  have names: "mongo_name (map_option JStr (mo_auth m)) mongo_auth_source = Some (mo_auth m)"
    "mongo_name (map_option JStr (mo_replica m)) mongo_replica_set = Some (mo_replica m)"
    using m by (auto simp: mongo_name_def mongo_valid_def split: option.splits)
  have "\<forall>k\<in>set (map fst gs). k \<in> set mongo_option_keys" using gs(2) d(2) by blast
  then show ?thesis
    using gets unfolding mongo_json_def gs(1) parse_mongo_options_def
    by (simp add: names del: json_get.simps list.set_map)
qed

section \<open>Opening a sealed snapshot\<close>

definition wf_snapshot :: "workspace_snapshot \<Rightarrow> bool" where
  "wf_snapshot s \<longleftrightarrow>
     length (ss_connections s) \<le> 1000 \<and> 1 \<le> ss_revision s \<and> ss_revision s \<le> max_safe \<and> distinct (map sn_id (ss_connections s))
     \<and> (\<forall>c\<in>set (ss_connections s). snapshot_uuid (sn_id c) \<and> 1 \<le> sn_revision c \<and> sn_revision c \<le> max_safe
          \<and> (valid_template MemberLocal (sn_template c) \<or> valid_template Managed (sn_template c)))"

definition connection_members :: "snapshot_connection \<Rightarrow> (string \<times> Prelude.json) list" where
  "connection_members c = [(''id'', JStr (sn_id c)), (''contentRevision'', JNum (int (sn_revision c)))] @ template_fields (sn_template c)"

lemma template_distinct: "distinct (map fst (template_fields c))"
  by (cases "sc_mongo c") (simp_all add: template_fields_def)

lemma members_distinct: "distinct (map fst (connection_members c))"
proof -
  have "''id'' \<notin> fst ` set (template_fields (sn_template c))" "''contentRevision'' \<notin> fst ` set (template_fields (sn_template c))"
    by (cases "sc_mongo (sn_template c)"; simp add: template_fields_def)+
  then show ?thesis using template_distinct by (simp add: connection_members_def)
qed

lemma filtered_map_of: "P k \<Longrightarrow> map_of (filter (\<lambda>(k, _). P k) fs) k = map_of fs k"
  by (induction fs) auto

text \<open>The members of a canonical connection without its identity still represent its template.\<close>

lemma canonical_represents:
  assumes "valid_template mode (sn_template c)" "canonicalize cmp (snapshot_connection_json c) = JObj gs"
  shows "represents (JObj (filter (\<lambda>(k, _). k \<noteq> ''id'' \<and> k \<noteq> ''contentRevision'') gs)) (sn_template c)"
proof -
  let ?t = "sn_template c" and ?gs = "filter (\<lambda>(k, _). k \<noteq> ''id'' \<and> k \<noteq> ''contentRevision'') gs"
  have gs: "gs = map (\<lambda>(k, v). (k, canonicalize cmp v)) (js_sort (\<lambda>l r. cmp (fst l) (fst r)) (connection_members c))"
    using assms(2) by (simp add: snapshot_connection_json_def connection_members_def)
  have get: "json_get (JObj ?gs) k = map_option (canonicalize cmp) (json_get (JObj (template_fields ?t)) k)"
    if "k \<noteq> ''id''" "k \<noteq> ''contentRevision''" for k
    using that filtered_map_of [of "\<lambda>k. k \<noteq> ''id'' \<and> k \<noteq> ''contentRevision''" k gs]
    unfolding gs map_of_canonical [OF members_distinct] by (simp add: connection_members_def)
  have "fst ` set gs = fst ` set (connection_members c)"
    unfolding gs set_map [symmetric] canonical_keys by simp
  then have "fst ` set gs \<subseteq> {''id'', ''contentRevision''} \<union> set (map fst (template_fields ?t))"
    by (simp add: connection_members_def)
  then have "set (map fst ?gs) \<subseteq> set (map fst (template_fields ?t))" by auto
  then have allowed: "\<forall>k\<in>set (map fst ?gs). k \<notin> set forbidden_keys \<and> k \<in> set allowed_keys"
    using template_keys(1) [of ?t] by blast
  have mongo: "parse_mongo_options (map_option (canonicalize cmp) (map_option mongo_json (sc_mongo ?t))) = Some (sc_mongo ?t)"
    using mongo_template [OF assms(1)] by (cases "sc_mongo ?t") (simp_all add: canonical_mongo, simp add: parse_mongo_options_def)
  show ?thesis
    unfolding represents_def using allowed mongo by (simp add: get template_get del: json_get.simps list.set_map)
qed

lemma canonical_connection_parses:
  assumes "snapshot_uuid (sn_id c)" "1 \<le> sn_revision c" "sn_revision c \<le> max_safe"
    "valid_template MemberLocal (sn_template c) \<or> valid_template Managed (sn_template c)"
  shows "parse_snapshot_connection (canonicalize cmp (snapshot_connection_json c))
    = (if sc_allow_writes (sn_template c) then None else Some c)"
proof -
  obtain gs where gs: "canonicalize cmp (snapshot_connection_json c) = JObj gs"
    by (simp add: snapshot_connection_json_def)
  from assms(4) obtain mode where mode: "valid_template mode (sn_template c)" by blast
  have get: "json_get (JObj gs) ''id'' = Some (JStr (sn_id c))"
    "json_get (JObj gs) ''contentRevision'' = Some (JNum (int (sn_revision c)))"
    using canonical_get [OF members_distinct, of cmp c] gs
    by (simp_all add: snapshot_connection_json_def connection_members_def)
  note rep = canonical_represents [OF mode gs]
  have parsed: "parse_shared_connection MemberLocal (JObj (filter (\<lambda>(k, _). k \<noteq> ''id'' \<and> k \<noteq> ''contentRevision'') gs))
      = (if sc_allow_writes (sn_template c) then None else Some (sn_template c))"
    using writes_need_managed rep parse_represented [OF valid_member_local [OF mode] rep] unfolding represents_def by auto
  show ?thesis
    unfolding gs parse_snapshot_connection_def using assms(1-3)
    by (simp add: get safe_revision_def parsed del: json_get.simps)
qed

lemma those_map_conditional:
  "those (map (\<lambda>c. if P c then None else Some c) cs) = (if \<exists>c\<in>set cs. P c then None else Some cs)"
  by (induction cs) auto

lemma snapshot_ids_canonical: "snapshot_ids (map (\<lambda>c. canonicalize cmp (snapshot_connection_json c)) cs) = map sn_id cs"
proof (induction cs)
  case (Cons c cs)
  obtain gs where gs: "canonicalize cmp (snapshot_connection_json c) = JObj gs"
    by (simp add: snapshot_connection_json_def)
  have "json_get (JObj gs) ''id'' = Some (JStr (sn_id c))"
    using canonical_get [OF members_distinct, of cmp c] gs
    by (simp add: snapshot_connection_json_def connection_members_def)
  with Cons show ?case by (simp add: snapshot_ids_def gs map_filter_simps del: json_get.simps)
qed (simp add: snapshot_ids_def map_filter_simps)

lemma canonical_connections:
  "set (ss_connections (canonical_workspace_snapshot cmp s)) = set (ss_connections s)"
  "length (ss_connections (canonical_workspace_snapshot cmp s)) = length (ss_connections s)"
  "distinct (map sn_id (ss_connections (canonical_workspace_snapshot cmp s))) = distinct (map sn_id (ss_connections s))"
proof -
  let ?l = "js_sort (\<lambda>l r. cmp (sn_id l) (sn_id r)) (ss_connections s)"
  have "mset (map sn_id ?l) = mset (map sn_id (ss_connections s))" by simp
  then have "distinct (map sn_id ?l) = distinct (map sn_id (ss_connections s))" by (rule mset_eq_imp_distinct_iff)
  then show "distinct (map sn_id (ss_connections (canonical_workspace_snapshot cmp s))) = distinct (map sn_id (ss_connections s))"
    by (simp add: canonical_workspace_snapshot_def)
qed (simp_all add: canonical_workspace_snapshot_def)

lemma canonical_snapshot_parses:
  assumes "wf_snapshot s"
  shows "parse_workspace_metadata_snapshot (canonicalize cmp (snapshot_json (canonical_workspace_snapshot cmp s))) (ss_org s)
    = (if \<exists>c\<in>set (ss_connections s). sc_allow_writes (sn_template c) then None else Some (canonical_workspace_snapshot cmp s))"
proof -
  let ?s = "canonical_workspace_snapshot cmp s"
  let ?ws = "[(''organizationId'', JStr (ss_org ?s)), (''lifecycleState'', JStr (ss_lifecycle ?s)),
    (''residencyRegion'', json_text (ss_region ?s)), (''revision'', JNum (int (ss_revision ?s)))]"
  let ?cs = "map (\<lambda>c. canonicalize cmp (snapshot_connection_json c)) (ss_connections ?s)"
  obtain ws where ws: "canonicalize cmp (JObj ?ws) = JObj ws" by simp
  have top: "json_get (canonicalize cmp (snapshot_json ?s)) ''version'' = Some (JNum 1)"
    "json_get (canonicalize cmp (snapshot_json ?s)) ''workspace'' = Some (JObj ws)"
    "json_get (canonicalize cmp (snapshot_json ?s)) ''connections'' = Some (JArr ?cs)"
    unfolding snapshot_json_def by (subst canonical_get; simp add: ws [symmetric] comp_def del: canonicalize.simps(2))+
  have members: "json_get (JObj ws) ''organizationId'' = Some (JStr (ss_org s))" "json_get (JObj ws) ''lifecycleState'' = Some (JStr (ss_lifecycle s))"
    "json_get (JObj ws) ''residencyRegion'' = Some (json_text (ss_region s))" "json_get (JObj ws) ''revision'' = Some (JNum (int (ss_revision s)))"
    unfolding ws [symmetric] by (subst canonical_get; simp add: canonical_workspace_snapshot_def)+
  have region: "region_of_json (Some (json_text (ss_region s))) = Some (ss_region s)"
    by (cases "ss_region s") (simp_all add: region_of_json_def json_text_def)
  have "map parse_snapshot_connection ?cs = map (\<lambda>c. if sc_allow_writes (sn_template c) then None else Some c) (ss_connections ?s)"
    using assms canonical_connection_parses by (auto simp: wf_snapshot_def canonical_connections)
  then have "those (map parse_snapshot_connection ?cs)
      = (if \<exists>c\<in>set (ss_connections s). sc_allow_writes (sn_template c) then None else Some (ss_connections ?s))"
    by (simp only: those_map_conditional canonical_connections)
  then show ?thesis
    using assms unfolding parse_workspace_metadata_snapshot_def top
    by (simp add: members region safe_revision_def snapshot_ids_canonical canonical_connections wf_snapshot_def del: json_get.simps)
      (simp add: canonical_workspace_snapshot_def)
qed


definition sample_snapshot :: "bool \<Rightarrow> workspace_snapshot" where
  "sample_snapshot writes = \<lparr>ss_org = ''w'', ss_lifecycle = ''active'', ss_region = None, ss_revision = 3,
     ss_connections = [\<lparr>sn_id = ''0a1b2c3d-1111-4222-8333-0123456789ab'', sn_revision = 2,
       sn_template = sample_template\<lparr>sc_allow_writes := writes\<rparr>\<rparr>]\<rparr>"

definition sample_hasher :: hasher where
  "sample_hasher = \<lparr>hs_order = cmp_key id, hs_digest = (\<lambda>_. replicate 64 CHR ''a'')\<rparr>"

text \<open>A cipher that knows one text.\<close>

definition sample_cipher :: "Prelude.json \<Rightarrow> unit cipher" where
  "sample_cipher v = \<lparr>ci_seal = (\<lambda>_ _ _. ''v1.envelope''), ci_open = (\<lambda>_ e _. if e = ''v1.envelope'' then Some v else None)\<rparr>"

lemma sample_snapshot_wf: "wf_snapshot (sample_snapshot writes)"
proof -
  have "snapshot_uuid ''0a1b2c3d-1111-4222-8333-0123456789ab''" by code_simp
  moreover have "valid_template Managed (sample_template\<lparr>sc_allow_writes := writes\<rparr>)"
    using sample_valid by (simp add: valid_template_def sample_template_def mongo_shape_def)
  ultimately show ?thesis by (simp add: wf_snapshot_def sample_snapshot_def max_safe_def)
qed


section \<open>Reading a stored envelope\<close>

lemma concat_chunks: "0 < n \<Longrightarrow> concat (chunks_of n xs) = xs"
  by (induction n xs rule: chunks_of.induct) (subst chunks_of.simps, simp)

lemma chunks_nonempty: "0 < n \<Longrightarrow> xs \<noteq> [] \<Longrightarrow> chunks_of n xs \<noteq> []"
  by (subst chunks_of.simps) simp

lemma digit_run: "is_digit c = False \<Longrightarrow> takeWhile is_digit (nat_str n @ c # r) = nat_str n \<and> dropWhile is_digit (nat_str n @ c # r) = c # r"
  using nat_str_digits by (auto simp: takeWhile_append2 dropWhile_append2)

lemma nat_str_head: "0 < n \<Longrightarrow> hd (nat_str n) \<noteq> CHR ''0''"
proof (induction n rule: nat_str.induct)
  case (1 n)
  show ?case
  proof (cases "n < 10")
    case True
    then have "n \<in> {1,2,3,4,5,6,7,8,9}" using 1 by auto
    then show ?thesis by (subst nat_str.simps) (auto simp: char_of_def)
  next
    case False
    with 1 have "hd (nat_str (n div 10)) \<noteq> CHR ''0''" by auto
    with False show ?thesis by (subst nat_str.simps) simp
  qed
qed

lemma counted_nat: "0 < n \<Longrightarrow> counted (nat_str n @ CHR '':'' # r) = Some (n, r)"
  using digit_run [of "CHR '':''" n r] nat_str_head [of n] by (simp add: counted_def is_digit_def)

lemma starts_with_append: "starts_with p (p @ s)"
  by (induction p) auto

lemma manifest_read:
  assumes "hex64 hash" "0 < n" "0 < k"
  shows "manifest_parts (chunk_prefix @ nat_str n @ '':'' @ nat_str k @ '':'' @ hash) = Some (n, k, hash)"
  using assms by (simp add: manifest_parts_def starts_with_append counted_nat)

text \<open>The chunks of a new backup are exactly those of its envelope, in order.\<close>

definition chunk_rows :: "string \<Rightarrow> string \<Rightarrow> string \<Rightarrow> string list \<Rightarrow> nat \<Rightarrow> chunk_entry list" where
  "chunk_rows org backup value ts i =
     map (\<lambda>(part, text). \<lparr>ck_org = org, ck_backup = backup, ck_manifest = value, ck_part = part, ck_text = text\<rparr>) (enumerate i ts)"

lemma run_chunks:
  assumes "run_statements (Some p) (map (\<lambda>(part, text). scoped (\<lambda>_ db. map_option (\<lambda>d. (d, []))
       (insert_chunk \<lparr>ck_org = org, ck_backup = backup, ck_manifest = value, ck_part = part, ck_text = text\<rparr> db)))
     (enumerate i ts) @ ss) db = Some (db', rows)"
  shows "\<exists>db1 rs. run_statements (Some p) ss db1 = Some (db', rs) \<and> db1 = db\<lparr>vd_chunks := vd_chunks db @ chunk_rows org backup value ts i\<rparr>
    \<and> (ts = [] \<or> i + length ts \<le> 128)"
  using assms
proof (induction ts arbitrary: i db rows)
  case (Cons t ts)
  let ?c = "\<lparr>ck_org = org, ck_backup = backup, ck_manifest = value, ck_part = i, ck_text = t\<rparr>"
  from Cons.prems obtain db0 rs where ins: "insert_chunk ?c db = Some db0" and rest: "run_statements (Some p)
      (map (\<lambda>(part, text). scoped (\<lambda>_ db. map_option (\<lambda>d. (d, []))
       (insert_chunk \<lparr>ck_org = org, ck_backup = backup, ck_manifest = value, ck_part = part, ck_text = text\<rparr> db)))
      (enumerate (Suc i) ts) @ ss) db0 = Some (db', rs)"
    by (auto split: option.splits)
  from ins have db0: "db0 = db\<lparr>vd_chunks := vd_chunks db @ [?c]\<rparr>" "i < 128"
    by (auto simp: insert_chunk_def split: if_splits)
  from Cons.IH [OF rest] obtain rs' where "run_statements (Some p) ss (db0\<lparr>vd_chunks := vd_chunks db0 @ chunk_rows org backup value ts (Suc i)\<rparr>)
      = Some (db', rs')" "ts = [] \<or> Suc i + length ts \<le> 128" by blast
  then show ?case using db0 by (auto simp: chunk_rows_def)
qed (auto simp: chunk_rows_def)

definition chunks_owned :: "versions_db \<Rightarrow> bool" where
  "chunks_owned db \<longleftrightarrow> (\<forall>c\<in>set (vd_chunks db). \<exists>b\<in>set (vd_backups db). bk_id b = ck_backup c)"

lemma backup_inserted:
  assumes "insert_workspace_backup dg q db = (Inr (Some row), db')" "chunks_owned db"
  obtains mf ts where "backup_envelope_storage dg (bq_ciphertext q) = Some (mf, ts)" "row = backup_row_of q mf"
    "backup_scope q db = [()]" "vd_backups db' = vd_backups db @ [row]"
    "filter (\<lambda>c. ck_backup c = bq_backup q) (vd_chunks db') = chunk_rows (bq_org q) (bq_backup q) mf ts 0" "length ts \<le> 128"
    "length (bq_connections q) \<le> 1000" "hex64 (bq_hash q)"
proof -
  from assms(1) obtain storage m rows where st: "backup_envelope_storage dg (bq_ciphertext q) = Some storage"
      "atomic_d1 (backup_scope q) (backup_statements q storage) db = Inr ((m, rows), db')" "first_row (rows ! 0) = Some row"
      "length (bq_connections q) \<le> 1000"
    by (auto simp: insert_workspace_backup_def split: if_splits option.splits sum.splits)
  obtain mf ts where storage: "storage = (mf, ts)" by force
  have none: "\<forall>s\<in>set (backup_statements q storage). \<forall>db. s None db = Some (db, [])"
    by (auto simp: backup_statements_def chunk_statements_def)
  have "\<exists>p. backup_scope q db = [p] \<and> run_statements (Some p) (backup_statements q storage) db = Some (db', rows)"
    using st(2,3) none
    by (rule_tac atomic_cases [OF st(2) none]) (auto simp: backup_statements_def first_row_def nth_append split: if_splits)
  then have scope: "backup_scope q db = [()]" and run: "run_statements (Some ()) (backup_statements q storage) db = Some (db', rows)"
    by auto
  let ?b = "backup_row_of q mf"
  define inserts :: "(unit, versions_db, backup_entry) statement list" where
    "inserts = map (\<lambda>(part, text). scoped (\<lambda>_ db. map_option (\<lambda>d. (d, [])) (insert_chunk \<lparr>ck_org = bq_org q,
       ck_backup = bq_backup q, ck_manifest = mf, ck_part = part, ck_text = text\<rparr> db))) (enumerate 0 ts)"
  define audit :: "versions_db \<Rightarrow> versions_db" where
    "audit = add_audit \<lparr>ae_org = bq_org q, ae_actor = mu_user (bq_actor q), ae_action = ''workspace.backup.create'',
          ae_type = ''workspace_backup'', ae_resource = bq_backup q,
          ae_summary = [(''connectionCount'', JNum (int (length (bq_connections q)))), (''sourceRevision'', JNum (int (bq_revision q)))]\<rparr>"
  have "backup_statements q storage = scoped (\<lambda>_ db. map_option (\<lambda>d. (d, [?b])) (insert_backup ?b db))
      # scoped (\<lambda>_ db. map_option (\<lambda>d. (d, [])) (delete_stale_chunks (bq_org q) (bq_backup q) mf db)) # inserts @ [guarded (\<lambda>_. audit)]"
    by (simp add: backup_statements_def chunk_statements_def storage inserts_def audit_def)
  with run obtain db0 rs where ins: "insert_backup ?b db = Some db0" and rows: "rows = [?b] # rs"
      and r0: "run_statements (Some ()) (scoped (\<lambda>_ db. map_option (\<lambda>d. (d, [])) (delete_stale_chunks (bq_org q) (bq_backup q) mf db))
        # inserts @ [guarded (\<lambda>_. audit)]) db0 = Some (db', rs)"
    by (auto split: option.splits)
  from ins have db0: "db0 = db\<lparr>vd_backups := vd_backups db @ [?b]\<rparr>" and fresh: "\<forall>c\<in>set (vd_backups db). bk_id c \<noteq> bq_backup q"
      and hex: "hex64 (bq_hash q)"
    by (auto simp: insert_backup_def backup_check_def backup_row_of_def split: if_splits)
  have none_yet: "\<forall>c\<in>set (vd_chunks db). ck_backup c \<noteq> bq_backup q"
    using fresh assms(2) by (auto simp: chunks_owned_def)
  then have "delete_stale_chunks (bq_org q) (bq_backup q) mf db0 = Some db0"
    by (auto simp: delete_stale_chunks_def db0 filter_id_conv)
  with r0 obtain rs1 where "run_statements (Some ()) (inserts @ [guarded (\<lambda>_. audit)]) db0 = Some (db', rs1)"
    by auto
  from run_chunks [OF this [unfolded inserts_def]] have fin: "vd_chunks db' = vd_chunks db @ chunk_rows (bq_org q) (bq_backup q) mf ts 0"
      "vd_backups db' = vd_backups db @ [?b]" "ts = [] \<or> length ts \<le> 128"
    by (auto simp: add_audit_def db0 audit_def)
  have "filter (\<lambda>c. ck_backup c = bq_backup q) (vd_chunks db') = chunk_rows (bq_org q) (bq_backup q) mf ts 0"
    unfolding fin(1) using none_yet by (auto simp: filter_empty_conv chunk_rows_def filter_id_conv)
  moreover have "row = ?b" using st(3) rows by (simp add: first_row_def)
  moreover have "length ts \<le> 128" using fin(3) by auto
  ultimately show thesis using that [of mf ts] st(1,4) storage scope fin(2) hex by simp
qed

lemma chunk_row_parts:
  "map ck_part (chunk_rows org b v ts i) = [i..<i + length ts]" "map ck_text (chunk_rows org b v ts i) = ts"
  "length (chunk_rows org b v ts i) = length ts"
proof -
  have "map ck_part (chunk_rows org b v ts i) = map fst (enumerate i ts)" "map ck_text (chunk_rows org b v ts i) = map snd (enumerate i ts)"
    unfolding chunk_rows_def map_map by (rule map_cong [OF refl], clarsimp)+
  then show "map ck_part (chunk_rows org b v ts i) = [i..<i + length ts]" "map ck_text (chunk_rows org b v ts i) = ts"
    by simp_all
qed (simp add: chunk_rows_def)

lemma chunk_rows_mine: "filter (\<lambda>c. ck_org c = org \<and> ck_backup c = b \<and> ck_manifest c = v) (chunk_rows org b v ts i) = chunk_rows org b v ts i"
  by (auto simp: chunk_rows_def filter_id_conv)

lemma sort_key_sorted: "sorted (map f xs) \<Longrightarrow> sort_key f xs = xs"
  by (rule sort_key_id_if_sorted)

lemma stored_envelope_reads:
  assumes "backup_envelope_storage dg c = Some (v, ts)" "length ts \<le> 128" "hex64 (dg c)" "\<not> starts_with chunk_prefix c"
    and "filter (\<lambda>r. ck_backup r = b) (vd_chunks db) = chunk_rows org b v ts 0"
  shows "read_backup_envelope dg org b v db = Some c"
proof (cases "ts = []")
  case True
  with assms(1,4) show ?thesis
    by (auto simp: backup_envelope_storage_def read_backup_envelope_def Let_def split: if_splits)
next
  case False
  from assms(1) have len: "length c \<le> chunk_bytes * 128" "c \<noteq> []"
    by (auto simp: backup_envelope_storage_def split: if_splits)
  from assms(1) False have v: "v = chunk_prefix @ nat_str (length c) @ '':'' @ nat_str (length ts) @ '':'' @ dg c"
      and ts: "ts = chunks_of chunk_bytes c"
    by (auto simp: backup_envelope_storage_def Let_def split: if_splits)
  have parts: "manifest_parts v = Some (length c, length ts, dg c)"
    unfolding v by (rule manifest_read) (use assms(3) len False in auto)
  have pre: "starts_with chunk_prefix v" unfolding v by (rule starts_with_append)
  have "filter (\<lambda>c. ck_org c = org \<and> ck_backup c = b \<and> ck_manifest c = v) (vd_chunks db)
      = filter (\<lambda>c. ck_org c = org \<and> ck_backup c = b \<and> ck_manifest c = v) (filter (\<lambda>r. ck_backup r = b) (vd_chunks db))"
    by (simp only: filter_filter) (rule filter_cong, auto)
  then have rows: "filter (\<lambda>c. ck_org c = org \<and> ck_backup c = b \<and> ck_manifest c = v) (vd_chunks db) = chunk_rows org b v ts 0"
    unfolding assms(5) chunk_rows_mine .
  have "sort_key ck_part (chunk_rows org b v ts 0) = chunk_rows org b v ts 0"
    by (rule sort_key_sorted) (simp add: chunk_row_parts)
  moreover have "concat ts = c" unfolding ts by (rule concat_chunks) (simp add: chunk_bytes_def)
  ultimately show ?thesis
    using assms(2) len(1) pre by (simp add: read_backup_envelope_def parts rows chunk_row_parts Let_def)
qed

lemma row_gate: "x \<in> set [y. w \<leftarrow> ws, p w \<and> r w \<and> l w \<and> g w \<and> a \<and> Q] \<Longrightarrow> Q"
  by (auto split: if_splits)


text \<open>A workspace with its owner, a key and one connection.\<close>

definition sample_connection :: connection_entry where
  "sample_connection = \<lparr>ce_id = ''c'', ce_org = ''w'', ce_name = ''Orders'', ce_engine = SharedPostgres, ce_provider = ProviderGeneric,
     ce_driver = None, ce_host = ''h'', ce_port = 5432, ce_database = ''d'', ce_sslmode = ''require'', ce_readonly_default = True,
     ce_allow_writes = False, ce_env = None, ce_schema_group = None, ce_mongo = None, ce_mode = MemberLocal, ce_provisioned = False,
     ce_team_read = False, ce_integration = None, ce_resource_id = None, ce_content_revision = 1, ce_revision = 1, ce_updated = 0,
     ce_deleted = None, ce_pending = None, ce_claim = None, ce_created_by = ''u''\<rparr>"

definition sample_actor :: mutation_actor where
  "sample_actor = \<lparr>mu_session = ''s'', mu_user = ''u'', mu_member = ''m'', mu_role = ''owner''\<rparr>"

definition sample_vault :: versions_db where
  "sample_vault = \<lparr>vd_sessions = [\<lparr>ls_id = ''s'', ls_user = ''u'', ls_expires = 100\<rparr>],
     vd_members = [\<lparr>m_id = ''m'', m_org = ''w'', m_user = ''u'', m_role = ''owner'', m_pending_at = None, m_claim_id = None\<rparr>],
     vd_workspaces = [\<lparr>we_id = ''w'', we_lifecycle = ''active'', we_region = None, we_revision = 3, we_key_ref = None\<rparr>],
     vd_connections = [sample_connection],
     vd_grants = [\<lparr>gn_org = ''w'', gn_connection = ''c'', gn_member = ''m'', gn_capability = GrantManage, gn_team = False\<rparr>],
     vd_exclusions = [], vd_endpoints = [], vd_principals = [], vd_revocations = [],
     vd_versions = [\<lparr>rv_id = ''v1'', rv_org = ''w'', rv_resource = ''c'', rv_revision = 1, rv_base = Some 0, rv_parent = None, rv_main = True,
       rv_operation = VersionCreate, rv_payload = payload_json (persisted_connection_version_payload sample_connection False),
       rv_hash = replicate 64 CHR ''a'', rv_user = ''u''\<rparr>],
     vd_conflicts = [], vd_decisions = [], vd_audit = [], vd_backups = [], vd_chunks = [],
     vd_keys = [\<lparr>dk_id = ''k'', dk_org = ''w'', dk_version = 1, dk_reference = ''r'', dk_kms_version = ''1'', dk_wrapped = Some ''x'',
       dk_user = ''u'', dk_retired = None, dk_destroyed = None\<rparr>],
     vd_rotations = []\<rparr>"

definition sample_backup_request :: backup_request where
  "sample_backup_request = \<lparr>bq_org = ''w'', bq_backup = ''b'', bq_actor = sample_actor, bq_revision = 3, bq_lifecycle = ''active'',
     bq_region = None, bq_connections = [sample_connection], bq_data_key = ''k'', bq_key_reference = workspace_data_key_reference,
     bq_key_version = ''v1'', bq_ciphertext = ''v1.n.c.t'', bq_hash = replicate 64 CHR ''a'', bq_now = 10\<rparr>"

lemma sample_digest: "hex64 (replicate 64 CHR ''a'')"
  by code_simp

lemmas sample_db_defs = sample_connection_def sample_actor_def sample_vault_def sample_backup_request_def

lemma sample_backup_stored:
  "insert_workspace_backup (\<lambda>_. replicate 64 CHR ''a'') sample_backup_request sample_vault =
    (Inr (Some (backup_row_of sample_backup_request ''v1.n.c.t'')),
     snd (insert_workspace_backup (\<lambda>_. replicate 64 CHR ''a'') sample_backup_request sample_vault))"
proof -
  have st: "backup_envelope_storage (\<lambda>_. replicate 64 CHR ''a'') ''v1.n.c.t'' = Some (''v1.n.c.t'', [])"
    by (simp add: backup_envelope_storage_def printable_def chunk_bytes_def)
  have "key_version_shape ''v1''" by code_simp
  then have row: "backup_check (backup_row_of sample_backup_request ''v1.n.c.t'')"
    using sample_digest
    by (simp add: backup_check_def backup_row_of_def sample_backup_request_def max_safe_def)
  have scope: "backup_scope sample_backup_request sample_vault = [()]"
    by (simp add: backup_scope_def sample_db_defs connection_authority_def role_reaches_def key_active_def live_connections_def
        snapshot_columns_match_def)
  have ins: "insert_backup (backup_row_of sample_backup_request ''v1.n.c.t'') sample_vault
      = Some (sample_vault\<lparr>vd_backups := [backup_row_of sample_backup_request ''v1.n.c.t'']\<rparr>)"
    using row by (simp add: insert_backup_def has_key_def) (simp add: sample_db_defs backup_row_of_def)
  show ?thesis
    unfolding insert_workspace_backup_def
    by (simp add: st scope atomic_d1_def backup_statements_def chunk_statements_def ins delete_stale_chunks_def first_row_def
        sample_backup_request_def [THEN arg_cong [of _ _ bq_ciphertext]] sample_backup_request_def [THEN arg_cong [of _ _ bq_connections]])
      (simp add: sample_vault_def)
qed


end
