(* ===== verification/VersionHistory.thy ===== *)
theory VersionHistory
  imports BackupRoundTrip "HOL-Library.Sublist"
begin

text \<open>
  The histories of connections over every sequence of batches: conflicts, decisions, creations, changes, deletions and restores
  only append to the main line of a connection, one linked version per content revision.
\<close>

section \<open>Main lines\<close>

definition main_line :: "string \<Rightarrow> string \<Rightarrow> versions_db \<Rightarrow> revision_row list" where
  "main_line org conn db = filter (\<lambda>v. rv_main v \<and> rv_org v = org \<and> rv_resource v = conn) (vd_versions db)"

definition follows :: "revision_row \<Rightarrow> revision_row \<Rightarrow> bool" where
  "follows v w \<longleftrightarrow> rv_revision w = rv_revision v + 1 \<and> rv_base w = Some (rv_revision v) \<and> rv_parent w = Some (rv_id v)"

definition first_version :: "revision_row \<Rightarrow> bool" where
  "first_version v \<longleftrightarrow> rv_parent v = None \<and> 1 \<le> rv_revision v \<and> rv_base v = Some (rv_revision v - 1)"

inductive linked :: "revision_row list \<Rightarrow> bool" where
  nothing: "linked []"
| started: "first_version v \<Longrightarrow> linked [v]"
| grown: "linked (h @ [v]) \<Longrightarrow> follows v w \<Longrightarrow> linked (h @ [v, w])"

definition conn_keys :: "versions_db \<Rightarrow> (string \<times> string \<times> nat) list" where
  "conn_keys db = map (\<lambda>c. (ce_id c, ce_org c, ce_content_revision c)) (vd_connections db)"

definition decision_keys :: "versions_db \<Rightarrow> (string \<times> string) list" where
  "decision_keys db = map (\<lambda>d. (dc_org d, dc_conflict d)) (vd_decisions db)"

text \<open>Every connection stands at the last version of its line, and every version belongs to a connection.\<close>

definition versions_inv :: "versions_db \<Rightarrow> bool" where
  "versions_inv db \<longleftrightarrow>
     distinct (map fst (conn_keys db)) \<and> distinct (map rv_id (vd_versions db)) \<and> distinct (decision_keys db)
     \<and> (\<forall>v\<in>set (vd_versions db). \<exists>n. (rv_resource v, rv_org v, n) \<in> set (conn_keys db))
     \<and> (\<forall>(i, org, n)\<in>set (conn_keys db). main_line org i db \<noteq> [] \<and> rv_revision (last (main_line org i db)) = n)
     \<and> (\<forall>org i. linked (main_line org i db))"

lemma main_line_append:
  "vd_versions db' = vd_versions db @ vs \<Longrightarrow>
    main_line org i db' = main_line org i db @ filter (\<lambda>v. rv_main v \<and> rv_org v = org \<and> rv_resource v = i) vs"
  by (simp add: main_line_def)

lemma main_line_empty:
  assumes "versions_inv db" "i \<notin> set (map fst (conn_keys db))"
  shows "main_line org i db = []"
proof -
  have "rv_resource v \<noteq> i" if "v \<in> set (vd_versions db)" for v
    using assms that unfolding versions_inv_def by force
  then show ?thesis by (auto simp: main_line_def filter_empty_conv)
qed

section \<open>What each batch does to the tables\<close>

text \<open>Statements that leave the versions, the conflicts, the decisions and the keys of the connections alone.\<close>

definition same_history :: "versions_db \<Rightarrow> versions_db \<Rightarrow> bool" where
  "same_history db db' \<longleftrightarrow>
     conn_keys db' = conn_keys db \<and> vd_versions db' = vd_versions db \<and> vd_conflicts db' = vd_conflicts db
     \<and> vd_decisions db' = vd_decisions db"

lemma same_history_trans: "same_history a b \<Longrightarrow> same_history b c \<Longrightarrow> same_history a c"
  by (simp add: same_history_def)

lemma same_history_refl [simp]: "same_history a a"
  by (simp add: same_history_def)

definition keeps_history :: "('p, versions_db, 'r) statement \<Rightarrow> bool" where
  "keeps_history s \<longleftrightarrow> (\<forall>p db db' r. s p db = Some (db', r) \<longrightarrow> same_history db db')"

lemma run_keeps:
  assumes "run_statements p (ss @ ts) db = Some (db', rows)" "\<forall>s\<in>set ss. keeps_history s"
  shows "\<exists>db1 rs. same_history db db1 \<and> run_statements p ts db1 = Some (db', rs) \<and> rows = take (length ss) rows @ rs"
  using assms
proof (induction ss arbitrary: db rows)
  case (Cons s ss)
  from Cons.prems(1) obtain db0 r rs where s: "s p db = Some (db0, r)" "run_statements p (ss @ ts) db0 = Some (db', rs)" "rows = r # rs"
    by (auto simp: run_statement split: option.splits)
  from Cons.IH [OF s(2)] Cons.prems(2) obtain db1 rs' where "same_history db0 db1" "run_statements p ts db1 = Some (db', rs')"
      "rs = take (length ss) rs @ rs'" by auto
  moreover have "same_history db db0" using s(1) Cons.prems(2) by (auto simp: keeps_history_def)
  ultimately show ?case using s(3) by (auto intro: same_history_trans)
next
  case Nil
  then show ?case by (intro exI [of _ db] exI [of _ rows]) simp
qed

lemma keeps_guarded: "(\<And>p db. same_history db (f p db)) \<Longrightarrow> keeps_history (guarded f)"
  by (auto simp: keeps_history_def guarded_def scoped_def split: option.splits)

lemma keeps_scoped: "(\<And>p db db' r. f p db = Some (db', r) \<Longrightarrow> same_history db db') \<Longrightarrow> keeps_history (scoped f)"
  by (auto simp: keeps_history_def scoped_def split: option.splits)

lemma audit_same: "same_history db (add_audit a db)"
  by (simp add: add_audit_def same_history_def conn_keys_def)

lemma grant_same: "insert_grant g db = Some db' \<Longrightarrow> same_history db db'"
  by (auto simp: insert_grant_def same_history_def conn_keys_def split: if_splits)

lemma offer_same: "same_history db (offer_grant g db)"
  using grant_same by (auto simp: offer_grant_def split: option.splits)

lemma fold_same: "(\<And>x db. same_history db (f x db)) \<Longrightarrow> same_history db (fold f xs db)"
  by (induction xs arbitrary: db) (auto intro: same_history_trans)

lemma offers_same: "same_history db (offer_grants gs db)"
  unfolding offer_grants_def by (rule fold_same) (rule offer_same)

lemma endpoint_same: "insert_endpoint e db = Some db' \<Longrightarrow> same_history db db'"
  by (auto simp: insert_endpoint_def same_history_def conn_keys_def split: if_splits)

lemma team_read_same: "enable_team_read org conn db = Some db' \<Longrightarrow> same_history db db'"
proof -
  assume "enable_team_read org conn db = Some db'"
  then obtain db1 where u: "update_connections (\<lambda>c. ce_id c = conn \<and> ce_org c = org) (\<lambda>c. c\<lparr>ce_team_read := True\<rparr>) db = Some db1"
      and db': "db' = fold (\<lambda>c. offer_grants (team_grants c db1))
          (filter (\<lambda>c. ce_id c = conn \<and> ce_org c = org \<and> ce_deleted c = None) (vd_connections db1)) db1"
    by (auto simp: enable_team_read_def split: option.splits)
  have "same_history db db1"
    using u by (auto simp: update_connections_def same_history_def conn_keys_def split: if_splits)
  moreover have "same_history db1 db'" unfolding db' by (rule fold_same) (rule offers_same)
  ultimately show ?thesis by (rule same_history_trans)
qed

lemmas same_intros = audit_same grant_same offers_same endpoint_same team_read_same

lemma has_connection_key: "has_connection org i db \<longleftrightarrow> (\<exists>n. (i, org, n) \<in> set (conn_keys db))"
  by (force simp: has_connection_def conn_keys_def)

lemma insert_version_effect:
  assumes "insert_version v db = Some db'"
  shows "db' = db\<lparr>vd_versions := vd_versions db @ [v]\<rparr>" "\<forall>w\<in>set (vd_versions db). rv_id w \<noteq> rv_id v"
    "\<exists>n. (rv_resource v, rv_org v, n) \<in> set (conn_keys db)" "rv_main v \<Longrightarrow> 1 \<le> rv_revision v"
  using assms by (auto simp: insert_version_def has_connection_key [symmetric] revision_check_def split: if_splits)

text \<open>A conflict appends its candidate beside the main line.\<close>

lemma none_unmatched [simp]:
  "\<forall>s\<in>set (conflict_statements h q). \<forall>db. s None db = Some (db, [])"
  "\<forall>s\<in>set (decision_statements f org i a). \<forall>db. s None db = Some (db, [])"
  "\<forall>s\<in>set (create_statements h c). \<forall>db. s None db = Some (db, [])"
  "\<forall>s\<in>set (mutation_statements h m). \<forall>db. s None db = Some (db, [])"
  by (auto simp: conflict_statements_def decision_statements_def create_statements_def mutation_statements_def
      split: option.splits connection_mutation.splits)

lemma conflict_effect:
  "snd (conflict_connection_candidate h q db) = db
    \<or> (\<exists>p. vd_versions (snd (conflict_connection_candidate h q db)) = vd_versions db @ [candidate_row h q p]
        \<and> (\<forall>w\<in>set (vd_versions db). rv_id w \<noteq> rv_id (candidate_row h q p))
        \<and> (\<exists>n. (cq_connection q, cq_org q, n) \<in> set (conn_keys db))
        \<and> conn_keys (snd (conflict_connection_candidate h q db)) = conn_keys db
        \<and> vd_decisions (snd (conflict_connection_candidate h q db)) = vd_decisions db)"
proof (cases "atomic_d1 (conflict_scope_rows (cq_now q) (cq_org q) (cq_connection q) (cq_expected q) (cq_actor q)) (conflict_statements h q) db")
  case (Inr x)
  then obtain m rows db' where at: "atomic_d1 (conflict_scope_rows (cq_now q) (cq_org q) (cq_connection q) (cq_expected q) (cq_actor q))
      (conflict_statements h q) db = Inr ((m, rows), db')" by (cases x) auto
  show ?thesis
  proof (rule atomic_cases [OF at none_unmatched(1)])
    fix p assume run: "run_statements (Some p) (conflict_statements h q) db = Some (db', rows)"
    from run obtain db1 db2 where "insert_version (candidate_row h q p) db = Some db1" "insert_conflict (conflict_row_of q p) db1 = Some db2"
        "same_history db2 db'"
      using audit_same by (auto simp: conflict_statements_def split: option.splits)
    moreover have "snd (conflict_connection_candidate h q db) = db'"
      by (simp add: conflict_connection_candidate_def at)
    ultimately show ?thesis
      using insert_version_effect [of "candidate_row h q p" db db1]
      by (auto simp: insert_conflict_def same_history_def candidate_row_def conn_keys_def split: if_splits)
  qed (simp add: conflict_connection_candidate_def at)
qed (simp add: conflict_connection_candidate_def)

lemma decision_effect:
  "same_history db (snd (resolve_connection_conflict clk f org i r a db))
    \<or> (\<exists>d. vd_versions (snd (resolve_connection_conflict clk f org i r a db)) = vd_versions db
        \<and> conn_keys (snd (resolve_connection_conflict clk f org i r a db)) = conn_keys db
        \<and> vd_decisions (snd (resolve_connection_conflict clk f org i r a db)) = vd_decisions db @ [d]
        \<and> dc_org d = org \<and> dc_conflict d = i \<and> (org, i) \<notin> set (decision_keys db))"
proof (cases "atomic_d1 (decision_scope_rows clk org i r a) (decision_statements f org i a) db")
  case (Inr x)
  then obtain m rows db' where at: "atomic_d1 (decision_scope_rows clk org i r a) (decision_statements f org i a) db = Inr ((m, rows), db')"
    by (cases x) auto
  then have out: "snd (resolve_connection_conflict clk f org i r a db) = db'" by (simp add: resolve_connection_conflict_def)
  show ?thesis unfolding out
  proof (rule atomic_cases [OF at none_unmatched(2)])
    fix p assume run: "run_statements (Some p) (decision_statements f org i a) db = Some (db', rows)"
    show "same_history db db' \<or> (\<exists>d. vd_versions db' = vd_versions db \<and> conn_keys db' = conn_keys db
        \<and> vd_decisions db' = vd_decisions db @ [d] \<and> dc_org d = org \<and> dc_conflict d = i \<and> (org, i) \<notin> set (decision_keys db))"
    proof (cases "ds_current p")
      case None
      with run show ?thesis by (auto simp: decision_statements_def)
    next
      case (Some c)
      obtain current rev where c: "c = (current, rev)" by force
      show ?thesis
      proof (cases "ds_created p")
        case True
        with run Some c obtain db1 where ins: "insert_decision \<lparr>dc_id = f, dc_org = org, dc_conflict = i, dc_resolution = ds_resolution p,
            dc_resulting = current, dc_user = mu_user a\<rparr> db = Some db1" and db': "same_history db1 db'"
          using audit_same by (auto simp: decision_statements_def split: option.splits)
        from ins have "db1 = db\<lparr>vd_decisions := vd_decisions db @ [\<lparr>dc_id = f, dc_org = org, dc_conflict = i,
            dc_resolution = ds_resolution p, dc_resulting = current, dc_user = mu_user a\<rparr>]\<rparr>" "(org, i) \<notin> set (decision_keys db)"
          by (auto simp: insert_decision_def decision_keys_def split: if_splits)
        with db' show ?thesis by (auto simp: same_history_def conn_keys_def)
      next
        case False
        with run Some c show ?thesis by (auto simp: decision_statements_def)
      qed
    qed
  qed simp
qed (simp add: resolve_connection_conflict_def)

lemma create_effect:
  "snd (commit_connection_create h q db) = db
    \<or> (conn_keys (snd (commit_connection_create h q db)) = conn_keys db @ [(ct_connection q, ct_org q, 1)]
        \<and> ct_connection q \<notin> fst ` set (conn_keys db)
        \<and> vd_versions (snd (commit_connection_create h q db)) = vd_versions db @ [create_version_row h q]
        \<and> (\<forall>w\<in>set (vd_versions db). rv_id w \<noteq> ct_version_id q)
        \<and> vd_decisions (snd (commit_connection_create h q db)) = vd_decisions db)"
proof (cases "atomic_d1 (create_scope q) (create_statements h q) db")
  case (Inr x)
  then obtain m rows db' where at: "atomic_d1 (create_scope q) (create_statements h q) db = Inr ((m, rows), db')"
    by (cases x) auto
  then have out: "snd (commit_connection_create h q db) = db'" by (simp add: commit_connection_create_def)
  show ?thesis unfolding out
  proof (rule atomic_cases [OF at none_unmatched(3)])
    fix p assume run: "run_statements (Some p) (create_statements h q) db = Some (db', rows)"
    obtain mid audit where st: "create_statements h q = scoped (\<lambda>_ db. map_option (\<lambda>d. (d, [ReturnedRow (created_row q)])) (insert_connection (created_row q) db))
        # mid @ [scoped (\<lambda>_ db. map_option (\<lambda>d. (d, [])) (insert_version (create_version_row h q) db)), audit]"
        and mid: "\<forall>s\<in>set mid. keeps_history s" and audit: "keeps_history audit"
    proof -
      let ?mid = "(case ct_direct q of None \<Rightarrow> []
        | Some (scope, ceiling) \<Rightarrow>
            [scoped (\<lambda>_ db. map_option (\<lambda>d. (d, [])) (insert_endpoint \<lparr>ee_org = ct_org q, ee_connection = ct_connection q,
               ee_engine = sc_engine (vp_connection (ct_input q)), ee_scope = scope, ee_write_ceiling = ceiling\<rparr> db))])
     @ [scoped (\<lambda>_ db. map_option (\<lambda>d. (d, [])) (insert_grant \<lparr>gn_org = ct_org q, gn_connection = ct_connection q,
          gn_member = mu_member (ct_actor q), gn_capability = GrantManage, gn_team = False\<rparr> db))]
     @ (if ct_direct q \<noteq> None then [] else
         [guarded (\<lambda>_ db. offer_grants (manager_grants (ct_org q) (ct_connection q) db) db),
          scoped (\<lambda>_ db. map_option (\<lambda>d. (d, [])) (enable_team_read (ct_org q) (ct_connection q) db))]) :: (unit, versions_db, returned) statement list"
      have "\<forall>s\<in>set ?mid. keeps_history s"
        by (auto intro!: keeps_scoped keeps_guarded dest: same_intros(2,4,5) simp: same_intros(3) split: option.splits)
      then show thesis
        by (rule_tac mid = ?mid in that) (auto simp: create_statements_def intro!: keeps_guarded same_intros)
    qed
    from run [unfolded st] obtain db0 rs where ins: "insert_connection (created_row q) db = Some db0"
        and r0: "run_statements (Some p) (mid @ [scoped (\<lambda>_ db. map_option (\<lambda>d. (d, [])) (insert_version (create_version_row h q) db)), audit]) db0
          = Some (db', rs)"
      by (auto split: option.splits)
    from run_keeps [OF r0 mid] obtain db1 rs1 where s1: "same_history db0 db1"
        and r1: "run_statements (Some p) [scoped (\<lambda>_ db. map_option (\<lambda>d. (d, [])) (insert_version (create_version_row h q) db)), audit] db1 = Some (db', rs1)"
      by blast
    from r1 obtain db2 where v: "insert_version (create_version_row h q) db1 = Some db2" and a: "\<exists>r. audit (Some p) db2 = Some (db', r)"
      by (auto simp: run_statement scoped_def split: option.splits)
    have "same_history db2 db'" using a audit by (auto simp: keeps_history_def)
    moreover note insert_version_effect [OF v]
    moreover have "conn_keys db0 = conn_keys db @ [(ct_connection q, ct_org q, 1)]" "ct_connection q \<notin> fst ` set (conn_keys db)"
      "vd_versions db0 = vd_versions db" "vd_decisions db0 = vd_decisions db"
      using ins by (auto simp: insert_connection_def conn_keys_def created_row_def Let_def split: if_splits)
    ultimately show "db' = db \<or> conn_keys db' = conn_keys db @ [(ct_connection q, ct_org q, 1)]
        \<and> ct_connection q \<notin> fst ` set (conn_keys db) \<and> vd_versions db' = vd_versions db @ [create_version_row h q]
        \<and> (\<forall>w\<in>set (vd_versions db). rv_id w \<noteq> ct_version_id q) \<and> vd_decisions db' = vd_decisions db"
      using s1 by (auto simp: same_history_def conn_keys_def create_version_row_def)
  qed simp
qed (simp add: commit_connection_create_def)

lemma current_version_keys:
  assumes "c \<in> set (vd_connections db)" "current_version_of c v" "v \<in> set (vd_versions db)"
  shows "(ce_id c, ce_org c, ce_content_revision c) \<in> set (conn_keys db)" "v \<in> set (main_line (ce_org c) (ce_id c) db)"
    "rv_revision v = ce_content_revision c"
  using assms by (auto simp: conn_keys_def main_line_def current_version_of_def)

lemma mutation_scope_parts:
  "p \<in> set (mutation_scope q db) \<Longrightarrow>
    \<exists>c\<in>set (vd_connections db). \<exists>v\<in>set (vd_versions db). current_version_of c v \<and> p = rv_id v \<and> ce_id c = mq_connection q
      \<and> ce_org c = mq_org q \<and> ce_content_revision c = mq_content_revision q \<and> ce_revision c = mq_authority_revision q
      \<and> ce_claim c = Some (mq_claim q) \<and> ce_deleted c = None
      \<and> connection_authority (mq_now q) (mq_org q) (mq_actor q) (Some (mq_connection q)) (if mq_manager q then ManagerRole else AnyRole) db
      \<and> (case mq_mutation q of UpdateConnection _ _ \<Rightarrow> True
           | DeleteConnection _ \<Rightarrow> lowering_blockers (mq_now q) (mq_org q) (mq_connection q) db = [])"
  unfolding mutation_scope_def by (auto split: if_splits)

lemma apply_mutation_key: "ce_id (apply_mutation now m c) = ce_id c" "ce_org (apply_mutation now m c) = ce_org c"
  "ce_content_revision (apply_mutation now m c) = ce_content_revision c + 1"
  by (cases m; simp)+

definition bump :: "string \<Rightarrow> string \<times> string \<times> nat \<Rightarrow> string \<times> string \<times> nat" where
  "bump i k = (case k of (j, org, n) \<Rightarrow> if j = i then (j, org, n + 1) else k)"

lemma mutation_run:
  assumes "run_statements (Some p) (mutation_statements h q) db = Some (db', rows)"
  obtains db1 db2 where "update_connections (\<lambda>c. ce_id c = mq_connection q) (apply_mutation (mq_now q) (mq_mutation q)) db = Some db1"
    "db2 = (case mq_mutation q of UpdateConnection _ _ \<Rightarrow> db1 | DeleteConnection _ \<Rightarrow> settle_revocations (mq_org q) (mq_connection q) db1)"
    "\<exists>db3. insert_version (mutation_version_row h q p) db2 = Some db3 \<and> db' = mutation_audits q db3"
    "rows ! 0 = map ReturnedRow (filter (\<lambda>c. ce_id c = mq_connection q) (vd_connections db1))"
  using assms by (cases "mq_mutation q") (auto simp: mutation_statements_def split: option.splits)

lemma audits_same: "same_history db (mutation_audits q db)"
  unfolding mutation_audits_def by (rule fold_same) (rule audit_same)

lemma mutation_effect:
  "snd (commit_connection_mutation h q db) = db
    \<or> (\<exists>v\<in>set (vd_versions db). v \<in> set (main_line (mq_org q) (mq_connection q) db) \<and> rv_revision v = mq_content_revision q
        \<and> (mq_connection q, mq_org q, mq_content_revision q) \<in> set (conn_keys db)
        \<and> conn_keys (snd (commit_connection_mutation h q db)) = map (bump (mq_connection q)) (conn_keys db)
        \<and> vd_versions (snd (commit_connection_mutation h q db)) = vd_versions db @ [mutation_version_row h q (rv_id v)]
        \<and> (\<forall>w\<in>set (vd_versions db). rv_id w \<noteq> mq_version_id q)
        \<and> vd_decisions (snd (commit_connection_mutation h q db)) = vd_decisions db)"
proof (cases "atomic_d1 (mutation_scope q) (mutation_statements h q) db")
  case (Inr x)
  then obtain m rows db' where at: "atomic_d1 (mutation_scope q) (mutation_statements h q) db = Inr ((m, rows), db')"
    by (cases x) auto
  then have out: "snd (commit_connection_mutation h q db) = db'" by (simp add: commit_connection_mutation_def)
  show ?thesis unfolding out
  proof (rule atomic_cases [OF at none_unmatched(4)])
    fix p assume scope: "mutation_scope q db = [p]" and run: "run_statements (Some p) (mutation_statements h q) db = Some (db', rows)"
    have "p \<in> set (mutation_scope q db)" using scope by simp
    from mutation_scope_parts [OF this] obtain c v where cv: "c \<in> set (vd_connections db)" "v \<in> set (vd_versions db)" "current_version_of c v"
        "p = rv_id v" "ce_id c = mq_connection q" "ce_org c = mq_org q" "ce_content_revision c = mq_content_revision q" by blast
    note key = current_version_keys [OF cv(1,3,2)]
    from mutation_run [OF run] obtain db1 db2 db3 where
        u: "update_connections (\<lambda>c. ce_id c = mq_connection q) (apply_mutation (mq_now q) (mq_mutation q)) db = Some db1"
        and db2: "db2 = (case mq_mutation q of UpdateConnection _ _ \<Rightarrow> db1 | DeleteConnection _ \<Rightarrow> settle_revocations (mq_org q) (mq_connection q) db1)"
        and v: "insert_version (mutation_version_row h q p) db2 = Some db3" and db': "db' = mutation_audits q db3"
      by blast
    from u have "conn_keys db1 = map (bump (mq_connection q)) (conn_keys db)" "vd_versions db1 = vd_versions db" "vd_decisions db1 = vd_decisions db"
      by (auto simp: update_connections_def conn_keys_def apply_mutation_key bump_def split: if_splits)
    moreover have "conn_keys db2 = conn_keys db1" "vd_versions db2 = vd_versions db1" "vd_decisions db2 = vd_decisions db1"
      unfolding db2 by (auto simp: settle_revocations_def conn_keys_def split: connection_mutation.splits)
    moreover note insert_version_effect [OF v] audits_same [of db3 q]
    ultimately show "db' = db \<or> (\<exists>v\<in>set (vd_versions db). v \<in> set (main_line (mq_org q) (mq_connection q) db)
        \<and> rv_revision v = mq_content_revision q \<and> (mq_connection q, mq_org q, mq_content_revision q) \<in> set (conn_keys db)
        \<and> conn_keys db' = map (bump (mq_connection q)) (conn_keys db)
        \<and> vd_versions db' = vd_versions db @ [mutation_version_row h q (rv_id v)]
        \<and> (\<forall>w\<in>set (vd_versions db). rv_id w \<noteq> mq_version_id q) \<and> vd_decisions db' = vd_decisions db)"
      using key cv(4-7) db' by (intro disjI2 bexI [OF _ cv(2)]) (auto simp: same_history_def conn_keys_def mutation_version_row_def)
  qed simp
qed (simp add: commit_connection_mutation_def)

section \<open>The invariant\<close>

lemma linked_snoc: "linked (h @ [v]) \<Longrightarrow> follows v w \<Longrightarrow> linked (h @ [v] @ [w])"
  using grown by simp

lemma linked_increasing: "linked h \<Longrightarrow> sorted_wrt (<) (map rv_revision h)"
proof (induction rule: linked.induct)
  case (grown h v w)
  then show ?case by (auto simp: sorted_wrt_append follows_def)
qed simp_all

lemma linked_last: "linked h \<Longrightarrow> v \<in> set h \<Longrightarrow> rv_revision v = rv_revision (last h) \<Longrightarrow> v = last h"
proof -
  assume h: "linked h" "v \<in> set h" "rv_revision v = rv_revision (last h)"
  then have "distinct (map rv_revision h)" using linked_increasing strict_sorted_iff by blast
  moreover have "last h \<in> set h" using h(2) by (cases h) auto
  ultimately show ?thesis using h(2,3) by (meson distinct_key_unique)
qed

definition row_key :: "revision_row \<Rightarrow> string \<times> string \<times> nat" where
  "row_key v = (rv_resource v, rv_org v, rv_revision v)"

lemma filter_single:
  assumes "distinct (map f xs)" "x \<in> set xs" "P x" "\<And>y. P y \<Longrightarrow> f y = f x"
  shows "filter P xs = [x]"
  using assms
proof (induction xs)
  case (Cons a xs)
  show ?case
  proof (cases "a = x")
    case True
    have "filter P xs = []" using Cons.prems(1,4) True by (auto simp: filter_empty_conv image_iff)
    with True Cons.prems(3) show ?thesis by simp
  next
    case False
    with Cons.prems(2) have "x \<in> set xs" by simp
    have "\<not> P a"
    proof
      assume "P a"
      then have "f a = f x" by (rule Cons.prems(4))
      with Cons.prems(1) \<open>x \<in> set xs\<close> show False by force
    qed
    moreover have "filter P xs = [x]"
      by (rule Cons.IH [OF _ \<open>x \<in> set xs\<close> Cons.prems(3,4)]) (use Cons.prems(1) in simp)
    ultimately show ?thesis by simp
  qed
qed simp

lemma inv_new_lines:
  assumes inv: "versions_inv db" and keys: "conn_keys db' = conn_keys db @ map row_key vs"
    and versions: "vd_versions db' = vd_versions db @ us @ vs" and decisions: "distinct (decision_keys db')"
    and beside: "\<forall>u\<in>set us. \<not> rv_main u \<and> (\<exists>n. (rv_resource u, rv_org u, n) \<in> set (conn_keys db'))"
    and first: "\<forall>v\<in>set vs. rv_main v \<and> first_version v"
    and unique: "distinct (map rv_id (vd_versions db'))" "distinct (map fst (conn_keys db'))"
  shows "versions_inv db'" "main_line org i db' = main_line org i db \<or> main_line org i db = [] \<and> (\<exists>v. main_line org i db' = [v])"
proof -
  have dr: "distinct (map rv_resource vs)" using unique(2) by (auto simp: keys row_key_def comp_def)
  have line: "main_line org i db' = main_line org i db @ filter (\<lambda>v. rv_main v \<and> rv_org v = org \<and> rv_resource v = i) vs" for org i
    using beside by (simp add: main_line_append [OF versions] filter_empty_conv)
  have old: "main_line (rv_org v) (rv_resource v) db = []" if "v \<in> set vs" for v
  proof (rule main_line_empty [OF inv])
    show "rv_resource v \<notin> set (map fst (conn_keys db))"
      using unique(2) that by (auto simp: keys row_key_def image_iff)
  qed
  have new: "filter (\<lambda>w. rv_main w \<and> rv_org w = rv_org v \<and> rv_resource w = rv_resource v) vs = [v]" if "v \<in> set vs" for v
    by (rule filter_single [OF dr that]) (use first that in auto)
  have cases: "(main_line org i db' = main_line org i db \<and> (\<forall>v\<in>set vs. \<not> (rv_org v = org \<and> rv_resource v = i)))
      \<or> (\<exists>v\<in>set vs. rv_org v = org \<and> rv_resource v = i \<and> main_line org i db = [] \<and> main_line org i db' = [v])" for org i
  proof (cases "\<exists>v\<in>set vs. rv_org v = org \<and> rv_resource v = i")
    case True
    then obtain v where "v \<in> set vs" "rv_org v = org" "rv_resource v = i" by blast
    with old [of v] new [of v] line [of org i] show ?thesis by auto
  next
    case False
    then have "filter (\<lambda>v. rv_main v \<and> rv_org v = org \<and> rv_resource v = i) vs = []" by (auto simp: filter_empty_conv)
    with False line [of org i] show ?thesis by auto
  qed
  show "main_line org i db' = main_line org i db \<or> main_line org i db = [] \<and> (\<exists>v. main_line org i db' = [v])"
    using cases [of org i] by blast
  have stands: "main_line org i db' \<noteq> [] \<and> rv_revision (last (main_line org i db')) = n" if k: "(i, org, n) \<in> set (conn_keys db')" for i org n
  proof (cases "(i, org, n) \<in> set (conn_keys db)")
    case True
    then have "main_line org i db \<noteq> []" "rv_revision (last (main_line org i db)) = n" using inv by (auto simp: versions_inv_def)
    with cases [of org i] show ?thesis by auto
  next
    case False
    with k obtain v where "v \<in> set vs" "row_key v = (i, org, n)" by (auto simp: keys)
    with old [of v] new [of v] line [of org i] show ?thesis by (auto simp: row_key_def)
  qed
  have "linked (main_line org i db)" for org i using inv by (simp add: versions_inv_def)
  then have "linked (main_line org i db')" for org i
    using cases [of org i] first started by metis
  moreover have "\<exists>n. (rv_resource v, rv_org v, n) \<in> set (conn_keys db')" if v: "v \<in> set (vd_versions db')" for v
  proof -
    from v consider "v \<in> set (vd_versions db)" | "v \<in> set us" | "v \<in> set vs" by (auto simp: versions)
    then show ?thesis
    proof cases
      case 1
      with inv obtain n where "(rv_resource v, rv_org v, n) \<in> set (conn_keys db)" unfolding versions_inv_def by blast
      then show ?thesis by (auto simp: keys)
    next
      case 3
      then have "row_key v \<in> set (conn_keys db')" by (simp add: keys)
      then show ?thesis by (auto simp: row_key_def)
    qed (use beside in blast)
  qed
  ultimately show "versions_inv db'" using stands unique decisions unfolding versions_inv_def by blast
qed

lemma inv_commit:
  assumes inv: "versions_inv db" and v: "v \<in> set (main_line org i db)" "rv_revision v = n" "(i, org, n) \<in> set (conn_keys db)"
    and keys: "conn_keys db' = map (bump i) (conn_keys db)" and versions: "vd_versions db' = vd_versions db @ [w]"
    and fresh: "\<forall>u\<in>set (vd_versions db). rv_id u \<noteq> rv_id w" and decisions: "vd_decisions db' = vd_decisions db"
    and w: "rv_main w" "rv_org w = org" "rv_resource w = i" "follows v w"
  shows "versions_inv db'" "main_line org i db' = main_line org i db @ [w]" "(org', j) \<noteq> (org, i) \<Longrightarrow> main_line org' j db' = main_line org' j db"
proof -
  show same: "main_line org' j db' = main_line org' j db" if "(org', j) \<noteq> (org, i)" for org' j
    using that w by (auto simp: main_line_append [OF versions])
  show grow: "main_line org i db' = main_line org i db @ [w]" using w by (simp add: main_line_append [OF versions])
  from inv v(3) have n: "main_line org i db \<noteq> []" "rv_revision (last (main_line org i db)) = n" by (auto simp: versions_inv_def)
  from inv have link: "linked (main_line org j db)" for org j by (simp add: versions_inv_def)
  have "v = last (main_line org i db)" using linked_last [OF link v(1)] v(2) n(2) by simp
  then have "linked (butlast (main_line org i db) @ [v] @ [w])"
    using link [of org i] n(1) w(4) linked_snoc by (metis append_butlast_last_id)
  then have "linked (main_line org i db')" using grow n(1) \<open>v = _\<close> by (metis append.assoc append_butlast_last_id)
  then have "linked (main_line org j db')" for org j using same [of org j] link [of org j] by (cases "(org, j) = (rv_org w, i)") (auto simp: w)
  moreover have "\<exists>n. (rv_resource u, rv_org u, n) \<in> set (conn_keys db')" if "u \<in> set (vd_versions db')" for u
  proof -
    from that inv v(3) w obtain m where "(rv_resource u, rv_org u, m) \<in> set (conn_keys db)" by (auto simp: versions versions_inv_def)
    then have "bump i (rv_resource u, rv_org u, m) \<in> set (conn_keys db')" by (simp add: keys)
    then show ?thesis by (auto simp: bump_def split: if_splits)
  qed
  moreover have "map fst (conn_keys db') = map fst (conn_keys db)" by (auto simp: keys bump_def split: prod.split)
  moreover have "main_line org' j db' \<noteq> [] \<and> rv_revision (last (main_line org' j db')) = m" if k: "(j, org', m) \<in> set (conn_keys db')" for j org' m
  proof (cases "j = i")
    case False
    with k have "(j, org', m) \<in> set (conn_keys db)" by (auto simp: keys bump_def split: if_splits)
    with inv same [of org' j] False show ?thesis by (auto simp: versions_inv_def)
  next
    case True
    with k obtain m' where "(i, org', m') \<in> set (conn_keys db)" "m = m' + 1" by (auto simp: keys bump_def split: if_splits)
    moreover have "distinct (map fst (conn_keys db))" using inv by (simp add: versions_inv_def)
    ultimately have "org' = org" "m' = n" using v(3) by (metis distinct_key_unique fst_conv prod.inject)+
    with True grow w(4) \<open>m = _\<close> v(2) show ?thesis by (auto simp: follows_def)
  qed
  ultimately show "versions_inv db'"
    using inv fresh decisions by (auto simp: versions_inv_def versions decision_keys_def)
qed

section \<open>Restores\<close>

lemma insert_all_Nil [simp]: "insert_all ins [] db = Some db"
  by (simp add: insert_all_def)

lemma insert_all_Cons [simp]: "insert_all ins (x # xs) db = Option.bind (ins x db) (insert_all ins xs)"
proof -
  have "fold (\<lambda>x acc. Option.bind acc (ins x)) xs None = None" for xs by (induction xs) simp_all
  then show ?thesis by (cases "ins x db") (simp_all add: insert_all_def)
qed

lemma insert_all_versions:
  assumes "insert_all (insert_version \<circ> f) xs db = Some db'"
  shows "vd_versions db' = vd_versions db @ map f xs" "conn_keys db' = conn_keys db" "vd_decisions db' = vd_decisions db"
    "distinct (map rv_id (vd_versions db)) \<Longrightarrow> distinct (map rv_id (vd_versions db'))"
    "\<forall>x\<in>set xs. \<exists>n. (rv_resource (f x), rv_org (f x), n) \<in> set (conn_keys db)" "\<forall>x\<in>set xs. rv_main (f x) \<longrightarrow> 1 \<le> rv_revision (f x)"
proof -
  have "vd_versions db' = vd_versions db @ map f xs \<and> conn_keys db' = conn_keys db \<and> vd_decisions db' = vd_decisions db
    \<and> (distinct (map rv_id (vd_versions db)) \<longrightarrow> distinct (map rv_id (vd_versions db')))
    \<and> (\<forall>x\<in>set xs. \<exists>n. (rv_resource (f x), rv_org (f x), n) \<in> set (conn_keys db)) \<and> (\<forall>x\<in>set xs. rv_main (f x) \<longrightarrow> 1 \<le> rv_revision (f x))"
    using assms
  proof (induction xs arbitrary: db)
    case (Cons x xs)
    then obtain db1 where ins: "insert_version (f x) db = Some db1" "insert_all (insert_version \<circ> f) xs db1 = Some db'"
      unfolding insert_all_Cons bind_eq_Some_conv comp_apply by blast
    note e = insert_version_effect [OF ins(1)]
    have "conn_keys db1 = conn_keys db" "vd_decisions db1 = vd_decisions db" by (auto simp: e(1) conn_keys_def)
    moreover have "distinct (map rv_id (vd_versions db)) \<longrightarrow> distinct (map rv_id (vd_versions db1))" using e(2) by (auto simp: e(1))
    moreover note ih = Cons.IH [OF ins(2)]
    moreover have "vd_versions db' = vd_versions db @ map f (x # xs)" using ih by (simp add: e(1))
    ultimately show ?case using e(3,4) by (metis set_ConsD)
  qed simp
  then show "vd_versions db' = vd_versions db @ map f xs" "conn_keys db' = conn_keys db" "vd_decisions db' = vd_decisions db"
    "distinct (map rv_id (vd_versions db)) \<Longrightarrow> distinct (map rv_id (vd_versions db'))"
    "\<forall>x\<in>set xs. \<exists>n. (rv_resource (f x), rv_org (f x), n) \<in> set (conn_keys db)" "\<forall>x\<in>set xs. rv_main (f x) \<longrightarrow> 1 \<le> rv_revision (f x)"
    by blast+
qed

lemma insert_all_conflicts:
  "insert_all (restore_conflict_row q) xs db = Some db' \<Longrightarrow>
    vd_versions db' = vd_versions db \<and> conn_keys db' = conn_keys db \<and> vd_decisions db' = vd_decisions db"
proof (induction xs arbitrary: db)
  case (Cons x xs)
  then obtain db1 where "restore_conflict_row q x db = Some db1" "insert_all (restore_conflict_row q) xs db1 = Some db'"
    by (auto simp: bind_eq_Some_conv)
  moreover from this(1) have "vd_versions db1 = vd_versions db \<and> conn_keys db1 = conn_keys db \<and> vd_decisions db1 = vd_decisions db"
    by (auto simp: restore_conflict_row_def insert_conflict_def conn_keys_def split: prod.splits option.splits if_splits)
  ultimately show ?case using Cons.IH by auto
qed simp

lemma insert_all_same:
  assumes "\<And>x db db'. ins x db = Some db' \<Longrightarrow> same_history db db'"
  shows "insert_all ins xs db = Some db' \<Longrightarrow> same_history db db'"
proof (induction xs arbitrary: db)
  case (Cons x xs)
  then obtain db1 where "ins x db = Some db1" "insert_all ins xs db1 = Some db'" by (auto simp: bind_eq_Some_conv)
  then show ?case using assms Cons.IH same_history_trans by blast
qed simp

lemma insert_all_connections:
  assumes "insert_all (\<lambda>(it, _). insert_connection (restored_connection q it)) xs db = Some db'"
  shows "conn_keys db' = conn_keys db @ map (\<lambda>(it, _). (ri_id it, rq_org q, ri_revision it)) xs"
    "vd_versions db' = vd_versions db" "vd_decisions db' = vd_decisions db"
    "distinct (map fst (conn_keys db)) \<Longrightarrow> distinct (map fst (conn_keys db'))"
proof -
  have "conn_keys db' = conn_keys db @ map (\<lambda>(it, _). (ri_id it, rq_org q, ri_revision it)) xs
    \<and> vd_versions db' = vd_versions db \<and> vd_decisions db' = vd_decisions db
    \<and> (distinct (map fst (conn_keys db)) \<longrightarrow> distinct (map fst (conn_keys db')))"
    using assms
  proof (induction xs arbitrary: db)
    case (Cons x xs)
    obtain it en where x: "x = (it, en)" by force
    with Cons.prems obtain db1 where ins: "insert_connection (restored_connection q it) db = Some db1"
        "insert_all (\<lambda>(it, _). insert_connection (restored_connection q it)) xs db1 = Some db'"
      by (auto simp: bind_eq_Some_conv)
    from ins(1) have one: "conn_keys db1 = conn_keys db @ [(ri_id it, rq_org q, ri_revision it)]" "vd_versions db1 = vd_versions db"
        "vd_decisions db1 = vd_decisions db" "ri_id it \<notin> fst ` set (conn_keys db)"
      by (auto simp: insert_connection_def conn_keys_def restored_connection_def Let_def split: if_splits)
    then have "distinct (map fst (conn_keys db)) \<longrightarrow> distinct (map fst (conn_keys db1))" by auto
    moreover note ih = Cons.IH [OF ins(2)]
    moreover have "conn_keys db' = conn_keys db @ map (\<lambda>(it, _). (ri_id it, rq_org q, ri_revision it)) ((it, en) # xs)"
      using ih one(1) by simp
    ultimately show ?case using one(2,3) unfolding x by metis
  qed simp
  then show "conn_keys db' = conn_keys db @ map (\<lambda>(it, _). (ri_id it, rq_org q, ri_revision it)) xs"
    "vd_versions db' = vd_versions db" "vd_decisions db' = vd_decisions db"
    "distinct (map fst (conn_keys db)) \<Longrightarrow> distinct (map fst (conn_keys db'))" by blast+
qed

text \<open>A chunk of the restore starts new lines at the revision of the snapshot and puts candidates beside the others.\<close>

lemma restore_chunk:
  assumes inv: "versions_inv db"
    and run: "run_statements (Some p) (restore_chunk_statements h q items @ ss) db = Some (db', rows)"
  obtains db1 rs where "versions_inv db1" "run_statements (Some p) ss db1 = Some (db', rs)" "vd_decisions db1 = vd_decisions db"
    "\<And>org i. prefix (main_line org i db) (main_line org i db1)"
proof -
  let ?E = "matched_rows True items (fst p)" and ?M = "matched_rows False items (fst p)"
  from run obtain d1 d2 d3 d4 d5 rs where s: "insert_all (insert_version \<circ> restore_version_row h q False) ?E db = Some d1"
      "insert_all (restore_conflict_row q) ?E d1 = Some d2"
      "insert_all (\<lambda>(it, _). insert_connection (restored_connection q it)) ?M d2 = Some d3"
      "insert_all (\<lambda>(it, _). insert_grant \<lparr>gn_org = rq_org q, gn_connection = ri_id it, gn_member = mu_member (rq_actor q),
           gn_capability = GrantManage, gn_team = False\<rparr>) ?M d3 = Some d4"
      "insert_all (insert_version \<circ> restore_version_row h q True) ?M d4 = Some d5" "run_statements (Some p) ss d5 = Some (db', rs)"
    by (auto simp: restore_chunk_statements_def split: option.splits)
  note e1 = insert_all_versions [OF s(1)] and e2 = insert_all_conflicts [OF s(2)] and e3 = insert_all_connections [OF s(3)]
    and e5 = insert_all_versions [OF s(5)]
  have e4: "same_history d3 d4" by (rule insert_all_same [OF _ s(4)]) (auto dest: grant_same)
  let ?us = "map (restore_version_row h q False) ?E" and ?vs = "map (restore_version_row h q True) ?M"
  have keys: "conn_keys d5 = conn_keys db @ map row_key ?vs"
    using e1(2) e2 e3(1) e4 e5(2) by (auto simp: same_history_def row_key_def restore_version_row_def)
  have versions: "vd_versions d5 = vd_versions db @ ?us @ ?vs"
    using e1(1) e2 e3(2) e4 e5(1) by (auto simp: same_history_def)
  have decisions: "vd_decisions d5 = vd_decisions db" using e1(3) e2 e3(3) e4 e5(3) by (auto simp: same_history_def)
  have ids: "distinct (map rv_id (vd_versions d5))"
    using inv e1(4) e2 e3(2) e4 e5(4) by (auto simp: same_history_def versions_inv_def)
  have kids: "distinct (map fst (conn_keys d5))"
    using inv e1(2) e2 e3(4) e4 e5(2) by (auto simp: same_history_def versions_inv_def)
  have beside: "\<forall>u\<in>set ?us. \<not> rv_main u \<and> (\<exists>n. (rv_resource u, rv_org u, n) \<in> set (conn_keys d5))"
    using e1(5) unfolding keys by (fastforce simp: restore_version_row_def)
  have first: "\<forall>v\<in>set ?vs. rv_main v \<and> first_version v"
    using e5(6) by (fastforce simp: restore_version_row_def first_version_def)
  have "distinct (decision_keys d5)" using inv decisions by (simp add: decision_keys_def versions_inv_def)
  note new = inv_new_lines [OF inv keys versions this beside first ids kids]
  show thesis
  proof (rule that [OF new(1) s(6) decisions])
    fix org i show "prefix (main_line org i db) (main_line org i d5)" using new(2) [of org i] by auto
  qed
qed

section \<open>Runs\<close>

text \<open>
  The batches that write versions, and the writes of other components (claims, grants, leases, names of members), which leave the
  histories alone.
\<close>

datatype version_event =
    RecordConflict conflict_request
  | Decide int string string string conflict_resolution mutation_actor
  | CreateConnection create_request
  | Mutate mutation_request
  | RestoreBackup restore_request
  | Elsewhere versions_db

fun version_step :: "hasher \<Rightarrow> versions_db \<Rightarrow> version_event \<Rightarrow> versions_db" where
  "version_step h db (RecordConflict q) = snd (conflict_connection_candidate h q db)"
| "version_step h db (Decide clk f org i r a) = snd (resolve_connection_conflict clk f org i r a db)"
| "version_step h db (CreateConnection q) = snd (commit_connection_create h q db)"
| "version_step h db (Mutate q) = snd (commit_connection_mutation h q db)"
| "version_step h db (RestoreBackup q) = snd (restore_workspace_snapshot h q db)"
| "version_step h db (Elsewhere db') = (if same_history db db' then db' else db)"

lemma inv_same: "versions_inv db \<Longrightarrow> same_history db db' \<Longrightarrow> versions_inv db'"
  by (simp add: versions_inv_def same_history_def main_line_def decision_keys_def)

lemma inv_other_decisions:
  "versions_inv db \<Longrightarrow> vd_versions d = vd_versions db \<Longrightarrow> conn_keys d = conn_keys db \<Longrightarrow> distinct (decision_keys d)
    \<Longrightarrow> versions_inv d"
  by (simp add: versions_inv_def main_line_def)

lemma line_same: "same_history db db' \<Longrightarrow> main_line org i db' = main_line org i db"
  by (simp add: same_history_def main_line_def)

lemma same_effect:
  assumes "versions_inv db" "same_history db db'"
  shows "versions_inv db' \<and> (\<forall>org i. prefix (main_line org i db) (main_line org i db')) \<and> prefix (vd_decisions db) (vd_decisions db')"
proof -
  have "vd_decisions db' = vd_decisions db" using assms(2) by (simp add: same_history_def)
  then show ?thesis using inv_same [OF assms] line_same [OF assms(2)] by simp
qed

lemma restore_unmatched: "\<forall>s\<in>set (restore_statements h q). \<forall>db. s None db = Some (db, [])"
  by (auto simp: restore_statements_def restore_chunk_statements_def)

lemma restore_chunks:
  assumes "versions_inv db" "run_statements (Some p) (concat (map (restore_chunk_statements h q) cs) @ ss) db = Some (db', rows)"
  shows "\<exists>db1 rs. versions_inv db1 \<and> run_statements (Some p) ss db1 = Some (db', rs) \<and> vd_decisions db1 = vd_decisions db
    \<and> (\<forall>org i. prefix (main_line org i db) (main_line org i db1))"
  using assms
proof (induction cs arbitrary: db rows)
  case (Cons c cs)
  then have "run_statements (Some p) (restore_chunk_statements h q c @ concat (map (restore_chunk_statements h q) cs) @ ss) db = Some (db', rows)"
    by simp
  from restore_chunk [OF Cons.prems(1) this] obtain db1 rs where one: "versions_inv db1"
      "run_statements (Some p) (concat (map (restore_chunk_statements h q) cs) @ ss) db1 = Some (db', rs)" "vd_decisions db1 = vd_decisions db"
      "\<And>org i. prefix (main_line org i db) (main_line org i db1)" by blast
  from Cons.IH [OF one(1,2)] one(3,4) show ?case by (metis prefix_order.trans)
qed auto

lemma restore_effect:
  assumes "versions_inv db"
  shows "versions_inv (snd (restore_workspace_snapshot h q db))"
    "prefix (main_line org i db) (main_line org i (snd (restore_workspace_snapshot h q db)))"
    "vd_decisions (snd (restore_workspace_snapshot h q db)) = vd_decisions db"
proof -
  have "versions_inv (snd (restore_workspace_snapshot h q db)) \<and> vd_decisions (snd (restore_workspace_snapshot h q db)) = vd_decisions db
    \<and> (\<forall>org i. prefix (main_line org i db) (main_line org i (snd (restore_workspace_snapshot h q db))))"
  proof (cases "atomic_d1 (restore_scope q) (restore_statements h q) db")
    case (Inl _)
    with assms show ?thesis by (simp add: restore_workspace_snapshot_def)
  next
    case (Inr x)
    then obtain m rows db' where at: "atomic_d1 (restore_scope q) (restore_statements h q) db = Inr ((m, rows), db')" by (cases x) auto
    then have out: "snd (restore_workspace_snapshot h q db) = db'" by (simp add: restore_workspace_snapshot_def)
    show ?thesis unfolding out
    proof (rule atomic_cases [OF at restore_unmatched])
      fix p assume run: "run_statements (Some p) (restore_statements h q) db = Some (db', rows)"
      define db0 where "db0 = db\<lparr>vd_workspaces := map (\<lambda>w. if we_id w = rq_org q then w\<lparr>we_revision := we_revision w + 1\<rparr> else w) (vd_workspaces db)\<rparr>"
      have s0: "same_history db db0" by (simp add: db0_def same_history_def conn_keys_def)
      from run obtain rs where "run_statements (Some p) (concat (map (restore_chunk_statements h q) (chunks_of 64 (request_items q)))
          @ [guarded (\<lambda>p. add_audit \<lparr>ae_org = rq_org q, ae_actor = mu_user (rq_actor q), ae_action = ''workspace.backup.restore'',
          ae_type = ''workspace_backup'', ae_resource = rq_backup q,
          ae_summary = [(''created'', JNum (int (length (filter (Not \<circ> rc_existed) (fst p))))),
            (''conflictCount'', JNum (int (length (filter rc_existed (fst p))))), (''sourceRevision'', JNum (int (rq_source_revision q)))]\<rparr>),
        scoped (\<lambda>p db. Some (db, [\<lparr>rr_revision = snd p, rr_restored = length (filter (Not \<circ> rc_existed) (fst p)),
          rr_conflicts = map rc_conflict (filter rc_existed (fst p))\<rparr>]))]) db0 = Some (db', rs)"
        unfolding restore_statements_def db0_def by (auto simp del: concat.simps)
      from restore_chunks [OF inv_same [OF assms s0] this] obtain db1 where one: "versions_inv db1" "vd_decisions db1 = vd_decisions db0"
          "\<forall>org i. prefix (main_line org i db0) (main_line org i db1)" and last: "\<exists>a. db' = add_audit a db1"
        by auto
      from last have "same_history db1 db'" using audit_same by auto
      with one s0 inv_same [OF one(1)] show "versions_inv db' \<and> vd_decisions db' = vd_decisions db
          \<and> (\<forall>org i. prefix (main_line org i db) (main_line org i db'))"
        by (metis line_same same_history_def)
    qed (use assms in simp)
  qed
  then show "versions_inv (snd (restore_workspace_snapshot h q db))"
    "prefix (main_line org i db) (main_line org i (snd (restore_workspace_snapshot h q db)))"
    "vd_decisions (snd (restore_workspace_snapshot h q db)) = vd_decisions db" by blast+
qed

lemma create_first: "first_version (create_version_row h q)" "rv_main (create_version_row h q)"
  "row_key (create_version_row h q) = (ct_connection q, ct_org q, 1)"
  by (simp_all add: create_version_row_def first_version_def row_key_def)

lemma version_step_effect:
  assumes "versions_inv db"
  shows "versions_inv (version_step h db e)" "prefix (main_line org i db) (main_line org i (version_step h db e))"
    "prefix (vd_decisions db) (vd_decisions (version_step h db e))"
proof -
  have "versions_inv (version_step h db e) \<and> (\<forall>org i. prefix (main_line org i db) (main_line org i (version_step h db e)))
      \<and> prefix (vd_decisions db) (vd_decisions (version_step h db e))"
  proof (cases e)
    case (RecordConflict q)
    let ?db' = "snd (conflict_connection_candidate h q db)"
    from conflict_effect [of h q db] have "versions_inv ?db' \<and> (\<forall>org i. prefix (main_line org i db) (main_line org i ?db'))
        \<and> prefix (vd_decisions db) (vd_decisions ?db')"
    proof (elim disjE exE conjE)
      fix p n assume v: "vd_versions ?db' = vd_versions db @ [candidate_row h q p]" "\<forall>w\<in>set (vd_versions db). rv_id w \<noteq> rv_id (candidate_row h q p)"
        "(cq_connection q, cq_org q, n) \<in> set (conn_keys db)" "conn_keys ?db' = conn_keys db" "vd_decisions ?db' = vd_decisions db"
      have beside: "\<forall>u\<in>set [candidate_row h q p]. \<not> rv_main u \<and> (\<exists>n. (rv_resource u, rv_org u, n) \<in> set (conn_keys ?db'))"
        using v(3,4) by (auto simp: candidate_row_def)
      have old: "distinct (map rv_id (vd_versions db))" "distinct (map fst (conn_keys db))" "distinct (decision_keys db)"
        using assms by (simp_all add: versions_inv_def)
      have u1: "distinct (map rv_id (vd_versions ?db'))" unfolding v(1) using old(1) v(2) by auto
      have u2: "distinct (map fst (conn_keys ?db'))" unfolding v(4) by (rule old(2))
      have u3: "distinct (decision_keys ?db')" using old(3) v(5) by (simp add: decision_keys_def)
      have keys: "conn_keys ?db' = conn_keys db @ map row_key []" using v(4) by simp
      have versions: "vd_versions ?db' = vd_versions db @ [candidate_row h q p] @ []" using v(1) by simp
      note new = inv_new_lines [OF assms keys versions u3 beside _ u1 u2, simplified]
      have "prefix (main_line org i db) (main_line org i ?db')" for org i using new(2) [of org i] by auto
      with new(1) v(5) show ?thesis by simp
    qed (use assms in auto)
    then show ?thesis by (simp add: RecordConflict)
  next
    case (Decide clk f org' i' r a)
    from decision_effect [of db clk f org' i' r a] have "versions_inv (snd (resolve_connection_conflict clk f org' i' r a db)) \<and> (\<forall>org i. prefix (main_line org i db) (main_line org i (snd (resolve_connection_conflict clk f org' i' r a db))))
        \<and> prefix (vd_decisions db) (vd_decisions (snd (resolve_connection_conflict clk f org' i' r a db)))"
    proof (elim disjE exE conjE)
      fix d assume v: "vd_versions (snd (resolve_connection_conflict clk f org' i' r a db)) = vd_versions db"
        "conn_keys (snd (resolve_connection_conflict clk f org' i' r a db)) = conn_keys db"
        "vd_decisions (snd (resolve_connection_conflict clk f org' i' r a db)) = vd_decisions db @ [d]"
        "dc_org d = org'" "dc_conflict d = i'" "(org', i') \<notin> set (decision_keys db)"
      let ?d = "snd (resolve_connection_conflict clk f org' i' r a db)"
      have line: "main_line org i ?d = main_line org i db" for org i
        using v(1) by (simp add: main_line_def)
      have "distinct (decision_keys db)" using assms by (simp add: versions_inv_def)
      then have "distinct (decision_keys ?d)" using v(3-6) by (simp add: decision_keys_def)
      then have "versions_inv ?d" by (rule inv_other_decisions [OF assms v(1,2)])
      then show ?thesis using v(3) by (simp add: line)
    next
      assume "same_history db (snd (resolve_connection_conflict clk f org' i' r a db))"
      then show ?thesis by (rule same_effect [OF assms])
    qed
    then show ?thesis by (simp add: Decide)
  next
    case (CreateConnection q)
    let ?db' = "snd (commit_connection_create h q db)"
    from create_effect [of h q db] have "versions_inv ?db' \<and> (\<forall>org i. prefix (main_line org i db) (main_line org i ?db'))
        \<and> prefix (vd_decisions db) (vd_decisions ?db')"
    proof (elim disjE conjE)
      assume v: "conn_keys ?db' = conn_keys db @ [(ct_connection q, ct_org q, 1)]" "ct_connection q \<notin> fst ` set (conn_keys db)"
        "vd_versions ?db' = vd_versions db @ [create_version_row h q]" "\<forall>w\<in>set (vd_versions db). rv_id w \<noteq> ct_version_id q"
        "vd_decisions ?db' = vd_decisions db"
      have keys: "conn_keys ?db' = conn_keys db @ map row_key [create_version_row h q]" using v(1) by (simp add: create_first)
      have old: "distinct (map rv_id (vd_versions db))" "distinct (map fst (conn_keys db))" "distinct (decision_keys db)"
        using assms by (simp_all add: versions_inv_def)
      have id: "rv_id (create_version_row h q) = ct_version_id q" by (simp add: create_version_row_def)
      have u1: "distinct (map rv_id (vd_versions ?db'))" unfolding v(3) using old(1) v(4) id by auto
      have u2: "distinct (map fst (conn_keys ?db'))" unfolding v(1) using old(2) v(2) by simp
      have u3: "distinct (decision_keys ?db')" using old(3) v(5) by (simp add: decision_keys_def)
      have versions: "vd_versions ?db' = vd_versions db @ [] @ [create_version_row h q]" using v(3) by simp
      have first: "\<forall>v\<in>set [create_version_row h q]. rv_main v \<and> first_version v" using create_first by simp
      note new = inv_new_lines [OF assms keys versions u3 _ first u1 u2, simplified]
      have "prefix (main_line org i db) (main_line org i ?db')" for org i using new(2) [of org i] by auto
      with new(1) v(5) show ?thesis by simp
    qed (use assms in auto)
    then show ?thesis by (simp add: CreateConnection)
  next
    case (Mutate q)
    let ?db' = "snd (commit_connection_mutation h q db)"
    from mutation_effect [of h q db] have "versions_inv ?db' \<and> (\<forall>org i. prefix (main_line org i db) (main_line org i ?db'))
        \<and> prefix (vd_decisions db) (vd_decisions ?db')"
    proof (elim disjE bexE conjE)
      fix v assume v: "v \<in> set (main_line (mq_org q) (mq_connection q) db)" "rv_revision v = mq_content_revision q"
        "(mq_connection q, mq_org q, mq_content_revision q) \<in> set (conn_keys db)" "conn_keys ?db' = map (bump (mq_connection q)) (conn_keys db)"
        "vd_versions ?db' = vd_versions db @ [mutation_version_row h q (rv_id v)]" "\<forall>w\<in>set (vd_versions db). rv_id w \<noteq> mq_version_id q"
        "vd_decisions ?db' = vd_decisions db"
      have w: "rv_main (mutation_version_row h q (rv_id v))" "rv_org (mutation_version_row h q (rv_id v)) = mq_org q"
        "rv_resource (mutation_version_row h q (rv_id v)) = mq_connection q" "follows v (mutation_version_row h q (rv_id v))"
        "\<forall>u\<in>set (vd_versions db). rv_id u \<noteq> rv_id (mutation_version_row h q (rv_id v))"
        using v(2,6) by (simp_all add: mutation_version_row_def follows_def)
      note commit = inv_commit [OF assms v(1-5) w(5) v(7) w(1-4)]
      have "prefix (main_line org j db) (main_line org j ?db')" for org j
        using commit(2,3) by (cases "(org, j) = (mq_org q, mq_connection q)") auto
      with commit(1) v(7) show ?thesis by simp
    qed (use assms in auto)
    then show ?thesis by (simp add: Mutate)
  next
    case (RestoreBackup q)
    then show ?thesis using restore_effect(1,3) [OF assms, where h = h and q = q] restore_effect(2) [OF assms, where h = h and q = q] by simp
  next
    case (Elsewhere db')
    show ?thesis
    proof (cases "same_history db db'")
      case True
      from same_effect [OF assms this] show ?thesis using Elsewhere True by simp
    qed (use assms Elsewhere in simp)
  qed
  then show "versions_inv (version_step h db e)" "prefix (main_line org i db) (main_line org i (version_step h db e))"
    "prefix (vd_decisions db) (vd_decisions (version_step h db e))" by blast+
qed

interpretation histories: invariant_machine "version_step h" versions_inv for h
  by unfold_locales (rule version_step_effect)


lemma start_inv: "vd_connections db = [] \<Longrightarrow> vd_versions db = [] \<Longrightarrow> vd_decisions db = [] \<Longrightarrow> versions_inv db"
  by (simp add: versions_inv_def conn_keys_def decision_keys_def main_line_def linked.nothing)

lemma run_prefix:
  assumes "versions_inv db"
  shows "prefix (main_line org i db) (main_line org i (foldl (version_step h) db es))"
    "prefix (vd_decisions db) (vd_decisions (foldl (version_step h) db es))"
proof -
  have "prefix (main_line org i db) (main_line org i (foldl (version_step h) db es))
    \<and> prefix (vd_decisions db) (vd_decisions (foldl (version_step h) db es))"
    using assms
  proof (induction es arbitrary: db)
    case (Cons e es)
    from Cons.IH [OF version_step_effect(1) [OF Cons.prems]]
    have "prefix (main_line org i (version_step h db e)) (main_line org i (foldl (version_step h) db (e # es)))
      \<and> prefix (vd_decisions (version_step h db e)) (vd_decisions (foldl (version_step h) db (e # es)))" by simp
    with version_step_effect(2,3) [OF Cons.prems, where h = h and e = e] show ?case by (meson prefix_order.trans)
  qed simp
  then show "prefix (main_line org i db) (main_line org i (foldl (version_step h) db es))"
    "prefix (vd_decisions db) (vd_decisions (foldl (version_step h) db es))" by blast+
qed

text \<open>
  C30. Over every sequence of conflicts, decisions, creations, changes, deletions and restores, the main line of versions of a
  connection only grows at its end: a version that was written stays, with its payload and hash, in its place. Each version after the
  first names the one before it as its parent and base and has the next revision number, and a connection of the table always stands
  at the last version of its line.
\<close>

theorem version_history_is_append_only:
  assumes "versions_inv db" "db' = foldl (version_step h) db es"
  shows "versions_inv db' \<and> prefix (main_line org i db) (main_line org i db')
    \<and> linked (main_line org i db')
    \<and> (\<forall>c\<in>set (vd_connections db'). main_line (ce_org c) (ce_id c) db' \<noteq> []
        \<and> rv_revision (last (main_line (ce_org c) (ce_id c) db')) = ce_content_revision c)"
proof (intro conjI ballI)
  show inv: "versions_inv db'" unfolding assms(2) by (rule histories.run_inv [OF assms(1)])
  show "prefix (main_line org i db) (main_line org i db')" unfolding assms(2) by (rule run_prefix(1) [OF assms(1)])
  show "linked (main_line org i db')" using inv by (simp add: versions_inv_def)
  fix c assume "c \<in> set (vd_connections db')"
  then have "(ce_id c, ce_org c, ce_content_revision c) \<in> set (conn_keys db')" by (auto simp: conn_keys_def)
  then show "main_line (ce_org c) (ce_id c) db' \<noteq> []" "rv_revision (last (main_line (ce_org c) (ce_id c) db')) = ce_content_revision c"
    using inv by (auto simp: versions_inv_def)
qed

definition opened_vault :: versions_db where
  "opened_vault = sample_vault\<lparr>vd_connections := [sample_connection\<lparr>ce_pending := Some 1, ce_claim := Some ''k''\<rparr>]\<rparr>"

lemma opened_vault_inv: "versions_inv opened_vault"
proof -
  have "main_line org i opened_vault = (if org = ''w'' \<and> i = ''c'' then vd_versions sample_vault else [])" for org i
    by (auto simp: main_line_def opened_vault_def sample_vault_def)
  moreover have "linked (vd_versions sample_vault)" by (auto simp: sample_vault_def first_version_def intro!: started)
  ultimately show ?thesis
    using linked.nothing by (simp add: versions_inv_def conn_keys_def decision_keys_def opened_vault_def sample_vault_def sample_connection_def)
qed

definition sample_change :: mutation_request where
  "sample_change = \<lparr>mq_org = ''w'', mq_connection = ''c'', mq_content_revision = 1, mq_authority_revision = ce_revision sample_connection,
     mq_claim = ''k'', mq_actor = sample_actor, mq_manager = False,
     mq_mutation = DeleteConnection (persisted_connection_version_payload sample_connection True), mq_version_id = ''v2'', mq_now = 10\<rparr>"

theorem version_history_is_append_only_witness:
  "prefix (main_line ''w'' ''c'' opened_vault)
     (main_line ''w'' ''c'' (foldl (version_step sample_hasher) opened_vault [Mutate sample_change, Mutate sample_change]))"
  using version_history_is_append_only [OF opened_vault_inv refl, where org = "''w''" and i = "''c''"] by blast

section \<open>One commit per revision\<close>


lemma committed_run:
  assumes "fst (commit_connection_mutation h q db) = Inr (Some c)"
  obtains p rows where "mutation_scope q db = [p]"
    "run_statements (Some p) (mutation_statements h q) db = Some (snd (commit_connection_mutation h q db), rows)"
    "returned_connection (rows ! 0) = Some c"
proof -
  from assms obtain m rows db' where at: "atomic_d1 (mutation_scope q) (mutation_statements h q) db = Inr ((m, rows), db')"
    and out: "snd (commit_connection_mutation h q db) = db'" "returned_connection (rows ! 0) = Some c"
    by (auto simp: commit_connection_mutation_def split: sum.splits prod.splits)
  have "length (mutation_statements h q) > 0" by (simp add: mutation_statements_def)
  from at none_unmatched(4) show thesis
  proof (rule atomic_cases)
    assume "rows = replicate (length (mutation_statements h q)) []"
    with out(2) \<open>length (mutation_statements h q) > 0\<close> show thesis by (simp add: returned_connection_def)
  qed (use that out in blast)
qed

lemma scope_key: "mutation_scope q db \<noteq> [] \<Longrightarrow> (mq_connection q, mq_org q, mq_content_revision q) \<in> set (conn_keys db)"
proof -
  assume "mutation_scope q db \<noteq> []"
  then obtain p where "p \<in> set (mutation_scope q db)" by (cases "mutation_scope q db") auto
  from mutation_scope_parts [OF this] show ?thesis using current_version_keys(1) by metis
qed

lemma committed_line:
  assumes "fst (commit_connection_mutation h q db) = Inr (Some c)"
  shows "\<exists>w\<in>set (main_line (mq_org q) (mq_connection q) (snd (commit_connection_mutation h q db))). rv_revision w = mq_content_revision q + 1"
proof -
  from committed_run [OF assms] obtain p rows where
    run: "run_statements (Some p) (mutation_statements h q) db = Some (snd (commit_connection_mutation h q db), rows)" by blast
  from mutation_run [OF run] obtain db2 db3 where v: "insert_version (mutation_version_row h q p) db2 = Some db3"
      and out: "snd (commit_connection_mutation h q db) = mutation_audits q db3" by blast
  have "mutation_version_row h q p \<in> set (main_line (mq_org q) (mq_connection q) db3)"
    using insert_version_effect(1) [OF v] by (simp add: main_line_def mutation_version_row_def)
  then show ?thesis unfolding out line_same [OF audits_same]
    by (rule bexI [rotated]) (simp add: mutation_version_row_def)
qed

lemma passed_revision:
  assumes "versions_inv db" "w \<in> set (main_line org i db)" "(i, org, n) \<in> set (conn_keys db)"
  shows "rv_revision w \<le> n"
proof -
  have l: "linked (main_line org i db)" "rv_revision (last (main_line org i db)) = n"
    using assms(1,3) by (auto simp: versions_inv_def)
  let ?l = "main_line org i db"
  have "sorted_wrt (<) (map rv_revision (butlast ?l @ [last ?l]))"
    using linked_increasing [OF l(1)] assms(2) by (metis append_butlast_last_id empty_iff empty_set)
  moreover from assms(2) have "w \<in> set (butlast ?l) \<or> w = last ?l"
    by (metis append_butlast_last_id empty_iff empty_set rotate1.simps(2) set_ConsD set_rotate1)
  ultimately show ?thesis using l(2) by (auto simp: sorted_wrt_append)
qed

text \<open>
  C31. A revision of a connection is replaced once: when a change or a deletion that expects content revision \<open>n\<close> has been committed,
  no other change or deletion that expects the same revision is committed afterwards, whatever batches ran in between. It returns no
  connection and leaves the database as it is, so the second writer has to record a conflict instead of overwriting the first.
\<close>

theorem one_commit_per_revision:
  assumes "versions_inv db" "fst (commit_connection_mutation h q db) = Inr (Some c)"
    and "mq_org q' = mq_org q" "mq_connection q' = mq_connection q" "mq_content_revision q' = mq_content_revision q"
    and "db' = foldl (version_step h) (snd (commit_connection_mutation h q db)) es"
  shows "commit_connection_mutation h q' db' = (Inr None, db')"
proof -
  let ?d = "snd (commit_connection_mutation h q db)"
  have inv: "versions_inv ?d" using version_step_effect(1) [OF assms(1), where h = h and e = "Mutate q"] by simp
  have inv': "versions_inv db'" unfolding assms(6) by (rule histories.run_inv [OF inv])
  from committed_line [OF assms(2)] obtain w where w: "w \<in> set (main_line (mq_org q) (mq_connection q) ?d)"
      "rv_revision w = mq_content_revision q + 1" by blast
  have late: "w \<in> set (main_line (mq_org q) (mq_connection q) db')"
    using run_prefix(1) [OF inv] w(1) unfolding assms(6) by (meson set_mono_prefix subsetD)
  have none: "mutation_scope q' db' = []"
  proof (rule ccontr)
    assume "mutation_scope q' db' \<noteq> []"
    from scope_key [OF this] have "(mq_connection q, mq_org q, mq_content_revision q) \<in> set (conn_keys db')" by (simp add: assms(3-5))
    from passed_revision [OF inv' late this] w(2) show False by simp
  qed
  have "length (mutation_statements h q') > 0" "length (mutation_statements h q') \<le> 998"
    by (auto simp: mutation_statements_def split: connection_mutation.splits)
  then show ?thesis
    using none by (simp add: commit_connection_mutation_def atomic_d1_def run_unmatched returned_connection_def)
qed

lemma sample_hash: "payload_hash sample_hasher p = replicate 64 CHR ''a''"
  by (simp add: payload_hash_def canonical_hash_def sample_hasher_def)

lemma sample_scope: "mutation_scope sample_change opened_vault = [''v1'']"
  by (simp add: mutation_scope_def sample_change_def opened_vault_def sample_db_defs current_version_of_def lowering_blockers_def
      connection_authority_def role_reaches_def manages_def)

lemma sample_change_commits:
  "fst (commit_connection_mutation sample_hasher sample_change opened_vault)
    = Inr (Some (apply_mutation 10 (mq_mutation sample_change) (hd (vd_connections opened_vault))))"
proof -
  let ?c = "apply_mutation 10 (mq_mutation sample_change) (hd (vd_connections opened_vault))"
  let ?d = "opened_vault\<lparr>vd_connections := [?c]\<rparr>"
  have q: "mq_connection sample_change = ''c''" "mq_org sample_change = ''w''" "mq_now sample_change = 10"
      "mq_mutation sample_change = DeleteConnection (persisted_connection_version_payload sample_connection True)"
    by (simp_all add: sample_change_def)
  have c: "vd_connections opened_vault = [hd (vd_connections opened_vault)]" "ce_id (hd (vd_connections opened_vault)) = ''c''" "ce_id ?c = ''c''"
      "ce_org ?c = ''w''" "ce_port ?c = 5432" "ce_content_revision ?c = 2" "connection_check ?c"
    by (simp_all add: opened_vault_def sample_db_defs q connection_check_def max_safe_def)
  have u: "update_connections (\<lambda>c. ce_id c = ''c'') (apply_mutation 10 (mq_mutation sample_change)) opened_vault = Some ?d"
    using c(7) by (subst (1) update_connections_def) (subst c(1), subst (2) c(1), simp add: c(2))
  have settle: "settle_revocations ''w'' ''c'' ?d = ?d" by (simp add: settle_revocations_def opened_vault_def sample_vault_def)
  have "insert_version (mutation_version_row sample_hasher sample_change ''v1'') ?d \<noteq> None"
    using sample_digest c(3,4)
    by (simp add: insert_version_def mutation_version_row_def sample_hash revision_check_def max_safe_def has_connection_def has_version_def
        same_main_revision_def sample_change_def) (simp add: opened_vault_def sample_vault_def)
  then obtain d where "insert_version (mutation_version_row sample_hasher sample_change ''v1'') ?d = Some d" by blast
  moreover have "returned_connection [ReturnedRow ?c] = Some ?c"
    using c(5,6) by (simp add: returned_connection_def max_safe_def)
  ultimately show ?thesis
    using u settle c(3) by (simp add: commit_connection_mutation_def atomic_d1_def sample_scope mutation_statements_def q)
qed

theorem one_commit_per_revision_witness:
  "commit_connection_mutation sample_hasher sample_change (snd (commit_connection_mutation sample_hasher sample_change opened_vault))
    = (Inr None, snd (commit_connection_mutation sample_hasher sample_change opened_vault))"
  by (rule one_commit_per_revision [where es = "[]", OF opened_vault_inv sample_change_commits refl refl refl]) simp

section \<open>Decisions\<close>

lemma decision_scope_parts:
  assumes "p \<in> set (decision_scope_rows clk org i r a db)"
  shows "(\<exists>d\<in>set (vd_decisions db). dc_org d = org \<and> dc_conflict d = i \<and> dc_resolution d = ds_resolution p \<and> \<not> ds_created p)
    \<or> (\<forall>d\<in>set (vd_decisions db). \<not> (dc_org d = org \<and> dc_conflict d = i)) \<and> ds_created p \<and> ds_current p \<noteq> None"
proof -
  let ?stored = "[d. d \<leftarrow> vd_decisions db, cf' \<leftarrow> conflict_rows clk org i a db, cf_id cf' = dc_conflict d \<and> dc_org d = org]"
  from assms obtain cf el stored where s: "cf \<in> set (conflict_rows clk org i a db)" "stored \<in> set (outer_rows ?stored)" "stored \<noteq> None \<or> el \<noteq> None"
      "p = \<lparr>ds_resolution = (case stored of None \<Rightarrow> r | Some d \<Rightarrow> dc_resolution d), ds_created = (stored = None \<and> el \<noteq> None), ds_current = el\<rparr>"
    unfolding decision_scope_rows_def by (auto simp del: not_None_eq)
  have conflict: "cf_id c = i" if "c \<in> set (conflict_rows clk org i a db)" for c
    using that by (auto simp: conflict_rows_def)
  have stored: "d \<in> set ?stored \<longleftrightarrow> d \<in> set (vd_decisions db) \<and> dc_org d = org \<and> dc_conflict d = i" for d
    using s(1) conflict by auto
  show ?thesis
  proof (cases stored)
    case None
    then have "?stored = []" using s(2) by (auto simp: outer_rows_def simp del: concat_eq_Nil_conv split: if_splits)
    then have "\<not> (dc_org d = org \<and> dc_conflict d = i)" if "d \<in> set (vd_decisions db)" for d
      using stored [of d] that by (metis empty_iff list.set(1))
    with None s(3,4) show ?thesis by simp
  next
    case (Some d)
    moreover have "set (outer_rows xs) \<subseteq> insert None (Some ` set xs)" for xs :: "'a list" by (auto simp: outer_rows_def)
    ultimately have "d \<in> set ?stored" using s(2) by fast
    with Some s(4) stored show ?thesis by auto
  qed
qed

lemma decision_stays:
  assumes "fst (resolve_connection_conflict clk f org i r a db) = Inr (Some (x, created))"
  shows "\<exists>d\<in>set (vd_decisions (snd (resolve_connection_conflict clk f org i r a db))). dc_org d = org \<and> dc_conflict d = i \<and> dc_resolution d = x"
proof -
  from assms obtain m rows db' where at: "atomic_d1 (decision_scope_rows clk org i r a) (decision_statements f org i a) db = Inr ((m, rows), db')"
    and out: "snd (resolve_connection_conflict clk f org i r a db) = db'"
      "(case rows ! 2 of ReturnedDecision x created # _ \<Rightarrow> Some (x, created) | _ \<Rightarrow> None) = Some (x, created)"
    by (auto simp: resolve_connection_conflict_def split: sum.splits prod.splits)
  from at none_unmatched(2) have "\<exists>d\<in>set (vd_decisions db'). dc_org d = org \<and> dc_conflict d = i \<and> dc_resolution d = x"
  proof (rule atomic_cases)
    assume "rows = replicate (length (decision_statements f org i a)) []"
    with out(2) show "\<exists>d\<in>set (vd_decisions db'). dc_org d = org \<and> dc_conflict d = i \<and> dc_resolution d = x"
      by (simp add: decision_statements_def)
  next
    fix p assume scope: "decision_scope_rows clk org i r a db = [p]"
      and run: "run_statements (Some p) (decision_statements f org i a) db = Some (db', rows)"
    then have ret: "ds_resolution p = x" "ds_created p = created"
      using out(2) by (auto simp: decision_statements_def numeral_2_eq_2 split: option.splits if_splits)
    have "p \<in> set (decision_scope_rows clk org i r a db)" using scope by simp
    from decision_scope_parts [OF this]
    consider d where "\<not> ds_created p" "d \<in> set (vd_decisions db)" "dc_org d = org" "dc_conflict d = i" "dc_resolution d = ds_resolution p"
      | c where "ds_created p" "ds_current p = Some c"
      by (metis not_None_eq)
    then show "\<exists>d\<in>set (vd_decisions db'). dc_org d = org \<and> dc_conflict d = i \<and> dc_resolution d = x"
    proof cases
      case 1
      then have "vd_decisions db' = vd_decisions db"
        using run by (auto simp: decision_statements_def split: option.splits)
      with 1 ret show ?thesis by auto
    next
      case 2
      then show ?thesis
        using run ret by (cases c) (auto simp: decision_statements_def insert_decision_def add_audit_def split: if_splits)
    qed
  qed
  then show ?thesis unfolding out(1) .
qed

lemma decided_before:
  assumes "distinct (decision_keys db)" "d \<in> set (vd_decisions db)" "dc_org d = org" "dc_conflict d = i"
    and "fst (resolve_connection_conflict clk f org i r a db) = Inr (Some (y, created))"
  shows "y = dc_resolution d \<and> \<not> created"
proof -
  from assms(5) obtain m rows db' where at: "atomic_d1 (decision_scope_rows clk org i r a) (decision_statements f org i a) db = Inr ((m, rows), db')"
    and out: "(case rows ! 2 of ReturnedDecision x created # _ \<Rightarrow> Some (x, created) | _ \<Rightarrow> None) = Some (y, created)"
    by (auto simp: resolve_connection_conflict_def split: sum.splits prod.splits)
  from at none_unmatched(2) show ?thesis
  proof (rule atomic_cases)
    assume "rows = replicate (length (decision_statements f org i a)) []"
    with out show ?thesis by (simp add: decision_statements_def)
  next
    fix p assume scope: "decision_scope_rows clk org i r a db = [p]"
      and run: "run_statements (Some p) (decision_statements f org i a) db = Some (db', rows)"
    have ret: "ds_resolution p = y" "ds_created p = created"
      using out run by (auto simp: decision_statements_def numeral_2_eq_2 split: option.splits if_splits)
    have unique: "e = d" if "e \<in> set (vd_decisions db)" "dc_org e = org" "dc_conflict e = i" for e
      using assms(1-4) that unfolding decision_keys_def by (metis (mono_tags, lifting) distinct_key_unique)
    have "p \<in> set (decision_scope_rows clk org i r a db)" using scope by simp
    from decision_scope_parts [OF this] have "\<not> ds_created p \<and> ds_resolution p = dc_resolution d"
      using assms(2-4) unique by metis
    with ret show ?thesis by simp
  qed
qed

text \<open>
  C32. A conflict is decided once: when a decision has been answered, every later request on the same conflict, with any resolution
  and by any manager, gets the resolution that was stored or nothing, and is never told that it made the decision.
\<close>

theorem conflict_is_decided_once:
  assumes "versions_inv db" "fst (resolve_connection_conflict clk f org i r a db) = Inr (Some (x, created))"
    and "db' = foldl (version_step h) (snd (resolve_connection_conflict clk f org i r a db)) es"
    and "fst (resolve_connection_conflict clk' f' org i r' a' db') = Inr (Some (y, created'))"
  shows "y = x \<and> \<not> created'"
proof -
  let ?d = "snd (resolve_connection_conflict clk f org i r a db)"
  have inv: "versions_inv ?d" using version_step_effect(1) [OF assms(1), where e = "Decide clk f org i r a"] by simp
  have "versions_inv db'" unfolding assms(3) by (rule histories.run_inv [OF inv])
  then have distinct: "distinct (decision_keys db')" by (simp add: versions_inv_def)
  from decision_stays [OF assms(2)] obtain d where d: "d \<in> set (vd_decisions ?d)" "dc_org d = org" "dc_conflict d = i" "dc_resolution d = x"
    by blast
  have "d \<in> set (vd_decisions db')"
    using run_prefix(2) [OF inv] d(1) unfolding assms(3) by (meson set_mono_prefix subsetD)
  from decided_before [OF distinct this d(2,3) assms(4)] d(4) show ?thesis by simp
qed

definition contested_vault :: versions_db where
  "contested_vault = opened_vault\<lparr>vd_conflicts := [\<lparr>cf_id = ''f'', cf_org = ''w'', cf_resource = ''c'', cf_expected = 1,
     cf_server = ''v1'', cf_candidate = ''v1'', cf_user = ''u'', cf_created = 5\<rparr>]\<rparr>"

lemma contested_vault_inv: "versions_inv contested_vault"
  using opened_vault_inv by (simp add: versions_inv_def contested_vault_def conn_keys_def decision_keys_def main_line_def)

lemma contested_decided:
  "resolve_connection_conflict 10 ''d'' ''w'' ''f'' KeepServer sample_actor contested_vault
    = (Inr (Some (KeepServer, True)), snd (resolve_connection_conflict 10 ''d'' ''w'' ''f'' KeepServer sample_actor contested_vault))"
  "fst (resolve_connection_conflict 10 ''e'' ''w'' ''f'' Dismissed sample_actor
      (snd (resolve_connection_conflict 10 ''d'' ''w'' ''f'' KeepServer sample_actor contested_vault))) = Inr (Some (KeepServer, False))"
  by code_simp+

theorem conflict_is_decided_once_witness:
  "case fst (resolve_connection_conflict 10 ''e'' ''w'' ''f'' Dismissed sample_actor
      (snd (resolve_connection_conflict 10 ''d'' ''w'' ''f'' KeepServer sample_actor contested_vault))) of
    Inr (Some (y, created)) \<Rightarrow> y = KeepServer \<and> \<not> created | _ \<Rightarrow> False"
proof -
  have first: "fst (resolve_connection_conflict 10 ''d'' ''w'' ''f'' KeepServer sample_actor contested_vault) = Inr (Some (KeepServer, True))"
    using contested_decided(1) by (metis fst_conv)
  have "foldl (version_step sample_hasher) (snd (resolve_connection_conflict 10 ''d'' ''w'' ''f'' KeepServer sample_actor contested_vault)) []
    = snd (resolve_connection_conflict 10 ''d'' ''w'' ''f'' KeepServer sample_actor contested_vault)" by simp
  from conflict_is_decided_once [OF contested_vault_inv first this [symmetric] contested_decided(2)]
  show ?thesis unfolding contested_decided(2) by simp
qed

section \<open>Deletion\<close>

lemma no_blockers:
  assumes "lowering_blockers clk org conn db = []" "x \<in> set (vd_principals db)" "live_principal org conn x" "live_principal org (pe_connection x) x"
  shows "\<not> direct_level_rank (pe_level x) > 0" "\<not> (pe_state x = Applying \<and> (\<exists>e. pe_claim_expires x = Some e \<and> clk < e))"
proof -
  let ?b = "direct_level_rank (pe_level x) > 0 \<or> pe_state x = Applying \<and> (case pe_claim_expires x of None \<Rightarrow> False | Some e \<Rightarrow> e > clk)"
  have "(pe_connection x, pe_member x) \<in> set (lowering_blockers clk org conn db)" if ?b
    using assms(2-4) that unfolding lowering_blockers_def by force
  with assms(1) have "\<not> ?b" by (metis empty_iff list.set(1))
  then show "\<not> direct_level_rank (pe_level x) > 0"
    "\<not> (pe_state x = Applying \<and> (\<exists>e. pe_claim_expires x = Some e \<and> clk < e))" by auto
qed

text \<open>
  C33. A connection is deleted only when no principal of it can still reach its database: after the deletion has been committed the
  row is marked deleted and stands at the next content revision, no principal of the connection that was not dropped has a level above
  \<open>none\<close> or an application still claimed at that time, and no revocation of the connection is left pending.
\<close>

theorem deleted_connection_leaves_no_access:
  assumes "fst (commit_connection_mutation h q db) = Inr (Some c)" "mq_mutation q = DeleteConnection payload"
    and "db' = snd (commit_connection_mutation h q db)"
  shows "(\<forall>d\<in>set (vd_connections db'). ce_id d = mq_connection q \<longrightarrow> ce_deleted d = Some (mq_now q) \<and> ce_claim d = None)
    \<and> (\<forall>p\<in>set (vd_principals db'). live_principal (mq_org q) (mq_connection q) p \<longrightarrow>
        direct_level_rank (pe_level p) = 0 \<and> \<not> (pe_state p = Applying \<and> (\<exists>e. pe_claim_expires p = Some e \<and> mq_now q < e)))
    \<and> (\<forall>r\<in>set (vd_revocations db'). dr_org r = mq_org q \<and> dr_connection r = mq_connection q \<longrightarrow> dr_state r \<noteq> RevocationPending)"
proof -
  from committed_run [OF assms(1)] obtain p rows where scope: "mutation_scope q db = [p]"
    and run: "run_statements (Some p) (mutation_statements h q) db = Some (db', rows)" unfolding assms(3) by blast
  have "p \<in> set (mutation_scope q db)" using scope by simp
  from mutation_scope_parts [OF this] have blockers: "lowering_blockers (mq_now q) (mq_org q) (mq_connection q) db = []"
    using assms(2) by auto
  from mutation_run [OF run] obtain db1 db2 db3 where
      u: "update_connections (\<lambda>c. ce_id c = mq_connection q) (apply_mutation (mq_now q) (mq_mutation q)) db = Some db1"
      and db2: "db2 = settle_revocations (mq_org q) (mq_connection q) db1"
      and v: "insert_version (mutation_version_row h q p) db2 = Some db3" and db': "db' = mutation_audits q db3"
    using assms(2) by (metis connection_mutation.simps(6))
  have audit: "vd_connections (mutation_audits q d) = vd_connections d \<and> vd_principals (mutation_audits q d) = vd_principals d
      \<and> vd_revocations (mutation_audits q d) = vd_revocations d" for d
  proof -
    have "vd_connections (fold (\<lambda>c. add_audit (g c)) cs d) = vd_connections d \<and> vd_principals (fold (\<lambda>c. add_audit (g c)) cs d) = vd_principals d
      \<and> vd_revocations (fold (\<lambda>c. add_audit (g c)) cs d) = vd_revocations d" for cs and g :: "connection_entry \<Rightarrow> audit_entry"
      by (induction cs arbitrary: d) (auto simp: add_audit_def)
    then show ?thesis unfolding mutation_audits_def .
  qed
  have parts: "vd_connections db' = map (\<lambda>c. if ce_id c = mq_connection q then apply_mutation (mq_now q) (mq_mutation q) c else c) (vd_connections db)"
      "vd_principals db' = vd_principals db" "vd_revocations db' = vd_revocations db2"
    using u audit [of db3] unfolding db' insert_version_effect(1) [OF v] db2
    by (auto simp: update_connections_def settle_revocations_def split: if_splits)
  show ?thesis
  proof (intro conjI ballI impI)
    fix d assume "d \<in> set (vd_connections db')" "ce_id d = mq_connection q"
    then show "ce_deleted d = Some (mq_now q)" "ce_claim d = None"
      by (auto simp: parts(1) assms(2) split: if_splits)
  next
    fix x assume x: "x \<in> set (vd_principals db')" "live_principal (mq_org q) (mq_connection q) x"
    from x(2) have "live_principal (mq_org q) (pe_connection x) x" by (simp add: live_principal_def)
    with blockers x show "direct_level_rank (pe_level x) = 0"
        "\<not> (pe_state x = Applying \<and> (\<exists>e. pe_claim_expires x = Some e \<and> mq_now q < e))"
      unfolding parts(2) using no_blockers by (metis gr0I, metis)
  next
    fix r assume "r \<in> set (vd_revocations db')" "dr_org r = mq_org q \<and> dr_connection r = mq_connection q"
    then show "dr_state r \<noteq> RevocationPending" by (auto simp: parts(3) db2 settle_revocations_def split: if_splits)
  qed
qed

theorem deleted_connection_leaves_no_access_witness:
  "filter (\<lambda>d. ce_id d = ''c'' \<and> ce_deleted d = None)
    (vd_connections (snd (commit_connection_mutation sample_hasher sample_change opened_vault))) = []"
proof -
  have m: "mq_mutation sample_change = DeleteConnection (persisted_connection_version_payload sample_connection True)"
    "mq_connection sample_change = ''c''" by (simp_all add: sample_change_def)
  from deleted_connection_leaves_no_access [OF sample_change_commits m(1) refl] show ?thesis
    by (auto simp: filter_empty_conv m(2))
qed

end
