(* ===== verification/Base64.thy ===== *)
theory Base64
  imports Prelude "HOL-Library.Word"
begin

text \<open>
  The text forms of bytes the control plane uses: base64 and base64url as \<open>Buffer\<close> of Node writes and reads them. The decoder skips
  what is outside its alphabets and stops at the padding; every caller compares the bytes it read with their text.
\<close>

section \<open>Groups of six bits\<close>

fun sextets :: "8 word list \<Rightarrow> nat list" where
  "sextets (a # b # c # bs) =
     (let n = unat a * 65536 + unat b * 256 + unat c
      in [n div 262144, n div 4096 mod 64, n div 64 mod 64, n mod 64] @ sextets bs)"
| "sextets [a, b] = (let n = unat a * 65536 + unat b * 256 in [n div 262144, n div 4096 mod 64, n div 64 mod 64])"
| "sextets [a] = (let n = unat a * 65536 in [n div 262144, n div 4096 mod 64])"
| "sextets [] = []"

fun octets :: "nat list \<Rightarrow> 8 word list" where
  "octets (p # q # r # s # xs) =
     (let n = p * 262144 + q * 4096 + r * 64 + s in [of_nat (n div 65536), of_nat (n div 256), of_nat n] @ octets xs)"
| "octets [p, q, r] = (let n = p * 262144 + q * 4096 + r * 64 in [of_nat (n div 65536), of_nat (n div 256)])"
| "octets [p, q] = (let n = p * 262144 + q * 4096 in [of_nat (n div 65536)])"
| "octets _ = []"

definition alphabet62 :: string where
  "alphabet62 = ''ABCDEFGHIJKLMNOPQRSTUVWXYZabcdefghijklmnopqrstuvwxyz0123456789''"

definition base64_alphabet :: string where
  "base64_alphabet = alphabet62 @ ''+/''"

definition base64url_alphabet :: string where
  "base64url_alphabet = alphabet62 @ ''-_''"

definition base64_encode :: "8 word list \<Rightarrow> string" where
  "base64_encode bs = map (nth base64_alphabet) (sextets bs) @ replicate ((3 - length bs mod 3) mod 3) CHR ''=''"

definition base64url_encode :: "8 word list \<Rightarrow> string" where
  "base64url_encode bs = map (nth base64url_alphabet) (sextets bs)"

definition value64 :: "char \<Rightarrow> nat option" where
  "value64 c = (case find_index (\<lambda>d. d = c) base64_alphabet of None \<Rightarrow> find_index (\<lambda>d. d = c) base64url_alphabet | Some n \<Rightarrow> Some n)"

definition base64_decode :: "string \<Rightarrow> 8 word list" where
  "base64_decode s = octets (List.map_filter value64 (takeWhile (\<lambda>c. c \<noteq> CHR ''='') s))"

text \<open>\<open>split\<close> of a text at one character, and the UTF-8 bytes of a text of code units below 256.\<close>

fun js_split :: "char \<Rightarrow> string \<Rightarrow> string list" where
  "js_split d [] = [[]]"
| "js_split d (c # cs) = (if c = d then [] # js_split d cs else (case js_split d cs of [] \<Rightarrow> [[c]] | x # xs \<Rightarrow> (c # x) # xs))"

definition utf8_bytes :: "string \<Rightarrow> 8 word list" where
  "utf8_bytes s = concat (map (\<lambda>c. let n = of_char c :: nat
     in if n < 128 then [of_nat n] else [of_nat (192 + n div 64), of_nat (128 + n mod 64)]) s)"

section \<open>Reading what was written\<close>

lemma byte_parts:
  fixes a b c :: nat
  assumes "a < 256" "b < 256" "c < 256" "n = a * 65536 + b * 256 + c"
  shows "(n div 262144) * 262144 + (n div 4096 mod 64) * 4096 + (n div 64 mod 64) * 64 + n mod 64 = n"
    "n div 65536 = a" "n div 256 = a * 256 + b" "n div 262144 < 64"
proof -
  have "n mod 262144 = (n div 4096 mod 64) * 4096 + n mod 4096"
    using mod_mult2_eq [of n 4096 64] by simp
  moreover have "n mod 4096 = (n div 64 mod 64) * 64 + n mod 64"
    using mod_mult2_eq [of n 64 64] by simp
  ultimately show "(n div 262144) * 262144 + (n div 4096 mod 64) * 4096 + (n div 64 mod 64) * 64 + n mod 64 = n"
    using div_mult_mod_eq [of n 262144] by linarith
  show "n div 65536 = a" "n div 256 = a * 256 + b" "n div 262144 < 64" using assms by auto
qed

lemma byte_bound [simp]: "unat (b :: 8 word) < 256"
  using unsigned_less [of b] by simp

lemma of_nat_byte: "of_nat (m * 256 + unat (b :: 8 word)) = b"
proof -
  have "unat (of_nat (m * 256 + unat b) :: 8 word) = (m * 256 + unat b) mod 256"
    by (subst unat_of_nat) simp
  also have "\<dots> = unat b" using byte_bound [of b] by simp
  finally show ?thesis by (rule word_unat_eq_iff [THEN iffD2])
qed

lemma octets_sextets: "octets (sextets bs) = bs"
proof (induction bs rule: sextets.induct)
  case (1 a b c bs)
  let ?n = "unat a * 65536 + unat b * 256 + unat c"
  note p = byte_parts [OF byte_bound [of a] byte_bound [of b] byte_bound [of c] refl]
  have "of_nat (unat a) = a" by simp
  moreover have "of_nat (?n div 256) = b" unfolding p(3) by (rule of_nat_byte)
  moreover have "?n = (unat a * 256 + unat b) * 256 + unat c" by simp
  then have "of_nat ?n = c" using of_nat_byte [of "unat a * 256 + unat b" c] by metis
  ultimately have bytes: "of_nat (unat a) = a" "of_nat (?n div 256) = b" "of_nat ?n = c" by blast+
  then show ?case using 1 by (simp add: Let_def p(1,2) del: of_nat_add of_nat_mult)
next
  case (2 a b)
  let ?n = "unat a * 65536 + unat b * 256"
  note p = byte_parts [OF byte_bound [of a] byte_bound [of b], of 0 ?n, simplified]
  have "?n mod 64 = 0" by presburger
  moreover have "?n div 256 = unat a * 256 + unat b" by presburger
  then have "of_nat (?n div 256) = b" using of_nat_byte [of "unat a" b] by metis
  ultimately show ?case using p(1,2) by (simp add: Let_def del: of_nat_add of_nat_mult)
next
  case (3 a)
  let ?n = "unat a * 65536"
  note p = byte_parts(1) [OF byte_bound [of a], of 0 0 ?n]
  have m: "?n = unat a * 1024 * 64" "unat a * 1024 = unat a * 16 * 64" by simp_all
  have "?n mod 64 = 0" unfolding m(1) by (rule mod_mult_self2_is_0)
  moreover have "?n div 64 mod 64 = 0" unfolding m(1) using m(2) by (metis mod_mult_self2_is_0 nonzero_mult_div_cancel_right zero_neq_numeral)
  moreover note p
  ultimately have "?n div 262144 * 262144 + ?n div 4096 mod 64 * 4096 = ?n" by simp
  moreover have "?n div 65536 = unat a" by (rule nonzero_mult_div_cancel_right) simp
  ultimately show ?case by (simp only: sextets.simps octets.simps Let_def) simp
qed simp

lemma sextets_bound: "x \<in> set (sextets bs) \<Longrightarrow> x < 64"
proof (induction bs rule: sextets.induct)
  case (1 a b c bs)
  note p = byte_parts(4) [OF byte_bound [of a] byte_bound [of b] byte_bound [of c] refl]
  from 1 p show ?case by (auto simp: Let_def)
next
  case (2 a b)
  note p = byte_parts(4) [OF byte_bound [of a] byte_bound [of b], of 0, simplified, OF refl]
  from 2 p show ?case by (auto simp: Let_def)
next
  case (3 a)
  note p = byte_parts(4) [OF byte_bound [of a], of 0 0, simplified, OF refl]
  from 3 p show ?case by (auto simp: Let_def)
qed simp

lemma length_sextets: "length (sextets bs) = (4 * length bs + 2) div 3"
  by (induction bs rule: sextets.induct) (simp_all add: Let_def)

lemma alphabet_values:
  "list_all (\<lambda>n. value64 (base64_alphabet ! n) = Some n \<and> value64 (base64url_alphabet ! n) = Some n
    \<and> base64_alphabet ! n \<noteq> CHR ''='' \<and> base64url_alphabet ! n \<noteq> CHR ''='' \<and> base64url_alphabet ! n \<noteq> CHR ''.'') [0..<64]"
  by code_simp

lemma alphabet_value:
  "n < 64 \<Longrightarrow> value64 (base64_alphabet ! n) = Some n" "n < 64 \<Longrightarrow> value64 (base64url_alphabet ! n) = Some n"
  "n < 64 \<Longrightarrow> base64_alphabet ! n \<noteq> CHR ''=''" "n < 64 \<Longrightarrow> base64url_alphabet ! n \<noteq> CHR ''=''"
  "n < 64 \<Longrightarrow> base64url_alphabet ! n \<noteq> CHR ''.''"
  using alphabet_values by (simp_all add: list_all_iff)

lemma decode_chars:
  "\<forall>n\<in>set ns. n < 64 \<Longrightarrow> List.map_filter value64 (map (nth base64_alphabet) ns) = ns"
  "\<forall>n\<in>set ns. n < 64 \<Longrightarrow> List.map_filter value64 (map (nth base64url_alphabet) ns) = ns"
  by (induction ns) (auto simp: map_filter_simps alphabet_value)

lemma base64_round_trip [simp]: "base64_decode (base64_encode bs) = bs"
proof -
  let ?cs = "map (nth base64_alphabet) (sextets bs)"
  have "takeWhile (\<lambda>c. c \<noteq> CHR ''='') (?cs @ replicate k CHR ''='') = ?cs" for k
    using sextets_bound alphabet_value(3) by (subst takeWhile_append2) (auto simp: takeWhile_replicate)
  then show ?thesis
    unfolding base64_decode_def base64_encode_def using decode_chars(1) sextets_bound octets_sextets by simp
qed

lemma base64url_round_trip [simp]: "base64_decode (base64url_encode bs) = bs"
proof -
  let ?cs = "map (nth base64url_alphabet) (sextets bs)"
  have t: "takeWhile (\<lambda>c. c \<noteq> CHR ''='') ?cs = ?cs"
    unfolding takeWhile_eq_all_conv using sextets_bound alphabet_value(4) by auto
  show ?thesis
    unfolding base64_decode_def base64url_encode_def t using decode_chars(2) sextets_bound octets_sextets by simp
qed

lemma base64url_no_dot: "CHR ''.'' \<notin> set (base64url_encode bs)"
  using sextets_bound alphabet_value(5) by (force simp: base64url_encode_def)

lemma base64_length: "length (base64_encode bs) = (length bs + 2) div 3 * 4"
proof (induction bs rule: sextets.induct)
  case (1 a b c bs)
  have "(length (a # b # c # bs) + 2) div 3 = Suc ((length bs + 2) div 3)" by simp
  with 1 show ?case by (simp add: base64_encode_def Let_def)
qed (simp_all add: base64_encode_def Let_def)


lemma js_split_nonempty [simp]: "js_split d s \<noteq> []"
  by (cases s) (auto split: list.splits)

lemma js_split_plain: "d \<notin> set s \<Longrightarrow> js_split d s = [s]"
  by (induction s) auto

lemma js_split_append: "d \<notin> set s \<Longrightarrow> js_split d (s @ d # t) = s # js_split d t"
  by (induction s) auto

lemma js_join_split: "js_join [d] (js_split d s) = s"
proof (induction s)
  case (Cons c s)
  obtain x xs where "js_split d s = x # xs" by (cases "js_split d s") auto
  with Cons show ?case by (cases xs) auto
qed simp

end
