(* ===== verification/KmsCodec.thy ===== *)
theory KmsCodec
  imports Base64 BackupSnapshots
begin

text \<open>
  The boundary to the key service that wraps the data keys of a workspace: checksums, strict readers of its answers and
  configuration (\<open>workspace-cloud/lib/workspace-kms-core.ts\<close>), and the requests of \<open>workspace-kms.ts\<close>. The service is an argument.
\<close>

section \<open>CRC-32C\<close>

unbundle bit_operations_syntax

definition crc_bit :: "32 word \<Rightarrow> 32 word" where
  "crc_bit v = (if v AND 1 = 1 then drop_bit 1 v XOR 0x82f63b78 else drop_bit 1 v)"

definition crc32c_table :: "32 word list" where
  "crc32c_table = map (\<lambda>i. (crc_bit ^^ 8) (of_nat i)) [0..<256]"

definition crc_step :: "32 word \<Rightarrow> 8 word \<Rightarrow> 32 word" where
  "crc_step c b = crc32c_table ! unat ((c XOR ucast b) AND 0xff) XOR drop_bit 8 c"

definition crc32c :: "8 word list \<Rightarrow> 32 word" where
  "crc32c bs = foldl crc_step 0xffffffff bs XOR 0xffffffff"

text \<open>The reference: the register takes a byte in at its low end and is shifted eight times.\<close>

definition crc_shift_in :: "32 word \<Rightarrow> 8 word \<Rightarrow> 32 word" where
  "crc_shift_in c b = (crc_bit ^^ 8) (c XOR ucast b)"

definition crc32c_reference :: "8 word list \<Rightarrow> 32 word" where
  "crc32c_reference bs = NOT (foldl crc_shift_in (- 1) bs)"

lemma crc_bit_alt: "crc_bit v = drop_bit 1 v XOR (if bit v 0 then 0x82f63b78 else 0)"
  by (simp add: crc_bit_def and_one_eq odd_iff_mod_2_eq_one [symmetric] bit_0)

lemma crc_bit_xor: "crc_bit (x XOR y) = crc_bit x XOR crc_bit y"
  by (auto simp: crc_bit_alt drop_bit_xor bit_xor_iff ac_simps xor.left_commute)

lemma crc_bits_xor: "(crc_bit ^^ n) (x XOR y) = (crc_bit ^^ n) x XOR (crc_bit ^^ n) y"
  by (induction n) (simp_all add: crc_bit_xor)

lemma crc_bit_zero: "crc_bit x = 0 \<longleftrightarrow> x = 0"
proof
  assume z: "crc_bit x = 0"
  have "bit (crc_bit x) 31 = bit x 0"
    using bit_imp_le_length [of x 32] by (auto simp: crc_bit_alt bit_xor_iff bit_drop_bit_eq)
  with z have "\<not> bit x 0" by simp
  with z have "drop_bit 1 x = 0" by (simp add: crc_bit_alt)
  show "x = 0"
  proof (rule bit_word_eqI)
    fix n assume "n < LENGTH(32)"
    show "bit x n = bit 0 n"
    proof (cases n)
      case (Suc m)
      have "bit (drop_bit 1 x) m = bit x n" by (simp add: bit_drop_bit_eq Suc)
      with \<open>drop_bit 1 x = 0\<close> show ?thesis by simp
    qed (use \<open>\<not> bit x 0\<close> in simp)
  qed
qed (simp add: crc_bit_alt)

lemma crc_bits_zero: "(crc_bit ^^ n) x = 0 \<longleftrightarrow> x = 0"
  by (induction n) (simp_all add: crc_bit_zero)

lemma crc_bits_inj: "(crc_bit ^^ n) x = (crc_bit ^^ n) y \<Longrightarrow> x = y"
proof -
  assume "(crc_bit ^^ n) x = (crc_bit ^^ n) y"
  then have "(crc_bit ^^ n) (x XOR y) = 0" by (simp add: crc_bits_xor)
  then have "x XOR y = 0" by (simp add: crc_bits_zero)
  then show ?thesis by (metis xor.assoc xor.right_neutral xor_self_eq)
qed

lemma crc_bits_low: "(\<forall>i<n. \<not> bit x i) \<Longrightarrow> (crc_bit ^^ n) x = drop_bit n x"
proof (induction n)
  case (Suc n)
  then have "(crc_bit ^^ n) x = drop_bit n x" "\<not> bit (drop_bit n x) 0" by (simp_all add: bit_drop_bit_eq)
  then have "(crc_bit ^^ Suc n) x = drop_bit 1 (drop_bit n x)"
    unfolding funpow.simps comp_apply by (simp only: crc_bit_alt if_False xor.right_neutral)
  also have "\<dots> = drop_bit (Suc n) x" by (simp only: drop_bit_drop_bit plus_1_eq_Suc)
  finally show ?case .
qed simp

lemma crc_table_entry: "i < 256 \<Longrightarrow> crc32c_table ! i = (crc_bit ^^ 8) (of_nat i)"
  by (simp add: crc32c_table_def)

lemma byte_mask: "(0xff :: 32 word) = mask 8"
  by (simp add: mask_eq_exp_minus_1)

lemma crc_step_shift: "crc_step c b = crc_shift_in c b"
proof -
  let ?x = "c XOR ucast b"
  have "unat (?x AND 0xff) < 256"
  proof -
    have "?x AND 0xff \<le> 0xff" by (rule word_and_le1)
    then show ?thesis by (simp add: word_le_nat_alt)
  qed
  then have t: "crc32c_table ! unat (?x AND 0xff) = (crc_bit ^^ 8) (?x AND 0xff)"
    by (simp add: crc_table_entry)
  have "(crc_bit ^^ 8) (?x AND NOT 0xff) = drop_bit 8 (?x AND NOT 0xff)"
    by (rule crc_bits_low) (auto simp: byte_mask bit_simps)
  also have "\<dots> = drop_bit 8 c"
    by (rule bit_word_eqI) (auto simp: byte_mask bit_simps dest: bit_imp_le_length)
  finally have "crc_step c b = (crc_bit ^^ 8) (?x AND 0xff) XOR (crc_bit ^^ 8) (?x AND NOT 0xff)"
    by (simp add: crc_step_def t)
  also have "\<dots> = (crc_bit ^^ 8) (?x AND 0xff XOR ?x AND NOT 0xff)" by (simp add: crc_bits_xor)
  also have "?x AND 0xff XOR ?x AND NOT 0xff = ?x"
    by (rule bit_word_eqI) (auto simp: bit_simps)
  finally show ?thesis by (simp add: crc_shift_in_def)
qed

text \<open>Errors on the way through the register.\<close>

abbreviation run_crc :: "32 word \<Rightarrow> 8 word list \<Rightarrow> 32 word" where
  "run_crc \<equiv> foldl crc_shift_in"

lemma shift_in_xor: "crc_shift_in (s XOR t) (a XOR b) = crc_shift_in s a XOR crc_shift_in t b"
proof -
  have eq: "(s XOR t) XOR ucast (a XOR b) = (s XOR ucast a) XOR (t XOR ucast b)"
    by (rule bit_word_eqI) (auto simp: bit_simps)
  show ?thesis unfolding crc_shift_in_def eq by (rule crc_bits_xor)
qed

lemma run_xor:
  "length xs = length ys \<Longrightarrow> run_crc (s XOR t) (map2 (XOR) xs ys) = run_crc s xs XOR run_crc t ys"
  by (induction xs ys arbitrary: s t rule: list_induct2) (simp_all add: shift_in_xor)

lemma xor_cancel: "x XOR c = y XOR c \<Longrightarrow> x = (y :: 'a::len word)"
proof -
  assume "x XOR c = y XOR c"
  then have "(x XOR c) XOR c = (y XOR c) XOR c" by simp
  then show ?thesis by (simp add: xor.assoc)
qed

lemma run_inj: "run_crc s bs = run_crc t bs \<Longrightarrow> s = t"
proof (induction bs arbitrary: s t)
  case (Cons b bs)
  then have "crc_shift_in s b = crc_shift_in t b" by auto
  then have "s XOR ucast b = t XOR ucast b" unfolding crc_shift_in_def by (rule crc_bits_inj)
  then show ?case by (rule xor_cancel)
qed simp

text \<open>The word of a window of at most four bytes, first byte lowest.\<close>

fun window :: "8 word list \<Rightarrow> 32 word" where
  "window [] = 0"
| "window (b # bs) = ucast b XOR push_bit 8 (window bs)"

lemma window_bits: "8 * length bs \<le> n \<Longrightarrow> \<not> bit (window bs) n"
proof (induction bs arbitrary: n)
  case (Cons b bs)
  then have "\<not> bit (window bs) (n - 8)" by simp
  with Cons.prems show ?case by (auto simp: bit_simps dest: bit_imp_le_length)
qed simp

lemma window_zero: "length bs \<le> 4 \<Longrightarrow> window bs = 0 \<Longrightarrow> \<forall>b\<in>set bs. b = 0"
proof (induction bs)
  case (Cons b bs)
  have "b = 0"
  proof (rule bit_word_eqI)
    fix n assume n: "n < LENGTH(8)"
    have "bit (window (b # bs)) n = bit b n" using n by (auto simp: bit_simps)
    with Cons.prems(2) show "bit b n = bit 0 n" by simp
  qed
  have "window bs = 0"
  proof (rule bit_word_eqI)
    fix n assume "n < LENGTH(32)"
    show "bit (window bs) n = bit 0 n"
    proof (cases "n < 24")
      case True
      then have "bit (window (b # bs)) (n + 8) = bit (window bs) n" using \<open>b = 0\<close> by (auto simp: bit_simps)
      with Cons.prems(2) show ?thesis by simp
    next
      case False
      with Cons.prems(1) window_bits [of bs n] show ?thesis by simp
    qed
  qed
  with Cons \<open>b = 0\<close> show ?case by simp
qed simp

lemma shift_out: "(\<forall>i\<ge>24. \<not> bit w i) \<Longrightarrow> (crc_bit ^^ 8) (push_bit 8 w) = (w :: 32 word)"
proof -
  assume w: "\<forall>i\<ge>24. \<not> bit w i"
  have "(crc_bit ^^ 8) (push_bit 8 w) = drop_bit 8 (push_bit 8 w)"
    by (rule crc_bits_low) (auto simp: bit_simps)
  also have "\<dots> = w"
  proof (rule bit_word_eqI)
    fix n assume "n < LENGTH(32)"
    with w show "bit (drop_bit 8 (push_bit 8 w)) n = bit w n" by (cases "n < 24") (auto simp: bit_simps)
  qed
  finally show ?thesis .
qed

lemma run_window:
  "length bs \<le> 4 \<Longrightarrow> run_crc s bs = (crc_bit ^^ (8 * length bs)) (s XOR window bs)"
proof (induction bs arbitrary: s)
  case (Cons b bs)
  then have fits: "\<forall>i\<ge>24. \<not> bit (window bs) i" using window_bits [of bs] by auto
  have "run_crc s (b # bs) = (crc_bit ^^ (8 * length bs)) (crc_shift_in s b XOR window bs)"
    using Cons by simp
  also have "crc_shift_in s b XOR window bs = (crc_bit ^^ 8) ((s XOR ucast b) XOR push_bit 8 (window bs))"
    by (simp only: crc_shift_in_def crc_bits_xor shift_out [OF fits])
  also have "(crc_bit ^^ (8 * length bs)) ((crc_bit ^^ 8) ((s XOR ucast b) XOR push_bit 8 (window bs)))
      = (crc_bit ^^ (8 * length (b # bs))) (s XOR window (b # bs))"
    by (simp only: xor.assoc window.simps length_Cons mult_Suc_right add.commute [of 8] funpow_add comp_apply)
  finally show ?case .
qed simp

lemma burst_detected:
  assumes "run_crc s xs = run_crc s ys" "length xs = length ys" "length xs \<le> 4"
  shows "xs = ys"
proof -
  have "run_crc (s XOR s) (map2 (XOR) xs ys) = run_crc s xs XOR run_crc s ys" by (rule run_xor [OF assms(2)])
  then have "run_crc 0 (map2 (XOR) xs ys) = 0" by (simp add: assms(1))
  then have "window (map2 (XOR) xs ys) = 0"
    using run_window [of "map2 (XOR) xs ys" 0] assms(2,3) by (simp add: crc_bits_zero)
  then have "\<forall>d\<in>set (map2 (XOR) xs ys). d = 0" by (rule window_zero [rotated]) (use assms(2,3) in simp)
  with assms(2) show ?thesis
  proof (induction xs ys rule: list_induct2)
    case (Cons x xs y ys)
    then have "x XOR y = 0" by simp
    then have "x = y" by (metis xor.assoc xor.right_neutral xor_self_eq)
    with Cons show ?case by simp
  qed simp
qed

lemma foldl_shift: "foldl crc_step c bs = run_crc c bs"
  by (induction bs arbitrary: c) (simp_all add: crc_step_shift)



section \<open>Configuration\<close>

datatype kms_kind =
  KmsConfiguration | KmsOidc | KmsFederation | KmsImpersonation | KmsEncrypt | KmsDecrypt | KmsIntegrity | KmsUnavailable

datatype kms_error = WorkspaceKmsError kms_kind nat

record kms_configuration =
  kc_key_name :: string
  kc_audience :: string
  kc_account :: string

definition kms_name :: "string \<Rightarrow> bool" where
  "kms_name s \<longleftrightarrow> s \<noteq> [] \<and> (\<forall>c\<in>set s. is_alnum c \<or> c = CHR ''_'' \<or> c = CHR ''-'')"

definition kms_project :: "string \<Rightarrow> bool" where
  "kms_project s \<longleftrightarrow> s \<noteq> [] \<and> (\<forall>c\<in>set s. is_alnum c \<or> c \<in> set ''._:-'')"

definition kms_number :: "string \<Rightarrow> bool" where
  "kms_number s \<longleftrightarrow> s \<noteq> [] \<and> hd s \<noteq> CHR ''0'' \<and> (\<forall>c\<in>set s. is_digit c)"

definition crypto_key_parts :: "string list \<Rightarrow> bool" where
  "crypto_key_parts ps =
     (case ps of
        [a, p, b, l, c, r, d, k] \<Rightarrow> a = ''projects'' \<and> kms_project p \<and> b = ''locations'' \<and> kms_name l \<and> c = ''keyRings'' \<and> kms_name r
          \<and> d = ''cryptoKeys'' \<and> kms_name k
      | _ \<Rightarrow> False)"

definition crypto_key :: "string \<Rightarrow> bool" where
  "crypto_key s = crypto_key_parts (js_split CHR ''/'' s)"

definition crypto_key_version :: "string \<Rightarrow> bool" where
  "crypto_key_version s =
     (let ps = js_split CHR ''/'' s
      in length ps = 10 \<and> crypto_key_parts (take 8 ps) \<and> ps ! 8 = ''cryptoKeyVersions'' \<and> kms_number (ps ! 9))"

definition wif_audience :: "string \<Rightarrow> bool" where
  "wif_audience s =
     (case js_split CHR ''/'' s of
        [e, f, h, a, n, b, g, c, p, d, q] \<Rightarrow> e = [] \<and> f = [] \<and> h = ''iam.googleapis.com'' \<and> a = ''projects''
          \<and> kms_number n \<and> 6 \<le> length n \<and> length n \<le> 20 \<and> b = ''locations'' \<and> g = ''global'' \<and> c = ''workloadIdentityPools''
          \<and> kms_name p \<and> d = ''providers'' \<and> kms_name q
      | _ \<Rightarrow> False)"

definition account_suffix :: string where
  "account_suffix = ''.iam.gserviceaccount.com''"

definition service_account :: "string \<Rightarrow> bool" where
  "service_account s =
     (case js_split CHR ''@'' s of
        [u, h] \<Rightarrow> u \<noteq> [] \<and> length u \<le> 63 \<and> is_alnum (hd u) \<and> (\<forall>c\<in>set u. is_alnum c \<or> c \<in> set ''._-'')
          \<and> (let n = length h - length account_suffix; p = take n h
             in drop n h = account_suffix \<and> 5 \<le> length p \<and> length p \<le> 62 \<and> is_lower (hd p)
               \<and> (\<forall>c\<in>set p. is_lower c \<or> is_digit c \<or> c = CHR ''-''))
      | _ \<Rightarrow> False)"

definition parse_workspace_kms_configuration ::
  "Prelude.json option \<Rightarrow> Prelude.json option \<Rightarrow> Prelude.json option \<Rightarrow> kms_error + kms_configuration" where
  "parse_workspace_kms_configuration key_name audience account =
     (case (key_name, audience, account) of
        (Some (JStr k), Some (JStr a), Some (JStr s)) \<Rightarrow>
          if crypto_key k \<and> wif_audience a \<and> service_account s then Inr \<lparr>kc_key_name = k, kc_audience = a, kc_account = s\<rparr>
          else Inl (WorkspaceKmsError KmsConfiguration 503)
      | _ \<Rightarrow> Inl (WorkspaceKmsError KmsConfiguration 503))"

definition workspace_data_key_aad :: "string \<Rightarrow> string \<Rightarrow> nat \<Rightarrow> kms_error + 8 word list" where
  "workspace_data_key_aad org key version =
     (if \<not> snapshot_uuid org \<or> \<not> snapshot_uuid key \<or> version < 1 \<or> version > 2147483647 then Inl (WorkspaceKmsError KmsIntegrity 409)
      else Inr (utf8_bytes (''dopedb:workspace-data-key:v1:'' @ js_lower org @ '':'' @ js_lower key @ '':v'' @ nat_str version)))"

section \<open>Answers of the key service\<close>

definition base64_shape :: "string \<Rightarrow> bool" where
  "base64_shape s =
     (let plain = \<lambda>c. is_alnum c \<or> c = CHR ''+'' \<or> c = CHR ''/''
      in takeWhile plain s \<noteq> [] \<and> dropWhile plain s \<in> {[], ''='', ''==''})"

definition base64_bytes :: "Prelude.json option \<Rightarrow> nat \<Rightarrow> 8 word list option" where
  "base64_bytes v limit =
     (case v of
        Some (JStr s) \<Rightarrow>
          if length s < 1 \<or> length s > (limit + 2) div 3 * 4 + 4 \<or> \<not> base64_shape s then None
          else let bs = base64_decode s
            in if length bs < 1 \<or> length bs > limit \<or> base64_encode bs \<noteq> s then None else Some bs
      | _ \<Rightarrow> None)"

definition checksum_matches :: "8 word list \<Rightarrow> Prelude.json option \<Rightarrow> bool" where
  "checksum_matches bs v =
     ((case v of
         Some (JStr s) \<Rightarrow> if 1 \<le> length s \<and> length s \<le> 10 \<and> (\<forall>c\<in>set s. is_digit c) then int (nat_val s) else - 1
       | Some (JNum n) \<Rightarrow> if \<bar>n\<bar> \<le> int max_safe then n else - 1
       | _ \<Rightarrow> - 1) = uint (crc32c bs))"

definition parse_kms_encrypt_response :: "Prelude.json \<Rightarrow> string \<Rightarrow> kms_error + string \<times> string" where
  "parse_kms_encrypt_response v key_name =
     (case v of
        JObj _ \<Rightarrow>
          (case (json_get v ''name'', json_get v ''ciphertext'', base64_bytes (json_get v ''ciphertext'') 8192) of
             (Some (JStr name), Some (JStr text), Some bs) \<Rightarrow>
               if crypto_key_version name \<and> starts_with (key_name @ ''/cryptoKeyVersions/'') name
                 \<and> json_get v ''verifiedPlaintextCrc32c'' = Some (JBool True)
                 \<and> json_get v ''verifiedAdditionalAuthenticatedDataCrc32c'' = Some (JBool True)
                 \<and> checksum_matches bs (json_get v ''ciphertextCrc32c'')
               then Inr (name, text) else Inl (WorkspaceKmsError KmsIntegrity 502)
           | _ \<Rightarrow> Inl (WorkspaceKmsError KmsIntegrity 502))
      | _ \<Rightarrow> Inl (WorkspaceKmsError KmsIntegrity 502))"

definition parse_kms_decrypt_response :: "Prelude.json \<Rightarrow> kms_error + 8 word list" where
  "parse_kms_decrypt_response v =
     (case v of
        JObj _ \<Rightarrow>
          (case base64_bytes (json_get v ''plaintext'') 32 of
             Some bs \<Rightarrow> if length bs = 32 \<and> checksum_matches bs (json_get v ''plaintextCrc32c'') then Inr bs
               else Inl (WorkspaceKmsError KmsIntegrity 502)
           | None \<Rightarrow> Inl (WorkspaceKmsError KmsIntegrity 502))
      | _ \<Rightarrow> Inl (WorkspaceKmsError KmsIntegrity 502))"

section \<open>Requests\<close>

record kms_request =
  kr_url :: string
  kr_token :: "string option"
  kr_body :: "(string \<times> Prelude.json) list"

text \<open>A request gives no response, or a status and the JSON value of a bounded body.\<close>

type_synonym kms_service = "kms_request \<Rightarrow> (nat \<times> Prelude.json option) option"

definition normalize_status :: "nat \<Rightarrow> nat" where
  "normalize_status n = (if n \<in> {401, 403, 409, 429} then n else if n \<ge> 500 then 502 else 400)"

definition json_request :: "kms_service \<Rightarrow> kms_kind \<Rightarrow> kms_request \<Rightarrow> kms_error + Prelude.json" where
  "json_request svc kind q =
     (case svc q of
        None \<Rightarrow> Inl (WorkspaceKmsError KmsUnavailable 503)
      | Some (code, body) \<Rightarrow>
          if \<not> (200 \<le> code \<and> code \<le> 299) then Inl (WorkspaceKmsError kind (normalize_status code))
          else (case body of Some (JObj fs) \<Rightarrow> Inr (JObj fs) | _ \<Rightarrow> Inl (WorkspaceKmsError kind 502)))"

definition required_token :: "Prelude.json option \<Rightarrow> kms_kind \<Rightarrow> kms_error + string" where
  "required_token v kind =
     (case v of
        Some (JStr s) \<Rightarrow>
          if length s < 20 \<or> length s > 32768 \<or> (\<exists>c\<in>set s. js_space c) then Inl (WorkspaceKmsError kind 502) else Inr s
      | _ \<Rightarrow> Inl (WorkspaceKmsError kind 502))"

definition workspace_kms_oidc_token :: "string option \<Rightarrow> kms_error + string" where
  "workspace_kms_oidc_token v =
     (case v of
        Some s \<Rightarrow>
          if s = [] \<or> length s < 100 \<or> length s > 32768 \<or> length (js_split CHR ''.'' s) \<noteq> 3 \<or> (\<exists>c\<in>set s. js_space c)
          then Inl (WorkspaceKmsError KmsOidc 503) else Inr s
      | None \<Rightarrow> Inl (WorkspaceKmsError KmsOidc 503))"

text \<open>\<open>encodeURIComponent\<close>\<close>

definition hex_upper :: "nat \<Rightarrow> char" where
  "hex_upper n = ''0123456789ABCDEF'' ! n"

definition encode_uri_component :: "string \<Rightarrow> string" where
  "encode_uri_component s =
     concat (map (\<lambda>c. if is_alnum c \<or> c \<in> set ''-_.!~*'' \<or> c = CHR 0x27 \<or> c = CHR ''('' \<or> c = CHR '')'' then [c]
       else concat (map (\<lambda>b. [CHR ''%'', hex_upper (unat b div 16), hex_upper (unat b mod 16)]) (utf8_bytes [c]))) s)"

definition federation_request :: "kms_configuration \<Rightarrow> string \<Rightarrow> kms_request" where
  "federation_request cf oidc =
     \<lparr>kr_url = ''https://sts.googleapis.com/v1/token'', kr_token = None,
      kr_body = [(''audience'', JStr (kc_audience cf)), (''grantType'', JStr ''urn:ietf:params:oauth:grant-type:token-exchange''),
        (''requestedTokenType'', JStr ''urn:ietf:params:oauth:token-type:access_token''),
        (''scope'', JStr ''https://www.googleapis.com/auth/cloud-platform''), (''subjectToken'', JStr oidc),
        (''subjectTokenType'', JStr ''urn:ietf:params:oauth:token-type:jwt'')]\<rparr>"

definition impersonation_request :: "kms_configuration \<Rightarrow> string \<Rightarrow> kms_request" where
  "impersonation_request cf token =
     \<lparr>kr_url = ''https://iamcredentials.googleapis.com/v1/projects/-/serviceAccounts/''
        @ encode_uri_component (kc_account cf) @ '':generateAccessToken'',
      kr_token = Some token,
      kr_body = [(''scope'', JArr [JStr ''https://www.googleapis.com/auth/cloudkms'']), (''lifetime'', JStr ''900s'')]\<rparr>"

definition workspace_kms_access_token :: "kms_service \<Rightarrow> kms_configuration \<Rightarrow> string \<Rightarrow> kms_error + string" where
  "workspace_kms_access_token svc cf oidc =
     (case json_request svc KmsFederation (federation_request cf oidc) of
        Inl e \<Rightarrow> Inl e
      | Inr federation \<Rightarrow>
          (case required_token (json_get federation ''access_token'') KmsFederation of
             Inl e \<Rightarrow> Inl e
           | Inr token \<Rightarrow>
               (case json_request svc KmsImpersonation (impersonation_request cf token) of
                  Inl e \<Rightarrow> Inl e
                | Inr impersonation \<Rightarrow> required_token (json_get impersonation ''accessToken'') KmsImpersonation)))"

definition crc_text :: "8 word list \<Rightarrow> string" where
  "crc_text bs = nat_str (unat (crc32c bs))"

definition encrypt_request :: "kms_configuration \<Rightarrow> string \<Rightarrow> 8 word list \<Rightarrow> 8 word list \<Rightarrow> kms_request" where
  "encrypt_request cf token key aad =
     \<lparr>kr_url = ''https://cloudkms.googleapis.com/v1/'' @ kc_key_name cf @ '':encrypt'', kr_token = Some token,
      kr_body = [(''plaintext'', JStr (base64_encode key)), (''additionalAuthenticatedData'', JStr (base64_encode aad)),
        (''plaintextCrc32c'', JStr (crc_text key)), (''additionalAuthenticatedDataCrc32c'', JStr (crc_text aad))]\<rparr>"

definition decrypt_request :: "kms_configuration \<Rightarrow> string \<Rightarrow> string \<Rightarrow> 8 word list \<Rightarrow> kms_request" where
  "decrypt_request cf token wrapped aad =
     \<lparr>kr_url = ''https://cloudkms.googleapis.com/v1/'' @ kc_key_name cf @ '':decrypt'', kr_token = Some token,
      kr_body = [(''ciphertext'', JStr wrapped), (''additionalAuthenticatedData'', JStr (base64_encode aad)),
        (''ciphertextCrc32c'', JStr (crc_text (base64_decode wrapped))), (''additionalAuthenticatedDataCrc32c'', JStr (crc_text aad))]\<rparr>"

definition wrap_workspace_data_key ::
  "kms_service \<Rightarrow> kms_configuration \<Rightarrow> string \<Rightarrow> string \<Rightarrow> string \<Rightarrow> nat \<Rightarrow> 8 word list \<Rightarrow> kms_error + string \<times> string" where
  "wrap_workspace_data_key svc cf token org i version key =
     (if length key \<noteq> 32 then Inl (WorkspaceKmsError KmsIntegrity 409)
      else case workspace_data_key_aad org i version of
        Inl e \<Rightarrow> Inl e
      | Inr aad \<Rightarrow>
          (case json_request svc KmsEncrypt (encrypt_request cf token key aad) of
             Inl e \<Rightarrow> Inl e
           | Inr v \<Rightarrow> parse_kms_encrypt_response v (kc_key_name cf)))"

definition unwrap_workspace_data_key ::
  "kms_service \<Rightarrow> kms_configuration \<Rightarrow> string \<Rightarrow> string \<Rightarrow> string \<Rightarrow> nat \<Rightarrow> string \<Rightarrow> kms_error + 8 word list" where
  "unwrap_workspace_data_key svc cf token org i version wrapped =
     (case workspace_data_key_aad org i version of
        Inl e \<Rightarrow> Inl e
      | Inr aad \<Rightarrow>
          let bs = base64_decode wrapped
          in if length bs < 1 \<or> length bs > 8192 \<or> base64_encode bs \<noteq> wrapped then Inl (WorkspaceKmsError KmsIntegrity 409)
             else (case json_request svc KmsDecrypt (decrypt_request cf token wrapped aad) of
                Inl e \<Rightarrow> Inl e
              | Inr v \<Rightarrow> parse_kms_decrypt_response v))"


section \<open>What the readers accept\<close>

lemma base64_chars: "\<forall>c\<in>set (map (nth base64_alphabet) (sextets bs)). is_alnum c \<or> c = CHR ''+'' \<or> c = CHR ''/''"
proof
  fix c assume "c \<in> set (map (nth base64_alphabet) (sextets bs))"
  then obtain n where "n < 64" "c = base64_alphabet ! n" using sextets_bound by auto
  moreover have "length base64_alphabet = 64" by code_simp
  ultimately have "c \<in> set base64_alphabet" by simp
  moreover have "list_all (\<lambda>c. is_alnum c \<or> c = CHR ''+'' \<or> c = CHR ''/'') base64_alphabet" by code_simp
  ultimately show "is_alnum c \<or> c = CHR ''+'' \<or> c = CHR ''/''" unfolding list_all_iff by blast
qed

lemma split_padding:
  "\<forall>c\<in>set cs. P c \<Longrightarrow> \<not> P d \<Longrightarrow> takeWhile P (cs @ replicate k d) = cs \<and> dropWhile P (cs @ replicate k d) = replicate k d"
  by (induction cs) (cases k; simp)+

lemma base64_shape_encode: "bs \<noteq> [] \<Longrightarrow> base64_shape (base64_encode bs)"
proof -
  assume "bs \<noteq> []"
  have not: "\<not> (is_alnum CHR ''='' \<or> CHR ''='' = CHR ''+'' \<or> CHR ''='' = CHR ''/'')" by code_simp
  define k where "k = (3 - length bs mod 3) mod 3"
  have "k < 3" by (simp add: k_def)
  then have "k = 0 \<or> k = 1 \<or> k = 2" by linarith
  then have pad: "replicate k CHR ''='' \<in> {[], ''='', ''==''}" by (auto simp: numeral_2_eq_2)
  have "sextets bs \<noteq> []" using \<open>bs \<noteq> []\<close> by (cases bs rule: sextets.cases) (auto simp: Let_def)
  define plain where "plain = (\<lambda>c. is_alnum c \<or> c = CHR ''+'' \<or> c = CHR ''/'')"
  define cs where "cs = map (nth base64_alphabet) (sextets bs)"
  have "\<forall>c\<in>set cs. plain c" "\<not> plain CHR ''=''" using base64_chars [of bs] not by (simp_all only: cs_def plain_def) simp_all
  note parts = split_padding [OF this, of k]
  have enc: "base64_encode bs = cs @ replicate k CHR ''=''" by (simp only: base64_encode_def cs_def k_def)
  have "cs \<noteq> []" using \<open>sextets bs \<noteq> []\<close> by (simp add: cs_def)
  with pad parts show ?thesis
    unfolding base64_shape_def Let_def plain_def [symmetric] enc by simp
qed

lemma base64_bytes_Some:
  "base64_bytes v limit = Some bs \<longleftrightarrow> v = Some (JStr (base64_encode bs)) \<and> 1 \<le> length bs \<and> length bs \<le> limit"
proof
  assume "base64_bytes v limit = Some bs"
  then show "v = Some (JStr (base64_encode bs)) \<and> 1 \<le> length bs \<and> length bs \<le> limit"
    by (auto simp: base64_bytes_def Let_def Suc_le_eq split: option.splits Prelude.json.splits if_splits)
next
  assume v: "v = Some (JStr (base64_encode bs)) \<and> 1 \<le> length bs \<and> length bs \<le> limit"
  then have "bs \<noteq> []" by auto
  have "(length bs + 2) div 3 * 4 \<le> (limit + 2) div 3 * 4" using v by (simp add: div_le_mono)
  moreover have "0 < (length bs + 2) div 3 * 4" using v by (simp add: div_greater_zero_iff)
  ultimately show "base64_bytes v limit = Some bs"
    using v \<open>bs \<noteq> []\<close> base64_shape_encode [OF \<open>bs \<noteq> []\<close>] by (simp add: base64_bytes_def base64_length Let_def)
qed

lemma nat_str_short: "n < 10 ^ k \<Longrightarrow> 0 < k \<Longrightarrow> length (nat_str n) \<le> k"
proof (induction n arbitrary: k rule: nat_str.induct)
  case (1 n)
  show ?case
  proof (cases "n < 10")
    case False
    from "1.prems"(2) obtain j where j: "k = Suc j" by (cases k) auto
    have k: "k = Suc j" "0 < j" using "1.prems"(1) False j by (cases j; simp)+
    then have "n div 10 < 10 ^ j" using "1.prems" by (simp add: less_mult_imp_div_less mult.commute)
    with "1.IH" False k show ?thesis by (subst nat_str.simps) simp
  next
    case True
    with "1.prems"(2) show ?thesis by (subst nat_str.simps) (simp add: Suc_le_eq)
  qed
qed

lemma checksum_text: "checksum_matches bs (Some (JStr (crc_text bs)))"
proof -
  have "unat (crc32c bs) < 10 ^ 10" using unsigned_less [of "crc32c bs", where ?'a = nat] by simp
  then have "length (crc_text bs) \<le> 10" unfolding crc_text_def by (rule nat_str_short) simp
  moreover have "nat_val (crc_text bs) = unat (crc32c bs)" by (simp add: crc_text_def)
  moreover have "1 \<le> length (crc_text bs)" "\<forall>c\<in>set (crc_text bs). is_digit c"
    using nat_str_digits by (auto simp: crc_text_def Suc_le_eq)
  ultimately show ?thesis by (simp add: checksum_matches_def)
qed

lemma checksum_same: "checksum_matches bs v \<Longrightarrow> checksum_matches cs v \<Longrightarrow> crc32c bs = crc32c cs"
  by (rule unsigned_word_eqI) (simp add: checksum_matches_def)

lemma decrypt_accepted:
  "parse_kms_decrypt_response v = Inr bs \<longleftrightarrow>
    (\<exists>fs. v = JObj fs) \<and> json_get v ''plaintext'' = Some (JStr (base64_encode bs)) \<and> length bs = 32
    \<and> checksum_matches bs (json_get v ''plaintextCrc32c'')"
proof (cases v)
  case (JObj fs)
  show ?thesis
  proof (cases "base64_bytes (json_get v ''plaintext'') 32")
    case None
    then have "\<not> (json_get v ''plaintext'' = Some (JStr (base64_encode bs)) \<and> length bs = 32)"
      using base64_bytes_Some [of "json_get v ''plaintext''" 32 bs] by auto
    with None JObj show ?thesis by (auto simp: parse_kms_decrypt_response_def simp del: json_get.simps)
  next
    case (Some cs)
    then have "json_get v ''plaintext'' = Some (JStr (base64_encode cs))" by (simp add: base64_bytes_Some del: json_get.simps)
    moreover have "base64_encode cs = base64_encode bs \<longleftrightarrow> cs = bs" by (metis base64_round_trip)
    ultimately show ?thesis using Some JObj
      by (cases "cs = bs") (simp_all add: parse_kms_decrypt_response_def del: json_get.simps)
  qed
qed (simp_all add: parse_kms_decrypt_response_def)

text \<open>
  C37. A data key that was damaged on its way back from the key service is not used: an accepted answer is the canonical base64 of
  exactly 32 bytes, and when its checksum is the one of the key that was sent, the bytes are that key unless they differ from it outside
  every window of four bytes.
\<close>

theorem damaged_key_is_rejected:
  assumes "parse_kms_decrypt_response v = Inr bs" "checksum_matches key (json_get v ''plaintextCrc32c'')"
  shows "length bs = 32 \<and> json_get v ''plaintext'' = Some (JStr (base64_encode bs))
    \<and> (\<forall>p xs ys s. bs = p @ ys @ s \<and> key = p @ xs @ s \<and> length xs = length ys \<and> length xs \<le> 4 \<longrightarrow> bs = key)"
proof (intro conjI allI impI)
  note ok = assms(1) [unfolded decrypt_accepted]
  from ok show "length bs = 32" "json_get v ''plaintext'' = Some (JStr (base64_encode bs))" by blast+
  fix p xs ys s assume w: "bs = p @ ys @ s \<and> key = p @ xs @ s \<and> length xs = length ys \<and> length xs \<le> 4"
  from ok assms(2) have "crc32c bs = crc32c key" using checksum_same by blast
  then have "foldl crc_step 0xffffffff bs = foldl crc_step 0xffffffff key" unfolding crc32c_def by (rule xor_cancel)
  then have "run_crc (run_crc (run_crc 0xffffffff p) ys) s = run_crc (run_crc (run_crc 0xffffffff p) xs) s"
    using w foldl_shift by simp
  then have "run_crc (run_crc 0xffffffff p) ys = run_crc (run_crc 0xffffffff p) xs" by (rule run_inj)
  then have "ys = xs" by (rule burst_detected) (use w in simp_all)
  with w show "bs = key" by simp
qed

definition zero_key :: "8 word list" where
  "zero_key = replicate 32 0"

theorem damaged_key_is_rejected_witness:
  "parse_kms_decrypt_response (JObj [(''plaintext'', JStr (base64_encode zero_key)), (''plaintextCrc32c'', JStr (crc_text zero_key))]) = Inr zero_key
    \<and> length zero_key = 32"
proof -
  let ?v = "JObj [(''plaintext'', JStr (base64_encode zero_key)), (''plaintextCrc32c'', JStr (crc_text zero_key))]"
  have "parse_kms_decrypt_response ?v = Inr zero_key"
    by (simp add: decrypt_accepted checksum_text) (simp add: zero_key_def)
  moreover from damaged_key_is_rejected [OF this, of zero_key] have "length zero_key = 32" by (simp add: checksum_text)
  ultimately show ?thesis by blast
qed



definition sample_kms :: kms_configuration where
  "sample_kms = \<lparr>kc_key_name = ''projects/p/locations/l/keyRings/r/cryptoKeys/k'', kc_audience = ''a'', kc_account = ''s''\<rparr>"

text \<open>A service that wraps every key as one zero byte and answers a decryption with the zero key.\<close>

definition sample_service :: kms_service where
  "sample_service q = Some (200, Some (JObj
     (if kr_url q = ''https://cloudkms.googleapis.com/v1/'' @ kc_key_name sample_kms @ '':decrypt''
      then [(''plaintext'', JStr (base64_encode zero_key)), (''plaintextCrc32c'', JStr (crc_text zero_key))]
      else [(''name'', JStr (kc_key_name sample_kms @ ''/cryptoKeyVersions/1'')), (''ciphertext'', JStr (base64_encode [0])),
        (''verifiedPlaintextCrc32c'', JBool True), (''verifiedAdditionalAuthenticatedDataCrc32c'', JBool True),
        (''ciphertextCrc32c'', JStr (crc_text [0]))])))"

lemma sample_uuid: "snapshot_uuid ''01234567-89ab-4def-8123-456789abcdef''"
  by code_simp


end
