(* ===== verification/Envelopes.thy ===== *)
theory Envelopes
  imports Base64
begin

text \<open>
  Secrets at rest: the envelope around AES-256-GCM (\<open>workspace-cloud/lib/secret-envelope-core.ts\<close>), the fingerprint of the deployment
  key (\<open>provider-credential-envelope.ts\<close>) and the record each secret is bound to (\<open>secret-envelope.ts\<close>). The cipher, the digest,
  fresh nonces and the text of a JSON value are arguments. \<open>None\<close> is a thrown error.
\<close>

section \<open>Envelopes\<close>

text \<open>Encryption gives a ciphertext and a tag; decryption of both under a nonce and a context gives the text or fails.\<close>

record gcm =
  gcm_seal :: "8 word list \<Rightarrow> 8 word list \<Rightarrow> string \<Rightarrow> string \<Rightarrow> 8 word list \<times> 8 word list"
  gcm_open :: "8 word list \<Rightarrow> 8 word list \<Rightarrow> 8 word list \<Rightarrow> 8 word list \<Rightarrow> string \<Rightarrow> string option"

definition url_char :: "char \<Rightarrow> bool" where
  "url_char c \<longleftrightarrow> is_alnum c \<or> c = CHR ''_'' \<or> c = CHR ''-''"

definition decode_envelope_key :: "string \<Rightarrow> 8 word list option" where
  "decode_envelope_key s =
     (if length s \<noteq> 43 \<or> \<not> (\<forall>c\<in>set s. url_char c) then None
      else let bs = base64_decode s in if length bs \<noteq> 32 \<or> base64url_encode bs \<noteq> s then None else Some bs)"

definition seal_envelope :: "gcm \<Rightarrow> 8 word list \<Rightarrow> 8 word list \<Rightarrow> string \<Rightarrow> string \<Rightarrow> string option" where
  "seal_envelope g nonce key plaintext context =
     (if length key \<noteq> 32 then None
      else case gcm_seal g key nonce plaintext context of
        (ciphertext, tag) \<Rightarrow>
          Some (js_join ''.'' [''v1'', base64url_encode nonce, base64url_encode ciphertext, base64url_encode tag]))"

definition open_envelope :: "gcm \<Rightarrow> 8 word list \<Rightarrow> string \<Rightarrow> string \<Rightarrow> string option" where
  "open_envelope g key envelope context =
     (if length key \<noteq> 32 then None
      else case js_split CHR ''.'' envelope of
        [v, n, c, t] \<Rightarrow>
          let nonce = base64_decode n; ciphertext = base64_decode c; tag = base64_decode t
          in if v \<noteq> ''v1'' \<or> length nonce \<noteq> 12 \<or> length tag \<noteq> 16 \<or> base64url_encode nonce \<noteq> n
               \<or> base64url_encode ciphertext \<noteq> c \<or> base64url_encode tag \<noteq> t then None
             else gcm_open g key nonce ciphertext tag context
      | _ \<Rightarrow> None)"

section \<open>The fingerprint of the key\<close>

definition key_digest_prefix :: string where
  "key_digest_prefix = ''dopedb:provider-credential-key:v2:''"

text \<open>\<open>dg\<close> is the hexadecimal digest of bytes.\<close>

definition provider_credential_key_id :: "(8 word list \<Rightarrow> string) \<Rightarrow> 8 word list \<Rightarrow> string option" where
  "provider_credential_key_id dg key = (if length key \<noteq> 32 then None else Some (dg (utf8_bytes key_digest_prefix @ key)))"

definition seal_provider_envelope ::
  "gcm \<Rightarrow> (8 word list \<Rightarrow> string) \<Rightarrow> 8 word list \<Rightarrow> 8 word list \<Rightarrow> string \<Rightarrow> string \<Rightarrow> string option" where
  "seal_provider_envelope g dg nonce key plaintext context =
     (case provider_credential_key_id dg key of
        None \<Rightarrow> None
      | Some i \<Rightarrow> map_option (\<lambda>e. ''v2.'' @ i @ ''.'' @ e) (seal_envelope g nonce key plaintext (context @ '':key:'' @ i)))"

definition open_provider_envelope :: "gcm \<Rightarrow> (8 word list \<Rightarrow> string) \<Rightarrow> 8 word list \<Rightarrow> string \<Rightarrow> string \<Rightarrow> string option" where
  "open_provider_envelope g dg key envelope context =
     (if starts_with ''v1.'' envelope then open_envelope g key envelope context
      else case provider_credential_key_id dg key of
        None \<Rightarrow> None
      | Some i \<Rightarrow>
          let p = ''v2.'' @ i @ ''.''
          in if \<not> starts_with p envelope then None
             else open_envelope g key (drop (length p) envelope) (context @ '':key:'' @ i))"

section \<open>The records of secrets\<close>

datatype secret_kind = ProviderCredential | ProviderSetupCredential | ProviderBootstrapTicket | NeonBootstrapPlan

fun secret_prefix :: "secret_kind \<Rightarrow> string" where
  "secret_prefix ProviderCredential = ''dopedb:provider-integration:''"
| "secret_prefix ProviderSetupCredential = ''dopedb:provider-setup:''"
| "secret_prefix ProviderBootstrapTicket = ''dopedb:provider-bootstrap:''"
| "secret_prefix NeonBootstrapPlan = ''dopedb:neon-bootstrap-plan:''"

definition secret_context :: "secret_kind \<Rightarrow> string \<Rightarrow> string" where
  "secret_context kind i = secret_prefix kind @ i"

text \<open>What the secrets of a deployment rest on: its encoded key, the cipher, the digest and the text of JSON values.\<close>

record 'j secrets =
  sx_key :: string
  sx_gcm :: gcm
  sx_digest :: "8 word list \<Rightarrow> string"
  sx_stringify :: "'j \<Rightarrow> string"
  sx_parse :: "string \<Rightarrow> 'j option"

definition seal_secret :: "'j secrets \<Rightarrow> 8 word list \<Rightarrow> secret_kind \<Rightarrow> string \<Rightarrow> 'j \<Rightarrow> string option" where
  "seal_secret x nonce kind i v =
     (case decode_envelope_key (sx_key x) of
        None \<Rightarrow> None
      | Some key \<Rightarrow> seal_provider_envelope (sx_gcm x) (sx_digest x) nonce key (sx_stringify x v) (secret_context kind i))"

definition open_secret :: "'j secrets \<Rightarrow> secret_kind \<Rightarrow> string \<Rightarrow> string \<Rightarrow> 'j option" where
  "open_secret x kind i envelope =
     (case decode_envelope_key (sx_key x) of
        None \<Rightarrow> None
      | Some key \<Rightarrow> Option.bind (open_provider_envelope (sx_gcm x) (sx_digest x) key envelope (secret_context kind i)) (sx_parse x))"

section \<open>What the cipher promises\<close>

text \<open>
  Authenticated encryption: a sealed text opens under its own context, the tag has sixteen bytes, and what opens was sealed with the
  same key, nonce and context.
\<close>

definition gcm_ok :: "gcm \<Rightarrow> bool" where
  "gcm_ok g \<longleftrightarrow>
     (\<forall>k n p a. gcm_open g k n (fst (gcm_seal g k n p a)) (snd (gcm_seal g k n p a)) a = Some p
        \<and> length (snd (gcm_seal g k n p a)) = 16)
     \<and> (\<forall>k n c t a b p. gcm_seal g k n p a = (c, t) \<and> gcm_open g k n c t b \<noteq> None \<longrightarrow> a = b)"

lemma sealed_parts:
  assumes "seal_envelope g nonce key p a = Some e"
  obtains c t where "length key = 32" "gcm_seal g key nonce p a = (c, t)"
    "js_split CHR ''.'' e = [''v1'', base64url_encode nonce, base64url_encode c, base64url_encode t]" "starts_with ''v1.'' e"
proof -
  from assms obtain c t where ct: "length key = 32" "gcm_seal g key nonce p a = (c, t)"
    "e = js_join ''.'' [''v1'', base64url_encode nonce, base64url_encode c, base64url_encode t]"
    by (auto simp: seal_envelope_def split: if_splits prod.splits)
  moreover have "js_split CHR ''.'' e = [''v1'', base64url_encode nonce, base64url_encode c, base64url_encode t]"
    unfolding ct(3) using base64url_no_dot by (simp add: js_split_append js_split_plain)
  ultimately show thesis using that by simp
qed

lemma envelope_opens:
  assumes "gcm_ok g" "length nonce = 12" "seal_envelope g nonce key p a = Some e"
  shows "open_envelope g key e b = (if b = a then Some p else None)"
proof -
  from sealed_parts [OF assms(3)] obtain c t where s: "length key = 32" "gcm_seal g key nonce p a = (c, t)"
    "js_split CHR ''.'' e = [''v1'', base64url_encode nonce, base64url_encode c, base64url_encode t]" by metis
  from assms(1) have "gcm_open g key nonce (fst (gcm_seal g key nonce p a)) (snd (gcm_seal g key nonce p a)) a = Some p"
    "length (snd (gcm_seal g key nonce p a)) = 16" unfolding gcm_ok_def by blast+
  then have own: "gcm_open g key nonce c t a = Some p" "length t = 16" by (simp_all add: s(2))
  have other: "gcm_open g key nonce c t b = None" if "b \<noteq> a"
    using assms(1) s(2) that unfolding gcm_ok_def by metis
  show ?thesis
    using own other by (simp add: open_envelope_def s(1,3) assms(2) Let_def)
qed

lemma secret_context_inject: "secret_context k i = secret_context k' i' \<longleftrightarrow> k = k' \<and> i = i'"
  by (cases k; cases k'; simp add: secret_context_def)

lemma provider_envelope_opens:
  assumes "gcm_ok g" "length nonce = 12" "seal_provider_envelope g dg nonce key p a = Some e"
    and "\<And>k k'. length k = 32 \<Longrightarrow> length k' = 32 \<Longrightarrow> dg (utf8_bytes key_digest_prefix @ k) = dg (utf8_bytes key_digest_prefix @ k') \<Longrightarrow> k = k'"
    and "\<And>k. length (dg (utf8_bytes key_digest_prefix @ k)) = 64"
  shows "open_provider_envelope g dg key' e b = (if key' = key \<and> b = a then Some p else None)"
proof -
  define i where "i = dg (utf8_bytes key_digest_prefix @ key)"
  from assms(3) obtain inner where key: "length key = 32" and inner: "seal_envelope g nonce key p (a @ '':key:'' @ i) = Some inner"
    and e: "e = ''v2.'' @ i @ ''.'' @ inner"
    by (auto simp: seal_provider_envelope_def provider_credential_key_id_def i_def split: option.splits if_splits)
  show ?thesis
  proof (cases "length key' = 32")
    case True
    define j where "j = dg (utf8_bytes key_digest_prefix @ key')"
    have "starts_with (''v2.'' @ j @ ''.'') e \<longleftrightarrow> key' = key"
    proof
      assume "starts_with (''v2.'' @ j @ ''.'') e"
      then obtain t where "j @ ''.'' @ t = i @ ''.'' @ inner" by (auto simp: starts_with_iff e)
      moreover have "length j = length i" by (simp add: i_def j_def assms(5))
      ultimately have "j = i" by simp
      then show "key' = key" using assms(4) [OF True key] by (simp add: i_def j_def)
    qed (simp add: e i_def j_def starts_with_iff)
    moreover have "open_envelope g key inner (b @ '':key:'' @ i) = (if b = a then Some p else None)"
      using envelope_opens [OF assms(1,2) inner, of "b @ '':key:'' @ i"] by simp
    ultimately show ?thesis
      using True by (auto simp: open_provider_envelope_def provider_credential_key_id_def j_def [symmetric] i_def [symmetric] Let_def)
        (auto simp: e i_def j_def)
  next
    case False
    with key have "key' \<noteq> key" by blast
    moreover have "\<not> starts_with ''v1.'' e" by (simp add: e)
    ultimately show ?thesis using False by (simp add: open_provider_envelope_def provider_credential_key_id_def)
  qed
qed


text \<open>
  C39. A secret opens only where it belongs: what was sealed for one record opens, with the deployment key it was sealed with, to the
  value that was sealed, and fails for every other record, for every other kind of secret with the same identifier, and under every
  other deployment key.
\<close>

theorem secrets_open_only_in_their_record:
  assumes "gcm_ok (sx_gcm x)" "length nonce = 12" "seal_secret x nonce kind i v = Some e" "sx_parse x (sx_stringify x v) = Some v"
    and "\<And>k k'. length k = 32 \<Longrightarrow> length k' = 32
      \<Longrightarrow> sx_digest x (utf8_bytes key_digest_prefix @ k) = sx_digest x (utf8_bytes key_digest_prefix @ k') \<Longrightarrow> k = k'"
    and "\<And>k. length (sx_digest x (utf8_bytes key_digest_prefix @ k)) = 64"
  shows "open_secret (x\<lparr>sx_key := key'\<rparr>) kind' i' e = (if key' = sx_key x \<and> kind' = kind \<and> i' = i then Some v else None)"
proof -
  from assms(3) obtain key where key: "decode_envelope_key (sx_key x) = Some key"
    and e: "seal_provider_envelope (sx_gcm x) (sx_digest x) nonce key (sx_stringify x v) (secret_context kind i) = Some e"
    by (auto simp: seal_secret_def split: option.splits)
  have opens: "open_provider_envelope (sx_gcm x) (sx_digest x) k e b
      = (if k = key \<and> b = secret_context kind i then Some (sx_stringify x v) else None)" for k b
    by (rule provider_envelope_opens [OF assms(1,2) e]) (use assms(5,6) in blast)+
  show ?thesis
  proof (cases "decode_envelope_key key'")
    case None
    with key have "key' \<noteq> sx_key x" by auto
    with None show ?thesis by (simp add: open_secret_def)
  next
    case (Some other)
    with key have same: "other = key \<longleftrightarrow> key' = sx_key x"
      by (auto simp: decode_envelope_key_def Let_def split: if_splits)
    have "open_secret (x\<lparr>sx_key := key'\<rparr>) kind' i' e = Option.bind (open_provider_envelope (sx_gcm x) (sx_digest x) other e (secret_context kind' i')) (sx_parse x)"
      by (simp add: open_secret_def Some)
    then show ?thesis unfolding opens secret_context_inject same using assms(4) by simp
  qed
qed

text \<open>A cipher that writes the text and its context out, and a digest that spells the key.\<close>

fun spelled :: "string \<Rightarrow> string \<Rightarrow> 8 word list" where
  "spelled (c # cs) a = 1 # of_nat (of_char c) # spelled cs a"
| "spelled [] a = 0 # map (\<lambda>c. of_nat (of_char c)) a"

fun read_spelled :: "8 word list \<Rightarrow> (string \<times> string) option" where
  "read_spelled (m # bs) =
     (if m = 0 then Some ([], map (\<lambda>b. char_of (unat b)) bs)
      else (case bs of [] \<Rightarrow> None | b # rest \<Rightarrow> map_option (\<lambda>(cs, a). (char_of (unat b) # cs, a)) (read_spelled rest)))"
| "read_spelled [] = None"

lemma char_byte: "char_of (unat (of_nat (of_char c) :: 8 word)) = c"
proof -
  have "(of_char c :: nat) < 256" using of_char_mod_256 [of c, where 'a = nat] by (metis mod_less_divisor zero_less_numeral)
  then show ?thesis by (simp add: unat_of_nat)
qed

lemma read_back: "read_spelled (spelled p a) = Some (p, a)"
  by (induction p a rule: spelled.induct) (simp_all add: char_byte comp_def)

definition plain_gcm :: gcm where
  "plain_gcm = \<lparr>gcm_seal = (\<lambda>_ _ p a. (spelled p a, replicate 16 0)),
     gcm_open = (\<lambda>_ _ c t a. case read_spelled c of Some (p, b) \<Rightarrow> if a = b then Some p else None | None \<Rightarrow> None)\<rparr>"

lemma plain_gcm_ok: "gcm_ok plain_gcm"
  by (auto simp: gcm_ok_def plain_gcm_def read_back split: if_splits)

fun nibbles :: "8 word list \<Rightarrow> string" where
  "nibbles (b # bs) = char_of (unat b div 16) # char_of (unat b mod 16) # nibbles bs"
| "nibbles [] = []"

lemma length_nibbles: "length (nibbles bs) = 2 * length bs"
  by (induction bs rule: nibbles.induct) simp_all

lemma nibbles_inject: "length bs = length cs \<Longrightarrow> nibbles bs = nibbles cs \<Longrightarrow> bs = cs"
proof (induction bs cs rule: list_induct2)
  case (Cons b bs c cs)
  have small: "unat w div 16 < 256" "unat w mod 16 < 256" for w :: "8 word"
    using byte_bound [of w] div_le_dividend [of "unat w" 16] mod_less_eq_dividend [of "unat w" 16] by linarith+
  have "(char_of n :: char) = char_of m \<longleftrightarrow> n = m" if "n < 256" "m < 256" for n m :: nat
    using that by (metis mod_less of_char_of)
  with Cons.prems small have "unat b div 16 = unat c div 16" "unat b mod 16 = unat c mod 16" by auto
  then have "unat b = unat c" by (metis div_mult_mod_eq)
  then have "b = c" by (rule unsigned_word_eqI)
  with Cons show ?case by simp
qed simp

definition sample_digest_of_key :: "8 word list \<Rightarrow> string" where
  "sample_digest_of_key bs = (let k = drop (length (utf8_bytes key_digest_prefix)) bs in nibbles (take 32 (k @ replicate 32 0)))"

definition sample_secrets :: "string secrets" where
  "sample_secrets = \<lparr>sx_key = base64url_encode (replicate 32 0), sx_gcm = plain_gcm, sx_digest = sample_digest_of_key,
     sx_stringify = id, sx_parse = Some\<rparr>"

lemma url_chars: "\<forall>c\<in>set (base64url_encode bs). url_char c"
proof
  fix c assume "c \<in> set (base64url_encode bs)"
  then obtain n where "n < 64" "c = base64url_alphabet ! n" using sextets_bound by (auto simp: base64url_encode_def)
  moreover have "length base64url_alphabet = 64" by code_simp
  ultimately have "c \<in> set base64url_alphabet" by simp
  moreover have "list_all url_char base64url_alphabet" by code_simp
  ultimately show "url_char c" unfolding list_all_iff by blast
qed

theorem secrets_open_only_in_their_record_witness:
  "\<exists>e. seal_secret sample_secrets (replicate 12 0) ProviderCredential ''i'' ''secret'' = Some e
    \<and> open_secret sample_secrets ProviderCredential ''i'' e = Some ''secret''
    \<and> open_secret sample_secrets ProviderSetupCredential ''i'' e = None"
proof -
  have "length (base64url_encode (replicate 32 0)) = 43" by (simp add: base64url_encode_def length_sextets)
  moreover have "\<forall>c\<in>set (base64url_encode (replicate 32 0)). url_char c" by (rule url_chars)
  ultimately have "decode_envelope_key (base64url_encode (replicate 32 0)) = Some (replicate 32 0)"
    by (simp add: decode_envelope_key_def)
  then obtain e where e: "seal_secret sample_secrets (replicate 12 0) ProviderCredential ''i'' ''secret'' = Some e"
    by (simp add: seal_secret_def sample_secrets_def seal_provider_envelope_def provider_credential_key_id_def seal_envelope_def plain_gcm_def)
  have inj: "k = k'" if "length k = 32" "length k' = 32"
    "sample_digest_of_key (utf8_bytes key_digest_prefix @ k) = sample_digest_of_key (utf8_bytes key_digest_prefix @ k')" for k k'
    using that nibbles_inject [of k k'] by (simp add: sample_digest_of_key_def)
  have len: "length (sample_digest_of_key (utf8_bytes key_digest_prefix @ k)) = 64" for k
    by (simp add: sample_digest_of_key_def length_nibbles)
  have s: "sx_gcm sample_secrets = plain_gcm" "sx_digest sample_secrets = sample_digest_of_key"
    "sx_parse sample_secrets (sx_stringify sample_secrets ''secret'') = Some ''secret''" by (simp_all add: sample_secrets_def)
  have "open_secret (sample_secrets\<lparr>sx_key := sx_key sample_secrets\<rparr>) k ''i'' e
      = (if sx_key sample_secrets = sx_key sample_secrets \<and> k = ProviderCredential \<and> ''i'' = ''i'' then Some ''secret'' else None)" for k
    by (rule secrets_open_only_in_their_record [OF _ _ e s(3)]) (use plain_gcm_ok inj len in \<open>simp_all add: s\<close>)
  then show ?thesis using e by auto
qed

end
