(* ===== verification/KeyRotation.thy ===== *)
theory KeyRotation
  imports KmsCodec BackupRoundTrip
begin

text \<open>
  The data keys of a workspace (\<open>workspace-cloud/lib/workspace-data-key.ts\<close>), the sealing of backups with them
  (\<open>workspace-backup.ts\<close>) and their rotation (\<open>workspace-data-key-rotation.ts\<close>). Keys are wrapped by the service of \<open>KmsCodec\<close>.
  Fresh identifiers, fresh keys and the clock \<open>clk\<close> of the database are arguments. A failure is an error of the key service or any
  other thrown error.
\<close>

datatype failure = Kms kms_error | Thrown

abbreviation kms_failure :: "kms_kind \<Rightarrow> nat \<Rightarrow> failure" where
  "kms_failure kind n \<equiv> Kms (WorkspaceKmsError kind n)"

section \<open>Rows of keys and rotations\<close>

definition data_key_check :: "data_key \<Rightarrow> bool" where
  "data_key_check k \<longleftrightarrow>
     1 \<le> dk_version k \<and> dk_version k \<le> 2147483647 \<and> 20 \<le> length (dk_reference k) \<and> length (dk_reference k) \<le> 512
     \<and> crypto_key_version (dk_kms_version k)
     \<and> (case dk_wrapped k of
          Some w \<Rightarrow> 1 \<le> length w \<and> length w \<le> 8192 \<and> base64_shape w \<and> dk_destroyed k = None
        | None \<Rightarrow> dk_destroyed k \<noteq> None \<and> dk_retired k \<noteq> None)"

definition insert_data_key :: "data_key \<Rightarrow> versions_db \<Rightarrow> versions_db option" where
  "insert_data_key k db =
     (if data_key_check k
         \<and> (\<forall>d\<in>set (vd_keys db). dk_id d \<noteq> dk_id k \<and> \<not> (dk_org d = dk_org k \<and> dk_version d = dk_version k)
              \<and> \<not> (dk_org d = dk_org k \<and> dk_retired d = None \<and> dk_retired k = None))
      then Some (db\<lparr>vd_keys := vd_keys db @ [k]\<rparr>) else None)"

definition update_keys :: "(data_key \<Rightarrow> bool) \<Rightarrow> (data_key \<Rightarrow> data_key) \<Rightarrow> versions_db \<Rightarrow> versions_db option" where
  "update_keys P f db =
     (if \<forall>k\<in>set (vd_keys db). P k \<longrightarrow> data_key_check (f k)
      then Some (db\<lparr>vd_keys := map (\<lambda>k. if P k then f k else k) (vd_keys db)\<rparr>) else None)"

definition insert_rotation :: "rotation_entry \<Rightarrow> versions_db \<Rightarrow> versions_db option" where
  "insert_rotation r db =
     (if (\<forall>s\<in>set (vd_rotations db). ro_id s \<noteq> ro_id r \<and> \<not> (ro_org s = ro_org r \<and> ro_key s = ro_key r)
            \<and> \<not> (ro_org s = ro_org r \<and> ro_running s \<and> ro_running r))
         \<and> has_key (ro_org r) (Some (ro_from r)) db \<and> has_key (ro_org r) (Some (ro_to r)) db
      then Some (db\<lparr>vd_rotations := vd_rotations db @ [r]\<rparr>) else None)"

definition update_rotations :: "(rotation_entry \<Rightarrow> bool) \<Rightarrow> (rotation_entry \<Rightarrow> rotation_entry) \<Rightarrow> versions_db \<Rightarrow> versions_db" where
  "update_rotations P f db = db\<lparr>vd_rotations := map (\<lambda>r. if P r then f r else r) (vd_rotations db)\<rparr>"

definition set_key_reference :: "string \<Rightarrow> string \<Rightarrow> versions_db \<Rightarrow> versions_db" where
  "set_key_reference org key db =
     db\<lparr>vd_workspaces := map (\<lambda>w. if we_id w = org then w\<lparr>we_key_ref := Some (''workspace-data-key:'' @ key)\<rparr> else w) (vd_workspaces db)\<rparr>"

text \<open>The row checks and the trigger \<open>workspace_metadata_backup_payload_immutable\<close> on an update of a backup.\<close>

definition reencryption_allowed :: "int \<Rightarrow> backup_entry \<Rightarrow> backup_entry \<Rightarrow> versions_db \<Rightarrow> bool" where
  "reencryption_allowed clk old new db \<longleftrightarrow>
     bk_id new = bk_id old \<and> bk_org new = bk_org old \<and> bk_source_revision new = bk_source_revision old \<and> bk_hash new = bk_hash old
     \<and> bk_user new = bk_user old \<and> bk_created new = bk_created old \<and> bk_deleted new = bk_deleted old
     \<and> bk_key_reference new = workspace_data_key_reference
     \<and> (\<exists>r\<in>set (vd_rotations db). \<exists>k\<in>set (vd_keys db).
          (\<exists>t. bk_reencrypted new = Some (t, ro_id r)) \<and> bk_data_key new = Some (ro_to r) \<and> ro_org r = bk_org new \<and> ro_running r
          \<and> (\<exists>c e. ro_claim r = Some (c, e) \<and> clk < e) \<and> dk_org k = ro_org r \<and> dk_id k = ro_to r
          \<and> bk_key_version new = ''v'' @ nat_str (dk_version k))"

definition update_backup :: "int \<Rightarrow> string \<Rightarrow> (backup_entry \<Rightarrow> backup_entry) \<Rightarrow> versions_db \<Rightarrow> versions_db option" where
  "update_backup clk i f db =
     (if \<forall>b\<in>set (vd_backups db). bk_id b = i \<longrightarrow> backup_check (f b) \<and> reencryption_allowed clk b (f b) db
      then Some (db\<lparr>vd_backups := map (\<lambda>b. if bk_id b = i then f b else b) (vd_backups db)\<rparr>) else None)"

section \<open>Sessions and active keys\<close>

record kms_session =
  ks_service :: kms_service
  ks_config :: kms_configuration
  ks_token :: string

definition create_workspace_kms_session ::
  "kms_service \<Rightarrow> Prelude.json option \<Rightarrow> Prelude.json option \<Rightarrow> Prelude.json option \<Rightarrow> string option \<Rightarrow> kms_error + kms_session" where
  "create_workspace_kms_session svc key_name audience account oidc =
     (case parse_workspace_kms_configuration key_name audience account of
        Inl e \<Rightarrow> Inl e
      | Inr cf \<Rightarrow>
          (case workspace_kms_oidc_token oidc of
             Inl e \<Rightarrow> Inl e
           | Inr token \<Rightarrow> map_sum id (\<lambda>access. \<lparr>ks_service = svc, ks_config = cf, ks_token = access\<rparr>) (workspace_kms_access_token svc cf token)))"

definition wrap_key :: "kms_session \<Rightarrow> string \<Rightarrow> string \<Rightarrow> nat \<Rightarrow> 8 word list \<Rightarrow> failure + string \<times> string" where
  "wrap_key s org i version key = map_sum Kms id (wrap_workspace_data_key (ks_service s) (ks_config s) (ks_token s) org i version key)"

definition assert_usable_data_key :: "data_key \<Rightarrow> kms_configuration \<Rightarrow> failure + data_key" where
  "assert_usable_data_key k cf =
     (if dk_reference k \<noteq> kc_key_name cf \<or> \<not> starts_with (kc_key_name cf @ ''/cryptoKeyVersions/'') (dk_kms_version k)
         \<or> dk_wrapped k = None \<or> dk_wrapped k = Some [] \<or> dk_destroyed k \<noteq> None
      then Inl (kms_failure KmsIntegrity 409) else Inr k)"

definition unwrap_stored_workspace_data_key :: "kms_session \<Rightarrow> data_key \<Rightarrow> failure + 8 word list" where
  "unwrap_stored_workspace_data_key s k =
     (case assert_usable_data_key k (ks_config s) of
        Inl e \<Rightarrow> Inl e
      | Inr u \<Rightarrow> map_sum Kms id (unwrap_workspace_data_key (ks_service s) (ks_config s) (ks_token s) (dk_org u) (dk_id u) (dk_version u)
          (case dk_wrapped u of Some w \<Rightarrow> w | None \<Rightarrow> [])))"

definition active_keys :: "string \<Rightarrow> versions_db \<Rightarrow> data_key list" where
  "active_keys org db = filter (\<lambda>k. dk_org k = org \<and> dk_retired k = None \<and> dk_destroyed k = None) (vd_keys db)"

definition newest_key :: "data_key list \<Rightarrow> data_key option" where
  "newest_key ks = first_row (sort_key (\<lambda>k. - int (dk_version k)) ks)"

definition active_workspace_data_key :: "string \<Rightarrow> versions_db \<Rightarrow> failure + data_key option" where
  "active_workspace_data_key org db =
     (if \<not> snapshot_uuid org then Inl (kms_failure KmsIntegrity 409) else Inr (newest_key (active_keys org db)))"

definition maximum_version :: "string \<Rightarrow> versions_db \<Rightarrow> nat option" where
  "maximum_version org db =
     (let vs = map dk_version (filter (\<lambda>k. dk_org k = org) (vd_keys db)) in if vs = [] then None else Some (Max (set vs)))"

definition workspace_data_key_by_id :: "string \<Rightarrow> string \<Rightarrow> versions_db \<Rightarrow> failure + data_key option" where
  "workspace_data_key_by_id org i db =
     (if \<not> snapshot_uuid org \<or> \<not> snapshot_uuid i then Inl (kms_failure KmsIntegrity 409)
      else Inr (find (\<lambda>k. dk_org k = org \<and> dk_id k = i) (vd_keys db)))"

text \<open>\<open>returnedDataKey\<close>; of its checks only those of the shape of identifiers can fail on a stored row.\<close>

definition returned_data_key :: "data_key \<Rightarrow> data_key option" where
  "returned_data_key k =
     (if snapshot_uuid (dk_id k) \<and> snapshot_uuid (dk_org k) \<and> 1 \<le> dk_version k \<and> dk_version k \<le> max_safe then Some k else None)"

definition ensure_scope :: "string \<Rightarrow> string \<Rightarrow> nat \<Rightarrow> versions_db \<Rightarrow> (string \<times> bool) list" where
  "ensure_scope org i version db =
     (let existing = active_keys org db
      in if existing \<noteq> []
            \<or> (\<exists>w\<in>set (vd_workspaces db). we_id w = org \<and> we_lifecycle w = ''active'')
              \<and> version = (case maximum_version org db of None \<Rightarrow> 1 | Some m \<Rightarrow> m + 1)
         then [(case first_row existing of Some k \<Rightarrow> dk_id k | None \<Rightarrow> i, existing = [])] else [])"

definition new_data_key :: "kms_session \<Rightarrow> string \<Rightarrow> string \<Rightarrow> string \<Rightarrow> nat \<Rightarrow> string \<times> string \<Rightarrow> data_key" where
  "new_data_key s org user i version wrapped =
     \<lparr>dk_id = i, dk_org = org, dk_version = version, dk_reference = kc_key_name (ks_config s), dk_kms_version = fst wrapped,
      dk_wrapped = Some (snd wrapped), dk_user = user, dk_retired = None, dk_destroyed = None\<rparr>"

definition ensure_statements :: "data_key \<Rightarrow> (string \<times> bool, versions_db, data_key) statement list" where
  "ensure_statements k =
     [scoped (\<lambda>p db. if snd p then map_option (\<lambda>d. (d, [])) (insert_data_key k db) else Some (db, [])),
      guarded (\<lambda>p db. if snd p then set_key_reference (dk_org k) (dk_id k) db else db),
      scoped (\<lambda>p db. Some (db, filter (\<lambda>d. dk_id d = fst p) (vd_keys db)))]"

definition ensure_batch :: "data_key \<Rightarrow> versions_db \<Rightarrow> (failure + data_key option) \<times> versions_db" where
  "ensure_batch k db =
     (case atomic_d1 (ensure_scope (dk_org k) (dk_id k) (dk_version k)) (ensure_statements k) db of
        Inl _ \<Rightarrow> (Inl Thrown, db)
      | Inr ((_, rows), db') \<Rightarrow> (Inr (Option.bind (first_row (rows ! 2)) returned_data_key), db'))"

text \<open>One attempt per fresh identifier and key.\<close>

fun ensure_attempts ::
  "kms_session \<Rightarrow> string \<Rightarrow> string \<Rightarrow> (string \<times> 8 word list) list \<Rightarrow> versions_db \<Rightarrow> (failure + data_key) \<times> versions_db" where
  "ensure_attempts s org user [] db = (Inl (kms_failure KmsUnavailable 503), db)"
| "ensure_attempts s org user ((i, key) # rest) db =
     (case active_workspace_data_key org db of
        Inl e \<Rightarrow> (Inl e, db)
      | Inr (Some k) \<Rightarrow> (assert_usable_data_key k (ks_config s), db)
      | Inr None \<Rightarrow>
          let version = (case maximum_version org db of None \<Rightarrow> 0 | Some m \<Rightarrow> m) + 1
          in if version > 2147483647 then (Inl (kms_failure KmsIntegrity 409), db)
             else case wrap_key s org i version key of
               Inl e \<Rightarrow> (Inl e, db)
             | Inr wrapped \<Rightarrow>
                 (case ensure_batch (new_data_key s org user i version wrapped) db of
                    (Inl e, db') \<Rightarrow> (Inl e, db')
                  | (Inr (Some k), db') \<Rightarrow> (assert_usable_data_key k (ks_config s), db')
                  | (Inr None, db') \<Rightarrow> ensure_attempts s org user rest db'))"

definition ensure_active_workspace_data_key ::
  "kms_session \<Rightarrow> string \<Rightarrow> string \<Rightarrow> (string \<times> 8 word list) list \<Rightarrow> versions_db \<Rightarrow> (failure + data_key) \<times> versions_db" where
  "ensure_active_workspace_data_key s org user fresh db =
     (if \<not> snapshot_uuid org then (Inl (kms_failure KmsIntegrity 409), db) else ensure_attempts s org user (take 3 fresh) db)"

section \<open>Sealed backups\<close>

record sealed_backup =
  sb_data_key :: string
  sb_reference :: string
  sb_version :: string
  sb_ciphertext :: string

definition seal_workspace_metadata_backup ::
  "kms_session \<Rightarrow> (8 word list) cipher \<Rightarrow> hasher \<Rightarrow> string \<Rightarrow> string \<Rightarrow> (string \<times> 8 word list) list \<Rightarrow> string \<Rightarrow> workspace_snapshot
     \<Rightarrow> versions_db \<Rightarrow> (failure + sealed_backup) \<times> versions_db" where
  "seal_workspace_metadata_backup s ci h org user fresh backup snapshot db =
     (case ensure_active_workspace_data_key s org user fresh db of
        (Inl e, db') \<Rightarrow> (Inl e, db')
      | (Inr k, db') \<Rightarrow>
          (case unwrap_stored_workspace_data_key s k of
             Inl e \<Rightarrow> (Inl e, db')
           | Inr key \<Rightarrow>
               (case workspace_data_key_version (dk_version k) of
                  None \<Rightarrow> (Inl Thrown, db')
                | Some version \<Rightarrow> (Inr \<lparr>sb_data_key = dk_id k, sb_reference = workspace_data_key_reference, sb_version = version,
                    sb_ciphertext = seal_workspace_snapshot ci h key (dk_org k) backup snapshot\<rparr>, db'))))"

definition open_workspace_metadata_backup_with_kms ::
  "kms_session \<Rightarrow> (8 word list) cipher \<Rightarrow> (string \<Rightarrow> string) \<Rightarrow> string \<Rightarrow> string \<Rightarrow> string \<Rightarrow> string option \<Rightarrow> string \<Rightarrow> string
     \<Rightarrow> versions_db \<Rightarrow> failure + workspace_snapshot" where
  "open_workspace_metadata_backup_with_kms s ci dg org backup ciphertext data_key reference version db =
     (case data_key of
        None \<Rightarrow> Inl (kms_failure KmsIntegrity 409)
      | Some i \<Rightarrow>
          if i = [] \<or> reference \<noteq> workspace_data_key_reference \<or> \<not> key_version_shape version then Inl (kms_failure KmsIntegrity 409)
          else case workspace_data_key_by_id org i db of
            Inl e \<Rightarrow> Inl e
          | Inr None \<Rightarrow> Inl (kms_failure KmsIntegrity 409)
          | Inr (Some k) \<Rightarrow>
              (case workspace_data_key_version (dk_version k) of
                 None \<Rightarrow> Inl Thrown
               | Some v \<Rightarrow>
                   if v \<noteq> version then Inl (kms_failure KmsIntegrity 409)
                   else case read_backup_envelope dg org backup ciphertext db of
                     None \<Rightarrow> Inl Thrown
                   | Some envelope \<Rightarrow>
                       (case unwrap_stored_workspace_data_key s k of
                          Inl e \<Rightarrow> Inl e
                        | Inr key \<Rightarrow>
                            (case open_workspace_snapshot ci key org backup envelope of None \<Rightarrow> Inl Thrown | Some snap \<Rightarrow> Inr snap))))"


section \<open>Starting and claiming a rotation\<close>

definition owner_actor :: "mutation_actor \<Rightarrow> mutation_actor" where
  "owner_actor a = a\<lparr>mu_role := ''owner''\<rparr>"

definition owner_authority :: "int \<Rightarrow> string \<Rightarrow> mutation_actor \<Rightarrow> versions_db \<Rightarrow> bool" where
  "owner_authority clk org a db = connection_authority clk org (owner_actor a) None OwnerRole db"

definition claim_expiry :: "int \<Rightarrow> int" where
  "claim_expiry clk = clk + 70000"

definition running_rotation :: "string \<Rightarrow> versions_db \<Rightarrow> rotation_entry option" where
  "running_rotation org db =
     first_row (sort_key (\<lambda>r. - ro_created r) (filter (\<lambda>r. ro_org r = org \<and> ro_running r) (vd_rotations db)))"

definition claimable :: "int \<Rightarrow> string \<Rightarrow> mutation_actor \<Rightarrow> versions_db \<Rightarrow> rotation_entry \<Rightarrow> bool" where
  "claimable clk org a db r \<longleftrightarrow>
     ro_org r = org \<and> ro_running r \<and> (case ro_claim r of None \<Rightarrow> True | Some (_, e) \<Rightarrow> e \<le> clk) \<and> owner_authority clk org a db"

definition claim_running_rotation ::
  "int \<Rightarrow> string \<Rightarrow> mutation_actor \<Rightarrow> string \<Rightarrow> versions_db \<Rightarrow> (string \<times> string) option \<times> versions_db" where
  "claim_running_rotation clk org a claim db =
     (let db' = update_rotations (claimable clk org a db) (\<lambda>r. r\<lparr>ro_claim := Some (claim, claim_expiry clk)\<rparr>) db
      in (case first_row (filter (claimable clk org a db) (vd_rotations db)) of
            None \<Rightarrow> None | Some r \<Rightarrow> if snapshot_uuid (ro_id r) then Some (ro_id r, claim) else None,
          db'))"

record start_request =
  sr_org :: string
  sr_actor :: mutation_actor
  sr_key :: string
  sr_from :: string
  sr_from_version :: nat
  sr_to :: data_key
  sr_rotation :: string
  sr_claim :: string

definition start_scope :: "int \<Rightarrow> start_request \<Rightarrow> versions_db \<Rightarrow> unit list" where
  "start_scope clk q db =
     [(). k \<leftarrow> vd_keys db,
        dk_id k = sr_from q \<and> dk_org k = sr_org q \<and> dk_version k = sr_from_version q \<and> dk_retired k = None \<and> dk_destroyed k = None
        \<and> owner_authority clk (sr_org q) (sr_actor q) db
        \<and> \<not> (\<exists>r\<in>set (vd_rotations db). ro_org r = sr_org q \<and> ro_running r)
        \<and> \<not> (\<exists>r\<in>set (vd_rotations db). ro_org r = sr_org q \<and> ro_key r = sr_key q)
        \<and> Some (dk_version (sr_to q)) = map_option Suc (maximum_version (sr_org q) db)]"

definition started_rotation :: "int \<Rightarrow> start_request \<Rightarrow> rotation_entry" where
  "started_rotation clk q =
     \<lparr>ro_id = sr_rotation q, ro_org = sr_org q, ro_from = sr_from q, ro_to = dk_id (sr_to q), ro_key = sr_key q, ro_running = True,
      ro_processed = 0, ro_claim = Some (sr_claim q, claim_expiry clk), ro_user = mu_user (sr_actor q), ro_created = clk,
      ro_completed = None\<rparr>"

definition start_statements :: "int \<Rightarrow> start_request \<Rightarrow> (unit, versions_db, unit) statement list" where
  "start_statements clk q =
     [scoped (\<lambda>_ db. map_option (\<lambda>d. (d, [])) (update_keys (\<lambda>k. dk_id k = sr_from q) (\<lambda>k. k\<lparr>dk_retired := Some clk\<rparr>) db)),
      scoped (\<lambda>_ db. map_option (\<lambda>d. (d, [])) (insert_data_key (sr_to q) db)),
      scoped (\<lambda>_ db. map_option (\<lambda>d. (d, [])) (insert_rotation (started_rotation clk q) db)),
      guarded (\<lambda>_. set_key_reference (sr_org q) (dk_id (sr_to q))),
      guarded (\<lambda>_. add_audit \<lparr>ae_org = sr_org q, ae_actor = mu_user (sr_actor q), ae_action = ''workspace.data_key.rotation.start'',
        ae_type = ''workspace_data_key_rotation'', ae_resource = sr_rotation q,
        ae_summary = [(''fromVersion'', JNum (int (sr_from_version q))), (''toVersion'', JNum (int (dk_version (sr_to q))))]\<rparr>)]"

definition start_batch :: "int \<Rightarrow> start_request \<Rightarrow> versions_db \<Rightarrow> (failure + (string \<times> string) option) \<times> versions_db" where
  "start_batch clk q db =
     (case atomic_d1 (start_scope clk q) (start_statements clk q) db of
        Inl _ \<Rightarrow> (Inl Thrown, db)
      | Inr ((matched, _), db') \<Rightarrow> (Inr (if matched then Some (sr_rotation q, sr_claim q) else None), db'))"

text \<open>What one attempt draws: identifiers of the key, the rotation and the claim, a key, and the keys of \<open>ensureActive\<close>.\<close>

record fresh_attempt =
  fa_key :: string
  fa_rotation :: string
  fa_claim :: string
  fa_plain :: "8 word list"
  fa_ensure :: "(string \<times> 8 word list) list"

definition rotation_request ::
  "kms_session \<Rightarrow> string \<Rightarrow> mutation_actor \<Rightarrow> string \<Rightarrow> data_key \<Rightarrow> string \<Rightarrow> string \<Rightarrow> string \<Rightarrow> nat \<Rightarrow> string \<times> string \<Rightarrow> start_request" where
  "rotation_request s org a key active i rotation claim version wrapped =
     \<lparr>sr_org = org, sr_actor = a, sr_key = key, sr_from = dk_id active, sr_from_version = dk_version active,
      sr_to = new_data_key s org (mu_user a) i version wrapped, sr_rotation = rotation, sr_claim = claim\<rparr>"

definition start_rotation ::
  "int \<Rightarrow> kms_session \<Rightarrow> string \<Rightarrow> mutation_actor \<Rightarrow> string \<Rightarrow> fresh_attempt \<Rightarrow> versions_db
     \<Rightarrow> (failure + (string \<times> string) option) \<times> versions_db" where
  "start_rotation clk s org a key f db =
     (case ensure_active_workspace_data_key s org (mu_user a) (fa_ensure f) db of
        (Inl e, db1) \<Rightarrow> (Inl e, db1)
      | (Inr active, db1) \<Rightarrow>
          let version = (case maximum_version org db1 of None \<Rightarrow> dk_version active | Some m \<Rightarrow> m) + 1
          in if version < 2 \<or> version > 2147483647 then (Inl (kms_failure KmsIntegrity 409), db1)
             else case wrap_key s org (fa_key f) version (fa_plain f) of
               Inl e \<Rightarrow> (Inl e, db1)
             | Inr wrapped \<Rightarrow>
                 start_batch clk (rotation_request s org a key active (fa_key f) (fa_rotation f) (fa_claim f) version wrapped) db1)"

record begin_result =
  br_claim :: "(string \<times> string) option"
  br_busy :: bool
  br_replayed :: bool

fun begin_attempts ::
  "int \<Rightarrow> kms_session \<Rightarrow> string \<Rightarrow> mutation_actor \<Rightarrow> string \<Rightarrow> string \<Rightarrow> fresh_attempt list \<Rightarrow> versions_db
     \<Rightarrow> (failure + begin_result) \<times> versions_db" where
  "begin_attempts clk s org a key last_claim [] db =
     (case claim_running_rotation clk org a last_claim db of
        (claim, db') \<Rightarrow> (Inr \<lparr>br_claim = claim, br_busy = True, br_replayed = False\<rparr>, db'))"
| "begin_attempts clk s org a key last_claim (f # fs) db =
     (if \<exists>r. find (\<lambda>r. ro_org r = org \<and> ro_key r = key) (vd_rotations db) = Some r \<and> \<not> ro_running r
      then (Inr \<lparr>br_claim = None, br_busy = False, br_replayed = True\<rparr>, db)
      else if running_rotation org db \<noteq> None
      then (case claim_running_rotation clk org a (fa_claim f) db of
              (claim, db') \<Rightarrow> (Inr \<lparr>br_claim = claim, br_busy = True, br_replayed = False\<rparr>, db'))
      else case start_rotation clk s org a key f db of
        (Inl e, db') \<Rightarrow> (Inl e, db')
      | (Inr (Some claim), db') \<Rightarrow> (Inr \<lparr>br_claim = Some claim, br_busy = False, br_replayed = False\<rparr>, db')
      | (Inr None, db') \<Rightarrow> begin_attempts clk s org a key last_claim fs db')"

definition begin_or_claim_workspace_data_key_rotation ::
  "int \<Rightarrow> kms_session \<Rightarrow> string \<Rightarrow> mutation_actor \<Rightarrow> string \<Rightarrow> string \<Rightarrow> fresh_attempt list \<Rightarrow> versions_db
     \<Rightarrow> (failure + begin_result) \<times> versions_db" where
  "begin_or_claim_workspace_data_key_rotation clk s org a key last_claim fs db =
     (if \<not> snapshot_uuid org \<or> \<not> snapshot_uuid key then (Inl (kms_failure KmsIntegrity 409), db)
      else begin_attempts clk s org a key last_claim (take 3 fs) db)"

section \<open>Advancing a rotation\<close>

definition release_rotation_claim :: "string \<Rightarrow> string \<Rightarrow> string \<Rightarrow> versions_db \<Rightarrow> versions_db" where
  "release_rotation_claim org rotation claim db =
     update_rotations (\<lambda>r. ro_id r = rotation \<and> ro_org r = org \<and> (\<exists>e. ro_claim r = Some (claim, e)) \<and> ro_running r)
       (\<lambda>r. r\<lparr>ro_claim := None\<rparr>) db"

definition claim_live :: "int \<Rightarrow> string \<Rightarrow> string \<Rightarrow> string \<Rightarrow> rotation_entry \<Rightarrow> bool" where
  "claim_live clk org rotation claim r \<longleftrightarrow>
     ro_id r = rotation \<and> ro_org r = org \<and> ro_running r \<and> (\<exists>e. ro_claim r = Some (claim, e) \<and> clk < e)"

record finish_scope_row =
  fs_from :: string
  fs_remaining :: nat

definition finish_scope :: "int \<Rightarrow> string \<Rightarrow> string \<Rightarrow> string \<Rightarrow> mutation_actor \<Rightarrow> versions_db \<Rightarrow> finish_scope_row list" where
  "finish_scope clk org rotation claim a db =
     [\<lparr>fs_from = ro_from r, fs_remaining = length (filter (\<lambda>b. bk_org b = org \<and> bk_data_key b \<noteq> Some (ro_to r)) (vd_backups db))\<rparr>.
        r \<leftarrow> vd_rotations db, claim_live clk org rotation claim r \<and> owner_authority clk org a db]"

record finish_row =
  fr_running :: bool
  fr_processed :: nat
  fr_remaining :: nat

definition finish_statements ::
  "int \<Rightarrow> string \<Rightarrow> string \<Rightarrow> mutation_actor \<Rightarrow> nat \<Rightarrow> (finish_scope_row, versions_db, finish_row) statement list" where
  "finish_statements clk org rotation a processed =
     [guarded (\<lambda>p. update_rotations (\<lambda>r. ro_id r = rotation)
        (\<lambda>r. r\<lparr>ro_processed := ro_processed r + processed, ro_running := (fs_remaining p \<noteq> 0), ro_claim := None,
               ro_completed := (if fs_remaining p = 0 then Some clk else None)\<rparr>)),
      scoped (\<lambda>p db. map_option (\<lambda>d. (d, [])) (update_keys
        (\<lambda>k. dk_org k = org \<and> fs_remaining p = 0 \<and> dk_id k = fs_from p
           \<and> \<not> (\<exists>b\<in>set (vd_backups db). bk_org b = org \<and> bk_data_key b = Some (dk_id k)))
        (\<lambda>k. k\<lparr>dk_wrapped := None, dk_destroyed := Some clk\<rparr>) db)),
      guarded (\<lambda>p db. if fs_remaining p = 0
        then fold (\<lambda>r. add_audit \<lparr>ae_org = org, ae_actor = mu_user a, ae_action = ''workspace.data_key.rotation.complete'',
               ae_type = ''workspace_data_key_rotation'', ae_resource = rotation,
               ae_summary = [(''processedBackups'', JNum (int (ro_processed r)))]\<rparr>)
             (filter (\<lambda>r. ro_id r = rotation) (vd_rotations db)) db
        else db),
      scoped (\<lambda>p db. Some (db, map (\<lambda>r. \<lparr>fr_running = ro_running r, fr_processed = ro_processed r, fr_remaining = fs_remaining p\<rparr>)
        (filter (\<lambda>r. ro_id r = rotation) (vd_rotations db))))]"

definition finish_rotation_batch ::
  "int \<Rightarrow> string \<Rightarrow> string \<Rightarrow> string \<Rightarrow> nat \<Rightarrow> mutation_actor \<Rightarrow> versions_db \<Rightarrow> (failure + finish_row) \<times> versions_db" where
  "finish_rotation_batch clk org rotation claim processed a db =
     (case atomic_d1 (finish_scope clk org rotation claim a) (finish_statements clk org rotation a processed) db of
        Inl _ \<Rightarrow> (Inl Thrown, db)
      | Inr ((_, rows), db') \<Rightarrow>
          ((case first_row (rows ! 3) of None \<Rightarrow> Inl (kms_failure KmsUnavailable 503) | Some r \<Rightarrow> Inr r), db'))"

record reencrypt_request =
  xr_org :: string
  xr_actor :: mutation_actor
  xr_rotation :: string
  xr_claim :: string
  xr_target :: string
  xr_target_version :: nat
  xr_backup :: backup_entry
  xr_ciphertext :: string

definition reencrypt_scope :: "int \<Rightarrow> reencrypt_request \<Rightarrow> versions_db \<Rightarrow> unit list" where
  "reencrypt_scope clk q db =
     [(). b \<leftarrow> vd_backups db,
        bk_id b = bk_id (xr_backup q) \<and> bk_org b = xr_org q \<and> bk_data_key b = bk_data_key (xr_backup q)
        \<and> bk_key_reference b = bk_key_reference (xr_backup q) \<and> bk_key_version b = bk_key_version (xr_backup q)
        \<and> bk_ciphertext b = bk_ciphertext (xr_backup q) \<and> bk_hash b = bk_hash (xr_backup q)
        \<and> owner_authority clk (xr_org q) (xr_actor q) db
        \<and> (\<exists>r\<in>set (vd_rotations db). claim_live clk (xr_org q) (xr_rotation q) (xr_claim q) r)]"

definition reencrypted :: "int \<Rightarrow> reencrypt_request \<Rightarrow> string \<Rightarrow> string \<Rightarrow> backup_entry \<Rightarrow> backup_entry" where
  "reencrypted clk q version text b =
     b\<lparr>bk_data_key := Some (xr_target q), bk_key_reference := workspace_data_key_reference, bk_key_version := version,
       bk_ciphertext := text, bk_reencrypted := Some (clk, xr_rotation q)\<rparr>"

definition reencrypt_statements :: "int \<Rightarrow> reencrypt_request \<Rightarrow> string \<Rightarrow> string \<times> string list \<Rightarrow> (unit, versions_db, unit) statement list" where
  "reencrypt_statements clk q version storage =
     scoped (\<lambda>_ db. map_option (\<lambda>d. (d, [])) (update_backup clk (bk_id (xr_backup q)) (reencrypted clk q version (fst storage)) db))
     # chunk_statements (xr_org q) (bk_id (xr_backup q)) storage"

text \<open>The batch of one backup; its envelope and the version of the target are computed before it.\<close>

definition reencrypt_batch :: "int \<Rightarrow> (string \<Rightarrow> string) \<Rightarrow> reencrypt_request \<Rightarrow> versions_db \<Rightarrow> (failure + bool) \<times> versions_db" where
  "reencrypt_batch clk dg q db =
     (case (backup_envelope_storage dg (xr_ciphertext q), workspace_data_key_version (xr_target_version q)) of
        (Some storage, Some version) \<Rightarrow>
          (case atomic_d1 (reencrypt_scope clk q) (reencrypt_statements clk q version storage) db of
             Inl _ \<Rightarrow> (Inl Thrown, db)
           | Inr ((matched, _), db') \<Rightarrow> (Inr matched, db'))
      | _ \<Rightarrow> (Inl Thrown, db))"

text \<open>What advancing a rotation rests on besides the session: the cipher, the hashes and the clocks.\<close>

record rotation_env =
  re_clock :: int
  re_now :: int
  re_session :: kms_session
  re_cipher :: "(8 word list) cipher"
  re_hasher :: hasher
  re_digest :: "string \<Rightarrow> string"

definition open_stored_backup :: "rotation_env \<Rightarrow> string \<Rightarrow> backup_entry \<Rightarrow> versions_db \<Rightarrow> failure + workspace_snapshot" where
  "open_stored_backup x org b db =
     open_workspace_metadata_backup_with_kms (re_session x) (re_cipher x) (re_digest x) org (bk_id b) (bk_ciphertext b)
       (bk_data_key b) (bk_key_reference b) (bk_key_version b) db"

definition reencrypt_backup ::
  "rotation_env \<Rightarrow> string \<Rightarrow> mutation_actor \<Rightarrow> string \<times> string \<Rightarrow> data_key \<Rightarrow> 8 word list \<Rightarrow> backup_entry \<Rightarrow> versions_db
     \<Rightarrow> (failure + bool) \<times> versions_db" where
  "reencrypt_backup x org a claim target key b db =
     (case open_stored_backup x org b db of
        Inl e \<Rightarrow> (Inl e, db)
      | Inr snap \<Rightarrow>
          if ss_revision snap \<noteq> bk_source_revision b \<or> snapshot_hash (re_hasher x) snap \<noteq> bk_hash b
          then (Inl (kms_failure KmsIntegrity 409), db)
          else reencrypt_batch (re_clock x) (re_digest x)
            \<lparr>xr_org = org, xr_actor = a, xr_rotation = fst claim, xr_claim = snd claim, xr_target = dk_id target,
             xr_target_version = dk_version target, xr_backup = b,
             xr_ciphertext = seal_workspace_snapshot (re_cipher x) (re_hasher x) key (dk_org target) (bk_id b) snap\<rparr> db)"

fun reencrypt_all ::
  "rotation_env \<Rightarrow> string \<Rightarrow> mutation_actor \<Rightarrow> string \<times> string \<Rightarrow> data_key \<Rightarrow> 8 word list \<Rightarrow> backup_entry list \<Rightarrow> nat \<Rightarrow> versions_db
     \<Rightarrow> (failure + nat) \<times> versions_db" where
  "reencrypt_all x org a claim target key [] n db = (Inr n, db)"
| "reencrypt_all x org a claim target key (b # bs) n db =
     (case reencrypt_backup x org a claim target key b db of
        (Inl e, db') \<Rightarrow> (Inl e, db')
      | (Inr matched, db') \<Rightarrow> reencrypt_all x org a claim target key bs (if matched then n + 1 else n) db')"

definition rotation_batch_limit :: nat where
  "rotation_batch_limit = 8"

definition pending_backups :: "string \<Rightarrow> string \<Rightarrow> versions_db \<Rightarrow> backup_entry list" where
  "pending_backups org target db =
     take rotation_batch_limit (sort_key (\<lambda>b. (bk_created b, bk_id b))
       (filter (\<lambda>b. bk_org b = org \<and> bk_data_key b \<noteq> Some target) (vd_backups db)))"

definition advance_claimed ::
  "rotation_env \<Rightarrow> string \<Rightarrow> mutation_actor \<Rightarrow> string \<times> string \<Rightarrow> data_key \<Rightarrow> versions_db \<Rightarrow> (failure + finish_row) \<times> versions_db" where
  "advance_claimed x org a claim target db =
     (case unwrap_stored_workspace_data_key (re_session x) target of
        Inl e \<Rightarrow> (Inl e, db)
      | Inr key \<Rightarrow>
          (case reencrypt_all x org a claim target key (pending_backups org (dk_id target) db) 0 db of
             (Inl e, db') \<Rightarrow> (Inl e, db')
           | (Inr n, db') \<Rightarrow> finish_rotation_batch (re_clock x) org (fst claim) (snd claim) n a db'))"

definition advance_workspace_data_key_rotation ::
  "rotation_env \<Rightarrow> string \<Rightarrow> mutation_actor \<Rightarrow> string \<times> string \<Rightarrow> versions_db \<Rightarrow> (failure + finish_row) \<times> versions_db" where
  "advance_workspace_data_key_rotation x org a claim db =
     (case find (\<lambda>r. ro_id r = fst claim \<and> ro_org r = org \<and> ro_running r \<and> (\<exists>e. ro_claim r = Some (snd claim, e))) (vd_rotations db) of
        None \<Rightarrow> (Inl (kms_failure KmsUnavailable 409), db)
      | Some r \<Rightarrow>
          if (case ro_claim r of Some (_, e) \<Rightarrow> e \<le> re_now x | None \<Rightarrow> True) then (Inl (kms_failure KmsUnavailable 409), db)
          else case workspace_data_key_by_id org (ro_to r) db of
            Inl e \<Rightarrow> (Inl e, db)
          | Inr None \<Rightarrow> (Inl (kms_failure KmsIntegrity 409), db)
          | Inr (Some target) \<Rightarrow>
              if dk_retired target \<noteq> None \<or> dk_destroyed target \<noteq> None then (Inl (kms_failure KmsIntegrity 409), db)
              else (case advance_claimed x org a claim target db of
                 (Inl e, db') \<Rightarrow> (Inl e, release_rotation_claim org (fst claim) (snd claim) db')
               | (Inr res, db') \<Rightarrow> (Inr res, db')))"

section \<open>Status\<close>

record rotation_status =
  rs_id :: string
  rs_running :: bool
  rs_from_version :: "nat option"
  rs_to_version :: nat
  rs_processed :: nat
  rs_remaining :: nat

definition workspace_data_key_rotation_status ::
  "string \<Rightarrow> versions_db \<Rightarrow> failure + (nat option \<times> nat \<times> rotation_status option)" where
  "workspace_data_key_rotation_status org db =
     (let active = newest_key (active_keys org db);
          backups = length (filter (\<lambda>b. bk_org b = org) (vd_backups db))
      in case first_row (sort_key (\<lambda>r. - ro_created r) (filter (\<lambda>r. ro_org r = org) (vd_rotations db))) of
        None \<Rightarrow> Inr (map_option dk_version active, backups, None)
      | Some r \<Rightarrow>
          (case (workspace_data_key_by_id org (ro_from r) db, workspace_data_key_by_id org (ro_to r) db) of
             (Inr from_key, Inr to_key) \<Rightarrow>
               Inr (map_option dk_version active, backups,
                 map_option (\<lambda>k. \<lparr>rs_id = ro_id r, rs_running = ro_running r, rs_from_version = map_option dk_version from_key,
                   rs_to_version = dk_version k, rs_processed = ro_processed r,
                   rs_remaining = (if ro_running r
                     then length (filter (\<lambda>b. bk_org b = org \<and> bk_data_key b \<noteq> Some (ro_to r)) (vd_backups db)) else 0)\<rparr>) to_key)
           | (Inl e, _) \<Rightarrow> Inl e
           | (_, Inl e) \<Rightarrow> Inl e))"

end
