(* ===== verification/KeySafety.thy ===== *)
theory KeySafety
  imports KeyRotation
begin

text \<open>
  What the data keys promise: over every interleaving of the batches of \<open>KeyRotation\<close>, of the batches that store, delete and purge
  backups and of a purge of a workspace, no backup is left without the key that seals it.
\<close>

section \<open>What each batch does to keys, rotations and backups\<close>

abbreviation same_vault :: "versions_db \<Rightarrow> versions_db \<Rightarrow> bool" where
  "same_vault db db' \<equiv> vd_keys db' = vd_keys db \<and> vd_rotations db' = vd_rotations db \<and> vd_backups db' = vd_backups db"

lemma atomic_effect:
  assumes "atomic_d1 scope ss db = Inr ((m, rows), db')" "\<forall>s\<in>set ss. \<forall>db. s None db = Some (db, [])"
  obtains "db' = db" | p where "p \<in> set (scope db)" "run_statements (Some p) ss db = Some (db', rows)"
  using atomic_cases [OF assms] by (metis list.set_intros(1))

lemma insert_key_effect:
  "insert_data_key k db = Some db' \<longleftrightarrow> db' = db\<lparr>vd_keys := vd_keys db @ [k]\<rparr> \<and> data_key_check k
     \<and> (\<forall>d\<in>set (vd_keys db). dk_id d \<noteq> dk_id k \<and> \<not> (dk_org d = dk_org k \<and> dk_version d = dk_version k)
          \<and> \<not> (dk_org d = dk_org k \<and> dk_retired d = None \<and> dk_retired k = None))"
  by (auto simp: insert_data_key_def)

lemma update_keys_effect:
  "update_keys P f db = Some db' \<longleftrightarrow> db' = db\<lparr>vd_keys := map (\<lambda>k. if P k then f k else k) (vd_keys db)\<rparr>
     \<and> (\<forall>k\<in>set (vd_keys db). P k \<longrightarrow> data_key_check (f k))"
  by (auto simp: update_keys_def)

lemma insert_rotation_effect:
  "insert_rotation r db = Some db' \<Longrightarrow> db' = db\<lparr>vd_rotations := vd_rotations db @ [r]\<rparr>
     \<and> (\<forall>s\<in>set (vd_rotations db). ro_id s \<noteq> ro_id r \<and> \<not> (ro_org s = ro_org r \<and> ro_running s \<and> ro_running r))"
  by (auto simp: insert_rotation_def split: if_splits)

lemma key_reference_effect [simp]: "same_vault db (set_key_reference org key db)"
  by (simp add: set_key_reference_def)

lemma key_audit_effect [simp]: "same_vault db (add_audit a db)"
  by (simp add: add_audit_def)

lemma ensure_effect:
  assumes "db' = snd (ensure_batch k db)"
  shows "vd_rotations db' = vd_rotations db \<and> vd_backups db' = vd_backups db
    \<and> (vd_keys db' = vd_keys db \<or> vd_keys db' = vd_keys db @ [k] \<and> (\<exists>d. insert_data_key k db = Some d))"
proof (cases "atomic_d1 (ensure_scope (dk_org k) (dk_id k) (dk_version k)) (ensure_statements k) db")
  case (Inl u)
  with assms show ?thesis by (simp add: ensure_batch_def)
next
  case (Inr x)
  obtain m rows d where x: "x = ((m, rows), d)" by (metis surj_pair)
  have "db' = d" using assms Inr x by (simp add: ensure_batch_def)
  moreover have "\<forall>s\<in>set (ensure_statements k). \<forall>db. s None db = Some (db, [])" by (simp add: ensure_statements_def)
  ultimately show ?thesis
    by (rule_tac atomic_effect [OF Inr [unfolded x]])
      (auto simp: ensure_statements_def insert_key_effect set_key_reference_def split: if_splits option.splits)
qed

lemma start_effect:
  assumes "db' = snd (start_batch clk q db)"
  obtains "same_vault db db'"
  | d where "\<exists>k\<in>set (vd_keys db). dk_id k = sr_from q \<and> dk_org k = sr_org q \<and> dk_retired k = None \<and> dk_destroyed k = None"
      "\<not> (\<exists>r\<in>set (vd_rotations db). ro_org r = sr_org q \<and> ro_running r)"
      "update_keys (\<lambda>k. dk_id k = sr_from q) (\<lambda>k. k\<lparr>dk_retired := Some clk\<rparr>) db = Some d"
      "\<exists>d'. insert_data_key (sr_to q) d = Some d'" "\<forall>s\<in>set (vd_rotations db). ro_id s \<noteq> sr_rotation q"
      "vd_keys db' = vd_keys d @ [sr_to q]" "vd_rotations db' = vd_rotations db @ [started_rotation clk q]" "vd_backups db' = vd_backups db"
proof (cases "atomic_d1 (start_scope clk q) (start_statements clk q) db")
  case (Inl u)
  with assms that(1) show ?thesis by (simp add: start_batch_def)
next
  case (Inr x)
  obtain m rows d where x: "x = ((m, rows), d)" by (metis surj_pair)
  have d: "db' = d" using assms Inr x by (simp add: start_batch_def)
  have none: "\<forall>s\<in>set (start_statements clk q). \<forall>db. s None db = Some (db, [])" by (simp add: start_statements_def)
  show ?thesis
  proof (rule atomic_effect [OF Inr [unfolded x] none])
    assume "d = db"
    with d that(1) show ?thesis by simp
  next
    fix p assume p: "p \<in> set (start_scope clk q db)" "run_statements (Some p) (start_statements clk q) db = Some (d, rows)"
    from p(2) obtain d1 d2 d3 where run: "update_keys (\<lambda>k. dk_id k = sr_from q) (\<lambda>k. k\<lparr>dk_retired := Some clk\<rparr>) db = Some d1"
        "insert_data_key (sr_to q) d1 = Some d2" "insert_rotation (started_rotation clk q) d2 = Some d3" "same_vault d3 d"
      by (auto simp: start_statements_def split: option.splits)
    note r3 = insert_rotation_effect [OF run(3)]
    from run(1,2) have d2: "d2 = d1\<lparr>vd_keys := vd_keys d1 @ [sr_to q]\<rparr>" "vd_rotations d1 = vd_rotations db" "vd_backups d1 = vd_backups db"
      by (auto simp: insert_key_effect update_keys_effect)
    from r3 d2 have fresh: "\<forall>s\<in>set (vd_rotations db). ro_id s \<noteq> sr_rotation q" by (auto simp: started_rotation_def)
    from p(1) have scope: "\<exists>k\<in>set (vd_keys db). dk_id k = sr_from q \<and> dk_org k = sr_org q \<and> dk_retired k = None \<and> dk_destroyed k = None"
        "\<not> (\<exists>r\<in>set (vd_rotations db). ro_org r = sr_org q \<and> ro_running r)"
      by (auto simp: start_scope_def split: if_splits)
    show ?thesis
      by (rule that(2) [OF scope run(1) _ fresh]) (use run(2,4) r3 d2 d in auto)
  qed
qed

definition destroy_key :: "int \<Rightarrow> data_key \<Rightarrow> data_key" where
  "destroy_key clk k = k\<lparr>dk_wrapped := None, dk_destroyed := Some clk\<rparr>"

definition may_destroy :: "rotation_entry \<Rightarrow> versions_db \<Rightarrow> data_key \<Rightarrow> bool" where
  "may_destroy r db k \<longleftrightarrow> dk_org k = ro_org r \<and> dk_id k = ro_from r
     \<and> \<not> (\<exists>b\<in>set (vd_backups db). bk_org b = ro_org r \<and> bk_data_key b = Some (dk_id k))"

lemma finish_effect:
  assumes "db' = snd (finish_rotation_batch clk org rotation claim n a db)"
  obtains "same_vault db db'"
  | r P f where "r \<in> set (vd_rotations db)" "ro_id r = rotation" "ro_running r"
      "\<And>s. ro_id (f s) = ro_id s \<and> ro_org (f s) = ro_org s \<and> ro_from (f s) = ro_from s \<and> ro_to (f s) = ro_to s"
      "vd_rotations db' = map (\<lambda>s. if ro_id s = rotation then f s else s) (vd_rotations db)" "vd_backups db' = vd_backups db"
      "\<And>k. P k \<Longrightarrow> may_destroy r db k" "\<forall>k\<in>set (vd_keys db). P k \<longrightarrow> data_key_check (destroy_key clk k)"
      "vd_keys db' = map (\<lambda>k. if P k then destroy_key clk k else k) (vd_keys db)"
proof (cases "atomic_d1 (finish_scope clk org rotation claim a) (finish_statements clk org rotation a n) db")
  case (Inl u)
  with assms that(1) show ?thesis by (simp add: finish_rotation_batch_def)
next
  case (Inr x)
  obtain m rows d where x: "x = ((m, rows), d)" by (metis surj_pair)
  have d: "db' = d" using assms Inr x by (simp add: finish_rotation_batch_def)
  have none: "\<forall>s\<in>set (finish_statements clk org rotation a n). \<forall>db. s None db = Some (db, [])" by (simp add: finish_statements_def)
  show ?thesis
  proof (rule atomic_effect [OF Inr [unfolded x] none])
    assume "d = db"
    with d that(1) show ?thesis by simp
  next
    fix p assume p: "p \<in> set (finish_scope clk org rotation claim a db)"
      "run_statements (Some p) (finish_statements clk org rotation a n) db = Some (d, rows)"
    from p(1) obtain r where r: "r \<in> set (vd_rotations db)" "ro_id r = rotation" "ro_running r" "ro_org r = org" "fs_from p = ro_from r"
      by (auto simp: finish_scope_def claim_live_def split: if_splits)
    let ?P = "\<lambda>k. dk_org k = org \<and> fs_remaining p = 0 \<and> dk_id k = fs_from p
        \<and> \<not> (\<exists>b\<in>set (vd_backups db). bk_org b = org \<and> bk_data_key b = Some (dk_id k))"
    let ?f = "\<lambda>r. r\<lparr>ro_processed := ro_processed r + n, ro_running := (fs_remaining p \<noteq> 0), ro_claim := None,
               ro_completed := (if fs_remaining p = 0 then Some clk else None)\<rparr>"
    let ?d = "update_rotations (\<lambda>r. ro_id r = rotation) ?f db"
    have fold: "same_vault d0 (fold (\<lambda>r. add_audit (h r)) rs d0)" for h rs d0
      by (induction rs arbitrary: d0) simp_all
    from p(2) obtain d1 where d1: "update_keys ?P (destroy_key clk) ?d = Some d1" "same_vault d1 d"
      by (auto simp: finish_statements_def update_rotations_def fold destroy_key_def [abs_def] split: option.splits if_splits)
    have keys: "?d = db\<lparr>vd_rotations := map (\<lambda>s. if ro_id s = rotation then ?f s else s) (vd_rotations db)\<rparr>"
      by (simp add: update_rotations_def)
    show ?thesis
    proof (rule that(2) [OF r(1-3), of ?f ?P])
      show "vd_rotations db' = map (\<lambda>s. if ro_id s = rotation then ?f s else s) (vd_rotations db)" "vd_backups db' = vd_backups db"
        "vd_keys db' = map (\<lambda>k. if ?P k then destroy_key clk k else k) (vd_keys db)"
        "\<forall>k\<in>set (vd_keys db). ?P k \<longrightarrow> data_key_check (destroy_key clk k)"
        using d1 d unfolding update_keys_effect keys by auto
      show "may_destroy r db k" if "?P k" for k using that r(4,5) by (auto simp: may_destroy_def)
    qed simp
  qed
qed

lemma chunk_effect:
  assumes "run_statements (Some p) (chunk_statements org backup storage @ ss) db = Some (db', rows)"
  obtains db1 rs where "run_statements (Some p) ss db1 = Some (db', rs)" "same_vault db db1"
proof -
  obtain mf ts where st: "storage = (mf, ts)" by force
  from assms obtain d0 where d0: "delete_stale_chunks org backup mf db = Some d0"
    and run: "\<exists>rs. run_statements (Some p) (map (\<lambda>(part, text). scoped (\<lambda>_ db. map_option (\<lambda>d. (d, []))
       (insert_chunk \<lparr>ck_org = org, ck_backup = backup, ck_manifest = mf, ck_part = part, ck_text = text\<rparr> db)))
     (enumerate 0 ts) @ ss) d0 = Some (db', rs)"
    by (auto simp: chunk_statements_def st split: option.splits)
  from d0 have "same_vault db d0" by (auto simp: delete_stale_chunks_def split: if_splits)
  moreover from run obtain rs where "run_statements (Some p) (map (\<lambda>(part, text). scoped (\<lambda>_ db. map_option (\<lambda>d. (d, []))
       (insert_chunk \<lparr>ck_org = org, ck_backup = backup, ck_manifest = mf, ck_part = part, ck_text = text\<rparr> db)))
     (enumerate 0 ts) @ ss) d0 = Some (db', rs)" by blast
  from run_chunks [OF this] obtain d1 rs1 where "run_statements (Some p) ss d1 = Some (db', rs1)"
    "d1 = d0\<lparr>vd_chunks := vd_chunks d0 @ chunk_rows org backup mf ts 0\<rparr>" by blast
  ultimately show thesis using that [of d1 rs1] by simp
qed

lemma reencrypt_effect:
  assumes "db' = snd (reencrypt_batch clk dg q db)"
  obtains "same_vault db db'"
  | version mf where "vd_keys db' = vd_keys db" "vd_rotations db' = vd_rotations db"
      "\<forall>b\<in>set (vd_backups db). bk_id b = bk_id (xr_backup q) \<longrightarrow> reencryption_allowed clk b (reencrypted clk q version mf b) db"
      "vd_backups db' = map (\<lambda>b. if bk_id b = bk_id (xr_backup q) then reencrypted clk q version mf b else b) (vd_backups db)"
proof (cases "\<exists>mf ts version. backup_envelope_storage dg (xr_ciphertext q) = Some (mf, ts) \<and> workspace_data_key_version (xr_target_version q) = Some version")
  case False
  then have "db' = db" using assms by (auto simp: reencrypt_batch_def split: option.splits)
  with that(1) show ?thesis by simp
next
  case True
  then obtain mf ts version where st: "backup_envelope_storage dg (xr_ciphertext q) = Some (mf, ts)"
    "workspace_data_key_version (xr_target_version q) = Some version" by blast
  let ?ss = "reencrypt_statements clk q version (mf, ts)"
  have none: "\<forall>s\<in>set ?ss. \<forall>db. s None db = Some (db, [])" by (auto simp: reencrypt_statements_def chunk_statements_def)
  show ?thesis
  proof (cases "atomic_d1 (reencrypt_scope clk q) ?ss db")
    case (Inl u)
    with st assms that(1) show ?thesis by (simp add: reencrypt_batch_def)
  next
    case (Inr x)
    obtain m rows d where x: "x = ((m, rows), d)" by (metis surj_pair)
    have d: "db' = d" using assms st Inr x by (simp add: reencrypt_batch_def)
    show ?thesis
    proof (rule atomic_effect [OF Inr [unfolded x] none])
      assume "d = db"
      with d that(1) show ?thesis by simp
    next
      fix p assume "run_statements (Some p) ?ss db = Some (d, rows)"
      then obtain d1 and rs :: "unit list list" where d1: "update_backup clk (bk_id (xr_backup q)) (reencrypted clk q version mf) db = Some d1"
          "run_statements (Some p) (chunk_statements (xr_org q) (bk_id (xr_backup q)) (mf, ts)) d1 = Some (d, rs)"
        by (auto simp: reencrypt_statements_def split: option.splits)
      from d1(2) have "run_statements (Some p) (chunk_statements (xr_org q) (bk_id (xr_backup q)) (mf, ts) @ []) d1 = Some (d, rs)" by simp
      then have "same_vault d1 d" by (rule chunk_effect) simp
      with d1(1) d show ?thesis
        by (intro that(2) [of version mf]) (auto simp: update_backup_def split: if_splits)
    qed
  qed
qed

lemma store_effect:
  assumes "db' = snd (insert_workspace_backup dg q db)"
  obtains "same_vault db db'"
  | mf where "vd_keys db' = vd_keys db" "vd_rotations db' = vd_rotations db" "key_active (bq_org q) (bq_data_key q) db"
      "vd_backups db' = vd_backups db @ [backup_row_of q mf]"
proof (cases "length (bq_connections q) > 1000 \<or> backup_envelope_storage dg (bq_ciphertext q) = None")
  case True
  then have "db' = db" using assms by (auto simp: insert_workspace_backup_def split: option.splits)
  with that(1) show ?thesis by simp
next
  case False
  then obtain mf ts where st: "backup_envelope_storage dg (bq_ciphertext q) = Some (mf, ts)" "\<not> length (bq_connections q) > 1000" by force
  let ?ss = "backup_statements q (mf, ts)"
  have none: "\<forall>s\<in>set ?ss. \<forall>db. s None db = Some (db, [])" by (auto simp: backup_statements_def chunk_statements_def)
  show ?thesis
  proof (cases "atomic_d1 (backup_scope q) ?ss db")
    case (Inl u)
    with st assms that(1) show ?thesis by (simp add: insert_workspace_backup_def)
  next
    case (Inr x)
    obtain m rows d where x: "x = ((m, rows), d)" by (metis surj_pair)
    have d: "db' = d" using assms st Inr x by (simp add: insert_workspace_backup_def split: option.splits)
    show ?thesis
    proof (rule atomic_effect [OF Inr [unfolded x] none])
      assume "d = db"
      with d that(1) show ?thesis by simp
    next
      fix p assume p: "p \<in> set (backup_scope q db)" "run_statements (Some p) ?ss db = Some (d, rows)"
      then have active: "key_active (bq_org q) (bq_data_key q) db" by (auto simp: backup_scope_def split: if_splits)
      from p(2) obtain d1 ss and rs :: "backup_entry list list" where d1: "insert_backup (backup_row_of q mf) db = Some d1"
          "run_statements (Some p) (chunk_statements (bq_org q) (bq_backup q) (mf, ts) @ [guarded (\<lambda>_. add_audit ss)]) d1 = Some (d, rs)"
        by (auto simp: backup_statements_def split: option.splits)
      from d1(2) have "same_vault d1 d" by (rule chunk_effect) auto
      with d1(1) d active show ?thesis
        by (intro that(2) [of mf]) (auto simp: insert_backup_def split: if_splits)
    qed
  qed
qed

lemma tombstone_effect:
  assumes "db' = snd (tombstone_workspace_backup clk days org backup a db)"
  shows "vd_keys db' = vd_keys db \<and> vd_rotations db' = vd_rotations db
    \<and> (\<forall>b\<in>set (vd_backups db'). \<exists>c\<in>set (vd_backups db). bk_org c = bk_org b \<and> bk_data_key c = bk_data_key b)"
proof (cases "atomic_d1 (tombstone_scope clk org backup a) (tombstone_statements clk days org backup a) db")
  case (Inl u)
  with assms have "db' = db" by (simp add: tombstone_workspace_backup_def)
  then show ?thesis by auto
next
  case (Inr x)
  obtain m rows d where x: "x = ((m, rows), d)" by (metis surj_pair)
  have d: "db' = d" using assms Inr x by (auto simp: tombstone_workspace_backup_def split: if_splits option.splits)
  have none: "\<forall>s\<in>set (tombstone_statements clk days org backup a). \<forall>db. s None db = Some (db, [])"
    by (auto simp: tombstone_statements_def)
  show ?thesis
  proof (rule atomic_effect [OF Inr [unfolded x] none])
    fix p assume run: "run_statements (Some p) (tombstone_statements clk days org backup a) db = Some (d, rows)"
    define f :: "backup_entry \<Rightarrow> backup_entry" where "f = (\<lambda>b. if bk_id b = backup \<and> bk_deleted b = None
      then b\<lparr>bk_deleted := Some clk, bk_purge := Some (clk + days * 86400000)\<rparr> else b)"
    have keep: "bk_org (f b) = bk_org b" "bk_data_key (f b) = bk_data_key b" for b by (simp_all add: f_def)
    from run have "same_vault (db\<lparr>vd_backups := map f (vd_backups db)\<rparr>) d"
      by (auto simp: tombstone_statements_def Let_def f_def simp del: set_map split: if_splits)
    with d keep show ?thesis by (auto simp: image_iff)
  qed (use d in auto)
qed

section \<open>The invariant\<close>

definition usable_key :: "string \<Rightarrow> string \<Rightarrow> versions_db \<Rightarrow> bool" where
  "usable_key org i db \<longleftrightarrow> (\<exists>k\<in>set (vd_keys db). dk_id k = i \<and> dk_org k = org \<and> dk_destroyed k = None)"

definition rotation_ok :: "versions_db \<Rightarrow> rotation_entry \<Rightarrow> bool" where
  "rotation_ok db r \<longleftrightarrow> (ro_running r \<longrightarrow> ro_from r \<noteq> ro_to r
     \<and> (\<exists>k\<in>set (vd_keys db). dk_id k = ro_to r \<and> dk_org k = ro_org r \<and> dk_retired k = None \<and> dk_destroyed k = None))"

definition backup_ok :: "versions_db \<Rightarrow> backup_entry \<Rightarrow> bool" where
  "backup_ok db b \<longleftrightarrow> (\<forall>i. bk_data_key b = Some i \<longrightarrow> usable_key (bk_org b) i db)"

definition vault_inv :: "versions_db \<Rightarrow> bool" where
  "vault_inv db \<longleftrightarrow>
     distinct (map dk_id (vd_keys db)) \<and> list_all data_key_check (vd_keys db) \<and> distinct (map ro_id (vd_rotations db))
     \<and> distinct (map ro_org (filter ro_running (vd_rotations db)))
     \<and> list_all (rotation_ok db) (vd_rotations db) \<and> list_all (backup_ok db) (vd_backups db)"

lemma same_vault_inv:
  assumes "vault_inv db" "same_vault db db'"
  shows "vault_inv db'"
proof -
  have "rotation_ok db' = rotation_ok db" "backup_ok db' = backup_ok db"
    using assms(2) by (intro ext, simp add: rotation_ok_def backup_ok_def usable_key_def)+
  with assms show ?thesis by (simp add: vault_inv_def)
qed

lemma list_all_weaken: "list_all P xs \<Longrightarrow> (\<And>x. x \<in> set xs \<Longrightarrow> P x \<Longrightarrow> Q x) \<Longrightarrow> list_all Q xs"
  by (simp add: list_all_iff)

text \<open>What refers to a key stays good when keys only gain rows.\<close>

lemma more_keys_ok:
  assumes "vd_keys db' = vd_keys db @ ks"
  shows "rotation_ok db r \<Longrightarrow> rotation_ok db' r" "backup_ok db b \<Longrightarrow> backup_ok db' b"
  using assms by (auto simp: rotation_ok_def backup_ok_def usable_key_def)

lemma ensure_keeps:
  assumes "vault_inv db"
  shows "vault_inv (snd (ensure_batch k db))"
proof -
  let ?db' = "snd (ensure_batch k db)"
  from ensure_effect [of ?db', OF refl] consider "same_vault db ?db'"
    | d where "vd_rotations ?db' = vd_rotations db" "vd_backups ?db' = vd_backups db" "vd_keys ?db' = vd_keys db @ [k]" "insert_data_key k db = Some d"
    by blast
  then show ?thesis
  proof cases
    case 1
    then show ?thesis using assms same_vault_inv by blast
  next
    case 2
    from 2(4) have "data_key_check k" "dk_id k \<notin> set (map dk_id (vd_keys db))" by (auto simp: insert_key_effect)
    moreover have "list_all (rotation_ok ?db') (vd_rotations db)" "list_all (backup_ok ?db') (vd_backups db)"
      using assms more_keys_ok [OF 2(3)] by (auto simp: vault_inv_def intro: list_all_weaken)
    ultimately show ?thesis using assms by (simp add: vault_inv_def 2(1-3))
  qed
qed

text \<open>Claiming, releasing and finishing change rotations that are already there.\<close>

lemma running_filtered:
  assumes "\<And>r. r \<in> set rs \<Longrightarrow> ro_org (f r) = ro_org r" "\<And>r. r \<in> set rs \<Longrightarrow> ro_running (f r) \<Longrightarrow> ro_running r"
    and "distinct (map ro_org (filter ro_running rs))"
  shows "distinct (map ro_org (filter ro_running (map f rs)))"
proof -
  have "filter ro_running (map f rs) = map f (filter (\<lambda>r. ro_running (f r)) (filter ro_running rs))"
    using assms(2) by (induction rs) auto
  moreover have "map ro_org (map f (filter (\<lambda>r. ro_running (f r)) (filter ro_running rs)))
      = map ro_org (filter (\<lambda>r. ro_running (f r)) (filter ro_running rs))"
    using assms(1) by simp
  ultimately show ?thesis using assms(3) by (simp only: distinct_map_filter)
qed

lemma rotation_change_keeps:
  assumes "vault_inv db" "vd_keys db' = vd_keys db" "vd_backups db' = vd_backups db" "vd_rotations db' = map f (vd_rotations db)"
    and "\<And>r. ro_id (f r) = ro_id r \<and> ro_org (f r) = ro_org r \<and> ro_from (f r) = ro_from r \<and> ro_to (f r) = ro_to r"
    and "\<And>r. r \<in> set (vd_rotations db) \<Longrightarrow> ro_running (f r) \<Longrightarrow> ro_running r"
  shows "vault_inv db'"
proof -
  have ids: "map ro_id (vd_rotations db') = map ro_id (vd_rotations db)" using assms(4,5) by simp
  have ok: "rotation_ok db r \<Longrightarrow> rotation_ok db' (f r)" if "r \<in> set (vd_rotations db)" for r
    using assms(2) assms(5) [of r] assms(6) [OF that] by (simp add: rotation_ok_def)
  have "list_all (rotation_ok db') (vd_rotations db')"
    using assms(1) ok unfolding assms(4) list_all_iff vault_inv_def by auto
  moreover have "distinct (map ro_org (filter ro_running (vd_rotations db')))"
    unfolding assms(4) by (rule running_filtered) (use assms(1,5,6) in \<open>simp_all add: vault_inv_def\<close>)
  moreover have "backup_ok db' = backup_ok db" using assms(2) by (intro ext) (simp add: backup_ok_def usable_key_def)
  ultimately show ?thesis using assms(1-3) ids by (simp add: vault_inv_def)
qed

lemma update_rotations_keeps:
  assumes "vault_inv db" "\<And>r. ro_id (f r) = ro_id r \<and> ro_org (f r) = ro_org r \<and> ro_from (f r) = ro_from r \<and> ro_to (f r) = ro_to r"
    "\<And>r. P r \<Longrightarrow> ro_running (f r) \<Longrightarrow> ro_running r"
  shows "vault_inv (update_rotations P f db)"
proof (rule rotation_change_keeps [OF assms(1)])
  show "vd_rotations (update_rotations P f db) = map (\<lambda>r. if P r then f r else r) (vd_rotations db)" by (simp add: update_rotations_def)
  show "ro_id (if P r then f r else r) = ro_id r \<and> ro_org (if P r then f r else r) = ro_org r
    \<and> ro_from (if P r then f r else r) = ro_from r \<and> ro_to (if P r then f r else r) = ro_to r" for r
    using assms(2) by simp
  show "ro_running (if P r then f r else r) \<Longrightarrow> ro_running r" for r using assms(3) by (cases "P r") simp_all
qed (simp_all add: update_rotations_def)

lemma started_running [simp]: "ro_running (started_rotation clk q)" "ro_org (started_rotation clk q) = sr_org q"
  "ro_id (started_rotation clk q) = sr_rotation q" "ro_to (started_rotation clk q) = dk_id (sr_to q)" "ro_from (started_rotation clk q) = sr_from q"
  by (simp_all add: started_rotation_def)

lemma start_keeps:
  assumes "vault_inv db" "dk_org (sr_to q) = sr_org q" "dk_retired (sr_to q) = None" "dk_destroyed (sr_to q) = None"
  shows "vault_inv (snd (start_batch clk q db))"
proof (rule start_effect [OF refl, of clk q db])
  let ?db' = "snd (start_batch clk q db)"
  fix d
  assume from_key: "\<exists>k\<in>set (vd_keys db). dk_id k = sr_from q \<and> dk_org k = sr_org q \<and> dk_retired k = None \<and> dk_destroyed k = None"
    and idle: "\<not> (\<exists>r\<in>set (vd_rotations db). ro_org r = sr_org q \<and> ro_running r)"
    and retired: "update_keys (\<lambda>k. dk_id k = sr_from q) (\<lambda>k. k\<lparr>dk_retired := Some clk\<rparr>) db = Some d"
    and inserted: "\<exists>d'. insert_data_key (sr_to q) d = Some d'" and fresh: "\<forall>s\<in>set (vd_rotations db). ro_id s \<noteq> sr_rotation q"
    and after: "vd_keys ?db' = vd_keys d @ [sr_to q]" "vd_rotations ?db' = vd_rotations db @ [started_rotation clk q]"
      "vd_backups ?db' = vd_backups db"
  define f :: "data_key \<Rightarrow> data_key" where "f = (\<lambda>k. if dk_id k = sr_from q then k\<lparr>dk_retired := Some clk\<rparr> else k)"
  have f: "dk_id (f k) = dk_id k" "dk_org (f k) = dk_org k" "dk_destroyed (f k) = dk_destroyed k"
    "dk_id k \<noteq> sr_from q \<Longrightarrow> f k = k" for k by (simp_all add: f_def)
  have keys: "vd_keys ?db' = map f (vd_keys db) @ [sr_to q]" and checked: "list_all data_key_check (map f (vd_keys db))"
    using retired assms(1) after(1) by (auto simp: update_keys_effect f_def list_all_iff vault_inv_def)
  have ids: "map dk_id (map f (vd_keys db)) = map dk_id (vd_keys db)" using f by simp
  have new: "data_key_check (sr_to q)" "dk_id (sr_to q) \<notin> set (map dk_id (vd_keys db))"
    using inserted retired ids unfolding insert_key_effect update_keys_effect by (auto simp: f_def)
  obtain k0 where k0: "k0 \<in> set (vd_keys db)" "dk_id k0 = sr_from q" "dk_org k0 = sr_org q" using from_key by blast
  have dist: "distinct (map dk_id (vd_keys db))" using assms(1) by (simp add: vault_inv_def)
  have old: "rotation_ok ?db' r" if r: "r \<in> set (vd_rotations db)" "rotation_ok db r" for r
  proof (cases "ro_running r")
    case True
    then obtain k where k: "k \<in> set (vd_keys db)" "dk_id k = ro_to r" "dk_org k = ro_org r" "dk_retired k = None" "dk_destroyed k = None"
      "ro_from r \<noteq> ro_to r"
      using r(2) by (auto simp: rotation_ok_def)
    have "ro_org r \<noteq> sr_org q" using True idle r(1) by blast
    then have "dk_id k \<noteq> sr_from q" using distinct_key_unique [OF dist k(1) k0(1)] k0 k(3) by auto
    then have "f k = k" by (rule f(4))
    then have "k \<in> set (vd_keys ?db')" using k(1) unfolding keys by force
    then show ?thesis using k by (auto simp: rotation_ok_def)
  qed (simp add: rotation_ok_def)
  have bk: "backup_ok ?db' b" if b: "backup_ok db b" for b
    unfolding backup_ok_def usable_key_def
  proof (intro allI impI)
    fix i assume "bk_data_key b = Some i"
    then obtain k where "k \<in> set (vd_keys db)" "dk_id k = i" "dk_org k = bk_org b" "dk_destroyed k = None"
      using b by (auto simp: backup_ok_def usable_key_def)
    then have "f k \<in> set (vd_keys ?db')" "dk_id (f k) = i \<and> dk_org (f k) = bk_org b \<and> dk_destroyed (f k) = None"
      using f keys by auto
    then show "\<exists>k\<in>set (vd_keys ?db'). dk_id k = i \<and> dk_org k = bk_org b \<and> dk_destroyed k = None" by blast
  qed
  have "sr_from q \<noteq> dk_id (sr_to q)" using new(2) k0 by (metis image_eqI list.set_map)
  then have started: "rotation_ok ?db' (started_rotation clk q)"
    using assms(2-4) unfolding rotation_ok_def keys by auto
  have "sr_org q \<notin> set (map ro_org (filter ro_running (vd_rotations db)))" using idle by auto
  moreover have "sr_rotation q \<notin> set (map ro_id (vd_rotations db))" using fresh by auto
  moreover have "list_all (rotation_ok ?db') (vd_rotations db)" "list_all (backup_ok ?db') (vd_backups db)"
    using assms(1) old bk by (auto simp: vault_inv_def intro: list_all_weaken)
  moreover have "distinct (map dk_id (vd_keys ?db'))" unfolding keys map_append ids using dist new by simp
  moreover have "list_all data_key_check (vd_keys ?db')" unfolding keys using new checked by simp
  ultimately show ?thesis using assms(1) started unfolding after(2,3) vault_inv_def by simp
qed (use assms(1) same_vault_inv in blast)

lemma finish_keeps:
  assumes "vault_inv db"
  shows "vault_inv (snd (finish_rotation_batch clk org rotation claim n a db))"
proof (rule finish_effect [OF refl, of clk org rotation claim n a db])
  let ?db' = "snd (finish_rotation_batch clk org rotation claim n a db)"
  fix r P f
  assume r: "r \<in> set (vd_rotations db)" "ro_id r = rotation" "ro_running r"
    and f: "\<And>s. ro_id (f s) = ro_id s \<and> ro_org (f s) = ro_org s \<and> ro_from (f s) = ro_from s \<and> ro_to (f s) = ro_to s"
    and rots: "vd_rotations ?db' = map (\<lambda>s. if ro_id s = rotation then f s else s) (vd_rotations db)"
    and baks: "vd_backups ?db' = vd_backups db" and P: "\<And>k. P k \<Longrightarrow> may_destroy r db k"
    and checked: "\<forall>k\<in>set (vd_keys db). P k \<longrightarrow> data_key_check (destroy_key clk k)"
    and keys: "vd_keys ?db' = map (\<lambda>k. if P k then destroy_key clk k else k) (vd_keys db)"
  note d = assms [unfolded vault_inv_def]
  define d1 where "d1 = db\<lparr>vd_rotations := vd_rotations ?db'\<rparr>"
  have only: "s = r" if s: "s \<in> set (vd_rotations db)" "ro_id s = rotation" for s
    using d r s by (metis distinct_key_unique)
  have "vault_inv d1"
  proof (rule rotation_change_keeps [OF assms])
    show "vd_rotations d1 = map (\<lambda>s. if ro_id s = rotation then f s else s) (vd_rotations db)" unfolding d1_def rots by simp
    fix s show "ro_id (if ro_id s = rotation then f s else s) = ro_id s \<and> ro_org (if ro_id s = rotation then f s else s) = ro_org s
      \<and> ro_from (if ro_id s = rotation then f s else s) = ro_from s \<and> ro_to (if ro_id s = rotation then f s else s) = ro_to s"
      using f [of s] by simp
    assume "s \<in> set (vd_rotations db)" "ro_running (if ro_id s = rotation then f s else s)"
    then show "ro_running s" using only [of s] r(3) by (cases "ro_id s = rotation") auto
  qed (simp_all add: d1_def)
  then have inv: "list_all (rotation_ok d1) (vd_rotations ?db')" "distinct (map ro_id (vd_rotations ?db'))"
    "distinct (map ro_org (filter ro_running (vd_rotations ?db')))" "list_all (backup_ok d1) (vd_backups db)"
    by (simp_all add: vault_inv_def d1_def)
  have kept: "k \<in> set (vd_keys ?db')" if "k \<in> set (vd_keys db)" "\<not> P k" for k using that unfolding keys by force
  have ok_r: "rotation_ok db r" using d r(1) by (simp add: list_all_iff)
  have rot: "rotation_ok ?db' s'" if s': "s' \<in> set (vd_rotations ?db')" "rotation_ok d1 s'" for s'
  proof (cases "ro_running s'")
    case True
    with s'(2) obtain k where k: "k \<in> set (vd_keys db)" "dk_id k = ro_to s'" "dk_org k = ro_org s'" "dk_retired k = None" "dk_destroyed k = None"
      "ro_from s' \<noteq> ro_to s'"
      by (auto simp: rotation_ok_def d1_def)
    obtain s where s: "s \<in> set (vd_rotations db)" "s' = (if ro_id s = rotation then f s else s)" using s'(1) unfolding rots by auto
    have same: "ro_org s' = ro_org s" "ro_to s' = ro_to s" using s(2) f by auto
    have "ro_running s" using True s only [OF s(1)] r(3) by (cases "ro_id s = rotation") auto
    have "\<not> P k"
    proof
      assume "P k"
      then have m: "dk_org k = ro_org r" "dk_id k = ro_from r" using P by (simp_all add: may_destroy_def)
      have "s = r"
        by (rule distinct_key_unique [of ro_org "filter ro_running (vd_rotations db)"])
          (use d s(1) r m(1) k(3) same(1) \<open>ro_running s\<close> in simp_all)
      then show False using ok_r r(3) m(2) k(2) same(2) by (simp add: rotation_ok_def)
    qed
    with k kept have "k \<in> set (vd_keys ?db')" by blast
    with k show ?thesis by (auto simp: rotation_ok_def)
  qed (simp add: rotation_ok_def)
  have bak: "backup_ok ?db' b" if b: "b \<in> set (vd_backups db)" "backup_ok d1 b" for b
    unfolding backup_ok_def usable_key_def
  proof (intro allI impI)
    fix i assume i: "bk_data_key b = Some i"
    then obtain k where k: "k \<in> set (vd_keys db)" "dk_id k = i" "dk_org k = bk_org b" "dk_destroyed k = None"
      using b(2) by (auto simp: backup_ok_def usable_key_def d1_def)
    have "\<not> P k" using P [of k] b(1) i k(2,3) by (auto simp: may_destroy_def)
    with k kept show "\<exists>k\<in>set (vd_keys ?db'). dk_id k = i \<and> dk_org k = bk_org b \<and> dk_destroyed k = None" by blast
  qed
  have ids: "map dk_id (vd_keys ?db') = map dk_id (vd_keys db)" unfolding keys by (simp add: destroy_key_def)
  have "list_all data_key_check (vd_keys ?db')" using d checked unfolding keys by (auto simp: list_all_iff)
  moreover have "list_all (rotation_ok ?db') (vd_rotations ?db')" "list_all (backup_ok ?db') (vd_backups ?db')"
    unfolding baks using inv(1,4) rot bak by (auto intro: list_all_weaken)
  ultimately show ?thesis using d inv(2,3) ids by (simp add: vault_inv_def)
qed (use assms same_vault_inv in blast)

lemma backups_change_keeps:
  assumes "vault_inv db" "vd_keys db' = vd_keys db" "vd_rotations db' = vd_rotations db" "list_all (backup_ok db) (vd_backups db')"
  shows "vault_inv db'"
proof -
  have "rotation_ok db' = rotation_ok db" "backup_ok db' = backup_ok db"
    using assms(2) by (intro ext, simp add: rotation_ok_def backup_ok_def usable_key_def)+
  with assms show ?thesis by (simp add: vault_inv_def)
qed

text \<open>The trigger lets a backup move only to the target of the running rotation, which is a usable key.\<close>

lemma reencrypt_keeps:
  assumes "vault_inv db"
  shows "vault_inv (snd (reencrypt_batch clk dg q db))"
proof (rule reencrypt_effect [OF refl, of clk dg q db])
  let ?db' = "snd (reencrypt_batch clk dg q db)"
  fix version mf
  let ?f = "reencrypted clk q version mf"
  assume same: "vd_keys ?db' = vd_keys db" "vd_rotations ?db' = vd_rotations db"
    and allowed: "\<forall>b\<in>set (vd_backups db). bk_id b = bk_id (xr_backup q) \<longrightarrow> reencryption_allowed clk b (?f b) db"
    and baks: "vd_backups ?db' = map (\<lambda>b. if bk_id b = bk_id (xr_backup q) then ?f b else b) (vd_backups db)"
  note d = assms [unfolded vault_inv_def]
  have moved: "backup_ok db (?f b)" if "b \<in> set (vd_backups db)" "bk_id b = bk_id (xr_backup q)" for b
  proof -
    from allowed that obtain r where r: "r \<in> set (vd_rotations db)" "bk_data_key (?f b) = Some (ro_to r)" "ro_org r = bk_org (?f b)" "ro_running r"
      unfolding reencryption_allowed_def by blast
    have "rotation_ok db r" using d r(1) by (simp add: list_all_iff)
    then have "usable_key (bk_org (?f b)) (ro_to r) db" using r(3,4) by (auto simp: rotation_ok_def usable_key_def)
    then show ?thesis using r(2) by (simp add: backup_ok_def)
  qed
  have "list_all (backup_ok db) (vd_backups ?db')"
    using d moved unfolding baks by (auto simp: list_all_iff)
  with same show ?thesis by (rule_tac backups_change_keeps [OF assms])
qed (use assms same_vault_inv in blast)

lemma store_keeps:
  assumes "vault_inv db"
  shows "vault_inv (snd (insert_workspace_backup dg q db))"
proof (rule store_effect [OF refl, of dg q db])
  let ?db' = "snd (insert_workspace_backup dg q db)"
  fix mf
  assume same: "vd_keys ?db' = vd_keys db" "vd_rotations ?db' = vd_rotations db"
    and live: "key_active (bq_org q) (bq_data_key q) db" and baks: "vd_backups ?db' = vd_backups db @ [backup_row_of q mf]"
  have "backup_ok db (backup_row_of q mf)" using live by (auto simp: backup_ok_def usable_key_def key_active_def backup_row_of_def)
  then have "list_all (backup_ok db) (vd_backups ?db')" using assms unfolding baks vault_inv_def by simp
  with same show ?thesis by (rule_tac backups_change_keeps [OF assms])
qed (use assms same_vault_inv in blast)

lemma tombstone_keeps:
  assumes "vault_inv db"
  shows "vault_inv (snd (tombstone_workspace_backup clk days org backup a db))"
proof -
  note e = tombstone_effect [OF refl, of clk days org backup a db]
  let ?db' = "snd (tombstone_workspace_backup clk days org backup a db)"
  have "backup_ok db b" if b: "b \<in> set (vd_backups ?db')" for b
  proof -
    obtain c where "c \<in> set (vd_backups db)" "bk_org c = bk_org b" "bk_data_key c = bk_data_key b" using e b by blast
    moreover have "backup_ok db c" using assms \<open>c \<in> _\<close> by (simp add: vault_inv_def list_all_iff)
    ultimately show ?thesis by (simp add: backup_ok_def)
  qed
  then show ?thesis using e by (intro backups_change_keeps [OF assms]) (simp_all add: list_all_iff)
qed

section \<open>Runs\<close>

text \<open>
  The batches as events. The retention clean-up (\<open>WorkspaceLifecycle\<close> models which rows it takes) removes backups with their chunks, or
  every row of a workspace; other writers leave keys, rotations and backups alone.
\<close>

datatype key_event =
    EnsureKey kms_session string string string nat "string \<times> string"
  | StartRotation int kms_session string mutation_actor string data_key string string string nat "string \<times> string"
  | ClaimRotation int string mutation_actor string
  | ReleaseClaim string string string
  | Reencrypt int "string \<Rightarrow> string" reencrypt_request
  | FinishRotation int string string string nat mutation_actor
  | StoreBackup "string \<Rightarrow> string" backup_request
  | DeleteBackup int int string string mutation_actor
  | PurgeBackups "string list"
  | PurgeWorkspace string
  | OtherRows versions_db

fun key_step :: "versions_db \<Rightarrow> key_event \<Rightarrow> versions_db" where
  "key_step db (EnsureKey s org user i version wrapped) = snd (ensure_batch (new_data_key s org user i version wrapped) db)"
| "key_step db (StartRotation clk s org a key active i rotation claim version wrapped) =
     snd (start_batch clk (rotation_request s org a key active i rotation claim version wrapped) db)"
| "key_step db (ClaimRotation clk org a claim) = snd (claim_running_rotation clk org a claim db)"
| "key_step db (ReleaseClaim org rotation claim) = release_rotation_claim org rotation claim db"
| "key_step db (Reencrypt clk dg q) = snd (reencrypt_batch clk dg q db)"
| "key_step db (FinishRotation clk org rotation claim n a) = snd (finish_rotation_batch clk org rotation claim n a db)"
| "key_step db (StoreBackup dg q) = snd (insert_workspace_backup dg q db)"
| "key_step db (DeleteBackup clk days org backup a) = snd (tombstone_workspace_backup clk days org backup a db)"
| "key_step db (PurgeBackups due) =
     db\<lparr>vd_backups := filter (\<lambda>b. bk_id b \<notin> set due) (vd_backups db), vd_chunks := filter (\<lambda>c. ck_backup c \<notin> set due) (vd_chunks db)\<rparr>"
| "key_step db (PurgeWorkspace org) =
     db\<lparr>vd_backups := filter (\<lambda>b. bk_org b \<noteq> org) (vd_backups db), vd_chunks := filter (\<lambda>c. ck_org c \<noteq> org) (vd_chunks db),
        vd_rotations := filter (\<lambda>r. ro_org r \<noteq> org) (vd_rotations db), vd_keys := filter (\<lambda>k. dk_org k \<noteq> org) (vd_keys db)\<rparr>"
| "key_step db (OtherRows db') = (if same_vault db db' then db' else db)"

lemma purge_keeps:
  assumes "vault_inv db"
  shows "vault_inv (key_step db (PurgeWorkspace org))"
proof -
  let ?db' = "key_step db (PurgeWorkspace org)"
  note d = assms [unfolded vault_inv_def]
  have "rotation_ok ?db' r" if "rotation_ok db r" "ro_org r \<noteq> org" for r
    using that by (fastforce simp: rotation_ok_def)
  moreover have "backup_ok ?db' b" if "backup_ok db b" "bk_org b \<noteq> org" for b
    using that by (fastforce simp: backup_ok_def usable_key_def)
  ultimately have "list_all (rotation_ok ?db') (vd_rotations ?db')" "list_all (backup_ok ?db') (vd_backups ?db')"
    using d by (simp_all add: list_all_iff)
  moreover have "distinct (map ro_org (filter ro_running (vd_rotations ?db')))"
  proof -
    have "filter ro_running (vd_rotations ?db') = filter (\<lambda>r. ro_org r \<noteq> org) (filter ro_running (vd_rotations db))"
      by (simp add: conj_commute)
    then show ?thesis using d by (simp only: distinct_map_filter)
  qed
  moreover have "distinct (map dk_id (vd_keys ?db'))" "distinct (map ro_id (vd_rotations ?db'))"
    using d by (simp_all add: distinct_map_filter)
  moreover have "list_all data_key_check (vd_keys ?db')" using d by (simp add: list_all_iff)
  ultimately show ?thesis unfolding vault_inv_def by blast
qed

lemma key_step_keeps: "vault_inv db \<Longrightarrow> vault_inv (key_step db e)"
proof (cases e)
  case (StartRotation clk s org a key active i rotation claim version wrapped)
  assume "vault_inv db"
  then show ?thesis unfolding StartRotation key_step.simps by (rule start_keeps) (simp_all add: rotation_request_def new_data_key_def)
next
  case (ClaimRotation clk org a claim)
  assume "vault_inv db"
  then show ?thesis unfolding ClaimRotation key_step.simps claim_running_rotation_def Let_def snd_conv
    by (rule update_rotations_keeps) (simp_all add: claimable_def)
next
  case (ReleaseClaim org rotation claim)
  assume "vault_inv db"
  then show ?thesis unfolding ReleaseClaim key_step.simps release_rotation_claim_def by (rule update_rotations_keeps) simp_all
next
  case (PurgeBackups due)
  assume inv: "vault_inv db"
  then show ?thesis unfolding PurgeBackups
    by (intro backups_change_keeps [OF inv]) (simp_all add: vault_inv_def list_all_iff)
next
  case (OtherRows db')
  assume "vault_inv db"
  then show ?thesis unfolding OtherRows using same_vault_inv by simp
qed (simp_all add: ensure_keeps finish_keeps reencrypt_keeps store_keeps tombstone_keeps purge_keeps del: key_step.simps(10))

interpretation vaults: invariant_machine key_step vault_inv
  by unfold_locales (rule key_step_keeps)

lemma empty_vault_inv: "vd_keys db = [] \<Longrightarrow> vd_rotations db = [] \<Longrightarrow> vd_backups db = [] \<Longrightarrow> vault_inv db"
  by (simp add: vault_inv_def)

text \<open>
  C40. However the batches that create keys, start, claim, release and finish rotations, move backups between keys, and store,
  delete and purge backups interleave, no backup is left without its key: every stored backup that names a data key finds a row of
  its own workspace with that identifier that still holds its wrapped key, and a workspace has at most one running rotation, whose
  target is a live key other than its source. So finishing a rotation destroys a key only when nothing needs it.
\<close>

theorem backup_keys_survive:
  assumes "vault_inv db" "db' = foldl key_step db es"
  shows "(\<forall>b\<in>set (vd_backups db'). \<forall>i. bk_data_key b = Some i \<longrightarrow>
       (\<exists>k\<in>set (vd_keys db'). dk_id k = i \<and> dk_org k = bk_org b \<and> dk_destroyed k = None \<and> dk_wrapped k \<noteq> None))
    \<and> distinct (map ro_org (filter ro_running (vd_rotations db')))
    \<and> (\<forall>r\<in>set (vd_rotations db'). ro_running r \<longrightarrow> ro_from r \<noteq> ro_to r
        \<and> (\<exists>k\<in>set (vd_keys db'). dk_id k = ro_to r \<and> dk_org k = ro_org r \<and> dk_retired k = None \<and> dk_destroyed k = None))"
proof -
  have inv: "vault_inv db'" unfolding assms(2) by (rule vaults.run_inv [OF assms(1)])
  have wrapped: "dk_wrapped k \<noteq> None" if "k \<in> set (vd_keys db')" "dk_destroyed k = None" for k
    using inv that by (auto simp: vault_inv_def list_all_iff data_key_check_def split: option.splits)
  have "\<exists>k\<in>set (vd_keys db'). dk_id k = i \<and> dk_org k = bk_org b \<and> dk_destroyed k = None \<and> dk_wrapped k \<noteq> None"
    if "b \<in> set (vd_backups db')" "bk_data_key b = Some i" for b i
    using inv that wrapped by (fastforce simp: vault_inv_def list_all_iff backup_ok_def usable_key_def)
  moreover have "rotation_ok db' r" if "r \<in> set (vd_rotations db')" for r using inv that by (simp add: vault_inv_def list_all_iff)
  ultimately show ?thesis using inv unfolding vault_inv_def rotation_ok_def by blast
qed

text \<open>A vault in the middle of a rotation, with one backup still under the old key.\<close>

definition sample_key :: "string \<Rightarrow> nat \<Rightarrow> int option \<Rightarrow> data_key" where
  "sample_key i version retired = \<lparr>dk_id = i, dk_org = ''w'', dk_version = version, dk_reference = kc_key_name sample_kms,
     dk_kms_version = kc_key_name sample_kms @ ''/cryptoKeyVersions/1'', dk_wrapped = Some ''AA=='', dk_user = ''u'',
     dk_retired = retired, dk_destroyed = None\<rparr>"

definition rotating_vault :: versions_db where
  "rotating_vault = sample_vault\<lparr>vd_keys := [sample_key ''k1'' 1 (Some 5), sample_key ''k2'' 2 None],
     vd_rotations := [\<lparr>ro_id = ''r'', ro_org = ''w'', ro_from = ''k1'', ro_to = ''k2'', ro_key = ''i'', ro_running = True, ro_processed = 0,
       ro_claim = Some (''c'', 90), ro_user = ''u'', ro_created = 5, ro_completed = None\<rparr>],
     vd_backups := [(backup_row_of sample_backup_request ''v1.n.c.t'')\<lparr>bk_data_key := Some ''k1''\<rparr>]\<rparr>"

lemma sample_key_checked: "1 \<le> version \<Longrightarrow> version \<le> 2147483647 \<Longrightarrow> data_key_check (sample_key i version retired)"
proof -
  have "crypto_key_version (kc_key_name sample_kms @ ''/cryptoKeyVersions/1'')" "base64_shape ''AA==''" by code_simp+
  moreover assume "1 \<le> version" "version \<le> 2147483647"
  ultimately show ?thesis by (simp add: data_key_check_def sample_key_def sample_kms_def)
qed

lemma rotating_vault_inv: "vault_inv rotating_vault"
  by (simp add: vault_inv_def rotating_vault_def sample_key_checked rotation_ok_def backup_ok_def usable_key_def)
    (simp add: sample_key_def backup_row_of_def sample_backup_request_def)

theorem backup_keys_survive_witness:
  "\<exists>k\<in>set (vd_keys (foldl key_step rotating_vault [FinishRotation 50 ''w'' ''r'' ''c'' 0 sample_actor])).
     dk_id k = ''k1'' \<and> dk_wrapped k \<noteq> None"
proof -
  let ?db' = "foldl key_step rotating_vault [FinishRotation 50 ''w'' ''r'' ''c'' 0 sample_actor]"
  have "vd_backups ?db' = vd_backups rotating_vault"
    by (rule finish_effect [OF refl, of 50 "''w''" "''r''" "''c''" 0 sample_actor rotating_vault]) simp_all
  then have "(backup_row_of sample_backup_request ''v1.n.c.t'')\<lparr>bk_data_key := Some ''k1''\<rparr> \<in> set (vd_backups ?db')"
    by (simp add: rotating_vault_def)
  with backup_keys_survive [OF rotating_vault_inv refl, of "[FinishRotation 50 ''w'' ''r'' ''c'' 0 sample_actor]"]
  show ?thesis by fastforce
qed

end
