(* ===== verification/Spec2Isabelle.thy ===== *)
theory Spec2Isabelle
  imports Prelude Authorization DirectAccess LeaseCleanup SqlBuild ResultExport SqlParameters Scheduler ResultCache
    ConnectionPolicy Workbench SchemaDiff SchemaGroups Updater WorkspaceLifecycle OperationRuns ManagedAccess
    SharedConnections VersionHistory KmsCodec Envelopes KeySafety
begin

text \<open>
  A model of the decision logic of dopedb, a database client with a hosted control plane.

  The program has two halves. The control plane (\<open>workspace-cloud\<close>, \<open>workspace-scheduler-cloudflare\<close>) decides who may
  reach a shared connection, issues credential leases, and takes them back. The desktop client (\<open>src\<close>) turns
  grid state and query documents into SQL, keeps result pages, and manages connections and documents. Routes, screens
  and database drivers call the functions modelled here and hold no decision of their own that is modelled.

  Control plane:
  \<^item> \<open>Permissions\<close>, \<open>Authorization\<close>: roles, grants and the authorization queries of \<open>workspace-permissions.ts\<close> and
    \<open>workspace-authorization.ts\<close>. Tables are row lists, joins are \<open>left_join\<close> and filters. C1: the access rule is the
    meet of grant and role, the checks fail closed, a scheduled deletion suspends every ordinary gate.
  \<^item> \<open>DirectAccess\<close>: the pure rules of \<open>workspace-direct-access-core.ts\<close>. C2: verifier shapes, generated
    identities, the principal state machine, desired levels, scopes.
  \<^item> \<open>RevocationGate\<close>: claims on members, connections and integrations (\<open>revocation-gates.ts\<close>). C3 and C4.
  \<^item> \<open>ManagedLease\<close>, \<open>LeaseCleanup\<close>: lease issuance checks and the clean-up worker. C5 to C8: exact reservation
    outcome, delivery under live authority, limits over every interleaving, fences, earned revocation, fair batches.
  \<^item> \<open>Scheduler\<close>: the background scheduler worker. C14 and C15: wake-ups are kept, leases are fenced, kicks are guarded.
  \<^item> \<open>AtomicBatch\<close>: the scope and statements of one database batch (\<open>d1/atomic.ts\<close>); a failed batch changes nothing.
  \<^item> \<open>WorkspaceLifecycle\<close>: scheduling, cancelling and the retention clean-up (\<open>workspace-lifecycle.ts\<close>,
    \<open>workspace-retention-purge.ts\<close>). C22: a workspace leaves the database only after its retention
    period and without a trace, cancelling restores it, the status predicts the scheduling.
  \<^item> \<open>OperationRecords\<close>, \<open>ProviderOperations\<close>, \<open>ManagedAccess\<close>: durable mutations of a Neon project, from plan to result
    (\<open>provider-operation-*.ts\<close>). \<open>OperationSteps\<close> proves every batch a step of the abstract machine \<open>advances\<close>, \<open>OperationRuns\<close>
    lifts it to runs. C23 to C26, C29: refinement, one provider call per operation, live approval by a second administrator for
    production data, progress of an approved operation, and an end of every lifecycle.
  \<^item> \<open>SharedConnections\<close>: templates of shared connections, direct endpoints and environment labels (\<open>workspace-connections.ts\<close>,
    \<open>knowledge/environment-kind.ts\<close>). C27 and C28: accepted input is well formed, stored versions read back.
  \<^item> \<open>WorkspaceTables\<close>, \<open>ConnectionVersions\<close>: the rows and constraints of \<open>d1/schema\<close> and the batches of
    \<open>workspace-versioning-store.ts\<close>: creation, change and deletion of shared connections, conflicts and their decisions.
    \<open>VersionHistory\<close> runs them in any order. C30 to C33: histories only grow, one linked version per revision; a revision is
    replaced once, a conflict decided once; a deleted connection leaves no access behind.
  \<^item> \<open>BackupSnapshots\<close>: encrypted backups of the connections of a workspace, their storage in chunks, tombstones and restores
    (\<open>workspace-backup-core.ts\<close>, \<open>workspace-backup-store.ts\<close>, \<open>d1/backup-chunks.ts\<close>, \<open>workspace-snapshot-restore.ts\<close>). The cipher is an
    argument. \<open>BackupRoundTrip\<close> has C34 and C35: what is stored reads back, and which snapshots open again.
  \<^item> \<open>Base64\<close>, \<open>KmsCodec\<close>, \<open>Envelopes\<close>: the boundary to the key service (\<open>workspace-kms.ts\<close>, \<open>workspace-kms-core.ts\<close>) and the
    envelopes of provider credentials (\<open>secret-envelope.ts\<close>, \<open>provider-credential-envelope.ts\<close>). The service, AES-GCM and the digest
    are arguments. C36 to C39: the checksum is CRC-32C and catches damage, keys unwrap, secrets open only where they belong.
  \<^item> \<open>KeyRotation\<close>: data keys of a workspace and their rotation (\<open>workspace-data-key.ts\<close>, \<open>workspace-data-key-rotation.ts\<close>,
    \<open>workspace-backup.ts\<close>). \<open>KeySafety\<close> runs the batches in any order. C40: no backup outlives its key.

  Desktop client:
  \<^item> \<open>Regex\<close>: JavaScript regular expressions as data, with a matcher proved equal to a declarative match relation.
  \<^item> \<open>SqlText\<close>, \<open>SqlBuild\<close>, \<open>ResultExport\<close>: quoting, the guard on free fragments, queries and writes of the data
    grid, CSV and JSON export (\<open>src/lib/sqlBuild.ts\<close>, \<open>tableRef.ts\<close>, \<open>gridValueFilter.ts\<close>). C9 to C12. Reader functions
    for the quoting styles say what a database reads back.
  \<^item> \<open>SqlParameters\<close>: the parameter scanner and materialization. C13.
  \<^item> \<open>ResultCache\<close>: result page retention, eviction, backoff (\<open>resultPageCache.ts\<close>). C16.
  \<^item> \<open>ConnectionPolicy\<close>: connection rules, write gates and write-block recovery. C17.
  \<^item> \<open>Workbench\<close>: the document reducer and the member-local open tabs. C18 and C19.
  \<^item> \<open>Utf16\<close>, \<open>SchemaDiff\<close>, \<open>SchemaGroups\<close>: comparison of two schemas and the sections of the connection list
    (\<open>src/lib/schemaDiff.ts\<close>, \<open>environmentKind.ts\<close>) on UTF-16 code units. C20.
  \<^item> \<open>Updater\<close>: the application updater (\<open>src/features/updater/controller.ts\<close>) as steps between awaits. C21:
    every update resource is closed exactly once.

  Shared: \<open>Prelude\<close> has the JavaScript string primitives, insertion-ordered maps, stable sorting (the locale
  \<open>js_comparator\<close>) and the locale \<open>invariant_machine\<close>, which every stateful component interprets with its own step
  function and invariant; properties over runs rest on its \<open>run_inv\<close>.

  Loops over an index are functions with a measure, so no fuel is used anywhere. Strings are lists of code units
  below 256. Clocks, fresh identifiers, hashes, JSON parsing, provider calls and fetches are arguments.

  Not modelled: React components and hooks, the Rust core and command line tool, the marketing site, translation
  catalogs, D1 migrations, HTTP adapters of the providers, build scripts.
\<close>

end
